(* ===== verification/Prelude.thy ===== *)
theory Prelude
  imports
    Main
    "HOL-Library.Word"
    "HOL-Library.Char_ord"
    "HOL-Library.List_Lexorder"
    "HOL-Library.Product_Lexorder"
begin

text \<open>
  Shared ground of the development: the integer widths of the Rust code, its \<open>?\<close> operator
  over explicit state, the decimal text of integers, and facts on lists read as database
  tables (look up the first row, rewrite the matching rows).

  A Rust \<open>u32\<close>/\<open>u64\<close> is a word; an \<open>i64\<close> is an \<open>int\<close> with its saturation and its range
  written out, because it is only compared, saturated and stored. A \<open>String\<close> is its list
  of bytes, ordered byte by byte as Rust's \<open>Ord for str\<close> and SQLite's default collation do.
\<close>

named_theorems triple_intro \<open>rules that step a triple through a composed operation\<close>
named_theorems table_simps \<open>reading and rewriting rows of a table\<close>

section \<open>Machine integers\<close>

type_synonym u32 = "32 word"
type_synonym u64 = "64 word"
type_synonym i64 = int

definition i64_max :: int where "i64_max = 2 ^ 63 - 1"
definition i64_min :: int where "i64_min = - (2 ^ 63)"

definition in_i64 :: "int \<Rightarrow> bool" where
  "in_i64 x \<longleftrightarrow> i64_min \<le> x \<and> x \<le> i64_max"

text \<open>The result of \<open>i64::saturating_add\<close> and \<open>saturating_mul\<close>: the exact value, clamped.\<close>

definition sat_i64 :: "int \<Rightarrow> i64" where
  "sat_i64 x = max i64_min (min i64_max x)"

definition saturating_add_u32 :: "u32 \<Rightarrow> u32 \<Rightarrow> u32" where
  "saturating_add_u32 a b = (if unat a + unat b < 2 ^ 32 then a + b else 0xFFFFFFFF)"

lemma in_i64_sat: "in_i64 (sat_i64 x)"
  by (simp add: in_i64_def sat_i64_def i64_min_def i64_max_def)

lemma sat_i64_id: "in_i64 x \<Longrightarrow> sat_i64 x = x"
  by (simp add: in_i64_def sat_i64_def)

lemma sat_i64_mono: "x \<le> y \<Longrightarrow> sat_i64 x \<le> sat_i64 y"
  by (auto simp: sat_i64_def)

lemma unat_saturating_add_u32:
  "unat (saturating_add_u32 a b) = min (2 ^ 32 - 1) (unat a + unat b)"
proof (cases "unat a + unat b < 2 ^ 32")
  case True
  then have "unat (a + b) = unat a + unat b"
    by (intro unat_add_lem [THEN iffD1]) simp
  with True show ?thesis by (simp add: saturating_add_u32_def)
next
  case False
  with False show ?thesis by (simp add: saturating_add_u32_def)
qed

section \<open>Decimal text of integers\<close>

fun nat_text :: "nat \<Rightarrow> string" where
  "nat_text n = (if n < 10 then [char_of (48 + n)] else nat_text (n div 10) @ [char_of (48 + n mod 10)])"

declare nat_text.simps [simp del]

definition int_text :: "int \<Rightarrow> string" where
  "int_text x = (if x < 0 then CHR ''-'' # nat_text (nat (- x)) else nat_text (nat x))"

text \<open>
  \<open>{value:?}\<close> of a string: quoted, with the escapes Rust writes for ASCII text. (Which bytes beyond
  ASCII belong to printable characters is a Unicode table; they are kept as they are.)
\<close>

definition hex_digit :: "nat \<Rightarrow> char" where
  "hex_digit n = char_of (if n < 10 then 48 + n else 87 + n)"

definition escape_debug :: "char \<Rightarrow> string" where
  "escape_debug c =
     (let n = (of_char c :: nat) in
      if n = 0 then [CHR 0x5C, CHR ''0'']
      else if n = 9 then [CHR 0x5C, CHR ''t'']
      else if n = 10 then [CHR 0x5C, CHR ''n'']
      else if n = 13 then [CHR 0x5C, CHR ''r'']
      else if n = 34 \<or> n = 92 then [CHR 0x5C, c]
      else if n < 16 then [CHR 0x5C] @ ''u{'' @ [hex_digit n] @ ''}''
      else if n < 32 \<or> n = 127 then [CHR 0x5C] @ ''u{'' @ [hex_digit (n div 16), hex_digit (n mod 16)] @ ''}''
      else [c])"

definition debug_text :: "string \<Rightarrow> string" where
  "debug_text value = [CHR 0x22] @ concat (map escape_debug value) @ [CHR 0x22]"

section \<open>Results and the question mark operator\<close>

text \<open>
  A \<open>Result<T, E>\<close> is \<open>'e + 'a\<close>. An operation with effects takes the state and returns its
  result with the new state; \<open>and_then m f\<close> is the code's \<open>let x = m?; f(x)\<close>: an error ends
  the operation in the state it was raised in.
\<close>

type_synonym ('s, 'e, 'a) oper = "'s \<Rightarrow> ('e + 'a) \<times> 's"

definition and_then :: "('s, 'e, 'a) oper \<Rightarrow> ('a \<Rightarrow> ('s, 'e, 'b) oper) \<Rightarrow> ('s, 'e, 'b) oper" where
  "and_then m f s = (case m s of (Inl e, s') \<Rightarrow> (Inl e, s') | (Inr x, s') \<Rightarrow> f x s')"

definition ok :: "'a \<Rightarrow> ('s, 'e, 'a) oper" where
  "ok x s = (Inr x, s)"

definition fail_with :: "'e \<Rightarrow> ('s, 'e, 'a) oper" where
  "fail_with e s = (Inl e, s)"

definition lift_result :: "'e + 'a \<Rightarrow> ('s, 'e, 'a) oper" where
  "lift_result r s = (r, s)"

definition bind_result :: "'e + 'a \<Rightarrow> ('a \<Rightarrow> 'e + 'b) \<Rightarrow> 'e + 'b" where
  "bind_result r f = (case r of Inl e \<Rightarrow> Inl e | Inr x \<Rightarrow> f x)"

definition map_err :: "('d \<Rightarrow> 'e) \<Rightarrow> 'd + 'a \<Rightarrow> 'e + 'a" where
  "map_err f r = (case r of Inl e \<Rightarrow> Inl (f e) | Inr x \<Rightarrow> Inr x)"

definition ok_or :: "'e \<Rightarrow> 'a option \<Rightarrow> 'e + 'a" where
  "ok_or e v = (case v of None \<Rightarrow> Inl e | Some x \<Rightarrow> Inr x)"

text \<open>\<open>Option<Result>::transpose\<close> after \<open>Option::map\<close>.\<close>

definition traverse_option :: "('a \<Rightarrow> 'e + 'b) \<Rightarrow> 'a option \<Rightarrow> 'e + 'b option" where
  "traverse_option f v = (case v of None \<Rightarrow> Inr None
     | Some x \<Rightarrow> (case f x of Inl e \<Rightarrow> Inl e | Inr y \<Rightarrow> Inr (Some y)))"

text \<open>\<open>iter().map(f).collect::<Result<Vec<_>, _>>()\<close>: the first error wins.\<close>

fun traverse_list :: "('a \<Rightarrow> 'e + 'b) \<Rightarrow> 'a list \<Rightarrow> 'e + 'b list" where
  "traverse_list f [] = Inr []"
| "traverse_list f (x # xs) = bind_result (f x) (\<lambda>y. bind_result (traverse_list f xs) (\<lambda>ys. Inr (y # ys)))"

lemma oper_simps [simp]:
  "ok x s = (Inr x, s)"
  "fail_with e s = (Inl e, s)"
  "lift_result r s = (r, s)"
  by (simp_all add: ok_def fail_with_def lift_result_def)

lemma and_then_step [simp]:
  "m s = (Inr x, s') \<Longrightarrow> and_then m f s = f x s'"
  "m s = (Inl e, s') \<Longrightarrow> and_then m f s = (Inl e, s')"
  by (simp_all add: and_then_def)

lemma bind_result_simps [simp]:
  "bind_result (Inl e) f = Inl e"
  "bind_result (Inr x) f = f x"
  by (simp_all add: bind_result_def)

lemma map_err_simps [simp]:
  "map_err f (Inl e) = Inl (f e)"
  "map_err f (Inr x) = Inr x"
  by (simp_all add: map_err_def)

lemma ok_or_simps [simp]:
  "ok_or e None = Inl e"
  "ok_or e (Some x) = Inr x"
  by (simp_all add: ok_or_def)

lemma traverse_option_simps [simp]:
  "traverse_option f None = Inr None"
  "f x = Inr y \<Longrightarrow> traverse_option f (Some x) = Inr (Some y)"
  by (simp_all add: traverse_option_def)

lemma bind_result_Inr_iff: "bind_result r f = Inr y \<longleftrightarrow> (\<exists>x. r = Inr x \<and> f x = Inr y)"
  by (cases r) auto

lemma map_err_Inr_iff: "map_err f r = Inr x \<longleftrightarrow> r = Inr x"
  by (cases r) auto

lemma traverse_list_map:
  "(\<And>x. x \<in> set xs \<Longrightarrow> f x = Inr (g x)) \<Longrightarrow> traverse_list f xs = Inr (map g xs)"
  by (induction xs) auto

lemma traverse_list_Inr_iff:
  "traverse_list f xs = Inr ys \<longleftrightarrow> list_all2 (\<lambda>x y. f x = Inr y) xs ys"
  by (induction xs arbitrary: ys) (auto simp: bind_result_Inr_iff list_all2_Cons1)

section \<open>Triples\<close>

text \<open>
  \<open>triple P m Q R\<close>: from a state with \<open>P\<close>, a success \<open>x\<close> of \<open>m\<close> leaves a state with \<open>Q x\<close>
  and an error leaves one with \<open>R\<close>.
\<close>

definition triple :: "('s \<Rightarrow> bool) \<Rightarrow> ('s, 'e, 'a) oper \<Rightarrow> ('a \<Rightarrow> 's \<Rightarrow> bool) \<Rightarrow> ('s \<Rightarrow> bool) \<Rightarrow> bool" where
  "triple P m Q R \<longleftrightarrow>
     (\<forall>s. P s \<longrightarrow> (case m s of (Inl e, s') \<Rightarrow> R s' | (Inr x, s') \<Rightarrow> Q x s'))"

lemma triple_and_then [triple_intro]:
  assumes "triple P m Q R" and "\<And>x. triple (Q x) (f x) S R"
  shows "triple P (and_then m f) S R"
  using assms by (fastforce simp: triple_def and_then_def split: prod.splits sum.splits)

lemma triple_ok [triple_intro]: "(\<And>s. P s \<Longrightarrow> Q x s) \<Longrightarrow> triple P (ok x) Q R"
  by (simp add: triple_def ok_def)

lemma triple_fail [triple_intro]: "(\<And>s. P s \<Longrightarrow> R s) \<Longrightarrow> triple P (fail_with e) Q R"
  by (simp add: triple_def fail_with_def)

lemma triple_lift: "(\<And>s. P s \<Longrightarrow> R s) \<Longrightarrow> triple P (lift_result r) (\<lambda>x s. r = Inr x \<and> P s) R"
  by (cases r) (simp_all add: triple_def)

lemma triple_pure:
  assumes "A \<Longrightarrow> triple P m Q R"
  shows "triple (\<lambda>s. A \<and> P s) m Q R"
  using assms by (cases A) (simp_all add: triple_def)

lemma triple_if [triple_intro]:
  assumes "b \<Longrightarrow> triple P m Q R" and "\<not> b \<Longrightarrow> triple P n Q R"
  shows "triple P (if b then m else n) Q R"
  using assms by simp

lemma triple_case_sum [triple_intro]:
  assumes "\<And>e. v = Inl e \<Longrightarrow> triple P (f e) Q R" and "\<And>x. v = Inr x \<Longrightarrow> triple P (g x) Q R"
  shows "triple P (case v of Inl e \<Rightarrow> f e | Inr x \<Rightarrow> g x) Q R"
  using assms by (cases v) simp_all

lemma triple_case_option [triple_intro]:
  assumes "v = None \<Longrightarrow> triple P m Q R" and "\<And>x. v = Some x \<Longrightarrow> triple P (f x) Q R"
  shows "triple P (case v of None \<Rightarrow> m | Some x \<Rightarrow> f x) Q R"
  using assms by (cases v) simp_all

lemma triple_case_prod [triple_intro]:
  assumes "\<And>a b. v = (a, b) \<Longrightarrow> triple P (f a b) Q R"
  shows "triple P (case v of (a, b) \<Rightarrow> f a b) Q R"
  using assms by (cases v) simp

lemma triple_weaken:
  assumes "triple P m Q R" and "\<And>s. P' s \<Longrightarrow> P s"
    and "\<And>x s. Q x s \<Longrightarrow> Q' x s" and "\<And>s. R s \<Longrightarrow> R' s"
  shows "triple P' m Q' R'"
  using assms by (fastforce simp: triple_def split: prod.splits sum.splits)

lemma triple_result:
  assumes "triple P m Q R" and "P s"
  shows "m s = (Inr x, s') \<Longrightarrow> Q x s'" and "m s = (Inl e, s') \<Longrightarrow> R s'"
  using assms by (auto simp: triple_def)

lemma triple_run:
  assumes "triple P m Q R" and "m s = (r, s')" and "P s"
  shows "case r of Inl e \<Rightarrow> R s' | Inr x \<Rightarrow> Q x s'"
  using assms by (auto simp: triple_def)

lemma triple_const:
  assumes "triple P m (\<lambda>_. Q) Q" and "P s"
  shows "Q (snd (m s))"
proof (cases "m s")
  case (Pair r s')
  with assms show ?thesis by (cases r) (auto simp: triple_def)
qed

section \<open>Lists as tables\<close>

text \<open>\<open>UPDATE t SET .. WHERE p\<close> rewrites every row the condition selects.\<close>

definition update_where :: "('r \<Rightarrow> bool) \<Rightarrow> ('r \<Rightarrow> 'r) \<Rightarrow> 'r list \<Rightarrow> 'r list" where
  "update_where p f rows = map (\<lambda>r. if p r then f r else r) rows"

text \<open>\<open>iter_mut().find(p)\<close> followed by a write through the reference.\<close>

fun update_first :: "('r \<Rightarrow> bool) \<Rightarrow> ('r \<Rightarrow> 'r) \<Rightarrow> 'r list \<Rightarrow> 'r list" where
  "update_first p f [] = []"
| "update_first p f (r # rs) = (if p r then f r # rs else r # update_first p f rs)"

lemma set_update_where [table_simps]:
  "set (update_where p f rows) = f ` {r \<in> set rows. p r} \<union> {r \<in> set rows. \<not> p r}"
  by (auto simp: update_where_def)

lemma map_update_where:
  "(\<And>r. r \<in> set rows \<Longrightarrow> p r \<Longrightarrow> k (f r) = k r) \<Longrightarrow> map k (update_where p f rows) = map k rows"
  by (auto simp: update_where_def)

lemma find_key_distinct:
  assumes "distinct (map k rows)" and "r \<in> set rows"
  shows "find (\<lambda>x. k x = k r) rows = Some r"
  using assms by (induction rows) auto

lemma find_SomeD: "find p rows = Some r \<Longrightarrow> r \<in> set rows \<and> p r"
  by (induction rows) (auto split: if_splits)

lemma find_NoneD: "find p rows = None \<Longrightarrow> r \<in> set rows \<Longrightarrow> \<not> p r"
  by (auto simp: find_None_iff)

lemma length_filter_key_distinct:
  "distinct (map k rows) \<Longrightarrow>
     length (filter (\<lambda>r. k r = x) rows) = (if x \<in> k ` set rows then 1 else 0)"
  by (induction rows) (auto simp: filter_empty_conv)

lemma distinct_map_filter: "distinct (map k rows) \<Longrightarrow> distinct (map k (filter p rows))"
  by (induction rows) auto

lemma find_filter_hd: "find p xs = (case filter p xs of [] \<Rightarrow> None | x # _ \<Rightarrow> Some x)"
  by (induction xs) auto

lemma find_sort_key:
  "find (\<lambda>x. k x = a) (sort_key k xs) = find (\<lambda>x. k x = a) xs"
  by (simp add: find_filter_hd sort_key_stable)

lemma distinct_map_sort_key: "distinct (map k (sort_key k xs)) = distinct (map k xs)"
  by (metis (no_types, lifting) distinct_map distinct_sort set_sort)

lemma map_update_first:
  "(\<And>r. p r \<Longrightarrow> k (f r) = k r) \<Longrightarrow> map k (update_first p f rs) = map k rs"
  by (induction rs) auto

lemma find_update_first_same:
  "find p rs = Some r \<Longrightarrow> p (f r) \<Longrightarrow> find p (update_first p f rs) = Some (f r)"
  by (induction rs) (auto split: if_splits)

lemma find_update_first_other:
  "(\<And>r. p r \<Longrightarrow> \<not> q r \<and> \<not> q (f r)) \<Longrightarrow> find q (update_first p f rs) = find q rs"
  by (induction rs) auto

lemma update_first_id: "find p rs = Some r \<Longrightarrow> f r = r \<Longrightarrow> update_first p f rs = rs"
  by (induction rs) (auto split: if_splits)

end
