(* ===== verification/Resources.thy ===== *)
theory Resources
  imports Prelude
begin

text \<open>
  The wire types of \<open>crates/control-plane-protocol\<close>: \<open>ids.rs\<close> and \<open>resources.rs\<close>. A struct
  is a record whose fields carry a short prefix (\<open>hc_\<close> for \<open>HostClaim\<close>, \<open>hcs_\<close> for its status,
  \<open>h_\<close> for \<open>Host\<close>, \<open>hs_\<close> for its status, \<open>c_\<close> for \<open>Condition\<close>), an enum is a datatype.
\<close>

section \<open>Identifiers\<close>

text \<open>
  Each identifier wraps a \<open>Uuid\<close>, sixteen bytes. The derived order is that of the bytes,
  which is the order of the 128-bit number they spell.
\<close>

type_synonym Uuid = "128 word"

datatype HostClaimId = HostClaimId (claim_uuid: Uuid)
datatype HostId = HostId (host_uuid: Uuid)

instantiation HostClaimId :: linorder
begin

definition less_eq_HostClaimId :: "HostClaimId \<Rightarrow> HostClaimId \<Rightarrow> bool" where
  "less_eq_HostClaimId a b \<longleftrightarrow> claim_uuid a \<le> claim_uuid b"

definition less_HostClaimId :: "HostClaimId \<Rightarrow> HostClaimId \<Rightarrow> bool" where
  "less_HostClaimId a b \<longleftrightarrow> claim_uuid a < claim_uuid b"

instance
  by standard (auto simp: less_eq_HostClaimId_def less_HostClaimId_def intro: HostClaimId.expand)

end

instantiation HostId :: linorder
begin

definition less_eq_HostId :: "HostId \<Rightarrow> HostId \<Rightarrow> bool" where
  "less_eq_HostId a b \<longleftrightarrow> host_uuid a \<le> host_uuid b"

definition less_HostId :: "HostId \<Rightarrow> HostId \<Rightarrow> bool" where
  "less_HostId a b \<longleftrightarrow> host_uuid a < host_uuid b"

instance
  by standard (auto simp: less_eq_HostId_def less_HostId_def intro: HostId.expand)

end

section \<open>Instants\<close>

text \<open>
  \<open>jiff::Timestamp\<close> is a number of nanoseconds since the Unix epoch within the range jiff
  documents. The code copies, compares and prints instants, it never computes with them.
\<close>

definition timestamp_min_ns :: int where "timestamp_min_ns = - 377705023201 * 10 ^ 9"
definition timestamp_max_ns :: int where "timestamp_max_ns = 253402207200 * 10 ^ 9 + 999999999"

typedef Timestamp = "{t :: int. timestamp_min_ns \<le> t \<and> t \<le> timestamp_max_ns}"
  morphisms timestamp_ns Timestamp_of_ns
  by (rule exI [of _ 0]) (simp add: timestamp_min_ns_def timestamp_max_ns_def)

definition unix_epoch :: Timestamp where "unix_epoch = Timestamp_of_ns 0"

section \<open>Resources\<close>

record HostResources =
  vcpus :: u32
  memory_bytes :: u64
  storage_bytes :: u64

record HostClaimSpec =
  spec_resources :: HostResources

datatype ConditionStatus = StatusTrue | StatusFalse | StatusUnknown

record Condition =
  c_type :: string
  c_status :: ConditionStatus
  c_reason :: string
  c_message :: string
  c_observed_generation :: u64
  c_last_transition_at :: Timestamp

record HostClaimStatus =
  hcs_observed_generation :: u64
  hcs_host_id :: "HostId option"
  hcs_conditions :: "Condition list"

record HostClaim =
  hc_id :: HostClaimId
  hc_generation :: u64
  hc_created_at :: Timestamp
  hc_deletion_timestamp :: "Timestamp option"
  hc_spec :: HostClaimSpec
  hc_status :: HostClaimStatus

datatype HostPhase = Pending | Provisioning | Ready | Deleting | Failed

record HostStatus =
  hs_phase :: HostPhase
  hs_provider_resource_id :: "string option"
  hs_observed_at :: "Timestamp option"
  hs_conditions :: "Condition list"

record Host =
  h_id :: HostId
  h_claim_id :: HostClaimId
  h_created_at :: Timestamp
  h_allocatable_resources :: HostResources
  h_status :: HostStatus

end
