(* ===== verification/Domain.thy ===== *)
theory Domain
  imports Resources
begin

text \<open>
  \<open>crates/control-plane/src/domain.rs\<close>: the stored records, the retry schedule, and the status
  conditions with the rule by which a new condition replaces an old one. Readings of the clock
  and generated identifiers are arguments.
\<close>

section \<open>Records and the retry schedule\<close>

record RetryState =
  attempt :: u32
  next_reconcile_at_unix_ms :: "i64 option"
  last_error_kind :: "string option"
  last_error_message :: "string option"

record HostClaimRecord =
  cr_resource :: HostClaim
  cr_retry :: RetryState

record HostRecord =
  hr_resource :: Host
  hr_provider_plan_id :: string
  hr_retry :: RetryState

text \<open>\<open>RetryState::default()\<close>, as derived.\<close>

definition default_retry :: RetryState where
  "default_retry = \<lparr>attempt = 0, next_reconcile_at_unix_ms = None,
     last_error_kind = None, last_error_message = None\<rparr>"

definition is_due :: "RetryState \<Rightarrow> i64 \<Rightarrow> bool" where
  "is_due self now_unix_ms =
     (case next_reconcile_at_unix_ms self of None \<Rightarrow> True | Some deadline \<Rightarrow> deadline \<le> now_unix_ms)"

text \<open>
  \<open>now_unix_ms()\<close> of the system clock's reading in milliseconds since the epoch, which is
  negative for a clock set before it: \<open>unwrap_or_default\<close> reads such a clock as zero.
\<close>

definition now_unix_ms :: "int \<Rightarrow> i64" where
  "now_unix_ms clock_ms =
     (let duration = (if clock_ms < 0 then 0 else clock_ms)
      in if duration \<le> i64_max then duration else i64_max)"

definition retry_deadline :: "i64 \<Rightarrow> u32 \<Rightarrow> i64" where
  "retry_deadline now attempts =
     (let exponent = min attempts 6;
          delay_ms = sat_i64 (1000 * push_bit (unat exponent) 1)
      in sat_i64 (now + min delay_ms 60000))"

section \<open>Conditions\<close>

definition new_condition ::
  "string \<Rightarrow> ConditionStatus \<Rightarrow> string \<Rightarrow> string \<Rightarrow> u64 \<Rightarrow> Timestamp \<Rightarrow> Condition" where
  "new_condition condition_type status reason message observed_generation now =
     \<lparr>c_type = condition_type, c_status = status, c_reason = reason, c_message = message,
      c_observed_generation = observed_generation, c_last_transition_at = now\<rparr>"

definition initial_claim :: "HostClaimId \<Rightarrow> HostClaimSpec \<Rightarrow> Timestamp \<Rightarrow> HostClaim" where
  "initial_claim claim_id spec now =
     \<lparr>hc_id = claim_id, hc_generation = 1, hc_created_at = now, hc_deletion_timestamp = None,
      hc_spec = spec,
      hc_status = \<lparr>hcs_observed_generation = 0, hcs_host_id = None,
        hcs_conditions =
          [new_condition ''Accepted'' StatusUnknown ''PendingEvaluation''
             ''The controller has not evaluated this claim yet.'' 0 now,
           new_condition ''Bound'' StatusFalse ''HostPending''
             ''No Host has been assigned.'' 0 now,
           new_condition ''Ready'' StatusFalse ''HostNotReady''
             ''No Ready Host is assigned.'' 0 now]\<rparr>\<rparr>"

definition initial_host :: "HostId \<Rightarrow> HostClaimId \<Rightarrow> HostResources \<Rightarrow> Timestamp \<Rightarrow> Host" where
  "initial_host host_id claim_id resources now =
     \<lparr>h_id = host_id, h_claim_id = claim_id, h_created_at = now,
      h_allocatable_resources = resources,
      h_status = \<lparr>hs_phase = Pending, hs_provider_resource_id = None, hs_observed_at = None,
        hs_conditions =
          [new_condition ''Ready'' StatusFalse ''ProviderResourcePending''
             ''No provider resource is currently Ready.'' 1 now]\<rparr>\<rparr>"

text \<open>
  \<open>set_condition\<close> returns whether it changed the list, and the list. An unchanged condition is
  left alone; one with the same status and reason keeps its transition time; otherwise the new
  condition takes its place. A condition of a new type is added and the list sorted by type.
\<close>

definition set_condition :: "Condition list \<Rightarrow> Condition \<Rightarrow> bool \<times> Condition list" where
  "set_condition conditions next =
     (case find (\<lambda>condition. c_type condition = c_type next) conditions of
        Some current \<Rightarrow>
          if c_status current = c_status next
             \<and> c_reason current = c_reason next
             \<and> c_message current = c_message next
             \<and> c_observed_generation current = c_observed_generation next
          then (False, conditions)
          else if c_status current = c_status next \<and> c_reason current = c_reason next
          then (True, update_first (\<lambda>condition. c_type condition = c_type next)
                  (\<lambda>current. current\<lparr>c_message := c_message next,
                     c_observed_generation := c_observed_generation next\<rparr>) conditions)
          else (True, update_first (\<lambda>condition. c_type condition = c_type next)
                  (\<lambda>_. next) conditions)
      | None \<Rightarrow> (True, sort_key c_type (conditions @ [next])))"

definition condition_is :: "HostClaim \<Rightarrow> string \<Rightarrow> ConditionStatus \<Rightarrow> bool" where
  "condition_is claim condition_type status =
     list_ex (\<lambda>condition. c_type condition = condition_type \<and> c_status condition = status)
       (hcs_conditions (hc_status claim))"

section \<open>Conditions as a map by type\<close>

definition condition_at :: "Condition list \<Rightarrow> string \<Rightarrow> Condition option" where
  "condition_at conditions ty = find (\<lambda>c. c_type c = ty) conditions"

definition conditions_wf :: "Condition list \<Rightarrow> bool" where
  "conditions_wf conditions \<longleftrightarrow>
     sorted (map c_type conditions) \<and> distinct (map c_type conditions)"

text \<open>What replaces a condition: the new one, dated by the last change of status or reason.\<close>

definition merged_condition :: "Condition option \<Rightarrow> Condition \<Rightarrow> Condition" where
  "merged_condition old next =
     (case old of
        None \<Rightarrow> next
      | Some current \<Rightarrow>
          if c_status current = c_status next \<and> c_reason current = c_reason next
          then next\<lparr>c_last_transition_at := c_last_transition_at current\<rparr>
          else next)"

lemma new_condition_sel [simp]:
  "c_type (new_condition t s r m g n) = t"
  "c_status (new_condition t s r m g n) = s"
  "c_reason (new_condition t s r m g n) = r"
  "c_message (new_condition t s r m g n) = m"
  "c_observed_generation (new_condition t s r m g n) = g"
  "c_last_transition_at (new_condition t s r m g n) = n"
  by (simp_all add: new_condition_def)

lemma initial_host_sel [simp]:
  "h_id (initial_host host_id claim_id resources now) = host_id"
  "h_claim_id (initial_host host_id claim_id resources now) = claim_id"
  "h_allocatable_resources (initial_host host_id claim_id resources now) = resources"
  "hs_provider_resource_id (h_status (initial_host host_id claim_id resources now)) = None"
  by (simp_all add: initial_host_def)

lemma merged_condition_sel [simp]:
  "c_type (merged_condition old next) = c_type next"
  "c_status (merged_condition old next) = c_status next"
  "c_reason (merged_condition old next) = c_reason next"
  "c_message (merged_condition old next) = c_message next"
  "c_observed_generation (merged_condition old next) = c_observed_generation next"
  by (simp_all add: merged_condition_def split: option.splits)

lemma condition_at_type: "condition_at cs ty = Some c \<Longrightarrow> c_type c = ty"
  by (auto simp: condition_at_def dest: find_SomeD)

lemma set_condition_at:
  "condition_at (snd (set_condition cs next)) ty =
     (if ty = c_type next then Some (merged_condition (condition_at cs ty) next)
      else condition_at cs ty)"
proof (cases "find (\<lambda>c. c_type c = c_type next) cs")
  case None
  have new: "find (\<lambda>c. c_type c = ty) (cs @ [next]) =
      (if ty = c_type next then Some next else find (\<lambda>c. c_type c = ty) cs)"
    using None by (induction cs) (auto split: if_splits)
  show ?thesis
    using None new
    by (simp add: set_condition_def condition_at_def find_sort_key merged_condition_def)
next
  case (Some current)
  then have ty: "c_type current = c_type next" by (auto dest: find_SomeD)
  have other: "find (\<lambda>c. c_type c = ty) (update_first (\<lambda>c. c_type c = c_type next) f cs) =
      find (\<lambda>c. c_type c = ty) cs"
    if "ty \<noteq> c_type next" and "\<And>c. c_type c = c_type next \<Longrightarrow> c_type (f c) = c_type next" for f
    using that by (intro find_update_first_other) auto
  have same: "find (\<lambda>c. c_type c = c_type next) (update_first (\<lambda>c. c_type c = c_type next) f cs) =
      Some (f current)" if "c_type (f current) = c_type next" for f
    using Some that by (intro find_update_first_same)
  show ?thesis
    using Some ty
    by (auto simp: set_condition_def condition_at_def merged_condition_def other same
        intro: Condition.equality)
qed

lemma update_first_moved: "find p rs = Some r \<Longrightarrow> f r \<noteq> r \<Longrightarrow> update_first p f rs \<noteq> rs"
  by (induction rs) (auto split: if_splits)

lemma set_condition_changed: "fst (set_condition cs next) \<longleftrightarrow> snd (set_condition cs next) \<noteq> cs"
proof (cases "find (\<lambda>c. c_type c = c_type next) cs")
  case None
  have "length (sort_key c_type (cs @ [next])) \<noteq> length cs" by simp
  then have "sort_key c_type (cs @ [next]) \<noteq> cs" by metis
  with None show ?thesis by (simp add: set_condition_def)
next
  case (Some current)
  let ?f = "\<lambda>current. current\<lparr>c_message := c_message next,
      c_observed_generation := c_observed_generation next\<rparr>"
  have f: "?f current \<noteq> current"
    if "c_message current \<noteq> c_message next \<or> c_observed_generation current \<noteq> c_observed_generation next"
  proof
    assume "?f current = current"
    then have "c_message (?f current) = c_message current"
      "c_observed_generation (?f current) = c_observed_generation current" by simp_all
    with that show False by simp
  qed
  have g: "next \<noteq> current"
    if "c_status current \<noteq> c_status next \<or> c_reason current \<noteq> c_reason next"
    using that by auto
  note moved = update_first_moved [OF Some]
  show ?thesis
    using Some f moved [of ?f] g moved [of "\<lambda>_. next"] by (auto simp: set_condition_def)
qed

lemma set_condition_wf: "conditions_wf cs \<Longrightarrow> conditions_wf (snd (set_condition cs next))"
proof (cases "find (\<lambda>c. c_type c = c_type next) cs")
  case None
  assume "conditions_wf cs"
  moreover have "\<forall>x\<in>set cs. c_type x \<noteq> c_type next"
    using None by (auto simp: find_None_iff)
  ultimately show ?thesis
    using None by (auto simp: set_condition_def conditions_wf_def distinct_map_sort_key)
next
  case (Some current)
  assume wf: "conditions_wf cs"
  have "map c_type (update_first (\<lambda>c. c_type c = c_type next)
      (\<lambda>current. current\<lparr>c_message := c_message next,
         c_observed_generation := c_observed_generation next\<rparr>) cs) = map c_type cs"
    by (intro map_update_first) simp
  moreover have "map c_type (update_first (\<lambda>c. c_type c = c_type next) (\<lambda>_. next) cs) = map c_type cs"
    by (intro map_update_first) simp
  ultimately show ?thesis
    using Some wf by (auto simp: set_condition_def conditions_wf_def)
qed

lemma initial_claim_conditions_wf: "conditions_wf (hcs_conditions (hc_status (initial_claim claim_id spec now)))"
  by (simp add: initial_claim_def conditions_wf_def)

lemma initial_host_conditions_wf:
  "conditions_wf (hs_conditions (h_status (initial_host host_id claim_id res now)))"
  by (simp add: initial_host_def conditions_wf_def)

section \<open>Retry deadlines\<close>

lemma min_exponent:
  "min (60000 :: int) (1000 * 2 ^ (min n 6)) = min 60000 (1000 * 2 ^ n)"
proof (cases "n \<le> 6")
  case False
  then have "(2 :: int) ^ 6 \<le> 2 ^ n" by (intro power_increasing) auto
  with False show ?thesis by (simp add: min_def)
qed (simp add: min_def)

lemma unat_min_6: "unat (min a 6 :: u32) = min (unat a) 6"
  by (simp add: min_def word_le_nat_alt)

lemma retry_deadline_eq:
  "retry_deadline now a = sat_i64 (now + min 60000 (1000 * 2 ^ unat a))"
proof -
  have "(2 :: int) ^ min (unat a) 6 \<le> 2 ^ 6" by (intro power_increasing) auto
  moreover have "(0 :: int) < 2 ^ min (unat a) 6" by simp
  ultimately have "sat_i64 (1000 * 2 ^ min (unat a) 6) = 1000 * 2 ^ min (unat a) 6"
    by (intro sat_i64_id) (auto simp: in_i64_def i64_min_def i64_max_def intro: order_trans [of _ 0])
  moreover have "push_bit (unat (min a 6)) (1 :: int) = 2 ^ min (unat a) 6"
    by (simp only: push_bit_eq_mult unat_min_6 mult_1)
  ultimately have "retry_deadline now a = sat_i64 (now + min (1000 * 2 ^ min (unat a) 6) 60000)"
    by (simp only: retry_deadline_def Let_def)
  then show ?thesis
    by (simp only: min.commute [of _ "60000 :: int"] min_exponent)
qed

lemma retry_deadline_in_i64: "in_i64 (retry_deadline now a)"
  by (simp add: retry_deadline_eq in_i64_sat)

lemma retry_deadline_mono: "unat a \<le> unat b \<Longrightarrow> retry_deadline now a \<le> retry_deadline now b"
  unfolding retry_deadline_eq by (intro sat_i64_mono add_left_mono min.mono mult_left_mono power_increasing) auto

lemma retry_deadline_later:
  assumes "in_i64 now" shows "now \<le> retry_deadline now a"
proof -
  have "sat_i64 now \<le> retry_deadline now a"
    unfolding retry_deadline_eq by (intro sat_i64_mono) auto
  with assms show ?thesis by (simp add: sat_i64_id)
qed

lemma now_unix_ms_in_i64: "in_i64 (now_unix_ms t)" "0 \<le> now_unix_ms t"
  by (auto simp: now_unix_ms_def in_i64_def i64_min_def i64_max_def)

lemma is_due_mono: "is_due r t \<Longrightarrow> t \<le> t' \<Longrightarrow> is_due r t'"
  by (auto simp: is_due_def split: option.splits)

lemma is_due_default [simp]: "is_due default_retry t"
  by (simp add: is_due_def default_retry_def)

end
