(* ===== verification/Provider.thy ===== *)
theory Provider
  imports Domain
begin

text \<open>
  \<open>crates/control-plane/src/provider/mod.rs\<close>: the types of the provider boundary, the trait
  \<open>HostProvider\<close> as a record of operations over a provider's state, and the contract the
  controller relies on as a locale.
\<close>

record Plan =
  plan_id :: string
  plan_resources :: HostResources

datatype ProviderLifecycle = LifecycleProvisioning | LifecycleReady | LifecycleDeleting

record ProviderResource =
  pr_id :: string
  pr_host_id :: HostId
  pr_lifecycle :: ProviderLifecycle

datatype ProviderObservation = Absent | Present ProviderResource

lemma triple_case_observation:
  assumes "v = Absent \<Longrightarrow> triple P m Q R" and "\<And>x. v = Present x \<Longrightarrow> triple P (f x) Q R"
  shows "triple P (case v of Absent \<Rightarrow> m | Present x \<Rightarrow> f x) Q R"
  using assms by (cases v) simp_all

datatype CreateOutcome = Created ProviderResource | CreateOutcomeUnknown

datatype DeleteOutcome = Deleted | DeleteOutcomeUnknown

datatype ProviderError = Definitive (definitive_message: string) | Transient (transient_message: string)

type_synonym ('p, 'a) provider_oper = "('p, ProviderError, 'a) oper"

record 'p host_provider =
  select_plan :: "HostResources \<Rightarrow> ('p, Plan option) provider_oper"
  observe :: "HostId \<Rightarrow> ('p, ProviderObservation) provider_oper"
  create_resource :: "HostId \<Rightarrow> string \<Rightarrow> ('p, CreateOutcome) provider_oper"
  delete_resource :: "HostId \<Rightarrow> ('p, DeleteOutcome) provider_oper"

text \<open>\<open>satisfies offered required\<close>: every quantity of the offer reaches the requirement.\<close>

definition satisfies :: "HostResources \<Rightarrow> HostResources \<Rightarrow> bool" where
  "satisfies offered required \<longleftrightarrow>
     vcpus required \<le> vcpus offered \<and> memory_bytes required \<le> memory_bytes offered
     \<and> storage_bytes required \<le> storage_bytes offered"

text \<open>
  The contract. \<open>owned p h\<close> is the resource the provider holds for host \<open>h\<close> with the plan it was
  created from; \<open>sane\<close> is what the provider keeps true of its own state. Observing and selecting
  change nothing. Only \<open>create\<close> for a host can make it own a resource, of the plan asked for, and
  never replaces one; only \<open>delete\<close> for it can remove one. An answer is only as strong as it says:
  an error and an unknown outcome leave open whether the operation took effect.
\<close>

locale host_provider_contract =
  fixes P :: "'p host_provider"
    and owned :: "'p \<Rightarrow> HostId \<Rightarrow> (ProviderResource \<times> string) option"
    and sane :: "'p \<Rightarrow> bool"
  assumes select_state: "sane p \<Longrightarrow> select_plan P req p = (sel, p') \<Longrightarrow> sane p' \<and> owned p' = owned p"
    and select_satisfies: "sane p \<Longrightarrow> select_plan P req p = (Inr (Some plan), p') \<Longrightarrow>
      satisfies (plan_resources plan) req"
    and observe_state: "sane p \<Longrightarrow> observe P h p = (obs, p') \<Longrightarrow> sane p' \<and> owned p' = owned p"
    and observe_absent: "sane p \<Longrightarrow> observe P h p = (Inr Absent, p') \<Longrightarrow> owned p h = None"
    and observe_present: "sane p \<Longrightarrow> observe P h p = (Inr (Present res), p') \<Longrightarrow>
      \<exists>plan_text. owned p h = Some (res, plan_text)"
    and create_sane: "sane p \<Longrightarrow> create_resource P h plan_text p = (cre, p') \<Longrightarrow> sane p'"
    and create_frame: "sane p \<Longrightarrow> create_resource P h plan_text p = (cre, p') \<Longrightarrow> h' \<noteq> h \<Longrightarrow>
      owned p' h' = owned p h'"
    and create_owned: "sane p \<Longrightarrow> create_resource P h plan_text p = (cre, p') \<Longrightarrow>
      owned p' h = owned p h \<or> owned p h = None \<and> (\<exists>res. owned p' h = Some (res, plan_text))"
    and create_created: "sane p \<Longrightarrow> create_resource P h plan_text p = (Inr (Created res), p') \<Longrightarrow>
      owned p' h = Some (res, plan_text)"
    and delete_sane: "sane p \<Longrightarrow> delete_resource P h p = (del, p') \<Longrightarrow> sane p'"
    and delete_frame: "sane p \<Longrightarrow> delete_resource P h p = (del, p') \<Longrightarrow> h' \<noteq> h \<Longrightarrow>
      owned p' h' = owned p h'"
    and delete_owned: "sane p \<Longrightarrow> delete_resource P h p = (del, p') \<Longrightarrow>
      owned p' h = None \<or> owned p' h = owned p h"
    and delete_deleted: "sane p \<Longrightarrow> delete_resource P h p = (Inr Deleted, p') \<Longrightarrow> owned p' h = None"
begin

text \<open>A create is idempotent in what the host owns.\<close>

lemma create_twice:
  assumes "sane p" and "create_resource P h plan p = (Inr (Created res), p1)"
    and "create_resource P h plan p1 = (r, p2)"
  shows "owned p2 = owned p1"
proof
  fix h'
  have p1: "sane p1" "owned p1 h = Some (res, plan)"
    using assms create_sane create_created by blast+
  show "owned p2 h' = owned p1 h'"
    using create_frame [OF p1(1) assms(3), of h'] create_owned [OF p1(1) assms(3)] p1(2)
    by (cases "h' = h") auto
qed

text \<open>What a present observation names is the resource a repeated observation names.\<close>

lemma observe_stable:
  assumes "sane p" and "observe P h p = (Inr (Present res), p1)" and "observe P h p1 = (Inr o2, p2)"
  shows "o2 = Present res"
proof -
  have p1: "sane p1" "owned p1 = owned p" using observe_state [OF assms(1,2)] by auto
  obtain plan where "owned p1 h = Some (res, plan)"
    using observe_present [OF assms(1,2)] p1(2) by auto
  then show ?thesis
    using assms(3) observe_absent [OF p1(1)] observe_present [OF p1(1)] by (cases o2) fastforce+
qed

end

end
