(* ===== verification/Errors.thy ===== *)
theory Errors
  imports Resources
begin

text \<open>
  \<open>crates/control-plane/src/error.rs\<close> and the error shapes of the protocol crate: the typed
  application error and its translation into a JSON-RPC error object.

  \<open>AppError::Internal\<close> wraps an \<open>anyhow::Error\<close>; the model keeps its text. The text of an error
  raised inside a library (SQLx, serde, uuid, jiff) is a fixed word, because no code reads it.
  \<open>RpcErrorData::details\<close> is a JSON value, kept as its text; the server always leaves it out.
\<close>

datatype AppError =
    InvalidArgument (ia_message: string)
  | NotFound (nf_resource_type: string) (nf_resource_id: string)
  | Conflict (cf_resource_type: string) (cf_resource_id: string) (cf_message: string)
  | Internal (in_error: string)

datatype RpcErrorKind =
    InvalidArgumentKind | NotFoundKind | ConflictKind | UnavailableKind | InternalKind

record RpcErrorData =
  ed_kind :: RpcErrorKind
  ed_resource_id :: "string option"
  ed_details :: "string option"

text \<open>jsonrpsee's \<open>ErrorObjectOwned\<close>: code, message and optional data.\<close>

record ErrorObject =
  eo_code :: int
  eo_message :: string
  eo_data :: "RpcErrorData option"

definition INVALID_ARGUMENT_CODE :: int where "INVALID_ARGUMENT_CODE = -32100"
definition NOT_FOUND_CODE :: int where "NOT_FOUND_CODE = -32101"
definition CONFLICT_CODE :: int where "CONFLICT_CODE = -32102"

text \<open>JSON-RPC 2.0 reserves this code for internal errors; jsonrpsee exports it by name.\<close>

definition INTERNAL_ERROR_CODE :: int where "INTERNAL_ERROR_CODE = -32603"

definition into_rpc_error :: "AppError \<Rightarrow> ErrorObject" where
  "into_rpc_error self =
     (let (code, kind, resource_id, message) =
        (case self of
           InvalidArgument message \<Rightarrow>
             (INVALID_ARGUMENT_CODE, InvalidArgumentKind, None, message)
         | NotFound resource_type resource_id \<Rightarrow>
             (NOT_FOUND_CODE, NotFoundKind, Some resource_id,
              resource_type @ '' '' @ resource_id @ '' was not found'')
         | Conflict resource_type resource_id message \<Rightarrow>
             (CONFLICT_CODE, ConflictKind, Some resource_id,
              ''conflict for '' @ resource_type @ '' '' @ resource_id @ '': '' @ message)
         | Internal error \<Rightarrow>
             (INTERNAL_ERROR_CODE, InternalKind, None, ''Internal error''))
      in \<lparr>eo_code = code, eo_message = message,
          eo_data = Some \<lparr>ed_kind = kind, ed_resource_id = resource_id, ed_details = None\<rparr>\<rparr>)"

definition is_internal :: "AppError \<Rightarrow> bool" where
  "is_internal e = (case e of Internal _ \<Rightarrow> True | _ \<Rightarrow> False)"

text \<open>\<open>internal(error)\<close> of \<open>storage.rs\<close>, the wrapper every library failure goes through.\<close>

definition internal :: "string \<Rightarrow> AppError" where
  "internal error = Internal error"

end
