(* ===== verification/Database.thy ===== *)
theory Database
  imports Errors Domain
begin

text \<open>
  The Control Plane database: the two tables of \<open>migrations/control-plane/0001_initial.sql\<close> and
  the SQL statements \<open>storage.rs\<close> sends to them. A table is the list of its rows in insertion
  order; a row has the columns of the table, TEXT as a string and INTEGER as an integer. The
  statements enforce the schema's CHECK, PRIMARY KEY, UNIQUE and REFERENCES clauses: a violated
  one is an error and leaves the database as it was.
\<close>

section \<open>Tables\<close>

record claim_row =
  cl_id :: string
  cl_generation :: i64
  cl_created_at :: string
  cl_deletion_timestamp :: "string option"
  cl_vcpus :: i64
  cl_memory_bytes :: i64
  cl_storage_bytes :: i64
  cl_observed_generation :: i64
  cl_conditions_json :: string
  cl_retry_attempt :: i64
  cl_next_reconcile_at_unix_ms :: "i64 option"
  cl_last_error_kind :: "string option"
  cl_last_error_message :: "string option"

record host_row =
  ho_id :: string
  ho_claim_id :: string
  ho_created_at :: string
  ho_vcpus :: i64
  ho_memory_bytes :: i64
  ho_storage_bytes :: i64
  ho_provider_plan_id :: string
  ho_phase :: string
  ho_provider_resource_id :: "string option"
  ho_observed_at :: "string option"
  ho_conditions_json :: string
  ho_retry_attempt :: i64
  ho_next_reconcile_at_unix_ms :: "i64 option"
  ho_last_error_kind :: "string option"
  ho_last_error_message :: "string option"

record database =
  host_claims :: "claim_row list"
  hosts :: "host_row list"

definition empty_database :: database where
  "empty_database = \<lparr>host_claims = [], hosts = []\<rparr>"

text \<open>The CHECK clauses.\<close>

definition claim_row_check :: "claim_row \<Rightarrow> bool" where
  "claim_row_check r \<longleftrightarrow>
     1 \<le> cl_generation r \<and> 0 < cl_vcpus r \<and> 0 < cl_memory_bytes r \<and> 0 < cl_storage_bytes r
     \<and> 0 \<le> cl_observed_generation r \<and> 0 \<le> cl_retry_attempt r"

definition host_row_check :: "host_row \<Rightarrow> bool" where
  "host_row_check r \<longleftrightarrow>
     0 < ho_vcpus r \<and> 0 < ho_memory_bytes r \<and> 0 < ho_storage_bytes r
     \<and> 0 < length (ho_provider_plan_id r)
     \<and> ho_phase r \<in> {''pending'', ''provisioning'', ''ready'', ''deleting'', ''failed''}
     \<and> 0 \<le> ho_retry_attempt r"

text \<open>The provider resource identifiers the UNIQUE clause compares: NULLs are all distinct.\<close>

definition resource_ids :: "host_row list \<Rightarrow> string list" where
  "resource_ids rows = List.map_filter ho_provider_resource_id rows"

section \<open>Queries\<close>

text \<open>\<open>SELECT c.*, h.id AS host_id FROM host_claims c LEFT JOIN hosts h ON h.claim_id = c.id\<close>.\<close>

type_synonym joined_row = "claim_row \<times> string option"

definition join_hosts :: "host_row list \<Rightarrow> claim_row \<Rightarrow> joined_row list" where
  "join_hosts host_rows c =
     (case filter (\<lambda>h. ho_claim_id h = cl_id c) host_rows of
        [] \<Rightarrow> [(c, None)]
      | hs \<Rightarrow> map (\<lambda>h. (c, Some (ho_id h))) hs)"

definition joined_claims :: "database \<Rightarrow> joined_row list" where
  "joined_claims db = concat (map (join_hosts (hosts db)) (host_claims db))"

text \<open>The same query \<open>WHERE c.id = ?\<close>, and its first row.\<close>

definition fetch_claim_row :: "database \<Rightarrow> string \<Rightarrow> joined_row option" where
  "fetch_claim_row db claim_id = find (\<lambda>row. cl_id (fst row) = claim_id) (joined_claims db)"

text \<open>The same query \<open>ORDER BY c.created_at ASC, c.id ASC\<close>: both columns are compared as text.\<close>

definition claims_in_order :: "database \<Rightarrow> joined_row list" where
  "claims_in_order db = sort_key (\<lambda>row. (cl_created_at (fst row), cl_id (fst row))) (joined_claims db)"

definition fetch_host_for_claim_row :: "database \<Rightarrow> string \<Rightarrow> host_row option" where
  "fetch_host_for_claim_row db claim_id = find (\<lambda>h. ho_claim_id h = claim_id) (hosts db)"

definition fetch_host_row :: "database \<Rightarrow> string \<Rightarrow> host_row option" where
  "fetch_host_row db host_id = find (\<lambda>h. ho_id h = host_id) (hosts db)"

definition hosts_in_order :: "database \<Rightarrow> host_row list" where
  "hosts_in_order db = sort_key (\<lambda>h. (ho_created_at h, ho_id h)) (hosts db)"

section \<open>Statements that write\<close>

definition insert_claim_row :: "claim_row \<Rightarrow> database \<Rightarrow> string + database" where
  "insert_claim_row r db =
     (if claim_row_check r \<and> cl_id r \<notin> cl_id ` set (host_claims db)
      then Inr (db\<lparr>host_claims := host_claims db @ [r]\<rparr>)
      else Inl ''constraint failed'')"

text \<open>\<open>INSERT INTO hosts .. ON CONFLICT(claim_id) DO NOTHING\<close>: the number of rows inserted.\<close>

definition insert_host_row :: "host_row \<Rightarrow> database \<Rightarrow> string + nat \<times> database" where
  "insert_host_row r db =
     (if \<not> host_row_check r then Inl ''constraint failed''
      else if ho_claim_id r \<in> ho_claim_id ` set (hosts db) then Inr (0, db)
      else if ho_id r \<notin> ho_id ` set (hosts db)
        \<and> ho_claim_id r \<in> cl_id ` set (host_claims db)
        \<and> distinct (resource_ids (hosts db @ [r]))
      then Inr (1, db\<lparr>hosts := hosts db @ [r]\<rparr>)
      else Inl ''constraint failed'')"

text \<open>\<open>UPDATE host_claims SET .. WHERE p\<close>: the number of rows matched, and the new table.\<close>

definition update_claim_rows ::
  "(claim_row \<Rightarrow> bool) \<Rightarrow> (claim_row \<Rightarrow> claim_row) \<Rightarrow> database \<Rightarrow> string + nat \<times> database" where
  "update_claim_rows p f db =
     (if list_all (\<lambda>r. claim_row_check (f r)) (filter p (host_claims db))
      then Inr (length (filter p (host_claims db)),
                db\<lparr>host_claims := update_where p f (host_claims db)\<rparr>)
      else Inl ''constraint failed'')"

definition update_host_rows ::
  "(host_row \<Rightarrow> bool) \<Rightarrow> (host_row \<Rightarrow> host_row) \<Rightarrow> database \<Rightarrow> string + nat \<times> database" where
  "update_host_rows p f db =
     (if list_all (\<lambda>r. host_row_check (f r)) (filter p (hosts db))
        \<and> distinct (resource_ids (update_where p f (hosts db)))
      then Inr (length (filter p (hosts db)), db\<lparr>hosts := update_where p f (hosts db)\<rparr>)
      else Inl ''constraint failed'')"

text \<open>\<open>DELETE FROM host_claims WHERE id = ?\<close>, with \<open>hosts.claim_id .. ON DELETE CASCADE\<close>.\<close>

definition delete_claim_row :: "string \<Rightarrow> database \<Rightarrow> nat \<times> database" where
  "delete_claim_row claim_id db =
     (let deleted = filter (\<lambda>r. cl_id r = claim_id) (host_claims db)
      in (length deleted,
          db\<lparr>host_claims := filter (\<lambda>r. cl_id r \<noteq> claim_id) (host_claims db),
             hosts := filter (\<lambda>h. ho_claim_id h \<notin> cl_id ` set deleted) (hosts db)\<rparr>))"

section \<open>The schema as an invariant\<close>

text \<open>What the schema's keys and references keep true of a database.\<close>

definition keys_ok :: "database \<Rightarrow> bool" where
  "keys_ok db \<longleftrightarrow>
     distinct (map cl_id (host_claims db))
     \<and> distinct (map ho_id (hosts db))
     \<and> distinct (map ho_claim_id (hosts db))
     \<and> ho_claim_id ` set (hosts db) \<subseteq> cl_id ` set (host_claims db)
     \<and> distinct (resource_ids (hosts db))"

lemma keys_ok_empty: "keys_ok empty_database"
  by (simp add: keys_ok_def empty_database_def resource_ids_def)

lemma insert_claim_row_keys: "insert_claim_row r db = Inr db' \<Longrightarrow> keys_ok db \<Longrightarrow> keys_ok db'"
  by (auto simp: insert_claim_row_def keys_ok_def image_subset_iff split: if_splits)

lemma insert_host_row_keys: "insert_host_row r db = Inr (n, db') \<Longrightarrow> keys_ok db \<Longrightarrow> keys_ok db'"
  by (auto simp: insert_host_row_def keys_ok_def image_subset_iff split: if_splits)

lemma update_claim_rows_keys:
  assumes "update_claim_rows p f db = Inr (n, db')" and "keys_ok db"
    and "\<And>r. cl_id (f r) = cl_id r"
  shows "keys_ok db'"
proof -
  have keys: "map cl_id (update_where p f (host_claims db)) = map cl_id (host_claims db)"
    using assms(3) by (intro map_update_where) simp
  then have "cl_id ` set (update_where p f (host_claims db)) = cl_id ` set (host_claims db)"
    by (metis list.set_map)
  with keys assms(1,2) show ?thesis
    by (auto simp: update_claim_rows_def keys_ok_def image_subset_iff split: if_splits)
qed

lemma update_host_rows_keys:
  assumes "update_host_rows p f db = Inr (n, db')" and "keys_ok db"
    and "\<And>r. ho_id (f r) = ho_id r" and "\<And>r. ho_claim_id (f r) = ho_claim_id r"
  shows "keys_ok db'"
proof -
  have ids: "map ho_id (update_where p f (hosts db)) = map ho_id (hosts db)"
    using assms(3) by (intro map_update_where) simp
  have claims: "map ho_claim_id (update_where p f (hosts db)) = map ho_claim_id (hosts db)"
    using assms(4) by (intro map_update_where) simp
  then have "ho_claim_id ` set (update_where p f (hosts db)) = ho_claim_id ` set (hosts db)"
    by (metis list.set_map)
  moreover have "db' = db\<lparr>hosts := update_where p f (hosts db)\<rparr>"
    and "distinct (resource_ids (update_where p f (hosts db)))"
    using assms(1) by (auto simp: update_host_rows_def split: if_splits)
  ultimately show ?thesis
    using ids claims assms(2) by (simp add: keys_ok_def)
qed

lemma resource_ids_filter: "distinct (resource_ids rows) \<Longrightarrow> distinct (resource_ids (filter p rows))"
proof (induction rows)
  case (Cons r rows)
  have "set (resource_ids (filter p rows)) \<subseteq> set (resource_ids rows)"
    by (auto simp: resource_ids_def List.map_filter_def)
  with Cons show ?case
    by (auto simp: resource_ids_def map_filter_simps split: option.splits if_splits)
qed (simp add: resource_ids_def)

lemma delete_claim_row_keys: "keys_ok db \<Longrightarrow> keys_ok (snd (delete_claim_row t db))"
  unfolding keys_ok_def delete_claim_row_def
  by (auto simp: distinct_map_filter resource_ids_filter image_subset_iff)

section \<open>What the queries return\<close>

text \<open>With unique claims among the hosts, the join gives each claim once, with its host.\<close>

definition host_of_claim :: "database \<Rightarrow> claim_row \<Rightarrow> string option" where
  "host_of_claim db c = map_option ho_id (fetch_host_for_claim_row db (cl_id c))"

lemma filter_unique:
  "distinct (map k xs) \<Longrightarrow>
     filter (\<lambda>x. k x = a) xs = (case find (\<lambda>x. k x = a) xs of None \<Rightarrow> [] | Some x \<Rightarrow> [x])"
  by (induction xs) (auto simp: filter_empty_conv rev_image_eqI split: option.splits dest: find_SomeD)

lemma join_hosts_eq:
  "keys_ok db \<Longrightarrow> join_hosts (hosts db) c = [(c, host_of_claim db c)]"
  by (simp add: join_hosts_def host_of_claim_def fetch_host_for_claim_row_def filter_unique keys_ok_def
      split: option.splits)

lemma joined_claims_eq:
  "keys_ok db \<Longrightarrow> joined_claims db = map (\<lambda>c. (c, host_of_claim db c)) (host_claims db)"
  by (simp add: joined_claims_def join_hosts_eq concat_map_singleton cong: map_cong)

lemma find_map: "find p (map f xs) = map_option f (find (p \<circ> f) xs)"
  by (induction xs) auto

lemma fetch_claim_row_eq:
  "keys_ok db \<Longrightarrow> fetch_claim_row db t =
     map_option (\<lambda>c. (c, host_of_claim db c)) (find (\<lambda>c. cl_id c = t) (host_claims db))"
  by (simp add: fetch_claim_row_def joined_claims_eq find_map comp_def)

lemma set_claims_in_order:
  "keys_ok db \<Longrightarrow> set (claims_in_order db) = (\<lambda>c. (c, host_of_claim db c)) ` set (host_claims db)"
  by (simp add: claims_in_order_def joined_claims_eq)

lemma host_of_claim_None:
  "host_of_claim db c = None \<longleftrightarrow> cl_id c \<notin> ho_claim_id ` set (hosts db)"
  by (auto simp: host_of_claim_def fetch_host_for_claim_row_def find_None_iff image_iff)

lemma host_of_claim_Some:
  assumes "keys_ok db"
  shows "host_of_claim db c = Some t \<longleftrightarrow> (\<exists>h \<in> set (hosts db). ho_id h = t \<and> ho_claim_id h = cl_id c)"
proof -
  have "find (\<lambda>h. ho_claim_id h = cl_id c) (hosts db) = Some h"
    if "h \<in> set (hosts db)" "ho_claim_id h = cl_id c" for h
    using assms that find_key_distinct [of ho_claim_id "hosts db" h] by (simp add: keys_ok_def)
  then show ?thesis
    by (auto simp: host_of_claim_def fetch_host_for_claim_row_def dest: find_SomeD)
qed

end
