(* ===== verification/Codec.thy ===== *)
theory Codec
  imports Database
begin

text \<open>
  The boundary between rows and records: the integer conversions, the phase names and the two
  row readers of \<open>storage.rs\<close> (\<open>to_i64\<close> to \<open>host_record_from_row\<close>), with the rows the records
  are written as.

  The text of identifiers (crate uuid), of instants (crate jiff) and of condition lists
  (serde_json) is made and read by libraries: the record \<open>codec\<close> holds those functions as a
  parameter of the model, and \<open>codec_ok\<close> states what those libraries document, that reading
  gives back what was written.
\<close>

section \<open>The text of library types\<close>

record codec =
  claim_id_text :: "HostClaimId \<Rightarrow> string"
  parse_claim_id :: "string \<Rightarrow> HostClaimId option"
  host_id_text :: "HostId \<Rightarrow> string"
  parse_host_id :: "string \<Rightarrow> HostId option"
  timestamp_text :: "Timestamp \<Rightarrow> string"
  parse_timestamp_text :: "string \<Rightarrow> Timestamp option"
  conditions_to_json :: "Condition list \<Rightarrow> string option"
  conditions_from_json :: "string \<Rightarrow> Condition list option"

definition codec_ok :: "codec \<Rightarrow> bool" where
  "codec_ok cd \<longleftrightarrow>
     (\<forall>i. parse_claim_id cd (claim_id_text cd i) = Some i)
     \<and> (\<forall>i. parse_host_id cd (host_id_text cd i) = Some i)
     \<and> (\<forall>t. parse_timestamp_text cd (timestamp_text cd t) = Some t)
     \<and> (\<forall>cs. \<exists>s. conditions_to_json cd cs = Some s \<and> conditions_from_json cd s = Some cs)"

lemma codec_okD:
  assumes "codec_ok cd"
  shows "parse_claim_id cd (claim_id_text cd i) = Some i"
    and "parse_host_id cd (host_id_text cd h) = Some h"
    and "parse_timestamp_text cd (timestamp_text cd t) = Some t"
    and "\<exists>s. conditions_to_json cd cs = Some s \<and> conditions_from_json cd s = Some cs"
  using assms by (auto simp: codec_ok_def)

lemma claim_id_text_inj: "codec_ok cd \<Longrightarrow> claim_id_text cd a = claim_id_text cd b \<longleftrightarrow> a = b"
  by (metis codec_okD(1) option.inject)

lemma host_id_text_inj: "codec_ok cd \<Longrightarrow> host_id_text cd a = host_id_text cd b \<longleftrightarrow> a = b"
  by (metis codec_okD(2) option.inject)

lemma timestamp_text_inj: "codec_ok cd \<Longrightarrow> timestamp_text cd a = timestamp_text cd b \<longleftrightarrow> a = b"
  by (metis codec_okD(3) option.inject)

section \<open>Integers\<close>

definition to_i64 :: "u64 \<Rightarrow> string \<Rightarrow> AppError + i64" where
  "to_i64 value field =
     (if uint value \<le> i64_max then Inr (uint value)
      else Inl (InvalidArgument (field @ '' must not exceed '' @ int_text i64_max)))"

definition to_u64 :: "i64 \<Rightarrow> string \<Rightarrow> string + u64" where
  "to_u64 value field =
     (if 0 \<le> value \<and> value < 2 ^ 64 then Inr (word_of_int value)
      else Inl (''invalid negative '' @ field @ '': '' @ int_text value))"

definition to_u32 :: "i64 \<Rightarrow> string \<Rightarrow> string + u32" where
  "to_u32 value field =
     (if 0 \<le> value \<and> value < 2 ^ 32 then Inr (word_of_int value)
      else Inl (''invalid '' @ field @ '': '' @ int_text value))"

lemma to_i64_Inr_iff: "to_i64 v f = Inr x \<longleftrightarrow> uint v \<le> i64_max \<and> x = uint v"
  by (auto simp: to_i64_def)

lemma to_u64_uint [simp]: "to_u64 (uint v) f = Inr v"
  using uint_lt2p [of v] by (simp add: to_u64_def)

lemma to_u32_uint [simp]: "to_u32 (uint v) f = Inr v"
  using uint_lt2p [of v] by (simp add: to_u32_def)

section \<open>Phases\<close>

definition host_phase_to_db :: "HostPhase \<Rightarrow> string" where
  "host_phase_to_db phase =
     (case phase of
        Pending \<Rightarrow> ''pending''
      | Provisioning \<Rightarrow> ''provisioning''
      | Ready \<Rightarrow> ''ready''
      | Deleting \<Rightarrow> ''deleting''
      | Failed \<Rightarrow> ''failed'')"

definition host_phase_from_db :: "string \<Rightarrow> string + HostPhase" where
  "host_phase_from_db value =
     (if value = ''pending'' then Inr Pending
      else if value = ''provisioning'' then Inr Provisioning
      else if value = ''ready'' then Inr Ready
      else if value = ''deleting'' then Inr Deleting
      else if value = ''failed'' then Inr Failed
      else Inl (''unknown Host phase '' @ debug_text value))"

section \<open>Row readers\<close>

definition parse_timestamp :: "codec \<Rightarrow> string \<Rightarrow> string + Timestamp" where
  "parse_timestamp cd value = ok_or (''parse timestamp '' @ debug_text value) (parse_timestamp_text cd value)"

definition claim_record_from_row :: "codec \<Rightarrow> joined_row \<Rightarrow> string + HostClaimRecord" where
  "claim_record_from_row cd joined =
     (case joined of (row, host_id_column) \<Rightarrow>
      bind_result (ok_or ''uuid'' (parse_claim_id cd (cl_id row))) (\<lambda>claim_id.
      bind_result (traverse_option (\<lambda>t. ok_or ''uuid'' (parse_host_id cd t)) host_id_column) (\<lambda>host_id.
      bind_result (ok_or ''json'' (conditions_from_json cd (cl_conditions_json row))) (\<lambda>conditions.
      bind_result (to_u64 (cl_generation row) ''generation'') (\<lambda>generation.
      bind_result (parse_timestamp cd (cl_created_at row)) (\<lambda>created_at.
      bind_result (traverse_option (parse_timestamp cd) (cl_deletion_timestamp row)) (\<lambda>deletion_timestamp.
      bind_result (to_u32 (cl_vcpus row) ''vcpus'') (\<lambda>vcpus'.
      bind_result (to_u64 (cl_memory_bytes row) ''memory_bytes'') (\<lambda>memory_bytes'.
      bind_result (to_u64 (cl_storage_bytes row) ''storage_bytes'') (\<lambda>storage_bytes'.
      bind_result (to_u64 (cl_observed_generation row) ''observed_generation'') (\<lambda>observed_generation.
      bind_result (to_u32 (cl_retry_attempt row) ''retry_attempt'') (\<lambda>retry_attempt.
      Inr \<lparr>cr_resource =
             \<lparr>hc_id = claim_id, hc_generation = generation, hc_created_at = created_at,
              hc_deletion_timestamp = deletion_timestamp,
              hc_spec = \<lparr>spec_resources =
                \<lparr>vcpus = vcpus', memory_bytes = memory_bytes', storage_bytes = storage_bytes'\<rparr>\<rparr>,
              hc_status = \<lparr>hcs_observed_generation = observed_generation,
                hcs_host_id = host_id, hcs_conditions = conditions\<rparr>\<rparr>,
           cr_retry = \<lparr>attempt = retry_attempt,
             next_reconcile_at_unix_ms = cl_next_reconcile_at_unix_ms row,
             last_error_kind = cl_last_error_kind row,
             last_error_message = cl_last_error_message row\<rparr>\<rparr>))))))))))))"

definition host_record_from_row :: "codec \<Rightarrow> host_row \<Rightarrow> string + HostRecord" where
  "host_record_from_row cd row =
     bind_result (ok_or ''uuid'' (parse_host_id cd (ho_id row))) (\<lambda>host_id.
     bind_result (ok_or ''uuid'' (parse_claim_id cd (ho_claim_id row))) (\<lambda>claim_id.
     bind_result (parse_timestamp cd (ho_created_at row)) (\<lambda>created_at.
     bind_result (to_u32 (ho_vcpus row) ''vcpus'') (\<lambda>vcpus'.
     bind_result (to_u64 (ho_memory_bytes row) ''memory_bytes'') (\<lambda>memory_bytes'.
     bind_result (to_u64 (ho_storage_bytes row) ''storage_bytes'') (\<lambda>storage_bytes'.
     bind_result (host_phase_from_db (ho_phase row)) (\<lambda>phase.
     bind_result (traverse_option (parse_timestamp cd) (ho_observed_at row)) (\<lambda>observed_at.
     bind_result (ok_or ''json'' (conditions_from_json cd (ho_conditions_json row))) (\<lambda>conditions.
     bind_result (to_u32 (ho_retry_attempt row) ''retry_attempt'') (\<lambda>retry_attempt.
     Inr \<lparr>hr_resource =
            \<lparr>h_id = host_id, h_claim_id = claim_id, h_created_at = created_at,
             h_allocatable_resources =
               \<lparr>vcpus = vcpus', memory_bytes = memory_bytes', storage_bytes = storage_bytes'\<rparr>,
             h_status = \<lparr>hs_phase = phase,
               hs_provider_resource_id = ho_provider_resource_id row,
               hs_observed_at = observed_at, hs_conditions = conditions\<rparr>\<rparr>,
          hr_provider_plan_id = ho_provider_plan_id row,
          hr_retry = \<lparr>attempt = retry_attempt,
            next_reconcile_at_unix_ms = ho_next_reconcile_at_unix_ms row,
            last_error_kind = ho_last_error_kind row,
            last_error_message = ho_last_error_message row\<rparr>\<rparr>))))))))))"

section \<open>The rows of records\<close>

text \<open>
  The row a record is stored as, and when its integers fit the columns and their CHECKs. These
  are the specification the INSERT and UPDATE statements are proved against.
\<close>

definition json_text :: "codec \<Rightarrow> Condition list \<Rightarrow> string" where
  "json_text cd cs = (case conditions_to_json cd cs of Some s \<Rightarrow> s | None \<Rightarrow> [])"

definition resources_fit :: "HostResources \<Rightarrow> bool" where
  "resources_fit r \<longleftrightarrow>
     0 < vcpus r \<and> 0 < memory_bytes r \<and> 0 < storage_bytes r
     \<and> uint (memory_bytes r) \<le> i64_max \<and> uint (storage_bytes r) \<le> i64_max"

definition claim_fits :: "HostClaimRecord \<Rightarrow> bool" where
  "claim_fits r \<longleftrightarrow>
     resources_fit (spec_resources (hc_spec (cr_resource r)))
     \<and> 0 < hc_generation (cr_resource r) \<and> uint (hc_generation (cr_resource r)) \<le> i64_max
     \<and> uint (hcs_observed_generation (hc_status (cr_resource r))) \<le> i64_max"

definition host_fits :: "HostRecord \<Rightarrow> bool" where
  "host_fits r \<longleftrightarrow>
     resources_fit (h_allocatable_resources (hr_resource r)) \<and> hr_provider_plan_id r \<noteq> []"

definition encode_claim :: "codec \<Rightarrow> HostClaimRecord \<Rightarrow> claim_row" where
  "encode_claim cd r =
     (let c = cr_resource r; res = spec_resources (hc_spec c); retry = cr_retry r in
      \<lparr>cl_id = claim_id_text cd (hc_id c),
       cl_generation = uint (hc_generation c),
       cl_created_at = timestamp_text cd (hc_created_at c),
       cl_deletion_timestamp = map_option (timestamp_text cd) (hc_deletion_timestamp c),
       cl_vcpus = uint (vcpus res),
       cl_memory_bytes = uint (memory_bytes res),
       cl_storage_bytes = uint (storage_bytes res),
       cl_observed_generation = uint (hcs_observed_generation (hc_status c)),
       cl_conditions_json = json_text cd (hcs_conditions (hc_status c)),
       cl_retry_attempt = uint (attempt retry),
       cl_next_reconcile_at_unix_ms = next_reconcile_at_unix_ms retry,
       cl_last_error_kind = last_error_kind retry,
       cl_last_error_message = last_error_message retry\<rparr>)"

definition encode_host :: "codec \<Rightarrow> HostRecord \<Rightarrow> host_row" where
  "encode_host cd r =
     (let h = hr_resource r; res = h_allocatable_resources h; st = h_status h; retry = hr_retry r in
      \<lparr>ho_id = host_id_text cd (h_id h),
       ho_claim_id = claim_id_text cd (h_claim_id h),
       ho_created_at = timestamp_text cd (h_created_at h),
       ho_vcpus = uint (vcpus res),
       ho_memory_bytes = uint (memory_bytes res),
       ho_storage_bytes = uint (storage_bytes res),
       ho_provider_plan_id = hr_provider_plan_id r,
       ho_phase = host_phase_to_db (hs_phase st),
       ho_provider_resource_id = hs_provider_resource_id st,
       ho_observed_at = map_option (timestamp_text cd) (hs_observed_at st),
       ho_conditions_json = json_text cd (hs_conditions st),
       ho_retry_attempt = uint (attempt retry),
       ho_next_reconcile_at_unix_ms = next_reconcile_at_unix_ms retry,
       ho_last_error_kind = last_error_kind retry,
       ho_last_error_message = last_error_message retry\<rparr>)"

lemma encode_claim_sel [simp]:
  "cl_id (encode_claim cd r) = claim_id_text cd (hc_id (cr_resource r))"
  "cl_deletion_timestamp (encode_claim cd r) =
     map_option (timestamp_text cd) (hc_deletion_timestamp (cr_resource r))"
  by (simp_all add: encode_claim_def Let_def)

lemma encode_host_sel [simp]:
  "ho_id (encode_host cd r) = host_id_text cd (h_id (hr_resource r))"
  "ho_claim_id (encode_host cd r) = claim_id_text cd (h_claim_id (hr_resource r))"
  "ho_provider_plan_id (encode_host cd r) = hr_provider_plan_id r"
  "ho_provider_resource_id (encode_host cd r) = hs_provider_resource_id (h_status (hr_resource r))"
  by (simp_all add: encode_host_def Let_def)

section \<open>Round trips\<close>

text \<open>
  A stored form and its reader: what fits is read back as it was written. Reading a column of a
  whole table, as the list queries do, then succeeds and gives the list that was written.
\<close>

locale row_codec =
  fixes encode :: "'r \<Rightarrow> 'row" and decode :: "'row \<Rightarrow> 'e + 'r" and fits :: "'r \<Rightarrow> bool"
  assumes decode_encode: "fits r \<Longrightarrow> decode (encode r) = Inr r"
begin

lemma encode_inj: "fits a \<Longrightarrow> fits b \<Longrightarrow> encode a = encode b \<Longrightarrow> a = b"
  by (metis decode_encode sum.inject(2))

lemma decode_table: "list_all fits rs \<Longrightarrow> traverse_list decode (map encode rs) = Inr rs"
  by (induction rs) (simp_all add: decode_encode)

lemma decoded_is_encoded:
  assumes "row \<in> encode ` Collect fits" and "decode row = Inr r"
  shows "fits r \<and> row = encode r"
  using assms by (auto simp: decode_encode)

end

lemma phase_round_trip: "host_phase_from_db (host_phase_to_db p) = Inr p"
  by (cases p) (simp_all add: host_phase_from_db_def host_phase_to_db_def)

interpretation phase_column: row_codec host_phase_to_db host_phase_from_db "\<lambda>_. True"
  by unfold_locales (simp add: phase_round_trip)

lemma conditions_from_json_text: "codec_ok cd \<Longrightarrow> conditions_from_json cd (json_text cd cs) = Some cs"
  using codec_okD(4) [of cd cs] by (auto simp: json_text_def)

lemma conditions_to_json_text: "codec_ok cd \<Longrightarrow> conditions_to_json cd cs = Some (json_text cd cs)"
  using codec_okD(4) [of cd cs] by (auto simp: json_text_def)

lemma parse_timestamp_text_of: "codec_ok cd \<Longrightarrow> parse_timestamp cd (timestamp_text cd t) = Inr t"
  by (simp add: parse_timestamp_def codec_okD)

lemma traverse_timestamp:
  "codec_ok cd \<Longrightarrow> traverse_option (parse_timestamp cd) (map_option (timestamp_text cd) t) = Inr t"
  by (cases t) (simp_all add: parse_timestamp_text_of)

lemma traverse_host_id:
  "codec_ok cd \<Longrightarrow>
     traverse_option (\<lambda>t. ok_or e (parse_host_id cd t)) (map_option (host_id_text cd) h) = Inr h"
  by (cases h) (simp_all add: codec_okD)

lemmas codec_simps = codec_okD(1,2) conditions_from_json_text conditions_to_json_text
  parse_timestamp_text_of traverse_timestamp traverse_host_id phase_round_trip

text \<open>The joined column supplies the host of a claim; the claim's own row does not hold it.\<close>

definition with_host :: "HostId option \<Rightarrow> HostClaimRecord \<Rightarrow> HostClaimRecord" where
  "with_host h r = r\<lparr>cr_resource := (cr_resource r)\<lparr>hc_status := (hc_status (cr_resource r))\<lparr>hcs_host_id := h\<rparr>\<rparr>\<rparr>"

lemma claim_round_trip:
  "codec_ok cd \<Longrightarrow>
     claim_record_from_row cd (encode_claim cd r, map_option (host_id_text cd) h) = Inr (with_host h r)"
  by (simp add: claim_record_from_row_def encode_claim_def Let_def codec_simps with_host_def)

lemma host_round_trip: "codec_ok cd \<Longrightarrow> host_record_from_row cd (encode_host cd r) = Inr r"
  by (simp add: host_record_from_row_def encode_host_def Let_def codec_simps)

interpretation claim_table: row_codec
  "\<lambda>r. (encode_claim cd r, map_option (host_id_text cd) (hcs_host_id (hc_status (cr_resource r))))"
  "claim_record_from_row cd" "\<lambda>r. codec_ok cd \<and> claim_fits r" for cd
  by unfold_locales (simp add: claim_round_trip with_host_def)

interpretation host_table: row_codec "encode_host cd" "host_record_from_row cd"
  "\<lambda>r. codec_ok cd \<and> host_fits r" for cd
  by unfold_locales (simp add: host_round_trip)

lemma uint_pos: "0 < uint (w :: 'a::len word) \<longleftrightarrow> 0 < w"
  by (simp add: word_less_def)

lemma claim_fits_check: "claim_fits r \<Longrightarrow> claim_row_check (encode_claim cd r)"
proof -
  assume "claim_fits r"
  moreover have "0 < uint w \<Longrightarrow> 1 \<le> uint w" for w :: u64 by linarith
  ultimately show ?thesis
    by (simp add: claim_fits_def claim_row_check_def encode_claim_def Let_def resources_fit_def
        uint_pos [symmetric])
qed

lemma host_fits_check: "host_fits r \<Longrightarrow> host_row_check (encode_host cd r)"
  by (cases "hs_phase (h_status (hr_resource r))")
    (simp_all add: host_fits_def host_row_check_def encode_host_def Let_def resources_fit_def
      uint_pos host_phase_to_db_def)

section \<open>Well-formed databases\<close>

text \<open>Every row is the stored form of a record, and the keys are unique and resolved.\<close>

definition claim_row_ok :: "codec \<Rightarrow> claim_row \<Rightarrow> bool" where
  "claim_row_ok cd row \<longleftrightarrow> row \<in> encode_claim cd ` Collect claim_fits"

definition host_row_ok :: "codec \<Rightarrow> host_row \<Rightarrow> bool" where
  "host_row_ok cd row \<longleftrightarrow> row \<in> encode_host cd ` Collect host_fits"

definition database_ok :: "codec \<Rightarrow> database \<Rightarrow> bool" where
  "database_ok cd db \<longleftrightarrow>
     keys_ok db
     \<and> (\<forall>row \<in> set (host_claims db). claim_row_ok cd row)
     \<and> (\<forall>row \<in> set (hosts db). host_row_ok cd row)"

lemma database_okD: "database_ok cd db \<Longrightarrow> keys_ok db"
  by (simp add: database_ok_def)

lemma database_ok_empty: "database_ok cd empty_database"
  using keys_ok_empty by (simp add: database_ok_def empty_database_def)

end
