(* ===== verification/Storage.thy ===== *)
theory Storage
  imports Codec
begin

text \<open>
  \<open>crates/control-plane/src/storage.rs\<close>: the operations of \<open>Storage\<close> on the database. The pool has
  one connection, on which an operation makes a sequence of calls: it begins a transaction, sends
  statements to it and commits, or sends one statement to the pool, which commits by itself. Every
  call may fail on its own. What an operation gets from outside (the clock, a generated identifier,
  and which of its calls fail how) is its argument \<open>io\<close>.

  \<open>Storage::connect\<close> with its file lock is in \<open>Process\<close>.
\<close>

section \<open>Calls to the database\<close>

text \<open>
  A call is answered, fails with nothing done, or fails, when only its answer is lost, with its work
  done: for a commit and for a statement on the pool that work is stored.
\<close>

datatype db_fault = Healthy | RolledBack | AppliedThenFailed

abbreviation no_fault :: "nat \<Rightarrow> db_fault" where
  "no_fault \<equiv> \<lambda>_. Healthy"

text \<open>\<open>io_fault io n\<close> is the fate of the \<open>n\<close>-th call of the operation.\<close>

record io =
  io_now :: Timestamp
  io_host_id :: HostId
  io_fault :: "nat \<Rightarrow> db_fault"

text \<open>The connection: what is stored, what the open transaction has made of it, and the calls made.\<close>

record connection =
  cn_stored :: database
  cn_working :: database
  cn_calls :: nat

type_synonym 'a db_call = "(connection, AppError, 'a) oper"
type_synonym 'a db_oper = "(database, AppError, 'a) oper"

definition database_call :: "io \<Rightarrow> (connection \<Rightarrow> string + 'a \<times> connection) \<Rightarrow> 'a db_call" where
  "database_call io f c =
     (let c1 = c\<lparr>cn_calls := Suc (cn_calls c)\<rparr> in
      case io_fault io (cn_calls c) of
        Healthy \<Rightarrow> (case f c1 of Inl e \<Rightarrow> (Inl (internal e), c1) | Inr (x, c2) \<Rightarrow> (Inr x, c2))
      | RolledBack \<Rightarrow> (Inl (internal ''sqlx''), c1)
      | AppliedThenFailed \<Rightarrow>
          (case f c1 of Inl e \<Rightarrow> (Inl (internal e), c1) | Inr (_, c2) \<Rightarrow> (Inl (internal ''sqlx''), c2)))"

definition begin_transaction :: "io \<Rightarrow> unit db_call" where
  "begin_transaction io = database_call io (\<lambda>c. Inr ((), c\<lparr>cn_working := cn_stored c\<rparr>))"

definition commit_transaction :: "io \<Rightarrow> unit db_call" where
  "commit_transaction io = database_call io (\<lambda>c. Inr ((), c\<lparr>cn_stored := cn_working c\<rparr>))"

text \<open>A query and a statement on the transaction, \<open>&mut *transaction\<close>.\<close>

definition query :: "io \<Rightarrow> (database \<Rightarrow> 'a) \<Rightarrow> 'a db_call" where
  "query io q = database_call io (\<lambda>c. Inr (q (cn_working c), c))"

definition execute :: "io \<Rightarrow> (database \<Rightarrow> string + 'a \<times> database) \<Rightarrow> 'a db_call" where
  "execute io statement = database_call io (\<lambda>c.
     case statement (cn_working c) of Inl e \<Rightarrow> Inl e | Inr (x, db) \<Rightarrow> Inr (x, c\<lparr>cn_working := db\<rparr>))"

text \<open>A query and a statement on the pool, \<open>&self.pool\<close>.\<close>

definition query_pool :: "io \<Rightarrow> (database \<Rightarrow> 'a) \<Rightarrow> 'a db_call" where
  "query_pool io q = database_call io (\<lambda>c. Inr (q (cn_stored c), c))"

definition execute_pool :: "io \<Rightarrow> (database \<Rightarrow> string + 'a \<times> database) \<Rightarrow> 'a db_call" where
  "execute_pool io statement = database_call io (\<lambda>c.
     case statement (cn_stored c) of Inl e \<Rightarrow> Inl e | Inr (x, db) \<Rightarrow> Inr (x, c\<lparr>cn_stored := db\<rparr>))"

text \<open>
  An operation leaves what is stored when it returns: a transaction that is still open, after an
  early return or a failed commit, is dropped, which rolls it back.
\<close>

definition on_pool :: "'a db_call \<Rightarrow> 'a db_oper" where
  "on_pool m db = (case m \<lparr>cn_stored = db, cn_working = db, cn_calls = 0\<rparr> of (r, c) \<Rightarrow> (r, cn_stored c))"

section \<open>Validation\<close>

definition validate_resources :: "HostResources \<Rightarrow> AppError + unit" where
  "validate_resources resources =
     (if vcpus resources = 0
      then Inl (InvalidArgument ''vcpus must be greater than zero'')
      else if memory_bytes resources = 0
      then Inl (InvalidArgument ''memory_bytes must be greater than zero'')
      else if storage_bytes resources = 0
      then Inl (InvalidArgument ''storage_bytes must be greater than zero'')
      else bind_result (to_i64 (memory_bytes resources) ''memory_bytes'') (\<lambda>_.
           bind_result (to_i64 (storage_bytes resources) ''storage_bytes'') (\<lambda>_. Inr ())))"

definition validate_host_assignment ::
  "codec \<Rightarrow> HostRecord \<Rightarrow> string \<Rightarrow> HostResources \<Rightarrow> AppError + unit" where
  "validate_host_assignment cd host provider_plan_id resources =
     (if hr_provider_plan_id host \<noteq> provider_plan_id
        \<or> h_allocatable_resources (hr_resource host) \<noteq> resources
      then Inl (Conflict ''HostClaim'' (claim_id_text cd (h_claim_id (hr_resource host)))
        (''the existing Host assignment differs from the resolved provider plan or resources (Host ''
         @ host_id_text cd (h_id (hr_resource host)) @ '')''))
      else Inr ())"

section \<open>HostClaims\<close>

text \<open>The values bound to the INSERT statement of \<open>create_claim\<close>.\<close>

definition claim_insert_values :: "codec \<Rightarrow> HostClaim \<Rightarrow> AppError + claim_row" where
  "claim_insert_values cd claim =
     (let resources = spec_resources (hc_spec claim) in
      bind_result (to_i64 (hc_generation claim) ''generation'') (\<lambda>generation.
      bind_result (to_i64 (memory_bytes resources) ''memory_bytes'') (\<lambda>memory.
      bind_result (to_i64 (storage_bytes resources) ''storage_bytes'') (\<lambda>storage.
      bind_result (to_i64 (hcs_observed_generation (hc_status claim)) ''observed_generation'') (\<lambda>observed.
      bind_result (ok_or (internal ''json'') (conditions_to_json cd (hcs_conditions (hc_status claim)))) (\<lambda>json.
      Inr \<lparr>cl_id = claim_id_text cd (hc_id claim), cl_generation = generation,
           cl_created_at = timestamp_text cd (hc_created_at claim), cl_deletion_timestamp = None,
           cl_vcpus = uint (vcpus resources), cl_memory_bytes = memory, cl_storage_bytes = storage,
           cl_observed_generation = observed, cl_conditions_json = json, cl_retry_attempt = 0,
           cl_next_reconcile_at_unix_ms = None, cl_last_error_kind = None,
           cl_last_error_message = None\<rparr>))))))"

definition create_claim :: "codec \<Rightarrow> io \<Rightarrow> HostClaimId \<Rightarrow> HostClaimSpec \<Rightarrow> HostClaim db_oper" where
  "create_claim cd io claim_id spec =
     on_pool (
       and_then (lift_result (validate_resources (spec_resources spec))) (\<lambda>_.
       and_then (begin_transaction io) (\<lambda>_.
       and_then (query io (\<lambda>db. fetch_claim_row db (claim_id_text cd claim_id))) (\<lambda>found.
       case found of
         Some row \<Rightarrow>
           and_then (lift_result (map_err internal (claim_record_from_row cd row))) (\<lambda>existing.
           if hc_spec (cr_resource existing) = spec
           then and_then (commit_transaction io) (\<lambda>_. ok (cr_resource existing))
           else fail_with (Conflict ''HostClaim'' (claim_id_text cd claim_id)
                  ''the existing claim has a different spec''))
       | None \<Rightarrow>
           (let claim = initial_claim claim_id spec (io_now io) in
            and_then (lift_result (claim_insert_values cd claim)) (\<lambda>row.
            and_then (execute io (\<lambda>db. map_sum (\<lambda>e. e) (\<lambda>db'. ((), db')) (insert_claim_row row db))) (\<lambda>_.
            and_then (commit_transaction io) (\<lambda>_.
            ok claim))))))))"

definition get_claim :: "codec \<Rightarrow> io \<Rightarrow> HostClaimId \<Rightarrow> HostClaimRecord db_oper" where
  "get_claim cd io claim_id =
     on_pool (
       and_then (query_pool io (\<lambda>db. fetch_claim_row db (claim_id_text cd claim_id))) (\<lambda>found.
       and_then (lift_result (ok_or (NotFound ''HostClaim'' (claim_id_text cd claim_id)) found)) (\<lambda>row.
       lift_result (map_err internal (claim_record_from_row cd row)))))"

definition list_claims :: "codec \<Rightarrow> io \<Rightarrow> HostClaimRecord list db_oper" where
  "list_claims cd io =
     on_pool (
       and_then (query_pool io claims_in_order) (\<lambda>rows.
       lift_result (map_err internal (traverse_list (claim_record_from_row cd) rows))))"

text \<open>Writing through the nested fields of a claim record.\<close>

definition update_claim_status ::
  "(HostClaimStatus \<Rightarrow> HostClaimStatus) \<Rightarrow> HostClaimRecord \<Rightarrow> HostClaimRecord" where
  "update_claim_status f r =
     r\<lparr>cr_resource := (cr_resource r)\<lparr>hc_status := f (hc_status (cr_resource r))\<rparr>\<rparr>"

definition observe_generation :: "HostClaimRecord \<Rightarrow> HostClaimRecord" where
  "observe_generation r = update_claim_status
     (\<lambda>s. s\<lparr>hcs_observed_generation := hc_generation (cr_resource r)\<rparr>) r"

definition set_claim_condition :: "HostClaimRecord \<Rightarrow> Condition \<Rightarrow> HostClaimRecord" where
  "set_claim_condition r next = update_claim_status
     (\<lambda>s. s\<lparr>hcs_conditions := snd (set_condition (hcs_conditions s) next)\<rparr>) r"

text \<open>The record \<open>mark_claim_deleting\<close> writes for a claim without a deletion request.\<close>

definition deletion_requested :: "Timestamp \<Rightarrow> HostClaimRecord \<Rightarrow> HostClaimRecord" where
  "deletion_requested now r =
     (let r1 = r\<lparr>cr_resource := (cr_resource r)\<lparr>hc_deletion_timestamp := Some now\<rparr>\<rparr>;
          r2 = observe_generation r1;
          r3 = set_claim_condition r2 (new_condition ''Ready'' StatusFalse ''DeletionRequested''
                 ''The HostClaim is being released.'' (hc_generation (cr_resource r2)) now)
      in r3\<lparr>cr_retry := default_retry\<rparr>)"

definition mark_claim_deleting :: "codec \<Rightarrow> io \<Rightarrow> HostClaimId \<Rightarrow> HostClaim db_oper" where
  "mark_claim_deleting cd io claim_id =
     on_pool (
       and_then (begin_transaction io) (\<lambda>_.
       and_then (query io (\<lambda>db. fetch_claim_row db (claim_id_text cd claim_id))) (\<lambda>found.
       and_then (lift_result (ok_or (NotFound ''HostClaim'' (claim_id_text cd claim_id)) found)) (\<lambda>row.
       and_then (lift_result (map_err internal (claim_record_from_row cd row))) (\<lambda>existing.
       and_then (if hc_deletion_timestamp (cr_resource existing) = None then
         (let record = deletion_requested (io_now io) existing;
              status = hc_status (cr_resource record) in
          and_then (lift_result (to_i64 (hcs_observed_generation status) ''observed_generation'')) (\<lambda>observed.
          and_then (lift_result (ok_or (internal ''json'') (conditions_to_json cd (hcs_conditions status)))) (\<lambda>json.
          and_then (execute io (update_claim_rows
              (\<lambda>r. cl_id r = claim_id_text cd claim_id)
              (\<lambda>r. r\<lparr>cl_deletion_timestamp :=
                       map_option (timestamp_text cd) (hc_deletion_timestamp (cr_resource record)),
                     cl_observed_generation := observed, cl_conditions_json := json,
                     cl_retry_attempt := 0, cl_next_reconcile_at_unix_ms := None,
                     cl_last_error_kind := None, cl_last_error_message := None\<rparr>))) (\<lambda>rows_affected.
          if rows_affected \<noteq> 1
          then fail_with (internal ''HostClaim disappeared while marking deletion'')
          else ok record))))
       else ok existing) (\<lambda>record.
       and_then (commit_transaction io) (\<lambda>_.
       ok (cr_resource record))))))))"

definition save_claim_status :: "codec \<Rightarrow> io \<Rightarrow> HostClaimRecord \<Rightarrow> bool db_oper" where
  "save_claim_status cd io record =
     (let claim = cr_resource record; status = hc_status claim; retry = cr_retry record;
          deletion_timestamp = map_option (timestamp_text cd) (hc_deletion_timestamp claim) in
      on_pool (
      and_then (lift_result (to_i64 (hcs_observed_generation status) ''observed_generation'')) (\<lambda>observed.
      and_then (lift_result (ok_or (internal ''json'') (conditions_to_json cd (hcs_conditions status)))) (\<lambda>json.
      and_then (execute_pool io (update_claim_rows
          (\<lambda>r. cl_id r = claim_id_text cd (hc_id claim) \<and> cl_deletion_timestamp r = deletion_timestamp)
          (\<lambda>r. r\<lparr>cl_observed_generation := observed, cl_conditions_json := json,
                   cl_retry_attempt := uint (attempt retry),
                   cl_next_reconcile_at_unix_ms := next_reconcile_at_unix_ms retry,
                   cl_last_error_kind := last_error_kind retry,
                   cl_last_error_message := last_error_message retry\<rparr>))) (\<lambda>rows_affected.
      ok (rows_affected = 1))))))"

definition finalize_claim :: "codec \<Rightarrow> io \<Rightarrow> HostClaimId \<Rightarrow> unit db_oper" where
  "finalize_claim cd io claim_id =
     on_pool (
       and_then (execute_pool io (\<lambda>db. Inr (delete_claim_row (claim_id_text cd claim_id) db))) (\<lambda>rows_affected.
       if rows_affected = 0
       then fail_with (NotFound ''HostClaim'' (claim_id_text cd claim_id))
       else ok ()))"

section \<open>Hosts\<close>

text \<open>The values bound to the INSERT statement of \<open>ensure_host\<close>.\<close>

definition host_insert_values :: "codec \<Rightarrow> Host \<Rightarrow> string \<Rightarrow> AppError + host_row" where
  "host_insert_values cd host provider_plan_id =
     (let resources = h_allocatable_resources host in
      bind_result (to_i64 (memory_bytes resources) ''memory_bytes'') (\<lambda>memory.
      bind_result (to_i64 (storage_bytes resources) ''storage_bytes'') (\<lambda>storage.
      bind_result (ok_or (internal ''json'') (conditions_to_json cd (hs_conditions (h_status host)))) (\<lambda>json.
      Inr \<lparr>ho_id = host_id_text cd (h_id host), ho_claim_id = claim_id_text cd (h_claim_id host),
           ho_created_at = timestamp_text cd (h_created_at host),
           ho_vcpus = uint (vcpus resources), ho_memory_bytes = memory, ho_storage_bytes = storage,
           ho_provider_plan_id = provider_plan_id, ho_phase = ''pending'',
           ho_provider_resource_id = None, ho_observed_at = None, ho_conditions_json = json,
           ho_retry_attempt = 0, ho_next_reconcile_at_unix_ms = None,
           ho_last_error_kind = None, ho_last_error_message = None\<rparr>))))"

text \<open>The claim \<open>ensure_host\<close> writes beside the new host.\<close>

definition host_assigned :: "codec \<Rightarrow> Host \<Rightarrow> Timestamp \<Rightarrow> HostClaimRecord \<Rightarrow> HostClaimRecord" where
  "host_assigned cd host now r =
     (let r1 = observe_generation (update_claim_status (\<lambda>s. s\<lparr>hcs_host_id := Some (h_id host)\<rparr>) r);
          generation = hc_generation (cr_resource r1);
          r2 = set_claim_condition r1 (new_condition ''Accepted'' StatusTrue ''RequirementsValid''
                 ''The current provider policy can satisfy this claim.'' generation now);
          r3 = set_claim_condition r2 (new_condition ''Bound'' StatusTrue ''HostAssigned''
                 (''Host '' @ host_id_text cd (h_id host) @ '' is assigned.'') generation now)
      in set_claim_condition r3 (new_condition ''Ready'' StatusFalse ''HostNotReady''
           ''The assigned Host is not Ready yet.'' generation now))"

text \<open>The claim's UPDATE of \<open>ensure_host\<close>, after a host row was inserted.\<close>

definition bind_claim :: "codec \<Rightarrow> io \<Rightarrow> HostClaimId \<Rightarrow> Host \<Rightarrow> HostClaimRecord \<Rightarrow> unit db_call" where
  "bind_claim cd io claim_id host claim =
     (let status = hc_status (cr_resource (host_assigned cd host (io_now io) claim)) in
      and_then (lift_result (to_i64 (hcs_observed_generation status) ''observed_generation'')) (\<lambda>observed.
      and_then (lift_result (ok_or (internal ''json'') (conditions_to_json cd (hcs_conditions status)))) (\<lambda>json.
      and_then (execute io (update_claim_rows
          (\<lambda>r. cl_id r = claim_id_text cd claim_id \<and> cl_deletion_timestamp r = None)
          (\<lambda>r. r\<lparr>cl_observed_generation := observed, cl_conditions_json := json,
                 cl_retry_attempt := 0, cl_next_reconcile_at_unix_ms := None,
                 cl_last_error_kind := None, cl_last_error_message := None\<rparr>))) (\<lambda>rows_affected.
      if rows_affected \<noteq> 1
      then fail_with (Conflict ''HostClaim'' (claim_id_text cd claim_id)
             ''the claim changed while assigning a Host'')
      else ok ()))))"

definition read_host :: "codec \<Rightarrow> host_row \<Rightarrow> HostRecord db_call" where
  "read_host cd row = lift_result (map_err internal (host_record_from_row cd row))"

definition ensure_host ::
  "codec \<Rightarrow> io \<Rightarrow> HostClaimId \<Rightarrow> string \<Rightarrow> HostResources \<Rightarrow> HostRecord db_oper" where
  "ensure_host cd io claim_id provider_plan_id resources =
     on_pool (
       and_then (lift_result (validate_resources resources)) (\<lambda>_.
       and_then (begin_transaction io) (\<lambda>_.
       and_then (query io (\<lambda>db. fetch_claim_row db (claim_id_text cd claim_id))) (\<lambda>found.
       and_then (lift_result (ok_or (NotFound ''HostClaim'' (claim_id_text cd claim_id)) found)) (\<lambda>row.
       and_then (lift_result (map_err internal (claim_record_from_row cd row))) (\<lambda>claim.
       if hc_deletion_timestamp (cr_resource claim) \<noteq> None
       then fail_with (Conflict ''HostClaim'' (claim_id_text cd claim_id) ''the claim is being deleted'')
       else
         and_then (query io (\<lambda>db. fetch_host_for_claim_row db (claim_id_text cd claim_id))) (\<lambda>assigned.
         case assigned of
           Some host_row \<Rightarrow>
             and_then (read_host cd host_row) (\<lambda>host.
             and_then (lift_result (validate_host_assignment cd host provider_plan_id resources)) (\<lambda>_.
             and_then (commit_transaction io) (\<lambda>_.
             ok host)))
         | None \<Rightarrow>
             (let host = initial_host (io_host_id io) claim_id resources (io_now io) in
              and_then (lift_result (host_insert_values cd host provider_plan_id)) (\<lambda>new_row.
              and_then (execute io (insert_host_row new_row)) (\<lambda>inserted.
              and_then (if inserted = 1 then bind_claim cd io claim_id host claim else ok ()) (\<lambda>_.
              and_then (query io (\<lambda>db. fetch_host_for_claim_row db (claim_id_text cd claim_id))) (\<lambda>inserted_row.
              and_then (lift_result (ok_or (internal ''Host insert completed without a Host row'') inserted_row)) (\<lambda>host_row.
              and_then (read_host cd host_row) (\<lambda>host.
              and_then (lift_result (validate_host_assignment cd host provider_plan_id resources)) (\<lambda>_.
              and_then (commit_transaction io) (\<lambda>_.
              ok host))))))))))))))))"

definition get_host :: "codec \<Rightarrow> io \<Rightarrow> HostId \<Rightarrow> HostRecord db_oper" where
  "get_host cd io host_id =
     on_pool (
       and_then (query_pool io (\<lambda>db. fetch_host_row db (host_id_text cd host_id))) (\<lambda>found.
       and_then (lift_result (ok_or (NotFound ''Host'' (host_id_text cd host_id)) found)) (\<lambda>row.
       read_host cd row)))"

text \<open>The tests' reader of a claim's host.\<close>

definition get_host_for_claim :: "codec \<Rightarrow> io \<Rightarrow> HostClaimId \<Rightarrow> HostRecord option db_oper" where
  "get_host_for_claim cd io claim_id =
     on_pool (
       and_then (query_pool io (\<lambda>db. fetch_host_for_claim_row db (claim_id_text cd claim_id))) (\<lambda>row.
       lift_result (map_err internal (traverse_option (host_record_from_row cd) row))))"

definition list_hosts :: "codec \<Rightarrow> io \<Rightarrow> HostRecord list db_oper" where
  "list_hosts cd io =
     on_pool (
       and_then (query_pool io hosts_in_order) (\<lambda>rows.
       lift_result (map_err internal (traverse_list (host_record_from_row cd) rows))))"

definition save_host :: "codec \<Rightarrow> io \<Rightarrow> HostRecord \<Rightarrow> unit db_oper" where
  "save_host cd io record =
     (let host = hr_resource record; status = h_status host; retry = hr_retry record in
      on_pool (
      and_then (lift_result (ok_or (internal ''json'') (conditions_to_json cd (hs_conditions status)))) (\<lambda>json.
      and_then (execute_pool io (update_host_rows
          (\<lambda>r. ho_id r = host_id_text cd (h_id host))
          (\<lambda>r. r\<lparr>ho_phase := host_phase_to_db (hs_phase status),
                   ho_provider_resource_id := hs_provider_resource_id status,
                   ho_observed_at := map_option (timestamp_text cd) (hs_observed_at status),
                   ho_conditions_json := json,
                   ho_retry_attempt := uint (attempt retry),
                   ho_next_reconcile_at_unix_ms := next_reconcile_at_unix_ms retry,
                   ho_last_error_kind := last_error_kind retry,
                   ho_last_error_message := last_error_message retry\<rparr>))) (\<lambda>rows_affected.
      if rows_affected = 0
      then fail_with (NotFound ''Host'' (host_id_text cd (h_id host)))
      else ok ()))))"

end
