(* ===== verification/Fake_Provider.thy ===== *)
theory Fake_Provider
  imports Provider Storage
begin

text \<open>
  \<open>crates/control-plane/src/provider/fake.rs\<close>: the provider that keeps plans, resources and
  injected faults in a database of its own. Each SQL statement may fail in the ways of
  \<open>db_fault\<close>; the fault of the n-th statement, the n-th generated UUID and the n-th reading of the
  clock are functions of the environment.
\<close>

section \<open>State\<close>

record plan_row =
  pl_id :: string
  pl_vcpus :: i64
  pl_memory_bytes :: i64
  pl_storage_bytes :: i64
  pl_hourly_price_micros :: i64
  pl_enabled :: i64

record resource_row =
  re_id :: string
  re_host_id :: string
  re_plan_id :: string
  re_lifecycle :: string
  re_created_at :: string

record fake_provider =
  plans :: "plan_row list"
  provider_resources :: "resource_row list"
  faults :: "(string \<times> i64) list"
  statement_count :: nat

record fake_env =
  fk_codec :: codec
  fk_fault :: "nat \<Rightarrow> db_fault"
  fk_uuid :: "nat \<Rightarrow> string"
  fk_now :: "nat \<Rightarrow> Timestamp"

type_synonym 'a fake_oper = "(fake_provider, ProviderError, 'a) oper"

definition FAULT_CREATE_DEFINITIVE :: string where "FAULT_CREATE_DEFINITIVE = ''create_definitive_failure''"
definition FAULT_CREATE_TRANSIENT :: string where "FAULT_CREATE_TRANSIENT = ''create_transient_failure''"
definition FAULT_CREATE_RESPONSE_LOSS :: string where "FAULT_CREATE_RESPONSE_LOSS = ''create_response_loss''"
definition FAULT_DELETE_TRANSIENT :: string where "FAULT_DELETE_TRANSIENT = ''delete_transient_failure''"
definition FAULT_DELETE_RESPONSE_LOSS :: string where "FAULT_DELETE_RESPONSE_LOSS = ''delete_response_loss''"
definition FAULT_OBSERVE_TRANSIENT :: string where "FAULT_OBSERVE_TRANSIENT = ''observe_transient_failure''"

definition definitive :: "string \<Rightarrow> ProviderError" where
  "definitive message = Definitive message"

definition transient :: "string \<Rightarrow> ProviderError" where
  "transient message = Transient message"

text \<open>One statement, or one transaction, sent to the fake's database.\<close>

definition statement ::
  "fake_env \<Rightarrow> (fake_provider \<Rightarrow> string + 'a \<times> fake_provider) \<Rightarrow> 'a fake_oper" where
  "statement E f s =
     (let s1 = s\<lparr>statement_count := Suc (statement_count s)\<rparr> in
      case fk_fault E (statement_count s) of
        RolledBack \<Rightarrow> (Inl (transient ''sqlx''), s1)
      | Healthy \<Rightarrow> (case f s1 of Inl e \<Rightarrow> (Inl (transient e), s1) | Inr (x, s2) \<Rightarrow> (Inr x, s2))
      | AppliedThenFailed \<Rightarrow>
          (case f s1 of Inl e \<Rightarrow> (Inl (transient e), s1) | Inr (_, s2) \<Rightarrow> (Inl (transient ''sqlx''), s2)))"

definition read_table :: "fake_env \<Rightarrow> (fake_provider \<Rightarrow> 'a) \<Rightarrow> 'a fake_oper" where
  "read_table E q = statement E (\<lambda>s. Inr (q s, s))"

section \<open>Operations\<close>

text \<open>The test hook that sets how often an operation will fail.\<close>

definition inject_fault :: "string \<Rightarrow> u32 \<Rightarrow> fake_provider \<Rightarrow> fake_provider" where
  "inject_fault operation count s =
     s\<lparr>faults := (if operation \<in> fst ` set (faults s)
         then update_where (\<lambda>r. fst r = operation) (\<lambda>r. (operation, uint count)) (faults s)
         else faults s @ [(operation, uint count)])\<rparr>"

definition fault_remaining :: "string \<Rightarrow> fake_provider \<Rightarrow> i64" where
  "fault_remaining operation s = (case find (\<lambda>r. fst r = operation) (faults s) of None \<Rightarrow> 0 | Some r \<Rightarrow> snd r)"

definition consume_fault :: "fake_env \<Rightarrow> string \<Rightarrow> bool fake_oper" where
  "consume_fault E operation =
     statement E (\<lambda>s.
       let remaining = fault_remaining operation s in
       if remaining = 0 then Inr (False, s)
       else if remaining - 1 < 0 then Inl ''constraint failed''
       else Inr (True, s\<lparr>faults :=
              update_where (\<lambda>r. fst r = operation) (\<lambda>r. (fst r, snd r - 1)) (faults s)\<rparr>))"

text \<open>The tests' count of the resources held.\<close>

definition resource_count :: "fake_env \<Rightarrow> i64 fake_oper" where
  "resource_count E = read_table E (\<lambda>s. int (length (provider_resources s)))"

definition lifecycle_from_db :: "string \<Rightarrow> ProviderError + ProviderLifecycle" where
  "lifecycle_from_db value =
     (if value = ''provisioning'' then Inr LifecycleProvisioning
      else if value = ''ready'' then Inr LifecycleReady
      else if value = ''deleting'' then Inr LifecycleDeleting
      else Inl (transient (''unknown fake provider lifecycle '' @ debug_text value)))"

definition resource_from_row :: "codec \<Rightarrow> resource_row \<Rightarrow> ProviderError + ProviderResource" where
  "resource_from_row cd row =
     bind_result (ok_or (transient ''uuid'') (parse_host_id cd (re_host_id row))) (\<lambda>host_id.
     bind_result (lifecycle_from_db (re_lifecycle row)) (\<lambda>lifecycle.
     Inr \<lparr>pr_id = re_id row, pr_host_id = host_id, pr_lifecycle = lifecycle\<rparr>))"

definition find_resource :: "codec \<Rightarrow> fake_provider \<Rightarrow> HostId \<Rightarrow> resource_row option" where
  "find_resource cd s host_id = find (\<lambda>r. re_host_id r = host_id_text cd host_id) (provider_resources s)"

definition resource_by_host :: "fake_env \<Rightarrow> HostId \<Rightarrow> ProviderResource option fake_oper" where
  "resource_by_host E host_id =
     and_then (read_table E (\<lambda>s. find_resource (fk_codec E) s host_id)) (\<lambda>row.
     lift_result (traverse_option (resource_from_row (fk_codec E)) row))"

text \<open>\<open>u32::try_from\<close> and \<open>u64::try_from\<close> of an \<open>i64\<close> column.\<close>

definition u32_try_from :: "i64 \<Rightarrow> ProviderError + u32" where
  "u32_try_from v = (if 0 \<le> v \<and> v < 2 ^ 32 then Inr (word_of_int v) else Inl (transient ''try_from''))"

definition u64_try_from :: "i64 \<Rightarrow> ProviderError + u64" where
  "u64_try_from v = (if 0 \<le> v then Inr (word_of_int v) else Inl (transient ''try_from''))"

definition plan_from_row :: "plan_row \<Rightarrow> ProviderError + Plan" where
  "plan_from_row row =
     bind_result (u32_try_from (pl_vcpus row)) (\<lambda>vcpus'.
     bind_result (u64_try_from (pl_memory_bytes row)) (\<lambda>memory.
     bind_result (u64_try_from (pl_storage_bytes row)) (\<lambda>storage.
     Inr \<lparr>plan_id = pl_id row, plan_resources =
       \<lparr>vcpus = vcpus', memory_bytes = memory, storage_bytes = storage\<rparr>\<rparr>)))"

text \<open>The row \<open>select_plan\<close>'s query returns: the first of the enabled, sufficient plans in order.\<close>

definition plan_order :: "plan_row \<Rightarrow> int \<times> int \<times> int \<times> int \<times> string" where
  "plan_order r = (pl_hourly_price_micros r, pl_memory_bytes r, pl_storage_bytes r, pl_vcpus r, pl_id r)"

definition cheapest_plan :: "int \<Rightarrow> int \<Rightarrow> int \<Rightarrow> plan_row list \<Rightarrow> plan_row option" where
  "cheapest_plan cpus memory storage rows =
     (case sort_key plan_order (filter (\<lambda>r. pl_enabled r = 1 \<and> cpus \<le> pl_vcpus r
            \<and> memory \<le> pl_memory_bytes r \<and> storage \<le> pl_storage_bytes r) rows) of
        [] \<Rightarrow> None
      | r # _ \<Rightarrow> Some r)"

definition fake_select_plan :: "fake_env \<Rightarrow> HostResources \<Rightarrow> Plan option fake_oper" where
  "fake_select_plan E requirements =
     (if i64_max < uint (memory_bytes requirements)
      then fail_with (definitive ''memory requirement exceeds SQLite range'')
      else if i64_max < uint (storage_bytes requirements)
      then fail_with (definitive ''storage requirement exceeds SQLite range'')
      else and_then (read_table E (\<lambda>s. cheapest_plan (uint (vcpus requirements))
             (uint (memory_bytes requirements)) (uint (storage_bytes requirements)) (plans s))) (\<lambda>row.
           lift_result (traverse_option plan_from_row row)))"

definition fake_observe :: "fake_env \<Rightarrow> HostId \<Rightarrow> ProviderObservation fake_oper" where
  "fake_observe E host_id =
     and_then (consume_fault E FAULT_OBSERVE_TRANSIENT) (\<lambda>fault.
     if fault then fail_with (transient ''injected observation failure'')
     else and_then (resource_by_host E host_id) (\<lambda>found.
          ok (case found of None \<Rightarrow> Absent | Some resource \<Rightarrow> Present resource)))"

text \<open>\<open>INSERT INTO provider_resources\<close>, with the keys, the reference to plans and the CHECK.\<close>

definition insert_resource_row :: "resource_row \<Rightarrow> fake_provider \<Rightarrow> string + unit \<times> fake_provider" where
  "insert_resource_row row s =
     (if re_id row \<notin> re_id ` set (provider_resources s)
        \<and> re_host_id row \<notin> re_host_id ` set (provider_resources s)
        \<and> re_plan_id row \<in> pl_id ` set (plans s)
        \<and> re_lifecycle row \<in> {''provisioning'', ''ready'', ''deleting''}
      then Inr ((), s\<lparr>provider_resources := provider_resources s @ [row]\<rparr>)
      else Inl ''constraint failed'')"

definition fake_create :: "fake_env \<Rightarrow> HostId \<Rightarrow> string \<Rightarrow> CreateOutcome fake_oper" where
  "fake_create E host_id plan_id' =
     and_then (consume_fault E FAULT_CREATE_DEFINITIVE) (\<lambda>fault.
     if fault then fail_with (definitive ''injected definitive create failure'')
     else and_then (consume_fault E FAULT_CREATE_TRANSIENT) (\<lambda>fault.
     if fault then fail_with (transient ''injected transient create failure'')
     else and_then (resource_by_host E host_id) (\<lambda>found.
     case found of
       Some existing \<Rightarrow>
         and_then (read_table E (\<lambda>s. map_option re_plan_id (find_resource (fk_codec E) s host_id))) (\<lambda>row.
         and_then (lift_result (ok_or (transient ''row not found'') row)) (\<lambda>existing_plan.
         if existing_plan \<noteq> plan_id'
         then fail_with (definitive (''Host '' @ host_id_text (fk_codec E) host_id
                @ '' already owns a provider resource with plan '' @ debug_text existing_plan
                @ '', not '' @ debug_text plan_id'))
         else ok (Created existing)))
     | None \<Rightarrow>
         and_then (read_table E (\<lambda>s. length (filter (\<lambda>r. pl_id r = plan_id' \<and> pl_enabled r = 1) (plans s)))) (\<lambda>plan_exists.
         if plan_exists \<noteq> 1
         then fail_with (definitive (''unknown or disabled provider plan '' @ debug_text plan_id'))
         else and_then (consume_fault E FAULT_CREATE_RESPONSE_LOSS) (\<lambda>lose_response s.
           let resource = \<lparr>pr_id = ''fake-'' @ fk_uuid E (statement_count s), pr_host_id = host_id,
                 pr_lifecycle = LifecycleReady\<rparr>;
               row = \<lparr>re_id = pr_id resource, re_host_id = host_id_text (fk_codec E) host_id,
                 re_plan_id = plan_id', re_lifecycle = ''ready'',
                 re_created_at = timestamp_text (fk_codec E) (fk_now E (statement_count s))\<rparr> in
           and_then (statement E (insert_resource_row row)) (\<lambda>_.
           if lose_response then ok CreateOutcomeUnknown else ok (Created resource)) s)))))"

definition fake_delete :: "fake_env \<Rightarrow> HostId \<Rightarrow> DeleteOutcome fake_oper" where
  "fake_delete E host_id =
     and_then (consume_fault E FAULT_DELETE_TRANSIENT) (\<lambda>fault.
     if fault then fail_with (transient ''injected transient delete failure'')
     else and_then (consume_fault E FAULT_DELETE_RESPONSE_LOSS) (\<lambda>lose_response.
     and_then (statement E (\<lambda>s. Inr ((), s\<lparr>provider_resources :=
         filter (\<lambda>r. re_host_id r \<noteq> host_id_text (fk_codec E) host_id) (provider_resources s)\<rparr>))) (\<lambda>_.
     if lose_response then ok DeleteOutcomeUnknown else ok Deleted)))"

definition FakeProvider :: "fake_env \<Rightarrow> fake_provider host_provider" where
  "FakeProvider E = \<lparr>select_plan = fake_select_plan E, observe = fake_observe E,
     create_resource = fake_create E, delete_resource = fake_delete E\<rparr>"

section \<open>The catalog\<close>

definition catalog :: "plan_row list" where
  "catalog =
     [\<lparr>pl_id = ''fake-2c-4g-40g'', pl_vcpus = 2, pl_memory_bytes = push_bit 30 4,
       pl_storage_bytes = push_bit 30 40, pl_hourly_price_micros = 10000, pl_enabled = 1\<rparr>,
      \<lparr>pl_id = ''fake-4c-8g-80g'', pl_vcpus = 4, pl_memory_bytes = push_bit 30 8,
       pl_storage_bytes = push_bit 30 80, pl_hourly_price_micros = 20000, pl_enabled = 1\<rparr>,
      \<lparr>pl_id = ''fake-8c-16g-160g'', pl_vcpus = 8, pl_memory_bytes = push_bit 30 16,
       pl_storage_bytes = push_bit 30 160, pl_hourly_price_micros = 40000, pl_enabled = 1\<rparr>]"

text \<open>\<open>INSERT INTO plans .. ON CONFLICT(id) DO UPDATE SET ..\<close>\<close>

definition upsert_plan :: "plan_row \<Rightarrow> plan_row list \<Rightarrow> plan_row list" where
  "upsert_plan row rows =
     (if pl_id row \<in> pl_id ` set rows
      then update_where (\<lambda>r. pl_id r = pl_id row) (\<lambda>_. row) rows
      else rows @ [row])"

definition seed_catalog :: "fake_provider \<Rightarrow> fake_provider" where
  "seed_catalog s = s\<lparr>plans := fold upsert_plan catalog (plans s)\<rparr>"

definition empty_fake_provider :: fake_provider where
  "empty_fake_provider = \<lparr>plans = [], provider_resources = [], faults = [], statement_count = 0\<rparr>"

end
