(* ===== verification/Fake_Provider_Spec.thy ===== *)
theory Fake_Provider_Spec
  imports Fake_Provider
begin

text \<open>
  What the fake provider does for the contract of \<open>HostProvider\<close>: what it owns is read off its resource
  table, every operation is followed through its statements by triples over the two tables that
  matter, and plan selection is shown to be the least sufficient plan. \<open>Fake_Provider_Contract\<close>
  interprets the contract on these facts.
\<close>

section \<open>What the fake owns\<close>

definition fake_owned :: "fake_env \<Rightarrow> fake_provider \<Rightarrow> HostId \<Rightarrow> (ProviderResource \<times> string) option" where
  "fake_owned E s h =
     (case find_resource (fk_codec E) s h of
        None \<Rightarrow> None
      | Some row \<Rightarrow> (case resource_from_row (fk_codec E) row of
          Inl _ \<Rightarrow> None
        | Inr res \<Rightarrow> Some (res, re_plan_id row)))"

definition resource_row_ok :: "codec \<Rightarrow> resource_row \<Rightarrow> bool" where
  "resource_row_ok cd row \<longleftrightarrow>
     (\<exists>h. re_host_id row = host_id_text cd h)
     \<and> re_lifecycle row \<in> {''provisioning'', ''ready'', ''deleting''}"

definition plan_row_ok :: "plan_row \<Rightarrow> bool" where
  "plan_row_ok r \<longleftrightarrow>
     0 < pl_vcpus r \<and> pl_vcpus r < 2 ^ 32
     \<and> 0 < pl_memory_bytes r \<and> pl_memory_bytes r \<le> i64_max
     \<and> 0 < pl_storage_bytes r \<and> pl_storage_bytes r \<le> i64_max"

definition fake_sane :: "fake_env \<Rightarrow> fake_provider \<Rightarrow> bool" where
  "fake_sane E s \<longleftrightarrow>
     codec_ok (fk_codec E)
     \<and> (\<forall>row \<in> set (provider_resources s). resource_row_ok (fk_codec E) row)
     \<and> distinct (map re_host_id (provider_resources s))
     \<and> (\<forall>r \<in> set (plans s). plan_row_ok r)"

definition tables :: "fake_provider \<Rightarrow> plan_row list \<times> resource_row list" where
  "tables s = (plans s, provider_resources s)"

lemma tables_sel [simp]:
  "tables (s\<lparr>statement_count := n\<rparr>) = tables s"
  "tables (s\<lparr>faults := f\<rparr>) = tables s"
  by (simp_all add: tables_def)

lemma tables_sane: "tables s' = tables s \<Longrightarrow> fake_sane E s' = fake_sane E s"
  by (simp add: tables_def fake_sane_def)

lemma tables_owned: "tables s' = tables s \<Longrightarrow> fake_owned E s' = fake_owned E s"
  by (simp add: tables_def fake_owned_def find_resource_def fun_eq_iff)

lemma find_resource_tables: "tables s' = tables s \<Longrightarrow> find_resource cd s' h = find_resource cd s h"
  by (simp add: tables_def find_resource_def)

lemma resource_row_decodes:
  assumes "codec_ok cd" and "resource_row_ok cd row" and "re_host_id row = host_id_text cd h"
  obtains lc where "resource_from_row cd row = Inr \<lparr>pr_id = re_id row, pr_host_id = h, pr_lifecycle = lc\<rparr>"
  using assms by (auto simp: resource_row_ok_def resource_from_row_def codec_simps lifecycle_from_db_def)

lemma fake_owned_None_iff:
  "fake_sane E s \<Longrightarrow> fake_owned E s h = None \<longleftrightarrow> find_resource (fk_codec E) s h = None"
  by (auto simp: fake_owned_def find_resource_def fake_sane_def split: option.splits
      dest!: find_SomeD elim!: resource_row_decodes)

lemma fake_owned_row:
  assumes sane: "fake_sane E s" and row: "row \<in> set (provider_resources s)"
  obtains h res plan where "re_host_id row = host_id_text (fk_codec E) h" and "fake_owned E s h = Some (res, plan)"
proof -
  obtain h where h: "re_host_id row = host_id_text (fk_codec E) h"
    using assms by (auto simp: fake_sane_def resource_row_ok_def)
  then have "find_resource (fk_codec E) s h \<noteq> None"
    using row by (auto simp: find_resource_def find_None_iff)
  then obtain x where "fake_owned E s h = Some x" using fake_owned_None_iff [OF sane, of h] by auto
  then show ?thesis using that [OF h] by (cases x) simp
qed

section \<open>Triples of the statements\<close>

lemma statement_triple:
  assumes "\<And>s x s'. tables s = T \<Longrightarrow> f s = Inr (x, s') \<Longrightarrow> Q x s' \<and> R s'"
    and "\<And>s. tables s = T \<Longrightarrow> R s"
  shows "triple (\<lambda>s. tables s = T) (statement E f) Q R"
  unfolding triple_def
proof (intro allI impI)
  fix s assume T: "tables s = T"
  let ?s1 = "s\<lparr>statement_count := Suc (statement_count s)\<rparr>"
  have T1: "tables ?s1 = T" using T by simp
  show "case statement E f s of (Inl e, s') \<Rightarrow> R s' | (Inr x, s') \<Rightarrow> Q x s'"
    using assms(1) [OF T1] assms(2) [OF T1]
    by (cases "f ?s1") (auto simp: statement_def Let_def split: db_fault.splits)
qed

lemma consume_fault_triple:
  assumes "\<And>s. tables s = T \<Longrightarrow> R s"
  shows "triple (\<lambda>s. tables s = T) (consume_fault E operation) (\<lambda>_ s. tables s = T) R"
  unfolding consume_fault_def
  by (rule statement_triple) (auto simp: Let_def assms split: if_splits)

lemma read_table_triple:
  assumes "\<And>s. tables s = T \<Longrightarrow> q s = v" and "\<And>s. tables s = T \<Longrightarrow> R s"
  shows "triple (\<lambda>s. tables s = T) (read_table E q) (\<lambda>x s. x = v \<and> tables s = T) R"
  unfolding read_table_def using assms by (intro statement_triple) auto

lemma resource_by_host_triple:
  assumes "tables s0 = T" and "\<And>s. tables s = T \<Longrightarrow> R s"
  shows "triple (\<lambda>s. tables s = T) (resource_by_host E h)
    (\<lambda>x s. traverse_option (resource_from_row (fk_codec E)) (find_resource (fk_codec E) s0 h) = Inr x
       \<and> tables s = T) R"
  unfolding resource_by_host_def
  by (rule triple_and_then [OF read_table_triple [where v = "find_resource (fk_codec E) s0 h"]])
    (auto intro!: find_resource_tables triple_pure triple_lift assms simp: assms)

lemma fake_select_plan_triple:
  assumes "tables s0 = T"
  shows "triple (\<lambda>s. tables s = T) (fake_select_plan E req)
    (\<lambda>x s. traverse_option plan_from_row (cheapest_plan (uint (vcpus req))
         (uint (memory_bytes req)) (uint (storage_bytes req)) (plans s0)) = Inr x \<and> tables s = T)
    (\<lambda>s. tables s = T)"
  unfolding fake_select_plan_def
  by (intro triple_if triple_fail triple_and_then [OF read_table_triple [where v =
        "cheapest_plan (uint (vcpus req)) (uint (memory_bytes req)) (uint (storage_bytes req)) (plans s0)"]])
    (use assms in \<open>auto intro!: triple_pure triple_lift simp: tables_def\<close>)

lemma fake_observe_triple:
  assumes "tables s0 = T" and "fake_sane E s0"
  shows "triple (\<lambda>s. tables s = T) (fake_observe E h)
    (\<lambda>x s. tables s = T \<and> (case x of Absent \<Rightarrow> fake_owned E s0 h = None
       | Present res \<Rightarrow> \<exists>plan. fake_owned E s0 h = Some (res, plan))) (\<lambda>s. tables s = T)"
  unfolding fake_observe_def
proof (intro triple_and_then [OF consume_fault_triple] triple_if triple_fail
    triple_and_then [OF resource_by_host_triple [OF assms(1)]] triple_pure)
  fix x
  assume x: "traverse_option (resource_from_row (fk_codec E)) (find_resource (fk_codec E) s0 h) = Inr x"
  then have "x = None \<Longrightarrow> fake_owned E s0 h = None"
    using assms(2) by (auto simp: fake_owned_None_iff traverse_option_def split: option.splits sum.splits)
  moreover have "\<exists>plan. fake_owned E s0 h = Some (res, plan)" if "x = Some res" for res
    using x that by (auto simp: fake_owned_def traverse_option_def split: option.splits sum.splits)
  ultimately show "triple (\<lambda>s. tables s = T)
      (ok (case x of None \<Rightarrow> Absent | Some resource \<Rightarrow> Present resource))
      (\<lambda>x s. tables s = T \<and> (case x of Absent \<Rightarrow> fake_owned E s0 h = None
         | Present res \<Rightarrow> \<exists>plan. fake_owned E s0 h = Some (res, plan))) (\<lambda>s. tables s = T)"
    by (intro triple_ok) (auto split: option.splits)
qed simp_all

section \<open>Creating\<close>

text \<open>What a create may have done to the tables: nothing, or one new row for the host.\<close>

definition created_tables ::
  "fake_env \<Rightarrow> HostId \<Rightarrow> string \<Rightarrow> plan_row list \<times> resource_row list \<Rightarrow> string \<Rightarrow> plan_row list \<times> resource_row list \<Rightarrow> bool" where
  "created_tables E h plan T rid T' \<longleftrightarrow>
     host_id_text (fk_codec E) h \<notin> re_host_id ` set (snd T)
     \<and> (\<exists>at. T' = (fst T, snd T @ [\<lparr>re_id = rid, re_host_id = host_id_text (fk_codec E) h,
           re_plan_id = plan, re_lifecycle = ''ready'', re_created_at = at\<rparr>]))"

definition ready_resource :: "string \<Rightarrow> HostId \<Rightarrow> ProviderResource" where
  "ready_resource rid h = \<lparr>pr_id = rid, pr_host_id = h, pr_lifecycle = LifecycleReady\<rparr>"

lemma insert_step_triple:
  "triple (\<lambda>s. tables s = T)
     (\<lambda>s. let resource = \<lparr>pr_id = ''fake-'' @ fk_uuid E (statement_count s), pr_host_id = h,
           pr_lifecycle = LifecycleReady\<rparr>;
         row = \<lparr>re_id = pr_id resource, re_host_id = host_id_text (fk_codec E) h,
           re_plan_id = plan, re_lifecycle = ''ready'',
           re_created_at = timestamp_text (fk_codec E) (fk_now E (statement_count s))\<rparr> in
       and_then (statement E (insert_resource_row row)) (\<lambda>_.
       if lose_response then ok CreateOutcomeUnknown else ok (Created resource)) s)
     (\<lambda>x s. \<exists>rid. created_tables E h plan T rid (tables s)
        \<and> (\<forall>res. x = Created res \<longrightarrow> res = ready_resource rid h))
     (\<lambda>s. tables s = T \<or> (\<exists>rid. created_tables E h plan T rid (tables s)))"
  (is "triple ?P ?m ?Q ?R")
  unfolding triple_def
proof (intro allI impI)
  fix s assume T: "tables s = T"
  let ?rid = "''fake-'' @ fk_uuid E (statement_count s)"
  let ?row = "\<lparr>re_id = ?rid, re_host_id = host_id_text (fk_codec E) h, re_plan_id = plan,
      re_lifecycle = ''ready'', re_created_at = timestamp_text (fk_codec E) (fk_now E (statement_count s))\<rparr>"
  have ins: "created_tables E h plan T ?rid (tables s2)"
    if "insert_resource_row ?row s1 = Inr (u, s2)" "tables s1 = T" for s1 s2 u
    using that by (auto simp: insert_resource_row_def created_tables_def tables_def split: if_splits)
  have "triple (\<lambda>s. tables s = T) (statement E (insert_resource_row ?row))
      (\<lambda>_ s. created_tables E h plan T ?rid (tables s)) ?R"
    using ins by (intro statement_triple) blast+
  then have "triple (\<lambda>s. tables s = T) (and_then (statement E (insert_resource_row ?row)) (\<lambda>_.
      if lose_response then ok CreateOutcomeUnknown else ok (Created (ready_resource ?rid h)))) ?Q ?R"
    by (rule triple_and_then) (auto intro!: triple_if triple_ok)
  from this [unfolded triple_def, rule_format, OF T]
  show "case ?m s of (Inl e, s') \<Rightarrow> ?R s' | (Inr x, s') \<Rightarrow> ?Q x s'"
    by (simp only: Let_def ready_resource_def ProviderResource.simps)
qed

lemma fake_create_triple:
  assumes T: "tables s0 = T" and sane: "fake_sane E s0"
  shows "triple (\<lambda>s. tables s = T) (fake_create E h plan)
    (\<lambda>x s. tables s = T \<and> (\<exists>res. x = Created res \<and> fake_owned E s0 h = Some (res, plan))
       \<or> (\<exists>rid. created_tables E h plan T rid (tables s) \<and> (\<forall>res. x = Created res \<longrightarrow> res = ready_resource rid h)))
    (\<lambda>s. tables s = T \<or> (\<exists>rid. created_tables E h plan T rid (tables s)))"
  (is "triple ?P _ ?Q ?R")
  unfolding fake_create_def
proof (intro triple_and_then [OF consume_fault_triple] triple_if triple_fail
    triple_and_then [OF resource_by_host_triple [OF T]] triple_pure)
  fix found
  assume found: "traverse_option (resource_from_row (fk_codec E)) (find_resource (fk_codec E) s0 h) = Inr found"
  show "triple ?P
     (case found of
       None \<Rightarrow>
         and_then (read_table E (\<lambda>s. length (filter (\<lambda>r. pl_id r = plan \<and> pl_enabled r = 1) (plans s)))) (\<lambda>plan_exists.
         if plan_exists \<noteq> 1
         then fail_with (definitive (''unknown or disabled provider plan '' @ debug_text plan))
         else and_then (consume_fault E FAULT_CREATE_RESPONSE_LOSS) (\<lambda>lose_response s.
           let resource = \<lparr>pr_id = ''fake-'' @ fk_uuid E (statement_count s), pr_host_id = h,
                 pr_lifecycle = LifecycleReady\<rparr>;
               row = \<lparr>re_id = pr_id resource, re_host_id = host_id_text (fk_codec E) h,
                 re_plan_id = plan, re_lifecycle = ''ready'',
                 re_created_at = timestamp_text (fk_codec E) (fk_now E (statement_count s))\<rparr> in
           and_then (statement E (insert_resource_row row)) (\<lambda>_.
           if lose_response then ok CreateOutcomeUnknown else ok (Created resource)) s))
     | Some existing \<Rightarrow>
         and_then (read_table E (\<lambda>s. map_option re_plan_id (find_resource (fk_codec E) s h))) (\<lambda>row.
         and_then (lift_result (ok_or (transient ''row not found'') row)) (\<lambda>existing_plan.
         if existing_plan \<noteq> plan
         then fail_with (definitive (''Host '' @ host_id_text (fk_codec E) h
                @ '' already owns a provider resource with plan '' @ debug_text existing_plan
                @ '', not '' @ debug_text plan))
         else ok (Created existing))))
     ?Q ?R"
  proof (cases found)
    case None
    have count: "length (filter (\<lambda>r. pl_id r = plan \<and> pl_enabled r = 1) (plans s)) =
        length (filter (\<lambda>r. pl_id r = plan \<and> pl_enabled r = 1) (fst T))" if "tables s = T" for s
      using that by (auto simp: tables_def)
    show ?thesis
      unfolding None option.case
      by (intro triple_and_then [OF read_table_triple [OF count]] triple_pure
          triple_if triple_fail triple_and_then [OF consume_fault_triple]
          triple_weaken [OF insert_step_triple [of T E h plan]])
        (assumption | blast)+
  next
    case (Some existing)
    have row: "map_option re_plan_id (find_resource (fk_codec E) s h) =
        map_option re_plan_id (find_resource (fk_codec E) s0 h)" if "tables s = T" for s
      using that T find_resource_tables [of s s0] by simp
    have owned: "fake_owned E s0 h = Some (existing, p)"
      if "ok_or (transient e) (map_option re_plan_id (find_resource (fk_codec E) s0 h)) = Inr p" for p e
      using that Some found
      by (auto simp: fake_owned_def traverse_option_def ok_or_def split: option.splits sum.splits)
    show ?thesis
      unfolding Some option.case
      by (intro triple_and_then [OF read_table_triple [OF row]] triple_pure
          triple_and_then [OF triple_lift] triple_if triple_fail triple_ok)
        (use owned in auto)
  qed
qed auto

text \<open>What those tables mean for ownership: the host now owns the resource of the plan asked for.\<close>

lemma created_tables_effect:
  assumes sane: "fake_sane E s" and created: "created_tables E h plan (tables s) rid (tables s')"
  shows "fake_sane E s'" and "fake_owned E s h = None"
    and "fake_owned E s' h = Some (ready_resource rid h, plan)"
    and "h' \<noteq> h \<Longrightarrow> fake_owned E s' h' = fake_owned E s h'"
proof -
  let ?row = "\<lambda>at. \<lparr>re_id = rid, re_host_id = host_id_text (fk_codec E) h, re_plan_id = plan,
      re_lifecycle = ''ready'', re_created_at = at\<rparr>"
  obtain at where new: "host_id_text (fk_codec E) h \<notin> re_host_id ` set (provider_resources s)"
      and s': "plans s' = plans s" "provider_resources s' = provider_resources s @ [?row at]"
    using created by (auto simp: created_tables_def tables_def)
  have cd: "codec_ok (fk_codec E)" using sane by (simp add: fake_sane_def)
  show "fake_sane E s'"
    using sane s' new by (auto simp: fake_sane_def resource_row_ok_def)
  have none: "find_resource (fk_codec E) s h = None"
    using new by (auto simp: find_resource_def find_None_iff image_iff)
  then show "fake_owned E s h = None" by (simp add: fake_owned_def)
  have find_append: "find p (xs @ [y]) = (case find p xs of None \<Rightarrow> if p y then Some y else None | Some x \<Rightarrow> Some x)"
    for p :: "resource_row \<Rightarrow> bool" and xs y by (induction xs) auto
  have found: "find_resource (fk_codec E) s' h = Some (?row at)"
    using none s' by (simp add: find_resource_def find_append)
  then show "fake_owned E s' h = Some (ready_resource rid h, plan)"
    using cd by (simp add: fake_owned_def resource_from_row_def codec_simps lifecycle_from_db_def
        ready_resource_def)
  show "fake_owned E s' h' = fake_owned E s h'" if "h' \<noteq> h"
    using that s' cd host_id_text_inj [of "fk_codec E" h h']
    by (simp add: fake_owned_def find_resource_def find_append split: option.splits)
qed

section \<open>Deleting\<close>

definition removed_tables ::
  "fake_env \<Rightarrow> HostId \<Rightarrow> plan_row list \<times> resource_row list \<Rightarrow> plan_row list \<times> resource_row list" where
  "removed_tables E h T =
     (fst T, filter (\<lambda>r. re_host_id r \<noteq> host_id_text (fk_codec E) h) (snd T))"

lemma fake_delete_triple:
  "triple (\<lambda>s. tables s = T) (fake_delete E h)
    (\<lambda>x s. tables s = removed_tables E h T) (\<lambda>s. tables s = T \<or> tables s = removed_tables E h T)"
proof -
  have "triple (\<lambda>s. tables s = T) (statement E (\<lambda>s. Inr ((), s\<lparr>provider_resources :=
         filter (\<lambda>r. re_host_id r \<noteq> host_id_text (fk_codec E) h) (provider_resources s)\<rparr>)))
     (\<lambda>_ s. tables s = removed_tables E h T) (\<lambda>s. tables s = T \<or> tables s = removed_tables E h T)"
    by (rule statement_triple) (auto simp: tables_def removed_tables_def)
  then show ?thesis
    unfolding fake_delete_def
    by (intro triple_and_then [OF consume_fault_triple] triple_if triple_fail triple_ok
        triple_and_then [where Q = "\<lambda>_ s. tables s = removed_tables E h T"]) auto
qed

lemma removed_tables_effect:
  assumes sane: "fake_sane E s" and removed: "tables s' = removed_tables E h (tables s)"
  shows "fake_sane E s'" and "fake_owned E s' h = None"
    and "h' \<noteq> h \<Longrightarrow> fake_owned E s' h' = fake_owned E s h'"
proof -
  have s': "plans s' = plans s" "provider_resources s' =
      filter (\<lambda>r. re_host_id r \<noteq> host_id_text (fk_codec E) h) (provider_resources s)"
    using removed by (auto simp: removed_tables_def tables_def)
  have cd: "codec_ok (fk_codec E)" using sane by (simp add: fake_sane_def)
  show "fake_sane E s'"
    using sane s' by (auto simp: fake_sane_def distinct_map_filter)
  show "fake_owned E s' h = None"
    by (auto simp: fake_owned_def find_resource_def s' find_None_iff split: option.splits
        dest!: find_SomeD)
  show "fake_owned E s' h' = fake_owned E s h'" if "h' \<noteq> h"
  proof -
    have "find (\<lambda>r. re_host_id r = host_id_text (fk_codec E) h')
        (filter (\<lambda>r. re_host_id r \<noteq> host_id_text (fk_codec E) h) rows)
      = find (\<lambda>r. re_host_id r = host_id_text (fk_codec E) h') rows" for rows
      using that cd host_id_text_inj [of "fk_codec E" h' h] by (induction rows) auto
    from this [of "provider_resources s"] show ?thesis by (simp add: fake_owned_def find_resource_def s')
  qed
qed

section \<open>Selecting a plan\<close>

definition plan_suffices :: "int \<Rightarrow> int \<Rightarrow> int \<Rightarrow> plan_row \<Rightarrow> bool" where
  "plan_suffices cpus memory storage r \<longleftrightarrow>
     pl_enabled r = 1 \<and> cpus \<le> pl_vcpus r \<and> memory \<le> pl_memory_bytes r \<and> storage \<le> pl_storage_bytes r"

lemma cheapest_plan_eq:
  "cheapest_plan cpus memory storage rows =
     (case sort_key plan_order (filter (plan_suffices cpus memory storage) rows) of
        [] \<Rightarrow> None | r # _ \<Rightarrow> Some r)"
  unfolding cheapest_plan_def plan_suffices_def ..

lemma cheapest_plan_None:
  "cheapest_plan cpus memory storage rows = None \<longleftrightarrow> \<not> (\<exists>r \<in> set rows. plan_suffices cpus memory storage r)"
proof -
  have "sort_key plan_order xs = [] \<longleftrightarrow> xs = []" for xs :: "plan_row list"
    by (metis length_0_conv length_sort)
  moreover have "(case xs of [] \<Rightarrow> None | r # _ \<Rightarrow> Some r) = None \<longleftrightarrow> xs = []" for xs :: "plan_row list"
    by (cases xs) auto
  ultimately show ?thesis by (simp add: cheapest_plan_eq filter_empty_conv)
qed

lemma cheapest_plan_Some:
  assumes "cheapest_plan cpus memory storage rows = Some r"
  shows "r \<in> set rows" and "plan_suffices cpus memory storage r"
    and "r' \<in> set rows \<Longrightarrow> plan_suffices cpus memory storage r' \<Longrightarrow> plan_order r \<le> plan_order r'"
proof -
  let ?ok = "filter (plan_suffices cpus memory storage) rows"
  obtain rest where sorted: "sort_key plan_order ?ok = r # rest"
    using assms by (auto simp: cheapest_plan_eq split: list.splits)
  have rows: "set (r # rest) = set ?ok" unfolding sorted [symmetric] by simp
  then show "r \<in> set rows" "plan_suffices cpus memory storage r" by auto
  have "sorted (map plan_order (r # rest))" unfolding sorted [symmetric] by simp
  then have "\<forall>x \<in> set (r # rest). plan_order r \<le> plan_order x" by auto
  then show "plan_order r \<le> plan_order r'" if "r' \<in> set rows" "plan_suffices cpus memory storage r'"
    using that unfolding rows by simp
qed

lemma plan_from_row_resources:
  assumes "plan_from_row row = Inr plan"
  shows "plan_id plan = pl_id row"
    and "uint (vcpus (plan_resources plan)) = pl_vcpus row"
    and "uint (memory_bytes (plan_resources plan)) = take_bit 64 (pl_memory_bytes row)"
    and "uint (storage_bytes (plan_resources plan)) = take_bit 64 (pl_storage_bytes row)"
  using assms
  by (auto simp: plan_from_row_def u32_try_from_def u64_try_from_def bind_result_def uint_word_of_int
      take_bit_eq_mod split: if_splits)

lemma plan_row_ok_from_row:
  assumes "plan_row_ok row"
  obtains plan where "plan_from_row row = Inr plan"
    and "uint (memory_bytes (plan_resources plan)) = pl_memory_bytes row"
    and "uint (storage_bytes (plan_resources plan)) = pl_storage_bytes row"
proof -
  obtain plan where plan: "plan_from_row row = Inr plan"
    using assms by (auto simp: plan_row_ok_def plan_from_row_def u32_try_from_def u64_try_from_def)
  have "take_bit 64 (pl_memory_bytes row) = pl_memory_bytes row"
      "take_bit 64 (pl_storage_bytes row) = pl_storage_bytes row"
    using assms by (simp_all add: plan_row_ok_def take_bit_eq_mod i64_max_def)
  with plan_from_row_resources [OF plan] that plan show ?thesis by simp
qed

text \<open>The answer of \<open>select_plan\<close> on tables it can read: the plan of the least sufficient row.\<close>

lemma select_plan_answer:
  assumes sane: "fake_sane E s" and run: "fake_select_plan E req s = (Inr answer, s')"
  defines "fits \<equiv> plan_suffices (uint (vcpus req)) (uint (memory_bytes req)) (uint (storage_bytes req))"
  shows "case answer of
      None \<Rightarrow> \<forall>r \<in> set (plans s). \<not> fits r
    | Some plan \<Rightarrow> \<exists>r \<in> set (plans s). fits r \<and> plan_from_row r = Inr plan
        \<and> (\<forall>r' \<in> set (plans s). fits r' \<longrightarrow> plan_order r \<le> plan_order r')"
proof -
  let ?best = "cheapest_plan (uint (vcpus req)) (uint (memory_bytes req)) (uint (storage_bytes req)) (plans s)"
  have best: "traverse_option plan_from_row ?best = Inr answer"
    using triple_result(1) [OF fake_select_plan_triple [OF refl] refl run] by simp
  show ?thesis
  proof (cases ?best)
    case None
    with best have "answer = None" by simp
    with None show ?thesis by (simp add: cheapest_plan_None fits_def)
  next
    case (Some r)
    with best obtain plan where "answer = Some plan" "plan_from_row r = Inr plan"
      by (auto simp: traverse_option_def split: sum.splits)
    with cheapest_plan_Some [OF Some] show ?thesis by (auto simp: fits_def)
  qed
qed

lemma plan_suffices_satisfies:
  assumes "plan_row_ok r" and "plan_from_row r = Inr plan"
    and "plan_suffices (uint (vcpus req)) (uint (memory_bytes req)) (uint (storage_bytes req)) r"
  shows "satisfies (plan_resources plan) req"
proof -
  from assms(1) obtain plan' where "plan_from_row r = Inr plan'"
    and "uint (memory_bytes (plan_resources plan')) = pl_memory_bytes r"
    and "uint (storage_bytes (plan_resources plan')) = pl_storage_bytes r"
    by (rule plan_row_ok_from_row)
  with assms(2,3) plan_from_row_resources(2) [OF assms(2)] show ?thesis
    by (simp add: satisfies_def plan_suffices_def word_le_def)
qed

section \<open>The contract\<close>

lemma fake_select_state:
  assumes "fake_select_plan E req s = (r, s')" shows "tables s' = tables s"
  using triple_run [OF fake_select_plan_triple [OF refl] assms refl] by (simp split: sum.splits)

lemma fake_observe_state:
  assumes "fake_sane E s" and "fake_observe E h s = (r, s')" shows "tables s' = tables s"
  using triple_run [OF fake_observe_triple [OF refl assms(1)] assms(2) refl] by (simp split: sum.splits)

lemma fake_observe_answer:
  assumes "fake_sane E s" and "fake_observe E h s = (Inr x, s')"
  shows "case x of Absent \<Rightarrow> fake_owned E s h = None
    | Present res \<Rightarrow> \<exists>plan. fake_owned E s h = Some (res, plan)"
  using triple_run [OF fake_observe_triple [OF refl assms(1)] assms(2) refl] by simp

lemma fake_create_tables:
  assumes "fake_sane E s" and "fake_create E h plan s = (r, s')"
  shows "tables s' = tables s \<or> (\<exists>rid. created_tables E h plan (tables s) rid (tables s'))"
  using triple_run [OF fake_create_triple [OF refl assms(1)] assms(2) refl]
  by (auto split: sum.splits)

lemma fake_create_answer:
  assumes sane: "fake_sane E s" and run: "fake_create E h plan s = (Inr (Created res), s')"
  shows "fake_owned E s' h = Some (res, plan)"
proof -
  from triple_run [OF fake_create_triple [OF refl sane] run refl]
  consider "tables s' = tables s" "fake_owned E s h = Some (res, plan)"
    | rid where "created_tables E h plan (tables s) rid (tables s')" "res = ready_resource rid h"
    by auto
  then show ?thesis
    using tables_owned [of s' s E] created_tables_effect(3) [OF sane] by cases auto
qed

text \<open>A lost response is the response of a create that took effect.\<close>

lemma fake_create_unknown:
  assumes sane: "fake_sane E s" and run: "fake_create E h plan s = (Inr CreateOutcomeUnknown, s')"
  shows "fake_owned E s h = None" and "\<exists>res. fake_owned E s' h = Some (res, plan)"
proof -
  obtain rid where "created_tables E h plan (tables s) rid (tables s')"
    using triple_run [OF fake_create_triple [OF refl sane] run refl] by auto
  from created_tables_effect(2,3) [OF sane this]
  show "fake_owned E s h = None" "\<exists>res. fake_owned E s' h = Some (res, plan)" by auto
qed

lemma fake_delete_tables:
  assumes "fake_delete E h s = (r, s')"
  shows "tables s' = tables s \<or> tables s' = removed_tables E h (tables s)"
  using triple_run [OF fake_delete_triple assms refl] by (cases r) simp_all

lemma fake_delete_answer:
  assumes "fake_delete E h s = (Inr x, s')"
  shows "tables s' = removed_tables E h (tables s)"
  using triple_run [OF fake_delete_triple assms refl] by simp

lemma FakeProvider_sel [simp]:
  "select_plan (FakeProvider E) = fake_select_plan E"
  "observe (FakeProvider E) = fake_observe E"
  "create_resource (FakeProvider E) = fake_create E"
  "delete_resource (FakeProvider E) = fake_delete E"
  by (simp_all add: FakeProvider_def)

text \<open>A create leaves the host's ownership as it was or gives it the plan asked for.\<close>

lemma fake_create_effect:
  assumes sane: "fake_sane E s" and run: "fake_create E h plan s = (r, s')"
  shows "fake_sane E s'"
    and "h' \<noteq> h \<Longrightarrow> fake_owned E s' h' = fake_owned E s h'"
    and "fake_owned E s' h = fake_owned E s h
      \<or> fake_owned E s h = None \<and> (\<exists>res. fake_owned E s' h = Some (res, plan))"
  using fake_create_tables [OF assms] created_tables_effect [OF sane]
    tables_sane [of s' s E] tables_owned [of s' s E] sane by auto

lemma fake_delete_effect:
  assumes sane: "fake_sane E s" and run: "fake_delete E h s = (r, s')"
  shows "fake_sane E s'"
    and "h' \<noteq> h \<Longrightarrow> fake_owned E s' h' = fake_owned E s h'"
    and "fake_owned E s' h = None \<or> fake_owned E s' h = fake_owned E s h"
  using fake_delete_tables [OF run] removed_tables_effect [OF sane]
    tables_sane [of s' s E] tables_owned [of s' s E] sane by auto

lemma fake_select_satisfies:
  assumes "fake_sane E s" and "fake_select_plan E req s = (Inr (Some plan), s')"
  shows "satisfies (plan_resources plan) req"
  using select_plan_answer [OF assms] plan_suffices_satisfies assms(1) by (auto simp: fake_sane_def)

end
