(* ===== verification/Transitions.thy ===== *)
theory Transitions
  imports Storage Provider
begin

text \<open>
  \<open>crates/control-plane/src/controller.rs\<close>, the functions that rewrite the controller's in-memory
  copies of a claim and its host: \<open>provider_observation_is_stable\<close> to
  \<open>schedule_host_retry_only\<close>. A function of the code that changes both through references returns
  both; the reading of \<open>now_timestamp()\<close> each makes is its argument \<open>now\<close>.
\<close>

section \<open>Writing through nested fields\<close>

definition update_host_status :: "(HostStatus \<Rightarrow> HostStatus) \<Rightarrow> HostRecord \<Rightarrow> HostRecord" where
  "update_host_status f r =
     r\<lparr>hr_resource := (hr_resource r)\<lparr>h_status := f (h_status (hr_resource r))\<rparr>\<rparr>"

definition set_host_condition :: "HostRecord \<Rightarrow> Condition \<Rightarrow> HostRecord" where
  "set_host_condition r next =
     update_host_status (\<lambda>s. s\<lparr>hs_conditions := snd (set_condition (hs_conditions s) next)\<rparr>) r"

definition set_host_phase :: "HostPhase \<Rightarrow> HostRecord \<Rightarrow> HostRecord" where
  "set_host_phase phase = update_host_status (\<lambda>s. s\<lparr>hs_phase := phase\<rparr>)"

definition claim_generation :: "HostClaimRecord \<Rightarrow> u64" where
  "claim_generation r = hc_generation (cr_resource r)"

abbreviation host_phase :: "HostRecord \<Rightarrow> HostPhase" where
  "host_phase r \<equiv> hs_phase (h_status (hr_resource r))"

abbreviation host_provider_resource :: "HostRecord \<Rightarrow> string option" where
  "host_provider_resource r \<equiv> hs_provider_resource_id (h_status (hr_resource r))"

section \<open>Observations\<close>

definition expected_phase :: "ProviderLifecycle \<Rightarrow> HostPhase" where
  "expected_phase lifecycle =
     (case lifecycle of
        LifecycleProvisioning \<Rightarrow> Provisioning
      | LifecycleReady \<Rightarrow> Ready
      | LifecycleDeleting \<Rightarrow> Deleting)"

definition provider_observation_is_stable :: "HostRecord \<Rightarrow> ProviderResource \<Rightarrow> bool" where
  "provider_observation_is_stable host resource \<longleftrightarrow>
     host_phase host = expected_phase (pr_lifecycle resource)
     \<and> host_provider_resource host = Some (pr_id resource)
     \<and> attempt (hr_retry host) = 0
     \<and> next_reconcile_at_unix_ms (hr_retry host) = None
     \<and> last_error_kind (hr_retry host) = None
     \<and> last_error_message (hr_retry host) = None"

definition apply_provider_observation ::
  "codec \<Rightarrow> Timestamp \<Rightarrow> HostClaimRecord \<Rightarrow> HostRecord \<Rightarrow> ProviderResource \<Rightarrow> HostClaimRecord \<times> HostRecord" where
  "apply_provider_observation cd now claim host resource =
     (let (phase, status, reason, message) =
        (case pr_lifecycle resource of
           LifecycleProvisioning \<Rightarrow> (Provisioning, StatusFalse, ''ProviderResourceProvisioning'',
             ''The provider resource is still provisioning.'')
         | LifecycleReady \<Rightarrow> (Ready, StatusTrue, ''ProviderResourceReady'',
             ''The provider resource is Ready.'')
         | LifecycleDeleting \<Rightarrow> (Deleting, StatusFalse, ''ProviderResourceDeleting'',
             ''The provider resource is being deleted.''));
        host1 = (update_host_status (\<lambda>s. s\<lparr>hs_provider_resource_id := Some (pr_id resource),
                   hs_observed_at := Some now\<rparr>) host)\<lparr>hr_retry := default_retry\<rparr>;
        host2 = set_host_condition (set_host_phase phase host1) (new_condition ''Ready'' status reason message 1 now);
        claim1 = (observe_generation claim)\<lparr>cr_retry := default_retry\<rparr>;
        claim_ready = (phase = Ready);
        generation = claim_generation claim1;
        claim2 = set_claim_condition claim1 (new_condition ''Accepted'' StatusTrue ''RequirementsValid''
                   ''The current provider policy can satisfy this claim.'' generation now);
        claim3 = set_claim_condition claim2 (new_condition ''Bound'' StatusTrue ''HostAssigned''
                   (''Host '' @ host_id_text cd (h_id (hr_resource host)) @ '' is assigned.'') generation now);
        claim4 = set_claim_condition claim3 (new_condition ''Ready''
                   (if claim_ready then StatusTrue else StatusFalse)
                   (if claim_ready then ''HostReady'' else ''HostNotReady'')
                   (if claim_ready then ''The assigned Host is Ready.'' else ''The assigned Host is not Ready.'')
                   generation now)
      in (claim4, host2))"

definition mark_provider_absent ::
  "Timestamp \<Rightarrow> HostClaimRecord \<Rightarrow> HostRecord \<Rightarrow> HostClaimRecord \<times> HostRecord" where
  "mark_provider_absent now claim host =
     (let host1 = (update_host_status (\<lambda>s. s\<lparr>hs_phase := Pending, hs_provider_resource_id := None,
            hs_observed_at := Some now\<rparr>) host)\<lparr>hr_retry := default_retry\<rparr>
      in (set_claim_condition claim (new_condition ''Ready'' StatusFalse ''HostNotReady''
            ''The assigned Host has no provider resource.'' (claim_generation claim) now),
          set_host_condition host1 (new_condition ''Ready'' StatusFalse ''ProviderResourceAbsent''
            ''No provider resource exists for this Host.'' 1 now)))"

definition mark_outcome_unknown ::
  "Timestamp \<Rightarrow> HostClaimRecord \<Rightarrow> HostRecord \<Rightarrow> string \<Rightarrow> string \<Rightarrow> i64 \<Rightarrow> HostClaimRecord \<times> HostRecord" where
  "mark_outcome_unknown now claim host kind message now_ms =
     (let host1 = update_host_status (\<lambda>s. s\<lparr>hs_phase := Provisioning, hs_observed_at := Some now\<rparr>) host;
          host2 = host1\<lparr>hr_retry :=
            \<lparr>attempt = saturating_add_u32 (attempt (hr_retry host)) 1,
             next_reconcile_at_unix_ms = Some (sat_i64 (now_ms + 1000)),
             last_error_kind = Some kind, last_error_message = Some message\<rparr>\<rparr>
      in (set_claim_condition claim (new_condition ''Ready'' StatusUnknown kind message (claim_generation claim) now),
          set_host_condition host2 (new_condition ''Ready'' StatusUnknown kind message 1 now)))"

section \<open>Failures\<close>

definition mark_host_failed ::
  "Timestamp \<Rightarrow> HostClaimRecord \<Rightarrow> HostRecord \<Rightarrow> string \<Rightarrow> string \<Rightarrow> HostClaimRecord \<times> HostRecord" where
  "mark_host_failed now claim host reason message =
     (let host1 = set_host_phase Failed host;
          host2 = host1\<lparr>hr_retry := (hr_retry host)
            \<lparr>next_reconcile_at_unix_ms := None, last_error_kind := Some reason,
             last_error_message := Some message\<rparr>\<rparr>
      in (set_claim_condition claim (new_condition ''Ready'' StatusFalse reason message (claim_generation claim) now),
          set_host_condition host2 (new_condition ''Ready'' StatusFalse reason message 1 now)))"

definition schedule_claim_provider_error ::
  "Timestamp \<Rightarrow> HostClaimRecord \<Rightarrow> ProviderError \<Rightarrow> i64 \<Rightarrow> HostClaimRecord" where
  "schedule_claim_provider_error now claim error now_ms =
     (let claim1 = observe_generation claim in
      case error of
        Definitive message \<Rightarrow>
          (let claim2 = claim1\<lparr>cr_retry :=
             \<lparr>attempt = attempt (cr_retry claim), next_reconcile_at_unix_ms = Some i64_max,
              last_error_kind = Some ''ProviderRejected'', last_error_message = Some message\<rparr>\<rparr>
           in set_claim_condition claim2 (new_condition ''Accepted'' StatusFalse ''ProviderRejected''
                message (claim_generation claim) now))
      | Transient message \<Rightarrow>
          (let attempts = saturating_add_u32 (attempt (cr_retry claim)) 1;
               claim2 = claim1\<lparr>cr_retry :=
             \<lparr>attempt = attempts, next_reconcile_at_unix_ms = Some (retry_deadline now_ms attempts),
              last_error_kind = Some ''ProviderUnavailable'', last_error_message = Some message\<rparr>\<rparr>
           in set_claim_condition claim2 (new_condition ''Accepted'' StatusUnknown ''ProviderUnavailable''
                message (claim_generation claim) now)))"

definition schedule_host_provider_error ::
  "Timestamp \<Rightarrow> HostClaimRecord \<Rightarrow> HostRecord \<Rightarrow> ProviderError \<Rightarrow> i64 \<Rightarrow> HostClaimRecord \<times> HostRecord" where
  "schedule_host_provider_error now claim host error now_ms =
     (case error of
        Definitive message \<Rightarrow> mark_host_failed now claim host ''ProviderRejected'' message
      | Transient message \<Rightarrow>
          (let attempts = saturating_add_u32 (attempt (hr_retry host)) 1;
               host1 = host\<lparr>hr_retry :=
             \<lparr>attempt = attempts, next_reconcile_at_unix_ms = Some (retry_deadline now_ms attempts),
              last_error_kind = Some ''ProviderUnavailable'', last_error_message = Some message\<rparr>\<rparr>
           in (set_claim_condition claim (new_condition ''Ready'' StatusUnknown ''ProviderUnavailable''
                 message (claim_generation claim) now),
               set_host_condition host1 (new_condition ''Ready'' StatusUnknown ''ProviderUnavailable''
                 message 1 now))))"

definition schedule_host_retry_only :: "HostRecord \<Rightarrow> ProviderError \<Rightarrow> i64 \<Rightarrow> HostRecord" where
  "schedule_host_retry_only host error now_ms =
     (let (kind, message, terminal) =
        (case error of
           Definitive message \<Rightarrow> (''ProviderRejected'', message, True)
         | Transient message \<Rightarrow> (''ProviderUnavailable'', message, False));
        attempts = saturating_add_u32 (attempt (hr_retry host)) 1
      in host\<lparr>hr_retry :=
           \<lparr>attempt = attempts,
            next_reconcile_at_unix_ms =
              (if terminal then Some i64_max else Some (retry_deadline now_ms attempts)),
            last_error_kind = Some kind, last_error_message = Some message\<rparr>\<rparr>)"

end
