(* ===== verification/World.thy ===== *)
theory World
  imports Storage Provider
begin

text \<open>
  The state the daemon's tasks share and the effects they have on it. A world holds the database
  behind \<open>Storage\<close>, the provider's state, the one permit that tokio's \<open>Notify\<close> of
  \<open>ReconcileHandle\<close> stores, and a count of the effects performed so far. Everything the daemon
  cannot decide is the environment's: the readings of the clocks, the generated identifiers, which
  database calls fail, and which requests the RPC server serves between two database calls of the
  controller, each as a function of that count.
\<close>

section \<open>Parameters of the RPC methods\<close>

record CreateHostClaimParams =
  ccp_id :: HostClaimId
  ccp_spec :: HostClaimSpec

text \<open>
  serde's readers of the parameter types. They are derived in the protocol crate and run by
  jsonrpsee on the request's text; an error is its message.
\<close>

record params_codec =
  parse_empty_params :: "string \<Rightarrow> string + unit"
  parse_create_params :: "string \<Rightarrow> string + CreateHostClaimParams"
  parse_claim_params :: "string \<Rightarrow> string + HostClaimId"
  parse_host_params :: "string \<Rightarrow> string + HostId"

datatype rpc_message =
    Call string string
  | Notification string string

section \<open>Environment and world\<close>

record environment =
  e_codec :: codec
  e_params :: params_codec
  e_started_at :: Timestamp
  e_binary_version :: string
  e_rust_version :: string
  e_clock :: "nat \<Rightarrow> Timestamp"
  e_clock_ms :: "nat \<Rightarrow> int"
  e_new_host_id :: "nat \<Rightarrow> HostId"
  e_fault :: "nat \<Rightarrow> nat \<Rightarrow> db_fault"
  e_requests :: "nat \<Rightarrow> (rpc_message \<times> io) list"

record 'p world =
  w_db :: database
  w_provider :: 'p
  w_notified :: bool
  w_count :: nat

type_synonym ('p, 'e, 'a) effect = "('p world, 'e, 'a) oper"

text \<open>What a storage call reads from outside when it is the n-th effect.\<close>

definition io_at :: "environment \<Rightarrow> nat \<Rightarrow> io" where
  "io_at E n = \<lparr>io_now = e_clock E n, io_host_id = e_new_host_id E n, io_fault = e_fault E n\<rparr>"

definition tick :: "'p world \<Rightarrow> 'p world" where
  "tick w = w\<lparr>w_count := Suc (w_count w)\<rparr>"

text \<open>A storage operation on the shared database.\<close>

definition on_db :: "'a db_oper \<Rightarrow> ('p, AppError, 'a) effect" where
  "on_db m w = (case m (w_db w) of (r, db) \<Rightarrow> (r, w\<lparr>w_db := db\<rparr>))"

text \<open>\<open>ReconcileHandle::wake\<close>: \<open>notify_one\<close> leaves one permit, however often it is called.\<close>

definition wake :: "('p, 'e, unit) effect" where
  "wake w = (Inr (), w\<lparr>w_notified := True\<rparr>)"

definition map_oper_err :: "('d \<Rightarrow> 'e) \<Rightarrow> ('s, 'd, 'a) oper \<Rightarrow> ('s, 'e, 'a) oper" where
  "map_oper_err f m s = (case m s of (r, s') \<Rightarrow> (map_err f r, s'))"

text \<open>A provider call; its result is a value the controller matches on.\<close>

definition provider_call ::
  "('p, 'a) provider_oper \<Rightarrow> ('p, AppError, ProviderError + 'a) effect" where
  "provider_call m w = (case m (w_provider w) of (r, p) \<Rightarrow> (Inr r, w\<lparr>w_provider := p\<rparr>))"

text \<open>\<open>now_timestamp()\<close> and the system clock behind \<open>now_unix_ms()\<close>.\<close>

definition now_timestamp :: "environment \<Rightarrow> ('p, 'e, Timestamp) effect" where
  "now_timestamp E w = (Inr (e_clock E (w_count w)), tick w)"

definition read_now_unix_ms :: "environment \<Rightarrow> ('p, 'e, i64) effect" where
  "read_now_unix_ms E w = (Inr (now_unix_ms (e_clock_ms E (w_count w))), tick w)"

lemma tick_sel [simp]:
  "w_db (tick w) = w_db w" "w_provider (tick w) = w_provider w"
  "w_notified (tick w) = w_notified w" "w_count (tick w) = Suc (w_count w)"
  by (simp_all add: tick_def)

lemma io_at_sel [simp]:
  "io_now (io_at E n) = e_clock E n" "io_host_id (io_at E n) = e_new_host_id E n"
  "io_fault (io_at E n) = e_fault E n"
  by (simp_all add: io_at_def)

end
