(* ===== verification/Rpc.thy ===== *)
theory Rpc
  imports World
begin

text \<open>
  \<open>crates/control-plane/src/rpc.rs\<close>, \<open>rpc_module\<close> and what it needs: the methods of the protocol
  crate, the translation of parameters and errors, and the refusal of notifications. The HTTP/2
  server, the JSON envelope and the lookup of an unregistered method are jsonrpsee's and hyper's.
\<close>

section \<open>Methods and results\<close>

definition SYSTEM_INFO :: string where "SYSTEM_INFO = ''system.info''"
definition HOST_CLAIM_CREATE :: string where "HOST_CLAIM_CREATE = ''host.claim.create''"
definition HOST_CLAIM_GET :: string where "HOST_CLAIM_GET = ''host.claim.get''"
definition HOST_CLAIM_LIST :: string where "HOST_CLAIM_LIST = ''host.claim.list''"
definition HOST_CLAIM_DELETE :: string where "HOST_CLAIM_DELETE = ''host.claim.delete''"
definition HOST_GET :: string where "HOST_GET = ''host.get''"
definition HOST_LIST :: string where "HOST_LIST = ''host.list''"

definition PROTOCOL_VERSION :: string where "PROTOCOL_VERSION = ''1''"

record SystemInfoResult =
  si_system_name :: string
  si_binary_version :: string
  si_rust_version :: string
  si_protocol_version :: string
  si_started_at :: Timestamp

datatype rpc_result =
    SystemInfo SystemInfoResult
  | ClaimResult HostClaim
  | HostClaimList "HostClaim list"
  | HostResult Host
  | HostList "Host list"

type_synonym 'p handler = "environment \<Rightarrow> io \<Rightarrow> string \<Rightarrow> ('p, ErrorObject, rpc_result) effect"

definition parse_params :: "(string \<Rightarrow> string + 'a) \<Rightarrow> string \<Rightarrow> ('p, ErrorObject, 'a) effect" where
  "parse_params parser params =
     lift_result (map_err (\<lambda>error. into_rpc_error (InvalidArgument error)) (parser params))"

section \<open>Handlers\<close>

definition system_info :: "'p handler" where
  "system_info E io params =
     and_then (parse_params (parse_empty_params (e_params E)) params) (\<lambda>_.
     ok (SystemInfo \<lparr>si_system_name = ''Control Plane'', si_binary_version = e_binary_version E,
           si_rust_version = e_rust_version E, si_protocol_version = PROTOCOL_VERSION,
           si_started_at = e_started_at E\<rparr>))"

definition host_claim_create :: "'p handler" where
  "host_claim_create E io params =
     and_then (parse_params (parse_create_params (e_params E)) params) (\<lambda>params.
     and_then (map_oper_err into_rpc_error
         (on_db (create_claim (e_codec E) io (ccp_id params) (ccp_spec params)))) (\<lambda>claim.
     and_then wake (\<lambda>_.
     ok (ClaimResult claim))))"

definition host_claim_get :: "'p handler" where
  "host_claim_get E io params =
     and_then (parse_params (parse_claim_params (e_params E)) params) (\<lambda>claim_id.
     and_then (map_oper_err into_rpc_error (on_db (get_claim (e_codec E) io claim_id))) (\<lambda>record.
     ok (ClaimResult (cr_resource record))))"

definition host_claim_list :: "'p handler" where
  "host_claim_list E io params =
     and_then (parse_params (parse_empty_params (e_params E)) params) (\<lambda>_.
     and_then (map_oper_err into_rpc_error (on_db (list_claims (e_codec E) io))) (\<lambda>records.
     ok (HostClaimList (map cr_resource records))))"

definition host_claim_delete :: "'p handler" where
  "host_claim_delete E io params =
     and_then (parse_params (parse_claim_params (e_params E)) params) (\<lambda>claim_id.
     and_then (map_oper_err into_rpc_error (on_db (mark_claim_deleting (e_codec E) io claim_id))) (\<lambda>claim.
     and_then wake (\<lambda>_.
     ok (ClaimResult claim))))"

definition host_get :: "'p handler" where
  "host_get E io params =
     and_then (parse_params (parse_host_params (e_params E)) params) (\<lambda>host_id.
     and_then (map_oper_err into_rpc_error (on_db (get_host (e_codec E) io host_id))) (\<lambda>record.
     ok (HostResult (hr_resource record))))"

definition host_list :: "'p handler" where
  "host_list E io params =
     and_then (parse_params (parse_empty_params (e_params E)) params) (\<lambda>_.
     and_then (map_oper_err into_rpc_error (on_db (list_hosts (e_codec E) io))) (\<lambda>records.
     ok (HostList (map hr_resource records))))"

section \<open>The module\<close>

definition rpc_module :: "string \<Rightarrow> 'p handler option" where
  "rpc_module name =
     map_of [(SYSTEM_INFO, system_info), (HOST_CLAIM_CREATE, host_claim_create),
       (HOST_CLAIM_GET, host_claim_get), (HOST_CLAIM_LIST, host_claim_list),
       (HOST_CLAIM_DELETE, host_claim_delete), (HOST_GET, host_get), (HOST_LIST, host_list)] name"

lemma rpc_module_registered:
  "rpc_module SYSTEM_INFO = Some system_info"
  "rpc_module HOST_CLAIM_CREATE = Some host_claim_create"
  "rpc_module HOST_CLAIM_GET = Some host_claim_get"
  "rpc_module HOST_CLAIM_LIST = Some host_claim_list"
  "rpc_module HOST_CLAIM_DELETE = Some host_claim_delete"
  "rpc_module HOST_GET = Some host_get"
  "rpc_module HOST_LIST = Some host_list"
  by (simp_all add: rpc_module_def SYSTEM_INFO_def HOST_CLAIM_CREATE_def HOST_CLAIM_GET_def
      HOST_CLAIM_LIST_def HOST_CLAIM_DELETE_def HOST_GET_def HOST_LIST_def)

text \<open>
  One message behind \<open>RejectNotifications\<close>: a call goes to its handler, a notification to none.
  \<open>None\<close> is the absence of a handler's answer (a notification, or a method that is not registered).
\<close>

definition serve_message ::
  "environment \<Rightarrow> io \<Rightarrow> rpc_message \<Rightarrow> 'p world \<Rightarrow> (ErrorObject + rpc_result) option \<times> 'p world" where
  "serve_message E io message w =
     (case message of
        Notification name params \<Rightarrow> (None, w)
      | Call name params \<Rightarrow> (case rpc_module name of
          None \<Rightarrow> (None, w)
        | Some handler \<Rightarrow> (case handler E io params w of (r, w') \<Rightarrow> (Some r, w'))))"

definition serve_all :: "environment \<Rightarrow> (rpc_message \<times> io) list \<Rightarrow> 'p world \<Rightarrow> 'p world" where
  "serve_all E requests w = fold (\<lambda>(message, io) w. snd (serve_message E io message w)) requests w"

end
