(* ===== verification/Controller.thy ===== *)
theory Controller
  imports Transitions Rpc
begin

text \<open>
  \<open>crates/control-plane/src/controller.rs\<close>, the methods of \<open>HostController\<close>: one reconciliation
  step and the loop of a wake. Each method is an effect on the world, parameterised by the
  environment and by the provider, an implementation of the trait \<open>HostProvider\<close>.
\<close>

definition MAX_STEPS_PER_WAKE :: nat where "MAX_STEPS_PER_WAKE = 64"

datatype ReconcileResult = Progress | Idle

section \<open>Storage calls of the controller\<close>

text \<open>
  The RPC server runs beside the controller. The pool's single connection orders their database
  calls, so the requests served since the controller's last effect come before its next call.
\<close>

definition storage_call :: "environment \<Rightarrow> (io \<Rightarrow> 'a db_oper) \<Rightarrow> ('p, AppError, 'a) effect" where
  "storage_call E m w =
     (let w1 = serve_all E (e_requests E (w_count w)) w
      in on_db (m (io_at E (w_count w))) (tick w1))"

section \<open>Reconciling one claim\<close>

definition persist_claim_status :: "environment \<Rightarrow> HostClaimRecord \<Rightarrow> ('p, AppError, unit) effect" where
  "persist_claim_status E claim =
     and_then (storage_call E (\<lambda>io. save_claim_status (e_codec E) io claim)) (\<lambda>saved.
     if \<not> saved then wake else ok ())"

definition save_host_call :: "environment \<Rightarrow> HostRecord \<Rightarrow> ('p, AppError, unit) effect" where
  "save_host_call E host = storage_call E (\<lambda>io. save_host (e_codec E) io host)"

text \<open>The three conditions of a claim no plan can satisfy, with the code's flag \<open>changed\<close>.\<close>

definition unsatisfiable_conditions :: "Timestamp \<Rightarrow> HostClaimRecord \<Rightarrow> bool \<times> HostClaimRecord" where
  "unsatisfiable_conditions now claim =
     (let claim1 = observe_generation claim;
          generation = claim_generation claim1;
          set = (\<lambda>next (changed, r).
            (changed \<or> fst (set_condition (hcs_conditions (hc_status (cr_resource r))) next),
             set_claim_condition r next));
          step1 = set (new_condition ''Accepted'' StatusFalse ''Unsatisfiable''
            ''No provider plan can satisfy the requested allocatable resources.'' generation now)
            (False, claim1);
          step2 = set (new_condition ''Bound'' StatusFalse ''HostPending''
            ''No Host has been assigned.'' generation now) step1;
          (changed, claim4) = set (new_condition ''Ready'' StatusFalse ''HostNotReady''
            ''No Ready Host is assigned.'' generation now) step2
      in (changed, claim4\<lparr>cr_retry := default_retry\<rparr>))"

definition reconcile_unbound_claim ::
  "environment \<Rightarrow> 'p host_provider \<Rightarrow> HostClaimRecord \<Rightarrow> i64 \<Rightarrow> ('p, AppError, ReconcileResult) effect" where
  "reconcile_unbound_claim E P claim now_ms =
     and_then (provider_call (select_plan P (spec_resources (hc_spec (cr_resource claim))))) (\<lambda>selected.
     case selected of
       Inr (Some plan) \<Rightarrow>
         (\<lambda>w. case storage_call E (\<lambda>io. ensure_host (e_codec E) io (hc_id (cr_resource claim))
                   (plan_id plan) (plan_resources plan)) w of
            (Inr host, w') \<Rightarrow> (Inr Progress, w')
          | (Inl (Conflict ty i m), w') \<Rightarrow> and_then wake (\<lambda>_. ok Idle) w'
          | (Inl (NotFound ty i), w') \<Rightarrow> and_then wake (\<lambda>_. ok Idle) w'
          | (Inl error, w') \<Rightarrow> (Inl error, w'))
     | Inr None \<Rightarrow>
         and_then (now_timestamp E) (\<lambda>now.
         let (changed, claim') = unsatisfiable_conditions now claim in
         if changed
         then and_then (persist_claim_status E claim') (\<lambda>_. ok Progress)
         else ok Idle)
     | Inl error \<Rightarrow>
         and_then (now_timestamp E) (\<lambda>now.
         and_then (persist_claim_status E (schedule_claim_provider_error now claim error now_ms)) (\<lambda>_.
         ok Progress)))"

text \<open>Both copies saved, the host first, as every branch of \<open>reconcile_host\<close> ends.\<close>

definition save_both ::
  "environment \<Rightarrow> HostClaimRecord \<times> HostRecord \<Rightarrow> ReconcileResult \<Rightarrow> ('p, AppError, ReconcileResult) effect" where
  "save_both E both result =
     and_then (save_host_call E (snd both)) (\<lambda>_.
     and_then (persist_claim_status E (fst both)) (\<lambda>_.
     ok result))"

definition ownership_conflict_message :: "string \<Rightarrow> string \<Rightarrow> string" where
  "ownership_conflict_message expected found =
     ''Host recorded provider resource '' @ expected @ '', but ownership lookup returned '' @ found @ ''.''"

text \<open>The guard of both methods: the host recorded another resource than the provider names.\<close>

definition ownership_conflict :: "HostRecord \<Rightarrow> ProviderResource \<Rightarrow> string option" where
  "ownership_conflict host resource =
     (case host_provider_resource host of
        None \<Rightarrow> None
      | Some expected \<Rightarrow> if expected \<noteq> pr_id resource then Some expected else None)"

definition reconcile_host ::
  "environment \<Rightarrow> 'p host_provider \<Rightarrow> HostClaimRecord \<Rightarrow> HostRecord \<Rightarrow> i64 \<Rightarrow> ('p, AppError, ReconcileResult) effect" where
  "reconcile_host E P claim host now_ms =
     and_then (provider_call (observe P (h_id (hr_resource host)))) (\<lambda>observed.
     case observed of
       Inr (Present resource) \<Rightarrow> (case ownership_conflict host resource of
           Some expected \<Rightarrow>
             and_then (now_timestamp E) (\<lambda>now.
             save_both E (mark_host_failed now claim host ''ProviderOwnershipConflict''
               (ownership_conflict_message expected (pr_id resource))) Progress)
         | None \<Rightarrow>
             and_then (now_timestamp E) (\<lambda>now.
             save_both E (apply_provider_observation (e_codec E) now claim host resource)
               (if provider_observation_is_stable host resource then Idle else Progress)))
     | Inr Absent \<Rightarrow>
         if host_provider_resource host \<noteq> None \<or> host_phase host \<noteq> Pending
         then and_then (now_timestamp E) (\<lambda>now.
              save_both E (mark_provider_absent now claim host) Progress)
         else
           (let host1 = (set_host_phase Provisioning host)\<lparr>hr_retry := default_retry\<rparr> in
            and_then (save_host_call E host1) (\<lambda>_.
            and_then (provider_call (create_resource P (h_id (hr_resource host1)) (hr_provider_plan_id host1))) (\<lambda>created.
            and_then (now_timestamp E) (\<lambda>now.
            save_both E
              (case created of
                 Inr (Created resource) \<Rightarrow> apply_provider_observation (e_codec E) now claim host1 resource
               | Inr CreateOutcomeUnknown \<Rightarrow> mark_outcome_unknown now claim host1 ''CreateOutcomeUnknown''
                   ''The provider may have created the Host. The next step will rediscover it by Host ID.'' now_ms
               | Inl error \<Rightarrow> schedule_host_provider_error now claim host1 error now_ms)
              Progress))))
     | Inl error \<Rightarrow>
         and_then (now_timestamp E) (\<lambda>now.
         save_both E (schedule_host_provider_error now claim host error now_ms) Progress))"

text \<open>The host after a delete call, by the call's result.\<close>

definition after_delete :: "HostRecord \<Rightarrow> ProviderError + DeleteOutcome \<Rightarrow> i64 \<Rightarrow> HostRecord" where
  "after_delete host deleted now_ms =
     (case deleted of
        Inr Deleted \<Rightarrow> host\<lparr>hr_retry := default_retry\<rparr>
      | Inr DeleteOutcomeUnknown \<Rightarrow> host\<lparr>hr_retry := (hr_retry host)
          \<lparr>next_reconcile_at_unix_ms := Some (sat_i64 (now_ms + 1000)),
           last_error_kind := Some ''DeleteOutcomeUnknown'',
           last_error_message := Some ''The provider may have deleted the Host; rediscovery is required.''\<rparr>\<rparr>
      | Inl error \<Rightarrow> schedule_host_retry_only host error now_ms)"

definition reconcile_deleting_claim ::
  "environment \<Rightarrow> 'p host_provider \<Rightarrow> HostClaimRecord \<Rightarrow> i64 \<Rightarrow> ('p, AppError, ReconcileResult) effect" where
  "reconcile_deleting_claim E P claim now_ms =
     (case hcs_host_id (hc_status (cr_resource claim)) of
        None \<Rightarrow>
          and_then (storage_call E (\<lambda>io. finalize_claim (e_codec E) io (hc_id (cr_resource claim)))) (\<lambda>_.
          ok Progress)
      | Some host_id \<Rightarrow>
          and_then (storage_call E (\<lambda>io. get_host (e_codec E) io host_id)) (\<lambda>host.
          if \<not> is_due (hr_retry host) now_ms then ok Idle
          else and_then (provider_call (observe P (h_id (hr_resource host)))) (\<lambda>observed.
          case observed of
            Inr Absent \<Rightarrow>
              and_then (storage_call E (\<lambda>io. finalize_claim (e_codec E) io (hc_id (cr_resource claim)))) (\<lambda>_.
              ok Progress)
          | Inr (Present resource) \<Rightarrow> (case ownership_conflict host resource of
              Some expected \<Rightarrow>
                and_then (now_timestamp E) (\<lambda>now.
                let (claim', host') = mark_host_failed now claim host ''ProviderOwnershipConflict''
                      (ownership_conflict_message expected (pr_id resource)) in
                save_both E (claim', host'\<lparr>hr_retry := (hr_retry host')\<lparr>next_reconcile_at_unix_ms := Some i64_max\<rparr>\<rparr>)
                  Progress)
            | None \<Rightarrow>
                and_then (now_timestamp E) (\<lambda>now.
                let host1 = (update_host_status (\<lambda>s. s\<lparr>hs_phase := Deleting,
                      hs_provider_resource_id := Some (pr_id resource), hs_observed_at := Some now\<rparr>) host)
                      \<lparr>hr_retry := default_retry\<rparr> in
                and_then (save_host_call E host1) (\<lambda>_.
                and_then (provider_call (delete_resource P (h_id (hr_resource host1)))) (\<lambda>deleted.
                and_then (save_host_call E (after_delete host1 deleted now_ms)) (\<lambda>_.
                ok Progress)))))
          | Inl error \<Rightarrow>
              and_then (save_host_call E (schedule_host_retry_only host error now_ms)) (\<lambda>_.
              ok Progress))))"

section \<open>One step, and the steps of a wake\<close>

text \<open>The two loops of \<open>reconcile_once\<close>, over the claims it listed; \<open>Idle\<close> goes on, \<open>Progress\<close> returns.\<close>

fun reconcile_deletions ::
  "environment \<Rightarrow> 'p host_provider \<Rightarrow> i64 \<Rightarrow> HostClaimRecord list \<Rightarrow> ('p, AppError, ReconcileResult) effect" where
  "reconcile_deletions E P now_ms [] = ok Idle"
| "reconcile_deletions E P now_ms (claim # claims) =
     (if hc_deletion_timestamp (cr_resource claim) \<noteq> None \<and> is_due (cr_retry claim) now_ms
      then and_then (reconcile_deleting_claim E P claim now_ms) (\<lambda>result.
           if result = Progress then ok result else reconcile_deletions E P now_ms claims)
      else reconcile_deletions E P now_ms claims)"

definition reconcile_active_claim ::
  "environment \<Rightarrow> 'p host_provider \<Rightarrow> i64 \<Rightarrow> HostClaimRecord \<Rightarrow> ('p, AppError, ReconcileResult) effect" where
  "reconcile_active_claim E P now_ms claim =
     (case hcs_host_id (hc_status (cr_resource claim)) of
        Some host_id \<Rightarrow>
          and_then (storage_call E (\<lambda>io. get_host (e_codec E) io host_id)) (\<lambda>host.
          if \<not> is_due (hr_retry host) now_ms \<or> host_phase host = Failed then ok Idle
          else reconcile_host E P claim host now_ms)
      | None \<Rightarrow>
          if \<not> is_due (cr_retry claim) now_ms then ok Idle
          else reconcile_unbound_claim E P claim now_ms)"

fun reconcile_active ::
  "environment \<Rightarrow> 'p host_provider \<Rightarrow> i64 \<Rightarrow> HostClaimRecord list \<Rightarrow> ('p, AppError, ReconcileResult) effect" where
  "reconcile_active E P now_ms [] = ok Idle"
| "reconcile_active E P now_ms (claim # claims) =
     (if hc_deletion_timestamp (cr_resource claim) = None
      then and_then (reconcile_active_claim E P now_ms claim) (\<lambda>result.
           if result = Progress then ok result else reconcile_active E P now_ms claims)
      else reconcile_active E P now_ms claims)"

definition reconcile_once ::
  "environment \<Rightarrow> 'p host_provider \<Rightarrow> ('p, AppError, ReconcileResult) effect" where
  "reconcile_once E P =
     and_then (read_now_unix_ms E) (\<lambda>now_ms.
     and_then (storage_call E (list_claims (e_codec E))) (\<lambda>claims.
     and_then (reconcile_deletions E P now_ms claims) (\<lambda>result.
     if result = Progress then ok result
     else reconcile_active E P now_ms claims)))"

text \<open>
  The inner loop of \<open>run\<close>: \<open>fuel\<close> is the number of steps the range has left, and the result is
  the code's flag \<open>reached_step_limit\<close>. An error is logged and ends the loop.
\<close>

fun reconcile_steps :: "environment \<Rightarrow> 'p host_provider \<Rightarrow> nat \<Rightarrow> 'p world \<Rightarrow> bool \<times> 'p world" where
  "reconcile_steps E P 0 w = (True, w)"
| "reconcile_steps E P (Suc fuel) w =
     (case reconcile_once E P w of
        (Inr Progress, w') \<Rightarrow> reconcile_steps E P fuel w'
      | (Inr Idle, w') \<Rightarrow> (False, w')
      | (Inl error, w') \<Rightarrow> (False, w'))"

definition reconcile_wake :: "environment \<Rightarrow> 'p host_provider \<Rightarrow> 'p world \<Rightarrow> 'p world" where
  "reconcile_wake E P w =
     (case reconcile_steps E P MAX_STEPS_PER_WAKE w of
        (reached_step_limit, w') \<Rightarrow> if reached_step_limit then w'\<lparr>w_notified := True\<rparr> else w')"

end
