(* ===== verification/Daemon.thy ===== *)
theory Daemon
  imports Controller
begin

text \<open>
  The daemon as a whole: \<open>HostController::run\<close>'s loop beside the RPC server, over restarts. A step
  serves one message, runs the controller for a notification or for a tick of the scan interval,
  cancels it, or starts a new process on what the databases hold. Each step has an environment of
  its own: which of its database calls fail, and which requests are served between them, is not
  determined. A process that dies within a step leaves what it leaves when its remaining database
  calls fail, so a restart after any step covers it.
\<close>

datatype controller_task = Waiting | Stopped

type_synonym 'p daemon = "controller_task \<times> 'p world"

inductive daemon_step :: "codec \<Rightarrow> 'p host_provider \<Rightarrow> 'p daemon \<Rightarrow> 'p daemon \<Rightarrow> bool"
  for cd :: codec and P :: "'p host_provider"
where
  Message: "e_codec E = cd \<Longrightarrow>
    daemon_step cd P (task, w) (task, snd (serve_message E io message w))"
| Notified: "e_codec E = cd \<Longrightarrow> w_notified w \<Longrightarrow>
    daemon_step cd P (Waiting, w) (Waiting, reconcile_wake E P (w\<lparr>w_notified := False\<rparr>))"
| Scan: "e_codec E = cd \<Longrightarrow>
    daemon_step cd P (Waiting, w) (Waiting, reconcile_wake E P w)"
| Cancelled: "daemon_step cd P (Waiting, w) (Stopped, w)"
| Restart: "daemon_step cd P (task, w) (Waiting, w\<lparr>w_notified := True\<rparr>)"

inductive_cases daemon_stepE: "daemon_step cd P (task, w) (task', w')"

text \<open>A first start: an empty control plane database beside a provider in state \<open>p\<close>.\<close>

definition first_start :: "'p \<Rightarrow> 'p daemon" where
  "first_start p = (Waiting, \<lparr>w_db = empty_database, w_provider = p, w_notified = True, w_count = 0\<rparr>)"

definition reachable :: "codec \<Rightarrow> 'p host_provider \<Rightarrow> 'p \<Rightarrow> 'p world \<Rightarrow> bool" where
  "reachable cd P p w \<longleftrightarrow> (\<exists>task. (daemon_step cd P)\<^sup>*\<^sup>* (first_start p) (task, w))"

end
