(* ===== verification/Storage_Views.thy ===== *)
theory Storage_Views
  imports Storage
begin

text \<open>
  What a well-formed database holds, as maps from identifiers to records, and how each writing
  statement changes those maps. The operations of \<open>Storage\<close> are specified over these maps.
\<close>

section \<open>The maps\<close>

definition claim_view :: "codec \<Rightarrow> database \<Rightarrow> HostClaimId \<Rightarrow> HostClaimRecord option" where
  "claim_view cd db i =
     (case fetch_claim_row db (claim_id_text cd i) of
        None \<Rightarrow> None
      | Some row \<Rightarrow> (case claim_record_from_row cd row of Inl _ \<Rightarrow> None | Inr r \<Rightarrow> Some r))"

definition host_view :: "codec \<Rightarrow> database \<Rightarrow> HostId \<Rightarrow> HostRecord option" where
  "host_view cd db h =
     (case fetch_host_row db (host_id_text cd h) of
        None \<Rightarrow> None
      | Some row \<Rightarrow> (case host_record_from_row cd row of Inl _ \<Rightarrow> None | Inr r \<Rightarrow> Some r))"

text \<open>Abbreviations for the fields the specifications speak about.\<close>

abbreviation claim_id_of :: "HostClaimRecord \<Rightarrow> HostClaimId" where
  "claim_id_of r \<equiv> hc_id (cr_resource r)"

abbreviation claim_host :: "HostClaimRecord \<Rightarrow> HostId option" where
  "claim_host r \<equiv> hcs_host_id (hc_status (cr_resource r))"

abbreviation claim_deletion :: "HostClaimRecord \<Rightarrow> Timestamp option" where
  "claim_deletion r \<equiv> hc_deletion_timestamp (cr_resource r)"

abbreviation host_id_of :: "HostRecord \<Rightarrow> HostId" where
  "host_id_of r \<equiv> h_id (hr_resource r)"

abbreviation host_claim_of :: "HostRecord \<Rightarrow> HostClaimId" where
  "host_claim_of r \<equiv> h_claim_id (hr_resource r)"

lemma encode_with_host [simp]: "encode_claim cd (with_host h r) = encode_claim cd r"
  by (simp add: encode_claim_def with_host_def Let_def)

lemma with_host_sel [simp]:
  "claim_fits (with_host h r) = claim_fits r"
  "claim_id_of (with_host h r) = claim_id_of r"
  "claim_host (with_host h r) = h"
  "claim_deletion (with_host h r) = claim_deletion r"
  by (simp_all add: with_host_def claim_fits_def)

lemma with_host_same [simp]: "with_host (claim_host r) r = r"
  by (simp add: with_host_def)

text \<open>The row of the host assigned to a claim names a host identifier.\<close>

lemma host_of_claim_text:
  assumes "database_ok cd db"
  obtains h where "host_of_claim db c = map_option (host_id_text cd) h"
proof (cases "host_of_claim db c")
  case None
  with that [of None] show ?thesis by simp
next
  case (Some t)
  with assms obtain row where "row \<in> set (hosts db)" "ho_id row = t"
    by (auto simp: host_of_claim_Some database_okD)
  moreover from this assms obtain r where "row = encode_host cd r"
    by (auto simp: database_ok_def host_row_ok_def)
  ultimately show ?thesis using Some that [of "Some (host_id_of r)"] by simp
qed

lemma claim_row_ok_check: "claim_row_ok cd c \<Longrightarrow> claim_row_check c"
  by (auto simp: claim_row_ok_def claim_fits_check)

lemma host_row_ok_check: "host_row_ok cd h \<Longrightarrow> host_row_check h"
  by (auto simp: host_row_ok_def host_fits_check)

text \<open>A stored claim row, decoded with its host.\<close>

lemma stored_claim:
  assumes cd: "codec_ok cd" and db: "database_ok cd db" and row: "c \<in> set (host_claims db)"
  obtains r where "claim_fits r" and "c = encode_claim cd r"
    and "host_of_claim db c = map_option (host_id_text cd) (claim_host r)"
    and "claim_record_from_row cd (c, host_of_claim db c) = Inr r"
proof -
  from db row obtain r0 where r0: "claim_fits r0" "c = encode_claim cd r0"
    by (auto simp: database_ok_def claim_row_ok_def)
  from db obtain h where h: "host_of_claim db c = map_option (host_id_text cd) h"
    by (rule host_of_claim_text)
  show ?thesis
    by (rule that [of "with_host h r0"]) (simp_all add: r0 h [unfolded r0(2)] claim_round_trip cd)
qed

lemma find_claim_row:
  assumes "database_ok cd db" and "c \<in> set (host_claims db)"
  shows "find (\<lambda>r. cl_id r = cl_id c) (host_claims db) = Some c"
  using assms by (intro find_key_distinct) (auto simp: database_ok_def keys_ok_def)

lemma claim_view_SomeE:
  assumes cd: "codec_ok cd" and db: "database_ok cd db" and view: "claim_view cd db i = Some r"
  obtains "claim_fits r" and "claim_id_of r = i" and "encode_claim cd r \<in> set (host_claims db)"
    and "fetch_claim_row db (claim_id_text cd i) =
      Some (encode_claim cd r, map_option (host_id_text cd) (claim_host r))"
    and "host_of_claim db (encode_claim cd r) = map_option (host_id_text cd) (claim_host r)"
    and "claim_record_from_row cd
      (encode_claim cd r, map_option (host_id_text cd) (claim_host r)) = Inr r"
proof -
  from view obtain row where row: "fetch_claim_row db (claim_id_text cd i) = Some row"
    and rec: "claim_record_from_row cd row = Inr r"
    by (auto simp: claim_view_def split: option.splits sum.splits)
  from row db obtain c where c: "c \<in> set (host_claims db)" "cl_id c = claim_id_text cd i"
      "row = (c, host_of_claim db c)"
    by (auto simp: fetch_claim_row_eq database_okD dest: find_SomeD)
  from cd db c(1) obtain r' where r': "claim_fits r'" "c = encode_claim cd r'"
      "host_of_claim db c = map_option (host_id_text cd) (claim_host r')"
      "claim_record_from_row cd (c, host_of_claim db c) = Inr r'"
    by (rule stored_claim)
  with rec c(3) have "r' = r" by simp
  with r' c row cd that show ?thesis by (simp add: claim_id_text_inj)
qed

lemma claim_view_None:
  assumes cd: "codec_ok cd" and db: "database_ok cd db" and view: "claim_view cd db i = None"
  shows "fetch_claim_row db (claim_id_text cd i) = None"
    and "claim_id_text cd i \<notin> cl_id ` set (host_claims db)"
proof -
  show none: "fetch_claim_row db (claim_id_text cd i) = None"
  proof (rule ccontr)
    assume "fetch_claim_row db (claim_id_text cd i) \<noteq> None"
    with db obtain c where c: "c \<in> set (host_claims db)"
        "fetch_claim_row db (claim_id_text cd i) = Some (c, host_of_claim db c)"
      by (auto simp: fetch_claim_row_eq database_okD dest: find_SomeD)
    from cd db c(1) obtain r where "claim_record_from_row cd (c, host_of_claim db c) = Inr r"
      by (rule stored_claim)
    with c(2) view show False by (simp add: claim_view_def)
  qed
  then show "claim_id_text cd i \<notin> cl_id ` set (host_claims db)"
    using db by (auto simp: fetch_claim_row_eq database_okD find_None_iff image_iff)
qed

lemma stored_host:
  assumes "database_ok cd db" and "h \<in> set (hosts db)"
  obtains r where "host_fits r" and "h = encode_host cd r"
  using assms by (auto simp: database_ok_def host_row_ok_def)

lemma find_host_row:
  assumes "database_ok cd db" and "h \<in> set (hosts db)"
  shows "fetch_host_row db (ho_id h) = Some h"
    and "fetch_host_for_claim_row db (ho_claim_id h) = Some h"
  using assms find_key_distinct [of ho_id "hosts db" h] find_key_distinct [of ho_claim_id "hosts db" h]
  by (auto simp: fetch_host_row_def fetch_host_for_claim_row_def database_ok_def keys_ok_def)

lemma host_view_Some:
  assumes cd: "codec_ok cd" and db: "database_ok cd db"
  shows "host_view cd db h = Some r \<longleftrightarrow>
    host_fits r \<and> encode_host cd r \<in> set (hosts db) \<and> host_id_of r = h"
proof
  assume view: "host_view cd db h = Some r"
  then obtain row where row: "fetch_host_row db (host_id_text cd h) = Some row"
    and rec: "host_record_from_row cd row = Inr r"
    by (auto simp: host_view_def split: option.splits sum.splits)
  from row have "row \<in> set (hosts db)" "ho_id row = host_id_text cd h"
    by (auto simp: fetch_host_row_def dest: find_SomeD)
  moreover from this(1) obtain r' where "host_fits r'" "row = encode_host cd r'"
    using db by (blast elim: stored_host)
  ultimately show "host_fits r \<and> encode_host cd r \<in> set (hosts db) \<and> host_id_of r = h"
    using rec cd by (auto simp: host_round_trip host_id_text_inj)
next
  assume r: "host_fits r \<and> encode_host cd r \<in> set (hosts db) \<and> host_id_of r = h"
  with db have "fetch_host_row db (host_id_text cd h) = Some (encode_host cd r)"
    using find_host_row(1) [of cd db "encode_host cd r"] by simp
  then show "host_view cd db h = Some r" using cd by (simp add: host_view_def host_round_trip)
qed

lemma host_view_None:
  assumes cd: "codec_ok cd" and db: "database_ok cd db"
  shows "host_view cd db h = None \<longleftrightarrow> host_id_text cd h \<notin> ho_id ` set (hosts db)"
proof
  assume none: "host_view cd db h = None"
  show "host_id_text cd h \<notin> ho_id ` set (hosts db)"
  proof
    assume "host_id_text cd h \<in> ho_id ` set (hosts db)"
    then obtain row where "row \<in> set (hosts db)" "ho_id row = host_id_text cd h" by auto
    moreover from this(1) obtain r where "host_fits r" "row = encode_host cd r"
      using db by (blast elim: stored_host)
    ultimately have "host_view cd db h = Some r"
      using cd db by (simp add: host_view_Some host_id_text_inj)
    with none show False by simp
  qed
next
  assume "host_id_text cd h \<notin> ho_id ` set (hosts db)"
  then have "fetch_host_row db (host_id_text cd h) = None"
    by (auto simp: fetch_host_row_def find_None_iff image_iff)
  then show "host_view cd db h = None" by (simp add: host_view_def)
qed

text \<open>A claim's host is the host that names the claim.\<close>

lemma claim_host_iff:
  assumes cd: "codec_ok cd" and db: "database_ok cd db" and view: "claim_view cd db i = Some r"
  shows "claim_host r = Some h \<longleftrightarrow> (\<exists>hr. host_view cd db h = Some hr \<and> host_claim_of hr = i)"
proof -
  from cd db view obtain i: "claim_id_of r = i"
    and host: "host_of_claim db (encode_claim cd r) = map_option (host_id_text cd) (claim_host r)"
    by (rule claim_view_SomeE)
  have "claim_host r = Some h \<longleftrightarrow> host_of_claim db (encode_claim cd r) = Some (host_id_text cd h)"
    using host cd by (auto simp: host_id_text_inj)
  also have "\<dots> \<longleftrightarrow> (\<exists>row \<in> set (hosts db). ho_id row = host_id_text cd h \<and> ho_claim_id row = claim_id_text cd i)"
    using db i by (simp add: host_of_claim_Some database_okD)
  also have "\<dots> \<longleftrightarrow> (\<exists>hr. host_view cd db h = Some hr \<and> host_claim_of hr = i)"
  proof
    assume "\<exists>row \<in> set (hosts db). ho_id row = host_id_text cd h \<and> ho_claim_id row = claim_id_text cd i"
    then obtain row where row: "row \<in> set (hosts db)" "ho_id row = host_id_text cd h"
        "ho_claim_id row = claim_id_text cd i" by blast
    moreover from db row(1) obtain hr where "host_fits hr" "row = encode_host cd hr" by (rule stored_host)
    ultimately show "\<exists>hr. host_view cd db h = Some hr \<and> host_claim_of hr = i"
      using cd db by (auto simp: host_view_Some host_id_text_inj claim_id_text_inj)
  next
    assume "\<exists>hr. host_view cd db h = Some hr \<and> host_claim_of hr = i"
    then show "\<exists>row \<in> set (hosts db). ho_id row = host_id_text cd h \<and> ho_claim_id row = claim_id_text cd i"
      using cd db by (force simp: host_view_Some)
  qed
  finally show ?thesis .
qed

lemma host_claim_view:
  assumes cd: "codec_ok cd" and db: "database_ok cd db" and view: "host_view cd db h = Some hr"
  obtains c where "claim_view cd db (host_claim_of hr) = Some c" and "claim_host c = Some h"
proof -
  have "encode_host cd hr \<in> set (hosts db)" using view by (auto simp: host_view_Some [OF cd db])
  then have "claim_id_text cd (host_claim_of hr) \<in> cl_id ` set (host_claims db)"
    using database_okD [OF db] by (force simp: keys_ok_def)
  then obtain c where c: "claim_view cd db (host_claim_of hr) = Some c"
    using claim_view_None(2) [OF cd db] by fastforce
  then show ?thesis using that claim_host_iff [OF cd db c] view by blast
qed

section \<open>Rows and records\<close>

lemma option_eqI: "(\<And>x. a = Some x \<longleftrightarrow> b = Some x) \<Longrightarrow> a = b"
  by (cases a; cases b) auto

lemma claim_view_iff:
  assumes cd: "codec_ok cd" and db: "database_ok cd db"
  shows "claim_view cd db i = Some r \<longleftrightarrow>
    claim_fits r \<and> claim_id_of r = i \<and> encode_claim cd r \<in> set (host_claims db)
    \<and> host_of_claim db (encode_claim cd r) = map_option (host_id_text cd) (claim_host r)"
proof
  assume "claim_view cd db i = Some r"
  with cd db show "claim_fits r \<and> claim_id_of r = i \<and> encode_claim cd r \<in> set (host_claims db)
    \<and> host_of_claim db (encode_claim cd r) = map_option (host_id_text cd) (claim_host r)"
    by (rule claim_view_SomeE) simp
next
  assume r: "claim_fits r \<and> claim_id_of r = i \<and> encode_claim cd r \<in> set (host_claims db)
    \<and> host_of_claim db (encode_claim cd r) = map_option (host_id_text cd) (claim_host r)"
  then have "fetch_claim_row db (claim_id_text cd i) =
      Some (encode_claim cd r, map_option (host_id_text cd) (claim_host r))"
    using find_claim_row [OF db, of "encode_claim cd r"] db
    by (simp add: fetch_claim_row_eq database_okD)
  then show "claim_view cd db i = Some r"
    by (simp add: claim_view_def claim_round_trip cd)
qed

text \<open>A record is determined by its row, a claim's by its row and its host.\<close>

lemma encode_claim_inj:
  assumes cd: "codec_ok cd" and same: "encode_claim cd x = encode_claim cd y" "claim_host x = claim_host y"
  shows "x = y"
proof -
  have "with_host (claim_host x) x = with_host (claim_host x) y"
    using claim_round_trip [OF cd, of x "claim_host x"] claim_round_trip [OF cd, of y "claim_host x"] same(1) by simp
  with same(2) show ?thesis by (metis with_host_same)
qed

lemma encode_host_inj: "codec_ok cd \<Longrightarrow> encode_host cd x = encode_host cd y \<Longrightarrow> x = y"
  by (metis host_round_trip sum.inject(2))

text \<open>The rows a statement about one identifier finds.\<close>

lemma claim_row_viewed:
  assumes cd: "codec_ok cd" and db: "database_ok cd db"
    and row: "c \<in> set (host_claims db)" "cl_id c = claim_id_text cd i"
  obtains r where "c = encode_claim cd r" and "claim_view cd db i = Some r"
proof -
  from cd db row(1) obtain r where "claim_fits r" "c = encode_claim cd r"
      "host_of_claim db c = map_option (host_id_text cd) (claim_host r)"
    by (rule stored_claim)
  with that row cd show ?thesis by (auto simp: claim_view_iff [OF cd db] claim_id_text_inj)
qed

lemma matching_claims:
  assumes cd: "codec_ok cd" and db: "database_ok cd db"
  shows "filter (\<lambda>c. cl_id c = claim_id_text cd i) (host_claims db) =
    (case claim_view cd db i of None \<Rightarrow> [] | Some r \<Rightarrow> [encode_claim cd r])"
proof (cases "claim_view cd db i")
  case None
  then show ?thesis using claim_view_None(2) [OF cd db None] by (auto simp: filter_empty_conv image_iff)
next
  case (Some r)
  with cd db obtain "encode_claim cd r \<in> set (host_claims db)" "claim_id_of r = i"
    by (rule claim_view_SomeE)
  with Some show ?thesis
    using db find_claim_row [OF db, of "encode_claim cd r"] by (simp add: filter_unique keys_ok_def database_ok_def)
qed

lemma host_row_viewed:
  assumes cd: "codec_ok cd" and db: "database_ok cd db" and row: "c \<in> set (hosts db)" "ho_id c = host_id_text cd h"
  obtains r where "c = encode_host cd r" and "host_view cd db h = Some r"
proof -
  from db row(1) obtain r where "host_fits r" "c = encode_host cd r" by (rule stored_host)
  with that row cd show ?thesis by (auto simp: host_view_Some [OF cd db] host_id_text_inj)
qed

section \<open>Rewriting the row of one claim\<close>

lemma find_update_where:
  "(\<And>r. k (f r) = k r) \<Longrightarrow>
     find (\<lambda>r. k r = a) (update_where p f rows) =
     map_option (\<lambda>r. if p r then f r else r) (find (\<lambda>r. k r = a) rows)"
  by (induction rows) (auto simp: update_where_def)

lemma updated_claims_view:
  assumes cd: "codec_ok cd" and db: "database_ok cd db"
    and f: "\<And>r. cl_id (f r) = cl_id r"
    and g: "\<And>r. claim_view cd db i = Some r \<Longrightarrow> q (encode_claim cd r) \<Longrightarrow>
      f (encode_claim cd r) = encode_claim cd (g r) \<and> claim_fits (g r) \<and> claim_host (g r) = claim_host r"
    and db': "db' = db\<lparr>host_claims := update_where (\<lambda>r. cl_id r = claim_id_text cd i \<and> q r) f (host_claims db)\<rparr>"
      "database_ok cd db'"
  shows "claim_view cd db' =
    (claim_view cd db)(i := map_option (\<lambda>r. if q (encode_claim cd r) then g r else r) (claim_view cd db i))"
proof (rule ext)
  fix j
  have host: "host_of_claim db' c = host_of_claim db c'" if "cl_id c = cl_id c'" for c c'
    using that by (simp add: db'(1) host_of_claim_def fetch_host_for_claim_row_def)
  show "claim_view cd db' j =
    ((claim_view cd db)(i := map_option (\<lambda>r. if q (encode_claim cd r) then g r else r) (claim_view cd db i))) j"
  proof (cases "claim_view cd db j")
    case None
    then have "claim_id_text cd j \<notin> cl_id ` set (host_claims db')"
      using claim_view_None(2) [OF cd db None] f by (force simp: db'(1) update_where_def)
    then have "claim_view cd db' j = None"
      by (force simp: claim_view_iff [OF cd db'(2)] intro!: option_eqI)
    with None show ?thesis by auto
  next
    case (Some r)
    then have r: "claim_fits r" "claim_id_of r = j" "encode_claim cd r \<in> set (host_claims db)"
        "host_of_claim db (encode_claim cd r) = map_option (host_id_text cd) (claim_host r)"
      by (simp_all add: claim_view_iff [OF cd db])
    define r' where "r' = (if i = j \<and> q (encode_claim cd r) then g r else r)"
    have row: "encode_claim cd r' = (if cl_id (encode_claim cd r) = claim_id_text cd i \<and> q (encode_claim cd r)
        then f (encode_claim cd r) else encode_claim cd r)" "claim_fits r'" "claim_host r' = claim_host r"
      using g [of r] r(1,2) Some cd by (auto simp: r'_def claim_id_text_inj)
    then have "cl_id (encode_claim cd r') = cl_id (encode_claim cd r)" using f by simp
    then have id: "claim_id_of r' = j" using r(2) cd by (simp add: claim_id_text_inj)
    have "encode_claim cd r' \<in> set (host_claims db')"
      unfolding row(1) db'(1) using r(3) by (auto simp: set_update_where)
    then have "claim_view cd db' j = Some r'"
      using r row(2,3) id host [of "encode_claim cd r'" "encode_claim cd r"] by (simp add: claim_view_iff [OF cd db'(2)])
    then show ?thesis using Some by (auto simp: r'_def)
  qed
qed

text \<open>
  An UPDATE of the row of claim \<open>i\<close>, guarded by \<open>q\<close>, that rewrites stored records by \<open>g\<close>: it
  affects one row or none, and the map changes at \<open>i\<close> only.
\<close>

lemma update_claim_spec:
  assumes cd: "codec_ok cd" and db: "database_ok cd db"
    and f: "\<And>r. cl_id (f r) = cl_id r"
    and g: "\<And>r. claim_view cd db i = Some r \<Longrightarrow> q (encode_claim cd r) \<Longrightarrow>
      f (encode_claim cd r) = encode_claim cd (g r) \<and> claim_fits (g r) \<and> claim_host (g r) = claim_host r"
  obtains db' where
    "update_claim_rows (\<lambda>r. cl_id r = claim_id_text cd i \<and> q r) f db =
      Inr (if \<exists>r. claim_view cd db i = Some r \<and> q (encode_claim cd r) then 1 else 0, db')"
    and "database_ok cd db'" and "hosts db' = hosts db"
    and "claim_view cd db' =
      (claim_view cd db)(i := map_option (\<lambda>r. if q (encode_claim cd r) then g r else r) (claim_view cd db i))"
proof -
  let ?p = "\<lambda>r. cl_id r = claim_id_text cd i \<and> q r"
  let ?db' = "db\<lparr>host_claims := update_where ?p f (host_claims db)\<rparr>"
  have ok: "claim_row_ok cd (f c)" if "c \<in> set (host_claims db)" "?p c" for c
  proof -
    from that obtain r where "c = encode_claim cd r" "claim_view cd db i = Some r" by (blast elim: claim_row_viewed [OF cd db])
    with that(2) g show ?thesis by (auto simp: claim_row_ok_def)
  qed
  have check: "list_all (\<lambda>r. claim_row_check (f r)) (filter ?p (host_claims db))"
    using ok claim_row_ok_check by (auto simp: list_all_iff)
  have "filter ?p (host_claims db) = filter q (filter (\<lambda>r. cl_id r = claim_id_text cd i) (host_claims db))"
    by (simp add: conj_commute)
  then have upd: "update_claim_rows ?p f db =
      Inr (if \<exists>r. claim_view cd db i = Some r \<and> q (encode_claim cd r) then 1 else 0, ?db')"
    using check by (simp add: update_claim_rows_def matching_claims [OF cd db] split: option.split)
  then have "keys_ok ?db'" using database_okD [OF db] f by (rule update_claim_rows_keys)
  then have db': "database_ok cd ?db'"
    using db ok by (auto simp: database_ok_def set_update_where)
  show ?thesis by (rule that [OF upd db' _ updated_claims_view [OF cd db f g refl db']]) simp
qed

section \<open>Rewriting the row of one host\<close>

lemma resource_ids_iff: "t \<in> set (resource_ids rows) \<longleftrightarrow> (\<exists>r \<in> set rows. ho_provider_resource_id r = Some t)"
  by (force simp: resource_ids_def List.map_filter_def)

lemma resource_ids_Cons:
  "distinct (resource_ids (x # xs)) \<longleftrightarrow> distinct (resource_ids xs)
     \<and> (\<forall>t. ho_provider_resource_id x = Some t \<longrightarrow> (\<forall>y \<in> set xs. ho_provider_resource_id y \<noteq> Some t))"
  using resource_ids_iff [of _ xs] by (auto simp: resource_ids_def map_filter_simps split: option.splits)

text \<open>An update keeps the resource identifiers distinct when what it writes is kept or new.\<close>

lemma resource_ids_update:
  assumes "distinct (map k rows)"
    and "\<And>r t. r \<in> set rows \<Longrightarrow> k r = a \<Longrightarrow> ho_provider_resource_id (f r) = Some t \<Longrightarrow>
      \<forall>r' \<in> set rows. k r' \<noteq> a \<longrightarrow> ho_provider_resource_id r' \<noteq> Some t"
    and "distinct (resource_ids rows)"
  shows "distinct (resource_ids (update_where (\<lambda>r. k r = a) f rows))"
  using assms
proof (induction rows)
  case (Cons x xs)
  let ?new = "update_where (\<lambda>r. k r = a) f"
  have old: "ho_provider_resource_id y \<noteq> Some t" if "ho_provider_resource_id x = Some t" "y \<in> set xs" for t y
    using Cons.prems(3) that unfolding resource_ids_Cons by blast
  have written: "ho_provider_resource_id y \<noteq> Some t"
    if "r \<in> set (x # xs)" "k r = a" "ho_provider_resource_id (f r) = Some t" "y \<in> set (x # xs)" "k y \<noteq> a" for r t y
    using Cons.prems(2) [OF that(1-3)] that(4,5) by blast
  have IH: "distinct (resource_ids (?new xs))"
    by (rule Cons.IH) (use Cons.prems written in \<open>auto simp: resource_ids_Cons\<close>)
  show ?case
  proof (cases "k x = a")
    case True
    then have others: "k y \<noteq> a" if "y \<in> set xs" for y using Cons.prems(1) that by (auto simp: image_iff)
    then have "?new xs = xs" by (simp add: update_where_def map_idI)
    then have "?new (x # xs) = f x # xs" using True by (simp add: update_where_def)
    then show ?thesis using IH \<open>?new xs = xs\<close> written [of x] True others by (simp add: resource_ids_Cons)
  next
    case False
    then have "?new (x # xs) = x # ?new xs" by (simp add: update_where_def)
    moreover have "ho_provider_resource_id y \<noteq> Some t" if "ho_provider_resource_id x = Some t" "y \<in> set (?new xs)" for t y
      using that old written [of _ t x] False by (auto simp: set_update_where)
    ultimately show ?thesis using IH by (simp add: resource_ids_Cons)
  qed
qed (simp add: update_where_def)

text \<open>
  An UPDATE of the row of host \<open>h\<close> that rewrites stored records by \<open>g\<close>. The statement fails
  only when the resource identifier it writes belongs to another host.
\<close>

definition resource_free :: "codec \<Rightarrow> database \<Rightarrow> HostId \<Rightarrow> string option \<Rightarrow> bool" where
  "resource_free cd db h rid \<longleftrightarrow>
     (\<forall>t. rid = Some t \<longrightarrow> (\<forall>row \<in> set (hosts db). ho_id row \<noteq> host_id_text cd h \<longrightarrow>
        ho_provider_resource_id row \<noteq> Some t))"

lemma updated_hosts_view:
  assumes cd: "codec_ok cd" and db: "database_ok cd db" and f: "\<And>r. ho_id (f r) = ho_id r"
    and g: "\<And>r. host_view cd db h = Some r \<Longrightarrow> f (encode_host cd r) = encode_host cd (g r) \<and> host_fits (g r)"
    and db': "db' = db\<lparr>hosts := update_where (\<lambda>r. ho_id r = host_id_text cd h) f (hosts db)\<rparr>" "database_ok cd db'"
  shows "host_view cd db' = (host_view cd db)(h := map_option g (host_view cd db h))"
proof (rule ext)
  fix j
  show "host_view cd db' j = ((host_view cd db)(h := map_option g (host_view cd db h))) j"
  proof (cases "host_view cd db j")
    case None
    then have "host_id_text cd j \<notin> ho_id ` set (hosts db')"
      using host_view_None [OF cd db, of j] f by (force simp: db'(1) update_where_def)
    with None show ?thesis using host_view_None [OF cd db'(2), of j] by auto
  next
    case (Some r)
    then have r: "host_fits r" "encode_host cd r \<in> set (hosts db)" "host_id_of r = j"
      by (simp_all add: host_view_Some [OF cd db])
    define r' where "r' = (if h = j then g r else r)"
    have row: "encode_host cd r' = (if ho_id (encode_host cd r) = host_id_text cd h
        then f (encode_host cd r) else encode_host cd r)" "host_fits r'"
      using g [of r] r(1,3) Some cd by (auto simp: r'_def host_id_text_inj)
    then have "ho_id (encode_host cd r') = ho_id (encode_host cd r)" using f by simp
    then have id: "host_id_of r' = j" using r(3) cd by (simp add: host_id_text_inj)
    have "encode_host cd r' \<in> set (hosts db')"
      unfolding row(1) db'(1) using r(2) by (auto simp: set_update_where)
    then have "host_view cd db' j = Some r'" using row(2) id by (simp add: host_view_Some [OF cd db'(2)])
    then show ?thesis using Some by (auto simp: r'_def)
  qed
qed

lemma update_host_spec:
  assumes cd: "codec_ok cd" and db: "database_ok cd db"
    and f: "\<And>r. ho_id (f r) = ho_id r" "\<And>r. ho_claim_id (f r) = ho_claim_id r"
    and g: "\<And>r. host_view cd db h = Some r \<Longrightarrow>
      f (encode_host cd r) = encode_host cd (g r) \<and> host_fits (g r)
      \<and> resource_free cd db h (hs_provider_resource_id (h_status (hr_resource (g r))))"
  obtains db' where
    "update_host_rows (\<lambda>r. ho_id r = host_id_text cd h) f db =
      Inr (if host_view cd db h = None then 0 else 1, db')"
    and "database_ok cd db'" and "host_claims db' = host_claims db"
    and "host_view cd db' = (host_view cd db)(h := map_option g (host_view cd db h))"
proof -
  let ?p = "\<lambda>r. ho_id r = host_id_text cd h"
  let ?db' = "db\<lparr>hosts := update_where ?p f (hosts db)\<rparr>"
  have keys: "keys_ok db" using db by (rule database_okD)
  have row: "\<exists>r. c = encode_host cd r \<and> host_view cd db h = Some r" if "c \<in> set (hosts db)" "?p c" for c
    using that by (blast elim: host_row_viewed [OF cd db])
  have ok: "host_row_ok cd (f c)" if "c \<in> set (hosts db)" "?p c" for c
    using row [OF that] g by (force simp: host_row_ok_def)
  have check: "list_all (\<lambda>r. host_row_check (f r)) (filter ?p (hosts db))"
    using ok host_row_ok_check by (auto simp: list_all_iff)
  have count: "length (filter ?p (hosts db)) = (if host_view cd db h = None then 0 else 1)"
    using keys host_view_None [OF cd db, of h] by (simp add: length_filter_key_distinct keys_ok_def)
  have "distinct (resource_ids (update_where ?p f (hosts db)))"
  proof (rule resource_ids_update)
    show "\<forall>r' \<in> set (hosts db). ho_id r' \<noteq> host_id_text cd h \<longrightarrow> ho_provider_resource_id r' \<noteq> Some t"
      if "c \<in> set (hosts db)" "?p c" "ho_provider_resource_id (f c) = Some t" for c t
      using row [OF that(1,2)] g that(3) by (force simp: resource_free_def)
  qed (use keys in \<open>simp_all add: keys_ok_def\<close>)
  then have upd: "update_host_rows ?p f db = Inr (if host_view cd db h = None then 0 else 1, ?db')"
    using check count by (simp add: update_host_rows_def)
  then have keys': "keys_ok ?db'" using keys f by (rule update_host_rows_keys)
  then have db': "database_ok cd ?db'"
    using db ok by (auto simp: database_ok_def set_update_where)
  have "host_view cd ?db' = (host_view cd db)(h := map_option g (host_view cd db h))"
    by (rule updated_hosts_view [OF cd db f(1) _ refl db']) (use g in blast)
  from that [OF upd db' _ this] show ?thesis by simp
qed

section \<open>Inserting and deleting\<close>

lemma inserted_claim_view:
  assumes cd: "codec_ok cd" and db: "database_ok cd db"
    and new: "claim_view cd db (claim_id_of r) = None" and r: "claim_fits r" "claim_host r = None"
    and db': "db' = db\<lparr>host_claims := host_claims db @ [encode_claim cd r]\<rparr>" "database_ok cd db'"
  shows "claim_view cd db' = (claim_view cd db)(claim_id_of r \<mapsto> r)"
proof (rule ext, rule option_eqI)
  fix j x
  have host: "host_of_claim db' c = host_of_claim db c" for c
    by (simp add: db'(1) host_of_claim_def fetch_host_for_claim_row_def)
  have fresh: "claim_id_text cd (claim_id_of r) \<notin> cl_id ` set (host_claims db)"
    using claim_view_None(2) [OF cd db new] .
  then have unassigned: "host_of_claim db (encode_claim cd r) = None"
    using db by (auto simp: host_of_claim_None database_ok_def keys_ok_def)
  have "claim_view cd db' j = Some x \<longleftrightarrow> claim_fits x \<and> claim_id_of x = j
      \<and> (encode_claim cd x = encode_claim cd r \<or> encode_claim cd x \<in> set (host_claims db))
      \<and> host_of_claim db (encode_claim cd x) = map_option (host_id_text cd) (claim_host x)"
    by (simp add: claim_view_iff [OF cd db'(2)] host) (simp add: db'(1))
  also have "\<dots> \<longleftrightarrow> ((claim_view cd db)(claim_id_of r \<mapsto> r)) j = Some x"
  proof (cases "j = claim_id_of r")
    case True
    have "x = r" if "encode_claim cd x = encode_claim cd r" "claim_host x = None"
      using that r(2) by (intro encode_claim_inj [OF cd]) simp_all
    moreover have "encode_claim cd x \<notin> set (host_claims db)" if "claim_id_of x = j"
      using fresh that True by (force simp: image_iff)
    ultimately show ?thesis using True r unassigned by auto
  next
    case False
    then have "encode_claim cd x \<noteq> encode_claim cd r" if "claim_id_of x = j"
      using that cd by (metis encode_claim_sel(1) claim_id_text_inj)
    with False show ?thesis by (auto simp: claim_view_iff [OF cd db])
  qed
  finally show "claim_view cd db' j = Some x \<longleftrightarrow> ((claim_view cd db)(claim_id_of r \<mapsto> r)) j = Some x" .
qed

lemma insert_claim_spec:
  assumes cd: "codec_ok cd" and db: "database_ok cd db"
    and new: "claim_view cd db (claim_id_of r) = None" and r: "claim_fits r" "claim_host r = None"
  obtains db' where "insert_claim_row (encode_claim cd r) db = Inr db'" and "database_ok cd db'"
    and "hosts db' = hosts db" and "claim_view cd db' = (claim_view cd db)(claim_id_of r \<mapsto> r)"
proof -
  let ?db' = "db\<lparr>host_claims := host_claims db @ [encode_claim cd r]\<rparr>"
  have ins: "insert_claim_row (encode_claim cd r) db = Inr ?db'"
    using claim_view_None(2) [OF cd db new] r by (simp add: insert_claim_row_def claim_fits_check)
  then have "keys_ok ?db'" using db by (blast intro: insert_claim_row_keys database_okD)
  then have ok: "database_ok cd ?db'"
    using db r by (auto simp: database_ok_def claim_row_ok_def)
  show ?thesis by (rule that [OF ins ok _ inserted_claim_view [OF cd db new r refl ok]]) simp
qed

lemma find_append: "find p (xs @ ys) = (case find p xs of None \<Rightarrow> find p ys | Some x \<Rightarrow> Some x)"
  by (induction xs) auto

lemma find_filter: "(\<And>x. q x \<Longrightarrow> p x) \<Longrightarrow> find q (filter p xs) = find q xs"
  by (induction xs) auto

lemma inserted_host_view:
  assumes cd: "codec_ok cd" and db: "database_ok cd db" and hr: "host_fits hr"
    and new: "host_view cd db (host_id_of hr) = None"
    and db': "db' = db\<lparr>hosts := hosts db @ [encode_host cd hr]\<rparr>" "database_ok cd db'"
  shows "host_view cd db' = (host_view cd db)(host_id_of hr \<mapsto> hr)"
proof (rule ext, rule option_eqI)
  fix j x
  have "encode_host cd x \<notin> set (hosts db)" if "host_id_of x = host_id_of hr"
    using new that by (auto simp: host_view_None [OF cd db] image_iff dest: sym)
  then show "host_view cd db' j = Some x \<longleftrightarrow> ((host_view cd db)(host_id_of hr \<mapsto> hr)) j = Some x"
    using hr encode_host_inj [OF cd, of x hr]
    by (auto simp: host_view_Some [OF cd db'(2)] host_view_Some [OF cd db]) (auto simp: db'(1))
qed

text \<open>The claim of a host that is inserted names it afterwards; no other claim's row changes.\<close>

lemma assigned_claim_view:
  assumes cd: "codec_ok cd" and db: "database_ok cd db"
    and claim: "claim_view cd db (host_claim_of hr) = Some r" "claim_host r = None"
    and db': "db' = db\<lparr>hosts := hosts db @ [encode_host cd hr]\<rparr>" "database_ok cd db'"
  shows "claim_view cd db' = (claim_view cd db)(host_claim_of hr \<mapsto> with_host (Some (host_id_of hr)) r)"
proof (rule ext)
  fix j
  have r: "claim_fits r" "claim_id_of r = host_claim_of hr" "encode_claim cd r \<in> set (host_claims db)"
      "host_of_claim db (encode_claim cd r) = None"
    using claim by (simp_all add: claim_view_iff [OF cd db])
  have free: "claim_id_text cd (host_claim_of hr) \<notin> ho_claim_id ` set (hosts db)"
    using r by (simp add: host_of_claim_None)
  have join: "host_of_claim db' c =
      (if cl_id c = claim_id_text cd (host_claim_of hr) then Some (host_id_text cd (host_id_of hr))
       else host_of_claim db c)" for c
    using free by (auto simp: db'(1) host_of_claim_def fetch_host_for_claim_row_def find_append image_iff
        split: option.splits dest!: find_SomeD)
  have same: "host_claims db' = host_claims db" by (simp add: db'(1))
  show "claim_view cd db' j = ((claim_view cd db)(host_claim_of hr \<mapsto> with_host (Some (host_id_of hr)) r)) j"
  proof (cases "j = host_claim_of hr")
    case True
    have "claim_view cd db' j = Some (with_host (Some (host_id_of hr)) r)"
      using r True by (simp add: claim_view_iff [OF cd db'(2)] join same)
    with True show ?thesis by simp
  next
    case False
    have "claim_view cd db' j = claim_view cd db j"
      using False cd by (intro option_eqI)
        (auto simp: claim_view_iff [OF cd db'(2)] claim_view_iff [OF cd db] join same claim_id_text_inj)
    with False show ?thesis by simp
  qed
qed

lemma insert_host_spec:
  assumes cd: "codec_ok cd" and db: "database_ok cd db"
    and claim: "claim_view cd db (host_claim_of hr) = Some r" "claim_host r = None"
    and hr: "host_fits hr" "hs_provider_resource_id (h_status (hr_resource hr)) = None"
    and new: "host_view cd db (host_id_of hr) = None"
  obtains db' where "insert_host_row (encode_host cd hr) db = Inr (1, db')" and "database_ok cd db'"
    and "host_claims db' = host_claims db"
    and "hosts db' = hosts db @ [encode_host cd hr]"
    and "host_view cd db' = (host_view cd db)(host_id_of hr \<mapsto> hr)"
    and "claim_view cd db' =
      (claim_view cd db)(host_claim_of hr \<mapsto> with_host (Some (host_id_of hr)) r)"
proof -
  let ?db' = "db\<lparr>hosts := hosts db @ [encode_host cd hr]\<rparr>"
  have r: "claim_id_of r = host_claim_of hr" "encode_claim cd r \<in> set (host_claims db)"
      "host_of_claim db (encode_claim cd r) = None"
    using claim by (simp_all add: claim_view_iff [OF cd db])
  have fresh: "host_id_text cd (host_id_of hr) \<notin> ho_id ` set (hosts db)"
    using new host_view_None [OF cd db] by simp
  have free: "claim_id_text cd (host_claim_of hr) \<notin> ho_claim_id ` set (hosts db)"
    using r by (simp add: host_of_claim_None)
  have parent: "claim_id_text cd (host_claim_of hr) \<in> cl_id ` set (host_claims db)"
    using r by force
  have "resource_ids (hosts db @ [encode_host cd hr]) = resource_ids (hosts db)"
    using hr by (simp add: resource_ids_def List.map_filter_def)
  then have ins: "insert_host_row (encode_host cd hr) db = Inr (1, ?db')"
    using fresh free parent hr db
    by (simp add: insert_host_row_def host_fits_check database_ok_def keys_ok_def)
  then have "keys_ok ?db'" using db by (blast intro: insert_host_row_keys database_okD)
  then have ok: "database_ok cd ?db'"
    using db hr by (auto simp: database_ok_def host_row_ok_def)
  from that [OF ins ok _ _ inserted_host_view [OF cd db hr(1) new refl ok] assigned_claim_view [OF cd db claim refl ok]]
  show ?thesis by simp
qed

text \<open>The rows that are left when a claim and, by the cascade, its host are deleted.\<close>

lemma deleted_views:
  assumes cd: "codec_ok cd" and db: "database_ok cd db" and db': "database_ok cd db'"
    and claims: "host_claims db' = filter (\<lambda>r. cl_id r \<noteq> claim_id_text cd i) (host_claims db)"
    and hosts: "hosts db' = filter (\<lambda>h. ho_claim_id h \<noteq> claim_id_text cd i) (hosts db)"
  shows "claim_view cd db' = (claim_view cd db)(i := None)"
    and "host_view cd db' = (\<lambda>h. case host_view cd db h of None \<Rightarrow> None
      | Some hr \<Rightarrow> if host_claim_of hr = i then None else Some hr)"
proof -
  have join: "host_of_claim db' c = host_of_claim db c" if "cl_id c \<noteq> claim_id_text cd i" for c
  proof -
    have "find (\<lambda>h. ho_claim_id h = cl_id c) (hosts db') = find (\<lambda>h. ho_claim_id h = cl_id c) (hosts db)"
      unfolding hosts using that by (intro find_filter) auto
    then show ?thesis by (simp add: host_of_claim_def fetch_host_for_claim_row_def)
  qed
  show "claim_view cd db' = (claim_view cd db)(i := None)"
    by (rule ext, rule option_eqI)
      (auto simp: claim_view_iff [OF cd db'] claim_view_iff [OF cd db] claims join claim_id_text_inj cd)
  have left: "host_view cd db' h = Some x \<longleftrightarrow> host_view cd db h = Some x \<and> host_claim_of x \<noteq> i" for h x
    by (auto simp: host_view_Some [OF cd db'] host_view_Some [OF cd db] hosts claim_id_text_inj cd)
  show "host_view cd db' = (\<lambda>h. case host_view cd db h of None \<Rightarrow> None
      | Some hr \<Rightarrow> if host_claim_of hr = i then None else Some hr)"
    by (rule ext, rule option_eqI) (auto simp: left split: option.splits)
qed

lemma delete_claim_spec:
  assumes cd: "codec_ok cd" and db: "database_ok cd db"
  obtains db' where
    "delete_claim_row (claim_id_text cd i) db = (if claim_view cd db i = None then 0 else 1, db')"
    and "database_ok cd db'"
    and "hosts db' = filter (\<lambda>h. ho_claim_id h \<noteq> claim_id_text cd i) (hosts db)"
    and "claim_view cd db' = (claim_view cd db)(i := None)"
    and "host_view cd db' = (\<lambda>h. case host_view cd db h of None \<Rightarrow> None
      | Some hr \<Rightarrow> if host_claim_of hr = i then None else Some hr)"
proof -
  let ?t = "claim_id_text cd i"
  let ?db' = "snd (delete_claim_row ?t db)"
  have keys: "keys_ok db" using db by (rule database_okD)
  have claims: "host_claims ?db' = filter (\<lambda>r. cl_id r \<noteq> ?t) (host_claims db)"
    by (simp add: delete_claim_row_def Let_def)
  have "ho_claim_id h \<in> cl_id ` set (filter (\<lambda>r. cl_id r = ?t) (host_claims db)) \<longleftrightarrow> ho_claim_id h = ?t"
    if "h \<in> set (hosts db)" for h
  proof -
    have "ho_claim_id h \<in> cl_id ` set (host_claims db)"
      using keys that by (auto simp: keys_ok_def)
    then show ?thesis by auto
  qed
  then have hosts: "hosts ?db' = filter (\<lambda>h. ho_claim_id h \<noteq> ?t) (hosts db)"
    by (auto simp: delete_claim_row_def Let_def intro!: filter_cong)
  have ok: "database_ok cd ?db'"
    using db delete_claim_row_keys [OF keys, of ?t] claims hosts by (auto simp: database_ok_def)
  have "delete_claim_row ?t db = (if claim_view cd db i = None then 0 else 1, ?db')"
    by (simp add: delete_claim_row_def Let_def matching_claims [OF cd db] split: option.split)
  from that [OF this ok hosts deleted_views [OF cd db ok claims hosts]] show ?thesis .
qed

end
