(* ===== verification/Storage_Spec.thy ===== *)
theory Storage_Spec
  imports Storage_Views
begin

text \<open>
  What the storage operations promise, as operations on two maps of typed records, and the proof
  that the SQL implementation refines them: on a well-formed database a healthy call returns what
  the specification returns and leaves a well-formed database whose maps are the specification's.
  A failing call leaves either the old database or the one the healthy call would have left.
\<close>

section \<open>The abstract store\<close>

record store =
  s_claims :: "HostClaimId \<Rightarrow> HostClaimRecord option"
  s_hosts :: "HostId \<Rightarrow> HostRecord option"

definition store_of :: "codec \<Rightarrow> database \<Rightarrow> store" where
  "store_of cd db = \<lparr>s_claims = claim_view cd db, s_hosts = host_view cd db\<rparr>"

lemma store_of_sel [simp]:
  "s_claims (store_of cd db) = claim_view cd db"
  "s_hosts (store_of cd db) = host_view cd db"
  by (simp_all add: store_of_def)

type_synonym 'a store_oper = "store \<Rightarrow> (AppError + 'a) \<times> store"

definition spec_get_claim :: "codec \<Rightarrow> HostClaimId \<Rightarrow> HostClaimRecord store_oper" where
  "spec_get_claim cd i st =
     (ok_or (NotFound ''HostClaim'' (claim_id_text cd i)) (s_claims st i), st)"

definition spec_create_claim ::
  "codec \<Rightarrow> Timestamp \<Rightarrow> HostClaimId \<Rightarrow> HostClaimSpec \<Rightarrow> HostClaim store_oper" where
  "spec_create_claim cd now i spec st =
     (case validate_resources (spec_resources spec) of
        Inl e \<Rightarrow> (Inl e, st)
      | Inr _ \<Rightarrow> (case s_claims st i of
          Some r \<Rightarrow>
            (if hc_spec (cr_resource r) = spec then Inr (cr_resource r)
             else Inl (Conflict ''HostClaim'' (claim_id_text cd i)
                    ''the existing claim has a different spec''), st)
        | None \<Rightarrow>
            (Inr (initial_claim i spec now),
             st\<lparr>s_claims := (s_claims st)(i \<mapsto>
                \<lparr>cr_resource = initial_claim i spec now, cr_retry = default_retry\<rparr>)\<rparr>)))"

definition spec_mark_claim_deleting :: "codec \<Rightarrow> Timestamp \<Rightarrow> HostClaimId \<Rightarrow> HostClaim store_oper" where
  "spec_mark_claim_deleting cd now i st =
     (case s_claims st i of
        None \<Rightarrow> (Inl (NotFound ''HostClaim'' (claim_id_text cd i)), st)
      | Some r \<Rightarrow>
          if claim_deletion r = None
          then (Inr (cr_resource (deletion_requested now r)),
                st\<lparr>s_claims := (s_claims st)(i \<mapsto> deletion_requested now r)\<rparr>)
          else (Inr (cr_resource r), st))"

text \<open>The stored record with the status and the retry state of \<open>record\<close>.\<close>

definition with_status :: "HostClaimRecord \<Rightarrow> HostClaimRecord \<Rightarrow> HostClaimRecord" where
  "with_status record r =
     (update_claim_status (\<lambda>s. s\<lparr>
        hcs_observed_generation := hcs_observed_generation (hc_status (cr_resource record)),
        hcs_conditions := hcs_conditions (hc_status (cr_resource record))\<rparr>) r)
     \<lparr>cr_retry := cr_retry record\<rparr>"

definition spec_save_claim_status :: "codec \<Rightarrow> HostClaimRecord \<Rightarrow> bool store_oper" where
  "spec_save_claim_status cd record st =
     (case to_i64 (hcs_observed_generation (hc_status (cr_resource record))) ''observed_generation'' of
        Inl e \<Rightarrow> (Inl e, st)
      | Inr _ \<Rightarrow> (case s_claims st (claim_id_of record) of
          None \<Rightarrow> (Inr False, st)
        | Some r \<Rightarrow>
            if claim_deletion r = claim_deletion record
            then (Inr True, st\<lparr>s_claims := (s_claims st)(claim_id_of record \<mapsto> with_status record r)\<rparr>)
            else (Inr False, st)))"

definition spec_finalize_claim :: "codec \<Rightarrow> HostClaimId \<Rightarrow> unit store_oper" where
  "spec_finalize_claim cd i st =
     (case s_claims st i of
        None \<Rightarrow> (Inl (NotFound ''HostClaim'' (claim_id_text cd i)), st)
      | Some _ \<Rightarrow> (Inr (), st\<lparr>s_claims := (s_claims st)(i := None),
          s_hosts := (\<lambda>h. case s_hosts st h of None \<Rightarrow> None
            | Some hr \<Rightarrow> if host_claim_of hr = i then None else Some hr)\<rparr>))"

definition new_host_record :: "HostId \<Rightarrow> HostClaimId \<Rightarrow> string \<Rightarrow> HostResources \<Rightarrow> Timestamp \<Rightarrow> HostRecord" where
  "new_host_record h i plan resources now =
     \<lparr>hr_resource = initial_host h i resources now, hr_provider_plan_id = plan,
      hr_retry = default_retry\<rparr>"

definition bound_claim :: "codec \<Rightarrow> Host \<Rightarrow> Timestamp \<Rightarrow> HostClaimRecord \<Rightarrow> HostClaimRecord" where
  "bound_claim cd host now r = (host_assigned cd host now r)\<lparr>cr_retry := default_retry\<rparr>"

definition spec_ensure_host ::
  "codec \<Rightarrow> Timestamp \<Rightarrow> HostId \<Rightarrow> HostClaimId \<Rightarrow> string \<Rightarrow> HostResources \<Rightarrow> HostRecord store_oper" where
  "spec_ensure_host cd now new_id i plan resources st =
     (case validate_resources resources of
        Inl e \<Rightarrow> (Inl e, st)
      | Inr _ \<Rightarrow> (case s_claims st i of
          None \<Rightarrow> (Inl (NotFound ''HostClaim'' (claim_id_text cd i)), st)
        | Some r \<Rightarrow>
            if claim_deletion r \<noteq> None
            then (Inl (Conflict ''HostClaim'' (claim_id_text cd i) ''the claim is being deleted''), st)
            else (case Option.bind (claim_host r) (s_hosts st) of
                Some hr \<Rightarrow> (bind_result (validate_host_assignment cd hr plan resources) (\<lambda>_. Inr hr), st)
              | None \<Rightarrow>
                  if plan = [] \<or> s_hosts st new_id \<noteq> None
                  then (Inl (internal ''constraint failed''), st)
                  else (let hr = new_host_record new_id i plan resources now in
                    (Inr hr, st\<lparr>s_claims := (s_claims st)(i \<mapsto> bound_claim cd (hr_resource hr) now r),
                                s_hosts := (s_hosts st)(new_id \<mapsto> hr)\<rparr>)))))"

definition spec_get_host :: "codec \<Rightarrow> HostId \<Rightarrow> HostRecord store_oper" where
  "spec_get_host cd h st = (ok_or (NotFound ''Host'' (host_id_text cd h)) (s_hosts st h), st)"

text \<open>The stored host with the status and the retry state of \<open>record\<close>.\<close>

definition with_host_status :: "HostRecord \<Rightarrow> HostRecord \<Rightarrow> HostRecord" where
  "with_host_status record r =
     r\<lparr>hr_resource := (hr_resource r)\<lparr>h_status := h_status (hr_resource record)\<rparr>,
       hr_retry := hr_retry record\<rparr>"

text \<open>A resource identifier is recorded for one host at most.\<close>

definition resource_taken :: "store \<Rightarrow> HostId \<Rightarrow> string option \<Rightarrow> bool" where
  "resource_taken st h rid \<longleftrightarrow> rid \<noteq> None
     \<and> (\<exists>h' r'. h' \<noteq> h \<and> s_hosts st h' = Some r'
          \<and> hs_provider_resource_id (h_status (hr_resource r')) = rid)"

definition spec_save_host :: "codec \<Rightarrow> HostRecord \<Rightarrow> unit store_oper" where
  "spec_save_host cd record st =
     (case s_hosts st (host_id_of record) of
        None \<Rightarrow> (Inl (NotFound ''Host'' (host_id_text cd (host_id_of record))), st)
      | Some r \<Rightarrow>
          if resource_taken st (host_id_of record) (hs_provider_resource_id (h_status (hr_resource record)))
          then (Inl (internal ''constraint failed''), st)
          else (Inr (), st\<lparr>s_hosts := (s_hosts st)(host_id_of record \<mapsto> with_host_status record r)\<rparr>))"

section \<open>Refinement\<close>

definition refines :: "codec \<Rightarrow> 'a db_oper \<Rightarrow> 'a store_oper \<Rightarrow> bool" where
  "refines cd oper spec \<longleftrightarrow>
     (\<forall>db. database_ok cd db \<longrightarrow>
        database_ok cd (snd (oper db))
        \<and> (fst (oper db), store_of cd (snd (oper db))) = spec (store_of cd db))"

lemma refinesI:
  assumes "\<And>db. database_ok cd db \<Longrightarrow> \<exists>r db'. oper db = (r, db') \<and> database_ok cd db'
      \<and> spec (store_of cd db) = (r, store_of cd db')"
  shows "refines cd oper spec"
  unfolding refines_def
proof (intro allI impI)
  fix db assume "database_ok cd db"
  then obtain r db' where "oper db = (r, db')" "database_ok cd db'" "spec (store_of cd db) = (r, store_of cd db')"
    using assms by blast
  then show "database_ok cd (snd (oper db)) \<and> (fst (oper db), store_of cd (snd (oper db))) = spec (store_of cd db)"
    by simp
qed

lemma refinesD:
  assumes "refines cd oper spec" and "database_ok cd db"
  shows "database_ok cd (snd (oper db))" and "spec (store_of cd db) = (fst (oper db), store_of cd (snd (oper db)))"
  using assms by (auto simp: refines_def)

text \<open>Calls that are answered.\<close>

lemma database_call_healthy:
  "io_fault io = no_fault \<Longrightarrow> database_call io f c =
     (case f (c\<lparr>cn_calls := Suc (cn_calls c)\<rparr>) of
        Inl e \<Rightarrow> (Inl (internal e), c\<lparr>cn_calls := Suc (cn_calls c)\<rparr>)
      | Inr (x, c') \<Rightarrow> (Inr x, c'))"
  by (simp add: database_call_def Let_def)

lemma healthy_calls:
  assumes "io_fault io = no_fault"
  shows "begin_transaction io \<lparr>cn_stored = s, cn_working = d, cn_calls = n\<rparr> =
      (Inr (), \<lparr>cn_stored = s, cn_working = s, cn_calls = Suc n\<rparr>)"
    and "commit_transaction io \<lparr>cn_stored = s, cn_working = d, cn_calls = n\<rparr> =
      (Inr (), \<lparr>cn_stored = d, cn_working = d, cn_calls = Suc n\<rparr>)"
    and "query io q \<lparr>cn_stored = s, cn_working = d, cn_calls = n\<rparr> =
      (Inr (q d), \<lparr>cn_stored = s, cn_working = d, cn_calls = Suc n\<rparr>)"
    and "query_pool io q \<lparr>cn_stored = s, cn_working = d, cn_calls = n\<rparr> =
      (Inr (q s), \<lparr>cn_stored = s, cn_working = d, cn_calls = Suc n\<rparr>)"
    and "execute io statement \<lparr>cn_stored = s, cn_working = d, cn_calls = n\<rparr> =
      (case statement d of
         Inl e \<Rightarrow> (Inl (internal e), \<lparr>cn_stored = s, cn_working = d, cn_calls = Suc n\<rparr>)
       | Inr (x, db) \<Rightarrow> (Inr x, \<lparr>cn_stored = s, cn_working = db, cn_calls = Suc n\<rparr>))"
    and "execute_pool io statement \<lparr>cn_stored = s, cn_working = d, cn_calls = n\<rparr> =
      (case statement s of
         Inl e \<Rightarrow> (Inl (internal e), \<lparr>cn_stored = s, cn_working = d, cn_calls = Suc n\<rparr>)
       | Inr (x, db) \<Rightarrow> (Inr x, \<lparr>cn_stored = db, cn_working = d, cn_calls = Suc n\<rparr>))"
  by (simp_all add: begin_transaction_def commit_transaction_def query_def query_pool_def execute_def execute_pool_def
      database_call_healthy [OF assms] split: sum.split prod.split)

lemma fetch_claim_by_view:
  assumes "codec_ok cd" and "database_ok cd db"
  shows "claim_view cd db i = None \<Longrightarrow> fetch_claim_row db (claim_id_text cd i) = None"
    and "claim_view cd db i = Some r \<Longrightarrow> \<exists>row. fetch_claim_row db (claim_id_text cd i) = Some row
      \<and> claim_record_from_row cd row = Inr r"
  using assms by (auto simp: claim_view_None elim!: claim_view_SomeE)

lemma validate_resources_Inr: "validate_resources res = Inr u \<longleftrightarrow> resources_fit res"
  by (auto simp: validate_resources_def resources_fit_def bind_result_Inr_iff to_i64_Inr_iff word_neq_0_conv)

lemma validate_resources_Inl: "validate_resources res = Inl e \<Longrightarrow> is_internal e = False"
  by (auto simp: validate_resources_def to_i64_def is_internal_def bind_result_def split: if_splits)

lemma get_claim_refines:
  "codec_ok cd \<Longrightarrow> io_fault io = no_fault \<Longrightarrow> refines cd (get_claim cd io i) (spec_get_claim cd i)"
proof (rule refinesI)
  fix db assume *: "codec_ok cd" "io_fault io = no_fault" "database_ok cd db"
  then show "\<exists>r db'. get_claim cd io i db = (r, db') \<and> database_ok cd db'
      \<and> spec_get_claim cd i (store_of cd db) = (r, store_of cd db')"
    using fetch_claim_by_view [of cd db i]
    by (cases "claim_view cd db i") (auto simp: get_claim_def on_pool_def healthy_calls spec_get_claim_def)
qed

lemma initial_claim_values:
  assumes cd: "codec_ok cd" and fit: "resources_fit (spec_resources spec)"
  shows "claim_insert_values cd (initial_claim i spec now) =
      Inr (encode_claim cd \<lparr>cr_resource = initial_claim i spec now, cr_retry = default_retry\<rparr>)"
    and "claim_fits \<lparr>cr_resource = initial_claim i spec now, cr_retry = default_retry\<rparr>"
proof -
  have "(1 :: int) \<le> i64_max" by (simp add: i64_max_def)
  then show "claim_insert_values cd (initial_claim i spec now) =
      Inr (encode_claim cd \<lparr>cr_resource = initial_claim i spec now, cr_retry = default_retry\<rparr>)"
    and "claim_fits \<lparr>cr_resource = initial_claim i spec now, cr_retry = default_retry\<rparr>"
    using fit by (simp_all add: claim_insert_values_def initial_claim_def encode_claim_def Let_def
        default_retry_def resources_fit_def claim_fits_def to_i64_def codec_simps cd)
qed

lemma create_claim_refines:
  assumes cd: "codec_ok cd" and io: "io_fault io = no_fault"
  shows "refines cd (create_claim cd io i spec) (spec_create_claim cd (io_now io) i spec)"
proof (rule refinesI)
  fix db assume db: "database_ok cd db"
  let ?r = "\<lparr>cr_resource = initial_claim i spec (io_now io), cr_retry = default_retry\<rparr>"
  show "\<exists>r db'. create_claim cd io i spec db = (r, db') \<and> database_ok cd db'
      \<and> spec_create_claim cd (io_now io) i spec (store_of cd db) = (r, store_of cd db')"
  proof (cases "validate_resources (spec_resources spec)")
    case (Inl e)
    with db show ?thesis by (simp add: create_claim_def spec_create_claim_def on_pool_def)
  next
    case (Inr u)
    then have fit: "resources_fit (spec_resources spec)" by (simp add: validate_resources_Inr)
    show ?thesis
    proof (cases "claim_view cd db i")
      case (Some r)
      with fetch_claim_by_view(2) [OF cd db this] Inr db io show ?thesis
        by (auto simp: create_claim_def spec_create_claim_def on_pool_def healthy_calls)
    next
      case None
      obtain db' where "insert_claim_row (encode_claim cd ?r) db = Inr db'" "database_ok cd db'"
          "hosts db' = hosts db" "claim_view cd db' = (claim_view cd db)(claim_id_of ?r \<mapsto> ?r)"
        using None initial_claim_values(2) [OF cd fit, of i "io_now io"]
        by (rule_tac insert_claim_spec [OF cd db, of ?r]) (auto simp: initial_claim_def)
      moreover from this(3) have "host_view cd db' = host_view cd db"
        by (simp add: host_view_def fun_eq_iff fetch_host_row_def)
      ultimately show ?thesis
        using None fetch_claim_by_view(1) [OF cd db None] Inr io
        by (simp add: create_claim_def spec_create_claim_def on_pool_def healthy_calls
            initial_claim_values(1) [OF cd fit] Let_def store_of_def)
          (simp add: initial_claim_def)
    qed
  qed
qed

lemma update_claim_status_sel [simp]:
  "claim_id_of (update_claim_status f r) = claim_id_of r"
  "claim_deletion (update_claim_status f r) = claim_deletion r"
  "hc_generation (cr_resource (update_claim_status f r)) = hc_generation (cr_resource r)"
  "hc_created_at (cr_resource (update_claim_status f r)) = hc_created_at (cr_resource r)"
  "hc_spec (cr_resource (update_claim_status f r)) = hc_spec (cr_resource r)"
  "hc_status (cr_resource (update_claim_status f r)) = f (hc_status (cr_resource r))"
  "cr_retry (update_claim_status f r) = cr_retry r"
  by (simp_all add: update_claim_status_def)

lemmas claim_edit_defs = observe_generation_def set_claim_condition_def

lemma host_view_cong: "hosts db' = hosts db \<Longrightarrow> host_view cd db' = host_view cd db"
  by (simp add: host_view_def fun_eq_iff fetch_host_row_def)

lemma claim_fits_generation: "claim_fits r \<Longrightarrow> uint (hc_generation (cr_resource r)) \<le> i64_max"
  by (simp add: claim_fits_def)

lemma deletion_requested_row:
  assumes "codec_ok cd" and "claim_fits r" and "r' = deletion_requested now r"
  shows "(encode_claim cd r)\<lparr>cl_deletion_timestamp := map_option (timestamp_text cd) (claim_deletion r'),
      cl_observed_generation := uint (hcs_observed_generation (hc_status (cr_resource r'))),
      cl_conditions_json := json_text cd (hcs_conditions (hc_status (cr_resource r'))),
      cl_retry_attempt := 0, cl_next_reconcile_at_unix_ms := None,
      cl_last_error_kind := None, cl_last_error_message := None\<rparr> = encode_claim cd r'"
    and "claim_fits r'" and "claim_host r' = claim_host r"
    and "uint (hcs_observed_generation (hc_status (cr_resource r'))) \<le> i64_max"
  using assms
  by (simp_all add: deletion_requested_def claim_edit_defs Let_def encode_claim_def claim_fits_def default_retry_def)

lemma mark_claim_deleting_refines:
  assumes cd: "codec_ok cd" and io: "io_fault io = no_fault"
  shows "refines cd (mark_claim_deleting cd io i) (spec_mark_claim_deleting cd (io_now io) i)"
proof (rule refinesI)
  fix db assume db: "database_ok cd db"
  show "\<exists>r db'. mark_claim_deleting cd io i db = (r, db') \<and> database_ok cd db'
      \<and> spec_mark_claim_deleting cd (io_now io) i (store_of cd db) = (r, store_of cd db')"
  proof (cases "claim_view cd db i")
    case None
    with fetch_claim_by_view(1) [OF cd db None] db io show ?thesis
      by (simp add: mark_claim_deleting_def spec_mark_claim_deleting_def on_pool_def healthy_calls)
  next
    case (Some r)
    obtain row where row: "fetch_claim_row db (claim_id_text cd i) = Some row"
        "claim_record_from_row cd row = Inr r"
      using fetch_claim_by_view(2) [OF cd db Some] by blast
    show ?thesis
    proof (cases "claim_deletion r = None")
      case False
      with Some row db io show ?thesis
        by (auto simp: mark_claim_deleting_def spec_mark_claim_deleting_def on_pool_def healthy_calls)
    next
      case True
      define r' where "r' = deletion_requested (io_now io) r"
      have fits: "claim_fits r" using Some by (simp add: claim_view_iff [OF cd db])
      note new = deletion_requested_row [OF cd fits r'_def]
      let ?f = "\<lambda>x. x\<lparr>cl_deletion_timestamp := map_option (timestamp_text cd) (claim_deletion r'),
          cl_observed_generation := uint (hcs_observed_generation (hc_status (cr_resource r'))),
          cl_conditions_json := json_text cd (hcs_conditions (hc_status (cr_resource r'))),
          cl_retry_attempt := 0, cl_next_reconcile_at_unix_ms := None,
          cl_last_error_kind := None, cl_last_error_message := None\<rparr>"
      obtain db' where "update_claim_rows (\<lambda>x. cl_id x = claim_id_text cd i \<and> True) ?f db =
            Inr (if \<exists>r. claim_view cd db i = Some r \<and> True then 1 else 0, db')"
          "database_ok cd db'" "hosts db' = hosts db"
          "claim_view cd db' = (claim_view cd db)(i := map_option (\<lambda>r. if True then r' else r) (claim_view cd db i))"
        using new Some by (rule_tac update_claim_spec [OF cd db, of ?f i "\<lambda>_. True" "\<lambda>_. r'"]) auto
      moreover from this(3) have "host_view cd db' = host_view cd db" by (rule host_view_cong)
      ultimately show ?thesis
        using Some True row io new(4)
        by (simp add: mark_claim_deleting_def spec_mark_claim_deleting_def on_pool_def healthy_calls Let_def
            r'_def [symmetric] to_i64_def codec_simps cd store_of_def)
    qed
  qed
qed

lemma with_status_row:
  assumes "claim_fits r" and "uint (hcs_observed_generation (hc_status (cr_resource record))) \<le> i64_max"
  shows "(encode_claim cd r)\<lparr>
      cl_observed_generation := uint (hcs_observed_generation (hc_status (cr_resource record))),
      cl_conditions_json := json_text cd (hcs_conditions (hc_status (cr_resource record))),
      cl_retry_attempt := uint (attempt (cr_retry record)),
      cl_next_reconcile_at_unix_ms := next_reconcile_at_unix_ms (cr_retry record),
      cl_last_error_kind := last_error_kind (cr_retry record),
      cl_last_error_message := last_error_message (cr_retry record)\<rparr> = encode_claim cd (with_status record r)"
    and "claim_fits (with_status record r)" and "claim_host (with_status record r) = claim_host r"
  using assms by (simp_all add: with_status_def encode_claim_def Let_def claim_fits_def update_claim_status_def)

lemma save_claim_status_refines:
  assumes cd: "codec_ok cd" and io: "io_fault io = no_fault"
  shows "refines cd (save_claim_status cd io record) (spec_save_claim_status cd record)"
proof (rule refinesI)
  fix db assume db: "database_ok cd db"
  let ?i = "claim_id_of record" and ?status = "hc_status (cr_resource record)"
  show "\<exists>r db'. save_claim_status cd io record db = (r, db') \<and> database_ok cd db'
      \<and> spec_save_claim_status cd record (store_of cd db) = (r, store_of cd db')"
  proof (cases "to_i64 (hcs_observed_generation ?status) ''observed_generation''")
    case (Inl e)
    with db show ?thesis by (simp add: save_claim_status_def spec_save_claim_status_def Let_def on_pool_def)
  next
    case (Inr n)
    then have n: "n = uint (hcs_observed_generation ?status)" "uint (hcs_observed_generation ?status) \<le> i64_max"
      by (auto simp: to_i64_Inr_iff)
    let ?q = "\<lambda>x. cl_deletion_timestamp x = map_option (timestamp_text cd) (claim_deletion record)"
    let ?f = "\<lambda>x. x\<lparr>cl_observed_generation := n,
        cl_conditions_json := json_text cd (hcs_conditions ?status),
        cl_retry_attempt := uint (attempt (cr_retry record)),
        cl_next_reconcile_at_unix_ms := next_reconcile_at_unix_ms (cr_retry record),
        cl_last_error_kind := last_error_kind (cr_retry record),
        cl_last_error_message := last_error_message (cr_retry record)\<rparr>"
    have same: "map_option (timestamp_text cd) a = map_option (timestamp_text cd) b \<longleftrightarrow> a = b" for a b
      using cd by (cases a; cases b) (auto simp: timestamp_text_inj)
    obtain db' where "update_claim_rows (\<lambda>x. cl_id x = claim_id_text cd ?i \<and> ?q x) ?f db =
          Inr (if \<exists>r. claim_view cd db ?i = Some r \<and> ?q (encode_claim cd r) then 1 else 0, db')"
        "database_ok cd db'" "hosts db' = hosts db"
        "claim_view cd db' = (claim_view cd db)(?i := map_option
           (\<lambda>r. if ?q (encode_claim cd r) then with_status record r else r) (claim_view cd db ?i))"
      using with_status_row [OF _ n(2)] n(1)
      by (rule_tac update_claim_spec [OF cd db, of ?f ?i ?q "with_status record"])
        (auto simp: claim_view_iff [OF cd db])
    moreover from this(3) have "host_view cd db' = host_view cd db" by (rule host_view_cong)
    ultimately show ?thesis
      using Inr io
      by (cases "claim_view cd db ?i")
        (auto simp: save_claim_status_def spec_save_claim_status_def on_pool_def healthy_calls Let_def
          codec_simps cd store_of_def same fun_upd_idem)
  qed
qed

text \<open>Statements that match no row change nothing.\<close>

lemma no_row_deleted:
  assumes "delete_claim_row t db = (0, db')"
  shows "db' = db"
proof -
  have none: "filter (\<lambda>r. cl_id r = t) (host_claims db) = []" using assms by (simp add: delete_claim_row_def Let_def)
  then have "filter (\<lambda>r. cl_id r \<noteq> t) (host_claims db) = host_claims db"
    by (auto simp: filter_empty_conv filter_id_conv)
  with none show ?thesis using assms by (simp add: delete_claim_row_def Let_def)
qed

lemma no_host_updated: "update_host_rows p f db = Inr (0, db') \<Longrightarrow> db' = db"
  by (auto simp: update_host_rows_def update_where_def filter_empty_conv map_idI split: if_splits)

lemma finalize_claim_refines:
  assumes cd: "codec_ok cd" and io: "io_fault io = no_fault"
  shows "refines cd (finalize_claim cd io i) (spec_finalize_claim cd i)"
proof (rule refinesI)
  fix db assume db: "database_ok cd db"
  obtain db' where "delete_claim_row (claim_id_text cd i) db = (if claim_view cd db i = None then 0 else 1, db')"
      "database_ok cd db'" "claim_view cd db' = (claim_view cd db)(i := None)"
      "host_view cd db' = (\<lambda>h. case host_view cd db h of None \<Rightarrow> None
        | Some hr \<Rightarrow> if host_claim_of hr = i then None else Some hr)"
    by (rule delete_claim_spec [OF cd db])
  with io db show "\<exists>r db'. finalize_claim cd io i db = (r, db') \<and> database_ok cd db'
      \<and> spec_finalize_claim cd i (store_of cd db) = (r, store_of cd db')"
    by (cases "claim_view cd db i")
      (auto simp: finalize_claim_def spec_finalize_claim_def on_pool_def healthy_calls store_of_def
        dest!: no_row_deleted)
qed

lemma fetch_host_by_view:
  assumes "codec_ok cd" and "database_ok cd db"
  shows "host_view cd db h = None \<Longrightarrow> fetch_host_row db (host_id_text cd h) = None"
    and "host_view cd db h = Some r \<Longrightarrow> fetch_host_row db (host_id_text cd h) = Some (encode_host cd r)"
proof -
  show "fetch_host_row db (host_id_text cd h) = None" if "host_view cd db h = None"
    using that assms by (auto simp: host_view_None fetch_host_row_def find_None_iff image_iff)
  show "fetch_host_row db (host_id_text cd h) = Some (encode_host cd r)" if "host_view cd db h = Some r"
    using that assms find_host_row(1) [of cd db "encode_host cd r"] by (auto simp: host_view_Some)
qed

lemma get_host_refines:
  "codec_ok cd \<Longrightarrow> io_fault io = no_fault \<Longrightarrow> refines cd (get_host cd io h) (spec_get_host cd h)"
proof (rule refinesI)
  fix db assume *: "codec_ok cd" "io_fault io = no_fault" "database_ok cd db"
  then show "\<exists>r db'. get_host cd io h db = (r, db') \<and> database_ok cd db'
      \<and> spec_get_host cd h (store_of cd db) = (r, store_of cd db')"
    using fetch_host_by_view [of cd db h]
    by (cases "host_view cd db h")
      (auto simp: get_host_def on_pool_def healthy_calls spec_get_host_def read_host_def host_round_trip)
qed

lemma with_host_status_row:
  assumes "host_fits r"
  shows "(encode_host cd r)\<lparr>ho_phase := host_phase_to_db (hs_phase (h_status (hr_resource record))),
      ho_provider_resource_id := hs_provider_resource_id (h_status (hr_resource record)),
      ho_observed_at := map_option (timestamp_text cd) (hs_observed_at (h_status (hr_resource record))),
      ho_conditions_json := json_text cd (hs_conditions (h_status (hr_resource record))),
      ho_retry_attempt := uint (attempt (hr_retry record)),
      ho_next_reconcile_at_unix_ms := next_reconcile_at_unix_ms (hr_retry record),
      ho_last_error_kind := last_error_kind (hr_retry record),
      ho_last_error_message := last_error_message (hr_retry record)\<rparr> = encode_host cd (with_host_status record r)"
    and "host_fits (with_host_status record r)"
    and "hs_provider_resource_id (h_status (hr_resource (with_host_status record r))) =
      hs_provider_resource_id (h_status (hr_resource record))"
  using assms by (simp_all add: with_host_status_def encode_host_def Let_def host_fits_def)

text \<open>
  Saving a host fails when the resource identifier it records belongs to another host.
\<close>

lemma resource_free_iff:
  assumes cd: "codec_ok cd" and db: "database_ok cd db"
  shows "resource_free cd db h rid \<longleftrightarrow> \<not> resource_taken (store_of cd db) h rid"
proof -
  have "(\<exists>row \<in> set (hosts db). ho_id row \<noteq> host_id_text cd h \<and> ho_provider_resource_id row = Some t) \<longleftrightarrow>
      (\<exists>h' r'. h' \<noteq> h \<and> host_view cd db h' = Some r' \<and> hs_provider_resource_id (h_status (hr_resource r')) = Some t)"
    (is "?rows \<longleftrightarrow> ?views") for t
  proof
    assume ?rows
    then obtain row where row: "row \<in> set (hosts db)" "ho_id row \<noteq> host_id_text cd h"
        "ho_provider_resource_id row = Some t" by blast
    from db row(1) obtain r where "host_fits r" "row = encode_host cd r" by (rule stored_host)
    with row show ?views by (auto simp: host_view_Some [OF cd db])
  next
    assume ?views
    then show ?rows by (force simp: host_view_Some [OF cd db] host_id_text_inj [OF cd])
  qed
  then show ?thesis by (cases rid) (auto simp: resource_free_def resource_taken_def)
qed

lemma distinct_resource_ids:
  assumes "distinct (resource_ids rows)" and "x \<in> set rows" and "y \<in> set rows"
    and "ho_provider_resource_id x = Some t" and "ho_provider_resource_id y = Some t"
  shows "x = y"
  using assms
proof (induction rows)
  case (Cons r rows)
  have "t \<in> set (resource_ids rows)" if "z \<in> set rows" "ho_provider_resource_id z = Some t" for z
    using that by (force simp: resource_ids_def List.map_filter_def)
  with Cons show ?case
    by (auto simp: resource_ids_def map_filter_simps split: option.splits)
qed simp

lemma save_host_result:
  assumes cd: "codec_ok cd" and io: "io_fault io = no_fault" and db: "database_ok cd db"
    and free: "host_view cd db (host_id_of record) \<noteq> None \<Longrightarrow>
      resource_free cd db (host_id_of record) (hs_provider_resource_id (h_status (hr_resource record)))"
  obtains r db' where "save_host cd io record db = (r, db')" and "database_ok cd db'"
    and "spec_save_host cd record (store_of cd db) = (r, store_of cd db')"
proof -
  let ?h = "host_id_of record" and ?st = "h_status (hr_resource record)"
  let ?f = "\<lambda>x. x\<lparr>ho_phase := host_phase_to_db (hs_phase ?st),
      ho_provider_resource_id := hs_provider_resource_id ?st,
      ho_observed_at := map_option (timestamp_text cd) (hs_observed_at ?st),
      ho_conditions_json := json_text cd (hs_conditions ?st),
      ho_retry_attempt := uint (attempt (hr_retry record)),
      ho_next_reconcile_at_unix_ms := next_reconcile_at_unix_ms (hr_retry record),
      ho_last_error_kind := last_error_kind (hr_retry record),
      ho_last_error_message := last_error_message (hr_retry record)\<rparr>"
  obtain db' where upd: "update_host_rows (\<lambda>r. ho_id r = host_id_text cd ?h) ?f db =
        Inr (if host_view cd db ?h = None then 0 else 1, db')"
      "database_ok cd db'" "host_claims db' = host_claims db"
      "host_view cd db' = (host_view cd db)(?h := map_option (with_host_status record) (host_view cd db ?h))"
    using with_host_status_row free
    by (rule_tac update_host_spec [OF cd db, of ?f ?h "with_host_status record"])
      (auto simp: host_view_Some [OF cd db])
  have join: "claim_view cd db' j = claim_view cd db j" for j
  proof (rule option_eqI)
    fix x
    have "host_of_claim db' c = host_of_claim db c" for c
    proof -
      have "hosts db' = update_where (\<lambda>r. ho_id r = host_id_text cd ?h) ?f (hosts db)"
        using upd(1) by (auto simp: update_host_rows_def split: if_splits)
      then have "fetch_host_for_claim_row db' t = map_option (\<lambda>r. if ho_id r = host_id_text cd ?h then ?f r else r)
          (fetch_host_for_claim_row db t)" for t
        by (simp add: fetch_host_for_claim_row_def find_update_where)
      then show ?thesis
        by (cases "fetch_host_for_claim_row db (cl_id c)") (simp_all add: host_of_claim_def)
    qed
    then show "claim_view cd db' j = Some x \<longleftrightarrow> claim_view cd db j = Some x"
      by (simp add: claim_view_iff [OF cd upd(2)] claim_view_iff [OF cd db] upd(3))
  qed
  then have "claim_view cd db' = claim_view cd db" by (rule ext)
  moreover have "host_view cd db ?h \<noteq> None \<Longrightarrow> \<not> resource_taken (store_of cd db) ?h (hs_provider_resource_id ?st)"
    using free by (simp add: resource_free_iff [OF cd db])
  ultimately show ?thesis
    using upd io cd db that by (cases "host_view cd db ?h")
      (auto simp: save_host_def spec_save_host_def on_pool_def healthy_calls Let_def codec_simps store_of_def
        dest!: no_host_updated)
qed

lemma save_host_taken:
  assumes cd: "codec_ok cd" and io: "io_fault io = no_fault" and db: "database_ok cd db"
    and view: "host_view cd db (host_id_of record) = Some r"
    and taken: "\<not> resource_free cd db (host_id_of record) (hs_provider_resource_id (h_status (hr_resource record)))"
  shows "save_host cd io record db = (Inl (internal ''constraint failed''), db)"
proof -
  let ?h = "host_id_of record" and ?st = "h_status (hr_resource record)"
  let ?p = "\<lambda>x. ho_id x = host_id_text cd ?h"
  obtain t row where t: "hs_provider_resource_id ?st = Some t"
    and row: "row \<in> set (hosts db)" "ho_id row \<noteq> host_id_text cd ?h" "ho_provider_resource_id row = Some t"
    using taken by (auto simp: resource_free_def)
  have stored: "encode_host cd r \<in> set (hosts db)" "host_id_of r = ?h"
    using view by (auto simp: host_view_Some [OF cd db])
  have "\<not> distinct (resource_ids (update_where ?p f (hosts db)))"
    if f: "\<And>x. ho_id (f x) = ho_id x" "\<And>x. ho_provider_resource_id (f x) = Some t" for f
  proof
    assume "distinct (resource_ids (update_where ?p f (hosts db)))"
    moreover have "f (encode_host cd r) \<in> set (update_where ?p f (hosts db))"
      "row \<in> set (update_where ?p f (hosts db))"
      using row stored by (auto simp: set_update_where)
    ultimately have "f (encode_host cd r) = row"
      using f(2) row(3) by (rule distinct_resource_ids)
    then show False using f(1) [of "encode_host cd r"] row(2) stored(2) by simp
  qed
  then show ?thesis
    using t io by (simp add: save_host_def Let_def codec_simps cd on_pool_def healthy_calls update_host_rows_def)
qed

lemma save_host_refines:
  assumes cd: "codec_ok cd" and io: "io_fault io = no_fault"
  shows "refines cd (save_host cd io record) (spec_save_host cd record)"
proof (rule refinesI)
  fix db assume db: "database_ok cd db"
  show "\<exists>r db'. save_host cd io record db = (r, db') \<and> database_ok cd db'
      \<and> spec_save_host cd record (store_of cd db) = (r, store_of cd db')"
  proof (cases "host_view cd db (host_id_of record) \<noteq> None \<and>
      \<not> resource_free cd db (host_id_of record) (hs_provider_resource_id (h_status (hr_resource record)))")
    case True
    then obtain r where "host_view cd db (host_id_of record) = Some r" by auto
    with save_host_taken [OF cd io db this] True db show ?thesis
      by (auto simp: spec_save_host_def resource_free_iff [OF cd db])
  next
    case False
    then show ?thesis using save_host_result [OF cd io db, of "record"] by blast
  qed
qed

lemma bound_claim_row:
  assumes "claim_fits r" and "r' = bound_claim cd host now r"
  shows "(encode_claim cd r)\<lparr>
      cl_observed_generation := uint (hcs_observed_generation (hc_status (cr_resource r'))),
      cl_conditions_json := json_text cd (hcs_conditions (hc_status (cr_resource r'))),
      cl_retry_attempt := 0, cl_next_reconcile_at_unix_ms := None,
      cl_last_error_kind := None, cl_last_error_message := None\<rparr> = encode_claim cd r'"
    and "claim_fits r'" and "claim_host r' = Some (h_id host)"
    and "uint (hcs_observed_generation (hc_status (cr_resource r'))) \<le> i64_max"
    and "hc_status (cr_resource r') = hc_status (cr_resource (host_assigned cd host now r))"
  using assms
  by (simp_all add: bound_claim_def host_assigned_def claim_edit_defs Let_def encode_claim_def
      claim_fits_def default_retry_def)

lemma bound_claim_with_host [simp]:
  "bound_claim cd host now (with_host h r) = bound_claim cd host now r"
  by (simp add: bound_claim_def host_assigned_def claim_edit_defs with_host_def update_claim_status_def Let_def)

lemma new_host_values:
  assumes cd: "codec_ok cd" and fit: "resources_fit resources"
  shows "host_insert_values cd (initial_host h i resources now) plan =
      Inr (encode_host cd (new_host_record h i plan resources now))"
  using fit by (simp add: host_insert_values_def new_host_record_def initial_host_def encode_host_def Let_def
      default_retry_def resources_fit_def to_i64_def codec_simps cd host_phase_to_db_def)

lemma new_host_record_sel [simp]:
  "hr_resource (new_host_record h i plan resources now) = initial_host h i resources now"
  "hr_provider_plan_id (new_host_record h i plan resources now) = plan"
  by (simp_all add: new_host_record_def)

lemma assigned_host_row:
  assumes cd: "codec_ok cd" and db: "database_ok cd db" and claim: "claim_view cd db i = Some r"
  shows "claim_host r = None \<Longrightarrow> fetch_host_for_claim_row db (claim_id_text cd i) = None"
    and "claim_host r = Some h \<Longrightarrow> \<exists>hr. host_view cd db h = Some hr \<and> host_claim_of hr = i
      \<and> fetch_host_for_claim_row db (claim_id_text cd i) = Some (encode_host cd hr)"
proof -
  show "fetch_host_for_claim_row db (claim_id_text cd i) = None" if "claim_host r = None"
    using claim that by (auto simp: claim_view_iff [OF cd db] host_of_claim_def)
  show "\<exists>hr. host_view cd db h = Some hr \<and> host_claim_of hr = i
      \<and> fetch_host_for_claim_row db (claim_id_text cd i) = Some (encode_host cd hr)" if h: "claim_host r = Some h"
  proof -
    obtain hr where hr: "host_view cd db h = Some hr" "host_claim_of hr = i"
      using claim_host_iff [OF cd db claim] h by blast
    moreover from this(1) have "encode_host cd hr \<in> set (hosts db)" by (simp add: host_view_Some [OF cd db])
    ultimately show ?thesis using find_host_row(2) [OF db, of "encode_host cd hr"] by auto
  qed
qed

text \<open>The transaction that inserts a host and binds its claim.\<close>

lemma assign_new_host:
  assumes cd: "codec_ok cd" and io: "io_fault io = no_fault" and db: "database_ok cd db" and claim: "claim_view cd db i = Some r"
    and free: "claim_deletion r = None" "claim_host r = None"
    and fit: "resources_fit resources" "plan \<noteq> []" and new: "host_view cd db h = None"
  obtains db1 db2 where
    "insert_host_row (encode_host cd (new_host_record h i plan resources (io_now io))) db = Inr (1, db1)"
    and "\<And>s n. bind_claim cd io i (initial_host h i resources (io_now io)) r \<lparr>cn_stored = s, cn_working = db1, cn_calls = n\<rparr> =
      (Inr (), \<lparr>cn_stored = s, cn_working = db2, cn_calls = Suc n\<rparr>)"
    and "database_ok cd db2"
    and "fetch_host_for_claim_row db2 (claim_id_text cd i) =
      Some (encode_host cd (new_host_record h i plan resources (io_now io)))"
    and "host_view cd db2 = (host_view cd db)(h \<mapsto> new_host_record h i plan resources (io_now io))"
    and "claim_view cd db2 =
      (claim_view cd db)(i \<mapsto> bound_claim cd (initial_host h i resources (io_now io)) (io_now io) r)"
proof -
  let ?hr = "new_host_record h i plan resources (io_now io)"
  let ?host = "initial_host h i resources (io_now io)"
  have fits: "host_fits ?hr" using fit by (simp add: host_fits_def)
  obtain db1 where db1: "insert_host_row (encode_host cd ?hr) db = Inr (1, db1)" "database_ok cd db1"
      "hosts db1 = hosts db @ [encode_host cd ?hr]"
      "host_view cd db1 = (host_view cd db)(h \<mapsto> ?hr)"
      "claim_view cd db1 = (claim_view cd db)(i \<mapsto> with_host (Some h) r)"
    using insert_host_spec [OF cd db, of ?hr r] claim free(2) fits new by auto
  define r' where "r' = bound_claim cd ?host (io_now io) r"
  have "claim_fits r" using claim by (simp add: claim_view_iff [OF cd db])
  note new_row = bound_claim_row [OF this r'_def]
  have h: "h_id ?host = h" by (simp add: initial_host_def)
  let ?f = "\<lambda>x. x\<lparr>
      cl_observed_generation := uint (hcs_observed_generation (hc_status (cr_resource r'))),
      cl_conditions_json := json_text cd (hcs_conditions (hc_status (cr_resource r'))),
      cl_retry_attempt := 0, cl_next_reconcile_at_unix_ms := None,
      cl_last_error_kind := None, cl_last_error_message := None\<rparr>"
  obtain db2 where db2: "update_claim_rows (\<lambda>x. cl_id x = claim_id_text cd i \<and> cl_deletion_timestamp x = None) ?f db1 =
        Inr (if \<exists>r. claim_view cd db1 i = Some r \<and> cl_deletion_timestamp (encode_claim cd r) = None then 1 else 0, db2)"
      "database_ok cd db2" "hosts db2 = hosts db1"
      "claim_view cd db2 = (claim_view cd db1)(i := map_option
         (\<lambda>r. if cl_deletion_timestamp (encode_claim cd r) = None then r' else r) (claim_view cd db1 i))"
    using new_row db1(5) h
    by (rule_tac update_claim_spec [OF cd db1(2), of ?f i "\<lambda>x. cl_deletion_timestamp x = None" "\<lambda>_. r'"]) auto
  have "bind_claim cd io i ?host r \<lparr>cn_stored = s, cn_working = db1, cn_calls = n\<rparr> =
      (Inr (), \<lparr>cn_stored = s, cn_working = db2, cn_calls = Suc n\<rparr>)" for s n
    using db2(1) db1(5) free new_row(4,5)
    by (simp add: bind_claim_def Let_def to_i64_def codec_simps cd healthy_calls [OF io])
  moreover have "fetch_host_for_claim_row db2 (claim_id_text cd i) = Some (encode_host cd ?hr)"
    using find_host_row(2) [OF db2(2), of "encode_host cd ?hr"] db1(3) db2(3) by simp
  moreover have "host_view cd db2 = (host_view cd db)(h \<mapsto> ?hr)"
    using host_view_cong [OF db2(3)] db1(4) by simp
  moreover have "claim_view cd db2 = (claim_view cd db)(i \<mapsto> r')"
    using db2(4) db1(5) free by simp
  ultimately show ?thesis using that db1(1) db2(2) unfolding r'_def by blast
qed

lemma clashing_host:
  assumes cd: "codec_ok cd" and db: "database_ok cd db" and none: "fetch_host_for_claim_row db (claim_id_text cd i) = None"
    and clash: "plan = [] \<or> host_view cd db h \<noteq> None"
  shows "insert_host_row (encode_host cd (new_host_record h i plan resources now)) db = Inl ''constraint failed''"
proof -
  let ?row = "encode_host cd (new_host_record h i plan resources now)"
  have "ho_claim_id ?row \<notin> ho_claim_id ` set (hosts db)"
    using none by (auto simp: fetch_host_for_claim_row_def find_None_iff image_iff)
  moreover have "\<not> host_row_check ?row \<or> ho_id ?row \<in> ho_id ` set (hosts db)"
    using clash host_view_None [OF cd db, of h] by (auto simp: host_row_check_def)
  ultimately show ?thesis by (auto simp: insert_host_row_def)
qed

lemma ensure_host_stored:
  assumes cd: "codec_ok cd" and io: "io_fault io = no_fault" and db: "database_ok cd db"
    and valid: "validate_resources resources = Inr u" and claim: "claim_view cd db i = Some r"
  shows "\<exists>res db'. ensure_host cd io i plan resources db = (res, db') \<and> database_ok cd db'
    \<and> spec_ensure_host cd (io_now io) (io_host_id io) i plan resources (store_of cd db) = (res, store_of cd db')"
proof -
  note defs = ensure_host_def spec_ensure_host_def on_pool_def healthy_calls [OF io]
  have fit: "resources_fit resources" using valid by (simp add: validate_resources_Inr)
  obtain row where row: "fetch_claim_row db (claim_id_text cd i) = Some row" "claim_record_from_row cd row = Inr r"
    using fetch_claim_by_view(2) [OF cd db claim] by blast
  consider (deleting) "claim_deletion r \<noteq> None"
    | (assigned) h where "claim_deletion r = None" "claim_host r = Some h"
    | (clash) "claim_deletion r = None" "claim_host r = None" "plan = [] \<or> host_view cd db (io_host_id io) \<noteq> None"
    | (fresh) "claim_deletion r = None" "claim_host r = None" "plan \<noteq> []" "host_view cd db (io_host_id io) = None"
    by (cases "claim_deletion r"; cases "claim_host r") auto
  then show ?thesis
  proof cases
    case deleting
    with claim row valid db show ?thesis by (auto simp: defs)
  next
    case (assigned h)
    obtain hr where "host_view cd db h = Some hr"
        "fetch_host_for_claim_row db (claim_id_text cd i) = Some (encode_host cd hr)"
      using assigned_host_row(2) [OF cd db claim assigned(2)] by blast
    with assigned claim row valid db cd show ?thesis
      by (cases "validate_host_assignment cd hr plan resources")
        (simp_all add: defs read_host_def host_round_trip)
  next
    case clash
    note none = assigned_host_row(1) [OF cd db claim clash(2)]
    from clash claim row valid db cd none clashing_host [OF cd db none clash(3)] show ?thesis
      by (simp add: defs Let_def new_host_values fit)
  next
    case fresh
    note none = assigned_host_row(1) [OF cd db claim fresh(2)]
    show ?thesis
      by (rule assign_new_host [OF cd io db claim fresh(1,2) fit fresh(3,4)])
        (use fresh claim row valid cd none in
          \<open>simp add: defs Let_def new_host_values fit read_host_def host_round_trip
            validate_host_assignment_def store_of_def\<close>)
  qed
qed

lemma ensure_host_refines:
  assumes cd: "codec_ok cd" and io: "io_fault io = no_fault"
  shows "refines cd (ensure_host cd io i plan resources)
    (spec_ensure_host cd (io_now io) (io_host_id io) i plan resources)"
proof (rule refinesI)
  fix db assume db: "database_ok cd db"
  show "\<exists>r db'. ensure_host cd io i plan resources db = (r, db') \<and> database_ok cd db'
      \<and> spec_ensure_host cd (io_now io) (io_host_id io) i plan resources (store_of cd db) = (r, store_of cd db')"
  proof (cases "validate_resources resources")
    case (Inl e)
    with db show ?thesis by (simp add: ensure_host_def spec_ensure_host_def on_pool_def healthy_calls [OF io])
  next
    case valid: (Inr u)
    show ?thesis
    proof (cases "claim_view cd db i")
      case None
      with fetch_claim_by_view(1) [OF cd db None] db valid show ?thesis
        by (simp add: ensure_host_def spec_ensure_host_def on_pool_def healthy_calls [OF io])
    qed (rule ensure_host_stored [OF cd io db valid])
  qed
qed

lemmas storage_refinements = create_claim_refines get_claim_refines mark_claim_deleting_refines
  save_claim_status_refines finalize_claim_refines ensure_host_refines get_host_refines save_host_refines

end
