(* ===== verification/Storage_Frames.thy ===== *)
theory Storage_Frames
  imports Storage_Spec
begin

text \<open>
  What every storage call, failing or not, leaves true of the database: a failed call leaves the
  old database or the one a healthy call would have left, stored claims and hosts keep their
  identity, plan and deletion request, and only \<open>finalize_claim\<close> removes any.
\<close>

section \<open>Failing calls\<close>

definition healthy :: "io \<Rightarrow> io" where
  "healthy io = io\<lparr>io_fault := no_fault\<rparr>"

lemma healthy_sel [simp]:
  "io_now (healthy io) = io_now io" "io_host_id (healthy io) = io_host_id io"
  "io_fault (healthy io) = no_fault"
  by (simp_all add: healthy_def)

text \<open>
  Whichever of its calls fail, an operation is as good as undisturbed, or answers with the failure and
  leaves the old database or the one it would have left undisturbed.
\<close>

definition fault_tolerant :: "(io \<Rightarrow> 'a db_oper) \<Rightarrow> bool" where
  "fault_tolerant m \<longleftrightarrow>
     (\<forall>io db. m io db = m (healthy io) db
        \<or> fst (m io db) = Inl (internal ''sqlx'') \<and> snd (m io db) \<in> {db, snd (m (healthy io) db)})"

text \<open>
  The same of a sequence of calls on the connection, from whatever state it is in. It holds of a sequence
  when what precedes the last storing call stores nothing, and what comes after makes no call.
\<close>

definition follows :: "'a db_call \<Rightarrow> 'a db_call \<Rightarrow> bool" where
  "follows m m' \<longleftrightarrow>
     (\<forall>c. m c = m' c
        \<or> fst (m c) = Inl (internal ''sqlx'') \<and> cn_stored (snd (m c)) \<in> {cn_stored c, cn_stored (snd (m' c))})"

definition stores_nothing :: "'a db_call \<Rightarrow> bool" where
  "stores_nothing m \<longleftrightarrow> (\<forall>c. cn_stored (snd (m c)) = cn_stored c)"

definition calls_nothing :: "'a db_call \<Rightarrow> bool" where
  "calls_nothing m \<longleftrightarrow> (\<forall>c. snd (m c) = c)"

named_theorems call_intro \<open>rules for sequences of database calls\<close>

lemma follows_calls [call_intro]:
  "follows (begin_transaction io) (begin_transaction (healthy io))"
  "follows (commit_transaction io) (commit_transaction (healthy io))"
  "follows (query io q) (query (healthy io) q)"
  "follows (execute io statement) (execute (healthy io) statement)"
  "follows (query_pool io q) (query_pool (healthy io) q)"
  "follows (execute_pool io statement) (execute_pool (healthy io) statement)"
proof -
  have "follows (database_call io f) (database_call (healthy io) f)" for f :: "connection \<Rightarrow> string + 'c \<times> connection"
    by (auto simp: follows_def database_call_def Let_def split: db_fault.split sum.split prod.split)
  then show "follows (begin_transaction io) (begin_transaction (healthy io))"
    "follows (commit_transaction io) (commit_transaction (healthy io))"
    "follows (query io q) (query (healthy io) q)"
    "follows (execute io statement) (execute (healthy io) statement)"
    "follows (query_pool io q) (query_pool (healthy io) q)"
    "follows (execute_pool io statement) (execute_pool (healthy io) statement)"
    by (simp_all add: begin_transaction_def commit_transaction_def query_def execute_def query_pool_def execute_pool_def)
qed

lemma follows_refl: "follows m m"
  by (simp add: follows_def)

lemma stores_nothing_calls [call_intro]:
  "stores_nothing (begin_transaction io)" "stores_nothing (query io q)" "stores_nothing (execute io statement)"
  "stores_nothing (query_pool io q)" "stores_nothing (lift_result r)" "stores_nothing (ok x)" "stores_nothing (fail_with e)"
  by (auto simp: stores_nothing_def begin_transaction_def query_def execute_def query_pool_def database_call_def Let_def
      lift_result_def split: db_fault.split sum.split prod.split)

lemma stores_nothing_and_then [call_intro]:
  "stores_nothing m \<Longrightarrow> (\<And>x. stores_nothing (k x)) \<Longrightarrow> stores_nothing (and_then m k)"
  by (auto simp: stores_nothing_def and_then_def split: prod.split sum.split) (metis snd_conv)+

lemma stores_nothing_cases [call_intro]:
  "stores_nothing m \<Longrightarrow> stores_nothing m' \<Longrightarrow> stores_nothing (if b then m else m')"
  "stores_nothing m \<Longrightarrow> (\<And>x. stores_nothing (k x)) \<Longrightarrow> stores_nothing (case v of None \<Rightarrow> m | Some x \<Rightarrow> k x)"
  by (auto split: option.split)

lemma calls_nothing_intros [call_intro]:
  "calls_nothing (lift_result r)" "calls_nothing (ok x)" "calls_nothing (fail_with e)"
  "calls_nothing m \<Longrightarrow> calls_nothing m' \<Longrightarrow> calls_nothing (if b then m else m')"
  by (simp_all add: calls_nothing_def lift_result_def split: sum.split)

lemma calls_nothing_and_then [call_intro]:
  "calls_nothing m \<Longrightarrow> (\<And>x. calls_nothing (k x)) \<Longrightarrow> calls_nothing (and_then m k)"
  by (auto simp: calls_nothing_def and_then_def split: prod.split sum.split) (metis snd_conv)+

text \<open>A first part that stores nothing, and a last call followed by none.\<close>

lemma follows_and_then:
  assumes m: "follows m m'" "stores_nothing m'" and k: "\<And>x. follows (k x) (k' x)"
  shows "follows (and_then m k) (and_then m' k')"
  unfolding follows_def
proof
  fix c
  obtain r c1 where m': "m' c = (r, c1)" by (rule prod.exhaust)
  then have stored: "cn_stored c1 = cn_stored c" using m(2) by (metis stores_nothing_def snd_conv)
  show "and_then m k c = and_then m' k' c \<or> fst (and_then m k c) = Inl (internal ''sqlx'')
      \<and> cn_stored (snd (and_then m k c)) \<in> {cn_stored c, cn_stored (snd (and_then m' k' c))}"
  proof (cases "m c = m' c")
    case True
    with m' k [unfolded follows_def, rule_format, of _ c1] stored show ?thesis by (cases r) auto
  next
    case False
    with m(1) [unfolded follows_def, rule_format, of c] m' stored
    have "fst (m c) = Inl (internal ''sqlx'')" "cn_stored (snd (m c)) = cn_stored c" by auto
    then show ?thesis by (cases "m c") auto
  qed
qed

lemma follows_last:
  assumes m: "follows m m'" and k: "\<And>x. calls_nothing (k x)"
  shows "follows (and_then m k) (and_then m' k)"
  unfolding follows_def
proof
  fix c
  have keep: "snd (and_then m' k c) = snd (m' c)"
    using k by (cases "m' c"; cases "fst (m' c)") (auto simp: and_then_def calls_nothing_def)
  show "and_then m k c = and_then m' k c \<or> fst (and_then m k c) = Inl (internal ''sqlx'')
      \<and> cn_stored (snd (and_then m k c)) \<in> {cn_stored c, cn_stored (snd (and_then m' k c))}"
  proof (cases "m c = m' c")
    case False
    with m [unfolded follows_def, rule_format, of c]
    have "fst (m c) = Inl (internal ''sqlx'')" "cn_stored (snd (m c)) \<in> {cn_stored c, cn_stored (snd (m' c))}" by auto
    then show ?thesis unfolding keep by (cases "m c") auto
  qed (simp add: and_then_def)
qed

lemma follows_cases:
  "follows m m' \<Longrightarrow> follows n n' \<Longrightarrow> follows (if b then m else n) (if b then m' else n')"
  "follows m m' \<Longrightarrow> (\<And>x. follows (k x) (k' x)) \<Longrightarrow>
     follows (case v of None \<Rightarrow> m | Some x \<Rightarrow> k x) (case v of None \<Rightarrow> m' | Some x \<Rightarrow> k' x)"
  by (auto split: option.split)

lemma fault_tolerantI:
  assumes "\<And>io. follows (m io) (m (healthy io))"
  shows "fault_tolerant (\<lambda>io. on_pool (m io))"
  unfolding fault_tolerant_def
proof (intro allI)
  fix io db
  from assms [of io, unfolded follows_def, rule_format, of "\<lparr>cn_stored = db, cn_working = db, cn_calls = 0\<rparr>"]
  show "on_pool (m io) db = on_pool (m (healthy io)) db \<or> fst (on_pool (m io) db) = Inl (internal ''sqlx'')
      \<and> snd (on_pool (m io) db) \<in> {db, snd (on_pool (m (healthy io)) db)}"
    by (auto simp: on_pool_def split: prod.splits)
qed

lemma fault_tolerant_one_call:
  "fault_tolerant (\<lambda>io. get_claim cd io i)" "fault_tolerant (list_claims cd)"
  "fault_tolerant (\<lambda>io. get_host cd io h)" "fault_tolerant (list_hosts cd)"
  "fault_tolerant (\<lambda>io. finalize_claim cd io i)"
  "fault_tolerant (\<lambda>io. save_claim_status cd io record)"
  "fault_tolerant (\<lambda>io. save_host cd io hrecord)"
  unfolding get_claim_def list_claims_def [abs_def] get_host_def list_hosts_def [abs_def] read_host_def finalize_claim_def
    save_claim_status_def save_host_def Let_def
  by ((rule fault_tolerantI)?,
      (rule follows_last follows_and_then [OF follows_refl stores_nothing_calls(5)] call_intro)+)+

lemma fault_tolerant_transactions:
  "fault_tolerant (\<lambda>io. create_claim cd io i spec)"
  "fault_tolerant (\<lambda>io. mark_claim_deleting cd io i)"
  "fault_tolerant (\<lambda>io. ensure_host cd io i plan resources)"
  unfolding create_claim_def mark_claim_deleting_def ensure_host_def bind_claim_def read_host_def Let_def
  by (rule fault_tolerantI, simp only: healthy_sel,
      (rule follows_last [OF follows_calls(2)] follows_refl follows_cases follows_and_then call_intro | assumption)+)+

lemmas fault_tolerant_ops = fault_tolerant_one_call fault_tolerant_transactions

section \<open>What is kept\<close>

definition same_claim :: "HostClaimRecord \<Rightarrow> HostClaimRecord \<Rightarrow> bool" where
  "same_claim r r' \<longleftrightarrow>
     claim_id_of r' = claim_id_of r
     \<and> hc_spec (cr_resource r') = hc_spec (cr_resource r)
     \<and> hc_generation (cr_resource r') = hc_generation (cr_resource r)
     \<and> hc_created_at (cr_resource r') = hc_created_at (cr_resource r)
     \<and> (claim_deletion r \<noteq> None \<longrightarrow> claim_deletion r' = claim_deletion r \<and> claim_host r' = claim_host r)
     \<and> (claim_host r \<noteq> None \<longrightarrow> claim_host r' = claim_host r)"

definition same_host :: "HostRecord \<Rightarrow> HostRecord \<Rightarrow> bool" where
  "same_host r r' \<longleftrightarrow>
     host_id_of r' = host_id_of r
     \<and> host_claim_of r' = host_claim_of r
     \<and> h_created_at (hr_resource r') = h_created_at (hr_resource r)
     \<and> h_allocatable_resources (hr_resource r') = h_allocatable_resources (hr_resource r)
     \<and> hr_provider_plan_id r' = hr_provider_plan_id r"

lemma same_claim_refl [simp]: "same_claim r r" by (simp add: same_claim_def)
lemma same_host_refl [simp]: "same_host r r" by (simp add: same_host_def)

lemma same_claim_trans: "same_claim a b \<Longrightarrow> same_claim b c \<Longrightarrow> same_claim a c"
  by (auto simp: same_claim_def)

lemma same_host_trans: "same_host a b \<Longrightarrow> same_host b c \<Longrightarrow> same_host a c"
  by (simp add: same_host_def)

definition keeps :: "store \<Rightarrow> store \<Rightarrow> bool" where
  "keeps st st' \<longleftrightarrow>
     (\<forall>i r. s_claims st i = Some r \<longrightarrow> (\<exists>r'. s_claims st' i = Some r' \<and> same_claim r r'))
     \<and> (\<forall>h r. s_hosts st h = Some r \<longrightarrow> (\<exists>r'. s_hosts st' h = Some r' \<and> same_host r r'))"

lemma keeps_refl [simp]: "keeps st st"
  by (simp add: keeps_def)

lemma keeps_trans: "keeps a b \<Longrightarrow> keeps b c \<Longrightarrow> keeps a c"
  unfolding keeps_def by (meson same_claim_trans same_host_trans)

lemma keepsD:
  assumes "keeps st st'"
  shows "s_claims st i = Some r \<Longrightarrow> \<exists>r'. s_claims st' i = Some r' \<and> same_claim r r'"
    and "s_hosts st h = Some hr \<Longrightarrow> \<exists>hr'. s_hosts st' h = Some hr' \<and> same_host hr hr'"
  using assms by (auto simp: keeps_def)

section \<open>The specifications keep what is stored\<close>

lemma spec_reads_keep:
  "snd (spec_get_claim cd i st) = st" "snd (spec_get_host cd h st) = st"
  by (simp_all add: spec_get_claim_def spec_get_host_def)

lemma spec_create_claim_keeps: "keeps st (snd (spec_create_claim cd now i spec st))"
  by (simp add: spec_create_claim_def keeps_def split: sum.splits option.splits)

lemma same_claim_deletion_requested: "claim_deletion r = None \<Longrightarrow> same_claim r (deletion_requested now r)"
  by (simp add: same_claim_def deletion_requested_def Let_def claim_edit_defs)

lemma spec_mark_claim_deleting_keeps: "keeps st (snd (spec_mark_claim_deleting cd now i st))"
  by (auto simp: spec_mark_claim_deleting_def keeps_def same_claim_deletion_requested split: option.splits)

lemma same_claim_with_status: "same_claim r (with_status record r)"
  by (simp add: same_claim_def with_status_def)

lemma spec_save_claim_status_keeps: "keeps st (snd (spec_save_claim_status cd record st))"
  by (auto simp: spec_save_claim_status_def keeps_def same_claim_with_status split: option.splits sum.splits)

lemma same_host_with_host_status: "same_host r (with_host_status record r)"
  by (simp add: same_host_def with_host_status_def)

lemma spec_save_host_keeps: "keeps st (snd (spec_save_host cd record st))"
  by (auto simp: spec_save_host_def keeps_def same_host_with_host_status split: option.splits)


section \<open>Listing\<close>

text \<open>Rows that can all be read, with the records read from them.\<close>

lemma read_rows:
  assumes "\<And>row. row \<in> set rows \<Longrightarrow> \<exists>r. read row = Inr r \<and> P row r"
  obtains rs where "traverse_list read rows = Inr rs" and "list_all2 P rows rs"
proof
  have each: "read row = Inr (projr (read row)) \<and> P row (projr (read row))" if "row \<in> set rows" for row
    using assms [OF that] by auto
  then show "traverse_list read rows = Inr (map (\<lambda>row. projr (read row)) rows)"
    by (intro traverse_list_map) blast
  show "list_all2 P rows (map (\<lambda>row. projr (read row)) rows)"
    using each by (simp add: list_all2_conv_all_nth)
qed

lemma list_all2_map_eq: "list_all2 P xs ys \<Longrightarrow> (\<And>x y. P x y \<Longrightarrow> k x = k' y) \<Longrightarrow> map k xs = map k' ys"
  by (induction rule: list_all2_induct) simp_all

lemma list_all2_partner:
  "list_all2 P xs ys \<Longrightarrow> y \<in> set ys \<Longrightarrow> \<exists>x \<in> set xs. P x y"
  "list_all2 P xs ys \<Longrightarrow> x \<in> set xs \<Longrightarrow> \<exists>y \<in> set ys. P x y"
  by (induction rule: list_all2_induct) auto

text \<open>Listing claims gives every stored claim once, ordered by the text of its creation time and identifier.\<close>

lemma joined_claims_distinct:
  assumes "keys_ok db"
  shows "distinct (map (\<lambda>row. cl_id (fst row)) (sort_key k (joined_claims db)))"
proof -
  have "map (\<lambda>row. cl_id (fst row)) (joined_claims db) = map cl_id (host_claims db)"
    by (simp add: joined_claims_eq [OF assms])
  then have "distinct (map (\<lambda>row. cl_id (fst row)) (joined_claims db))" using assms by (simp add: keys_ok_def)
  then show ?thesis by (simp add: distinct_map)
qed

lemma list_claims_result:
  assumes cd: "codec_ok cd" and io: "io_fault io = no_fault" and db: "database_ok cd db"
  obtains rs where "list_claims cd io db = (Inr rs, db)"
    and "\<And>r. r \<in> set rs \<longleftrightarrow> claim_view cd db (claim_id_of r) = Some r"
    and "sorted (map (\<lambda>r. (timestamp_text cd (hc_created_at (cr_resource r)), claim_id_text cd (claim_id_of r))) rs)"
    and "distinct (map claim_id_of rs)"
proof -
  let ?rows = "claims_in_order db"
  let ?of = "\<lambda>row r. fst row = encode_claim cd r \<and> claim_view cd db (claim_id_of r) = Some r"
  have keys: "keys_ok db" using db by (rule database_okD)
  have "\<exists>r. claim_record_from_row cd row = Inr r \<and> ?of row r" if row: "row \<in> set ?rows" for row
  proof -
    obtain c where c: "c \<in> set (host_claims db)" "row = (c, host_of_claim db c)"
      using row by (auto simp: set_claims_in_order keys)
    show ?thesis
      by (rule stored_claim [OF cd db c(1)]) (use c in \<open>auto simp: claim_view_iff [OF cd db]\<close>)
  qed
  then obtain rs where rs: "traverse_list (claim_record_from_row cd) ?rows = Inr rs" "list_all2 ?of ?rows rs"
    by (rule read_rows)
  have member: "r \<in> set rs \<longleftrightarrow> claim_view cd db (claim_id_of r) = Some r" for r
  proof
    assume stored: "claim_view cd db (claim_id_of r) = Some r"
    then have "(encode_claim cd r, host_of_claim db (encode_claim cd r)) \<in> set ?rows"
      by (auto simp: set_claims_in_order keys claim_view_iff [OF cd db])
    from list_all2_partner(2) [OF rs(2) this] obtain r' where r': "r' \<in> set rs"
        "encode_claim cd r = encode_claim cd r'" "claim_view cd db (claim_id_of r') = Some r'"
      by auto
    have "cl_id (encode_claim cd r) = cl_id (encode_claim cd r')" using r'(2) by (rule arg_cong)
    then have "claim_id_of r = claim_id_of r'" using cd by (simp add: claim_id_text_inj)
    with stored r'(3) have "Some r = Some r'" by metis
    with r'(1) show "r \<in> set rs" by blast
  qed (use list_all2_partner(1) [OF rs(2)] in blast)
  have "map (\<lambda>row. (cl_created_at (fst row), cl_id (fst row))) ?rows =
      map (\<lambda>r. (timestamp_text cd (hc_created_at (cr_resource r)), claim_id_text cd (claim_id_of r))) rs"
    by (rule list_all2_map_eq [OF rs(2)]) (auto simp: encode_claim_def Let_def)
  moreover have "sorted (map (\<lambda>row. (cl_created_at (fst row), cl_id (fst row))) ?rows)"
    by (simp add: claims_in_order_def)
  moreover have "distinct (map claim_id_of rs)"
  proof -
    have "map (\<lambda>row. cl_id (fst row)) ?rows = map (claim_id_text cd) (map claim_id_of rs)"
      unfolding list.map_comp by (rule list_all2_map_eq [OF rs(2)]) simp
    moreover have "distinct (map (\<lambda>row. cl_id (fst row)) ?rows)"
      using keys by (simp add: claims_in_order_def joined_claims_distinct)
    ultimately show ?thesis by (metis distinct_map)
  qed
  ultimately show ?thesis
    using rs(1) member by (intro that [of rs]) (simp_all add: list_claims_def on_pool_def healthy_calls io)
qed

section \<open>Every call, failing or not\<close>

definition safe_call :: "codec \<Rightarrow> (io \<Rightarrow> 'a db_oper) \<Rightarrow> bool" where
  "safe_call cd m \<longleftrightarrow>
     (\<forall>io db. database_ok cd db \<longrightarrow>
        database_ok cd (snd (m io db)) \<and> keeps (store_of cd db) (store_of cd (snd (m io db))))"

lemma fault_tolerantD:
  assumes "fault_tolerant m"
  shows "snd (m io db) = db \<or> snd (m io db) = snd (m (healthy io) db)"
    and "m io db = (Inr x, db') \<Longrightarrow> m (healthy io) db = (Inr x, db')"
proof -
  have "m io db = m (healthy io) db
      \<or> fst (m io db) = Inl (internal ''sqlx'') \<and> snd (m io db) \<in> {db, snd (m (healthy io) db)}"
    using assms by (simp only: fault_tolerant_def)
  then show "snd (m io db) = db \<or> snd (m io db) = snd (m (healthy io) db)"
    and "m io db = (Inr x, db') \<Longrightarrow> m (healthy io) db = (Inr x, db')"
    by auto
qed

text \<open>A call leaves the store as it was or as its specification says, whether it fails or not.\<close>

lemma tolerant_store:
  assumes "fault_tolerant m" and "\<And>io. io_fault io = no_fault \<Longrightarrow> refines cd (m io) (spec io)" and db: "database_ok cd db"
  obtains "snd (m io db) = db"
    | "store_of cd (snd (m io db)) = snd (spec (healthy io) (store_of cd db))"
  using fault_tolerantD(1) [OF assms(1), of io db] refinesD [OF assms(2) [of "healthy io"] db] by fastforce

lemma safe_callI:
  assumes tolerant: "fault_tolerant m"
    and refines: "\<And>io. io_fault io = no_fault \<Longrightarrow> refines cd (m io) (spec io)"
    and keeps: "\<And>io db. database_ok cd db \<Longrightarrow> keeps (store_of cd db) (snd (spec io (store_of cd db)))"
  shows "safe_call cd m"
  unfolding safe_call_def
proof (intro allI impI)
  fix io db assume db: "database_ok cd db"
  have ok: "database_ok cd (snd (m (healthy io) db))"
    and st: "store_of cd (snd (m (healthy io) db)) = snd (spec (healthy io) (store_of cd db))"
    using refinesD [OF refines [of "healthy io"] db] by simp_all
  from fault_tolerantD(1) [OF tolerant, of io db]
  show "database_ok cd (snd (m io db)) \<and> keeps (store_of cd db) (store_of cd (snd (m io db)))"
    using db ok st keeps [OF db] by auto
qed

lemma successful_call:
  assumes tolerant: "fault_tolerant m"
    and refines: "\<And>io. io_fault io = no_fault \<Longrightarrow> refines cd (m io) (spec io)"
    and db: "database_ok cd db" and run: "m io db = (Inr x, db')"
  shows "spec (healthy io) (store_of cd db) = (Inr x, store_of cd db')"
proof -
  have "m (healthy io) db = (Inr x, db')" by (rule fault_tolerantD(2) [OF tolerant run])
  then show ?thesis using refinesD(2) [OF refines [of "healthy io"] db] by simp
qed

text \<open>Reading calls leave the database as it is.\<close>

lemma stores_nothing_on_pool: "stores_nothing m \<Longrightarrow> snd (on_pool m db) = db"
  by (auto simp: stores_nothing_def on_pool_def split: prod.split) (metis connection.select_convs(1) snd_conv)

lemma reads_keep_database:
  "snd (get_claim cd io i db) = db" "snd (list_claims cd io db) = db"
  "snd (get_host cd io h db) = db" "snd (list_hosts cd io db) = db"
  unfolding get_claim_def list_claims_def get_host_def list_hosts_def read_host_def
  by (rule stores_nothing_on_pool, (rule call_intro)+)+

lemma safe_reads:
  "safe_call cd (\<lambda>io. get_claim cd io i)" "safe_call cd (list_claims cd)"
  "safe_call cd (\<lambda>io. get_host cd io h)" "safe_call cd (list_hosts cd)"
  by (simp_all add: safe_call_def reads_keep_database)

text \<open>On a well-formed database a claim's host is stored.\<close>

lemma assigned_host_stored:
  assumes "codec_ok cd" and "database_ok cd db" and "claim_view cd db i = Some r" and "claim_host r = Some h"
  shows "host_view cd db h \<noteq> None"
  using assms claim_host_iff [OF assms(1-3), of h] by auto

lemma same_claim_bound_claim:
  "claim_deletion r = None \<Longrightarrow> claim_host r = None \<Longrightarrow> same_claim r (bound_claim cd host now r)"
  by (simp add: same_claim_def bound_claim_def host_assigned_def Let_def claim_edit_defs)

lemma spec_ensure_host_keeps:
  assumes cd: "codec_ok cd" and db: "database_ok cd db"
  shows "keeps (store_of cd db) (snd (spec_ensure_host cd now h i plan resources (store_of cd db)))"
proof (cases "claim_view cd db i")
  case (Some r)
  show ?thesis
  proof (cases "claim_host r")
    case None
    with Some show ?thesis
      by (auto simp: spec_ensure_host_def keeps_def Let_def same_claim_bound_claim
          split: sum.splits option.splits)
  next
    case (Some g)
    with assigned_host_stored [OF cd db \<open>claim_view cd db i = Some r\<close>] \<open>claim_view cd db i = Some r\<close>
    show ?thesis by (auto simp: spec_ensure_host_def split: sum.splits)
  qed
qed (simp add: spec_ensure_host_def split: sum.splits)

lemma safe_calls:
  assumes cd: "codec_ok cd"
  shows "safe_call cd (\<lambda>io. create_claim cd io i spec)"
    and "safe_call cd (\<lambda>io. mark_claim_deleting cd io i)"
    and "safe_call cd (\<lambda>io. save_claim_status cd io crecord)"
    and "safe_call cd (\<lambda>io. ensure_host cd io i plan resources)"
    and "safe_call cd (\<lambda>io. save_host cd io hrecord)"
proof -
  show "safe_call cd (\<lambda>io. create_claim cd io i spec)"
    by (rule safe_callI [OF fault_tolerant_ops(8) create_claim_refines [OF cd]])
      (auto intro: spec_create_claim_keeps)
  show "safe_call cd (\<lambda>io. mark_claim_deleting cd io i)"
    by (rule safe_callI [OF fault_tolerant_ops(9) mark_claim_deleting_refines [OF cd]])
      (auto intro: spec_mark_claim_deleting_keeps)
  show "safe_call cd (\<lambda>io. save_claim_status cd io crecord)"
    by (rule safe_callI [OF fault_tolerant_ops(6) save_claim_status_refines [OF cd]])
      (auto intro: spec_save_claim_status_keeps)
  show "safe_call cd (\<lambda>io. ensure_host cd io i plan resources)"
    by (rule safe_callI [OF fault_tolerant_ops(10) ensure_host_refines [OF cd]])
      (auto intro: spec_ensure_host_keeps cd)
  show "safe_call cd (\<lambda>io. save_host cd io hrecord)"
    by (rule safe_callI [OF fault_tolerant_ops(7) save_host_refines [OF cd]])
      (auto intro: spec_save_host_keeps)
qed

section \<open>What a success tells the caller\<close>

lemma get_host_success:
  assumes "codec_ok cd" and "database_ok cd db" and "get_host cd io h db = (Inr hr, db')"
  shows "db' = db" and "host_view cd db h = Some hr"
proof -
  show "db' = db" using reads_keep_database(3) [of cd io h db] assms(3) by simp
  show "host_view cd db h = Some hr"
    using successful_call [OF fault_tolerant_ops(3) get_host_refines [OF assms(1)] assms(2,3)]
    by (cases "host_view cd db h") (auto simp: spec_get_host_def)
qed

lemma list_claims_success:
  assumes cd: "codec_ok cd" and db: "database_ok cd db" and run: "list_claims cd io db = (Inr rs, db')"
  shows "db' = db" and "r \<in> set rs \<longleftrightarrow> claim_view cd db (claim_id_of r) = Some r"
proof -
  show "db' = db" using reads_keep_database(2) [of cd io db] run by simp
  have "list_claims cd (healthy io) db = (Inr rs, db')" by (rule fault_tolerantD(2) [OF fault_tolerant_ops(2) run])
  moreover obtain rs' where "list_claims cd (healthy io) db = (Inr rs', db)"
      "\<And>r. r \<in> set rs' \<longleftrightarrow> claim_view cd db (claim_id_of r) = Some r"
    by (rule list_claims_result [OF cd healthy_sel(3) db, of io]) blast
  ultimately show "r \<in> set rs \<longleftrightarrow> claim_view cd db (claim_id_of r) = Some r" by simp
qed

lemma save_host_success:
  assumes cd: "codec_ok cd" and db: "database_ok cd db" and run: "save_host cd io hrecord db = (Inr u, db')"
  shows "\<exists>r. host_view cd db (host_id_of hrecord) = Some r
    \<and> host_view cd db' (host_id_of hrecord) = Some (with_host_status hrecord r)"
proof -
  have spec: "spec_save_host cd hrecord (store_of cd db) = (Inr u, store_of cd db')"
    by (rule successful_call [OF fault_tolerant_ops(7) save_host_refines [OF cd] db run])
  then obtain r where r: "host_view cd db (host_id_of hrecord) = Some r"
    by (cases "host_view cd db (host_id_of hrecord)") (auto simp: spec_save_host_def)
  with spec have "host_view cd db' = (host_view cd db)(host_id_of hrecord \<mapsto> with_host_status hrecord r)"
    by (auto simp: spec_save_host_def store_of_def split: if_splits)
  with r show ?thesis by simp
qed

text \<open>Finalizing removes the claim and its hosts, or, when it fails, possibly nothing.\<close>

definition without_claim :: "HostClaimId \<Rightarrow> store \<Rightarrow> store" where
  "without_claim i st = st\<lparr>s_claims := (s_claims st)(i := None),
     s_hosts := (\<lambda>h. case s_hosts st h of None \<Rightarrow> None
       | Some hr \<Rightarrow> if host_claim_of hr = i then None else Some hr)\<rparr>"

lemma finalize_claim_effect:
  assumes cd: "codec_ok cd" and db: "database_ok cd db" and run: "finalize_claim cd io i db = (r, db')"
  shows "database_ok cd db'"
    and "db' = db \<or> claim_view cd db i \<noteq> None \<and> store_of cd db' = without_claim i (store_of cd db)"
    and "r = Inr u \<Longrightarrow> store_of cd db' = without_claim i (store_of cd db)"
proof -
  obtain r1 db1 where H: "finalize_claim cd (healthy io) i db = (r1, db1)" by (rule prod.exhaust)
  then have ok: "database_ok cd db1" and spec: "spec_finalize_claim cd i (store_of cd db) = (r1, store_of cd db1)"
    using refinesD [OF finalize_claim_refines [OF cd] db, of "healthy io" i] by simp_all
  obtain n deleted where D: "delete_claim_row (claim_id_text cd i) db = (n, deleted)" by (rule prod.exhaust)
  have inl: "db1 = db" if "r1 = Inl e" for e
    using H that D no_row_deleted [of "claim_id_text cd i" db deleted]
    by (cases "n = 0") (auto simp: finalize_claim_def on_pool_def healthy_calls)
  have inr: "claim_view cd db i \<noteq> None \<and> store_of cd db1 = without_claim i (store_of cd db)" if "r1 = Inr u" for u
    using spec that by (cases "claim_view cd db i") (auto simp: spec_finalize_claim_def without_claim_def)
  have cases: "db' = db \<or> db' = db1"
    using fault_tolerantD(1) [OF fault_tolerant_ops(5) [of cd i], of io db] H run by simp
  then show "database_ok cd db'" using db ok by auto
  show "db' = db \<or> claim_view cd db i \<noteq> None \<and> store_of cd db' = without_claim i (store_of cd db)"
    using cases inl inr by (cases r1) auto
  show "store_of cd db' = without_claim i (store_of cd db)" if "r = Inr u"
    using fault_tolerantD(2) [OF fault_tolerant_ops(5) [of cd i], of io db u db'] that run H inr by simp
qed

end
