(* ===== verification/World_Frames.thy ===== *)
theory World_Frames
  imports Storage_Frames Controller
begin

text \<open>
  What the effects of the daemon's tasks leave true of the world: requests and storage calls keep
  what is stored (\<open>Storage_Frames\<close>) and do not touch the provider. An assertion that survives this
  is \<open>stable\<close>, and the triples of the controller's effects are stated for stable assertions.
\<close>

section \<open>Worlds that keep what is stored\<close>

definition world_keeps :: "codec \<Rightarrow> 'p world \<Rightarrow> 'p world \<Rightarrow> bool" where
  "world_keeps cd w w' \<longleftrightarrow>
     database_ok cd (w_db w') \<and> keeps (store_of cd (w_db w)) (store_of cd (w_db w'))
     \<and> w_provider w' = w_provider w"

lemma world_keeps_trans: "world_keeps cd a b \<Longrightarrow> world_keeps cd b c \<Longrightarrow> world_keeps cd a c"
  by (auto simp: world_keeps_def intro: keeps_trans)

lemma world_keeps_same:
  "database_ok cd (w_db w) \<Longrightarrow> w_db w' = w_db w \<Longrightarrow> w_provider w' = w_provider w \<Longrightarrow> world_keeps cd w w'"
  by (simp add: world_keeps_def)

lemma on_db_keeps:
  assumes "safe_call cd m" and "database_ok cd (w_db w)"
  shows "world_keeps cd w (snd (on_db (m io) w))"
  using assms(1) [unfolded safe_call_def, rule_format, OF assms(2), of io]
  by (cases "m io (w_db w)") (simp add: on_db_def world_keeps_def)

section \<open>Requests\<close>

text \<open>A handler that reads its parameters, calls storage safely, and may wake the controller.\<close>

lemma parse_params_keeps:
  assumes "\<And>x w. database_ok cd (w_db w) \<Longrightarrow> world_keeps cd w (snd (f x w))" and "database_ok cd (w_db w)"
  shows "world_keeps cd w (snd (and_then (parse_params parser params) f w))"
  using assms by (cases "parser params") (simp_all add: parse_params_def and_then_def world_keeps_same)

lemma storage_handler_keeps:
  assumes m: "safe_call cd m" and ok: "database_ok cd (w_db w)"
    and f: "\<And>x w. w_db (snd (f x w)) = w_db w \<and> w_provider (snd (f x w)) = w_provider w"
  shows "world_keeps cd w (snd (and_then (map_oper_err g (on_db (m io))) f w))"
proof -
  have keep: "world_keeps cd w (snd (on_db (m io) w))" using m ok by (rule on_db_keeps)
  obtain r w1 where run: "on_db (m io) w = (r, w1)" by (rule prod.exhaust)
  then have w1: "world_keeps cd w w1" using keep by simp
  show ?thesis
  proof (cases r)
    case (Inl e)
    with run w1 show ?thesis by (simp add: and_then_def map_oper_err_def)
  next
    case (Inr x)
    moreover have "world_keeps cd w1 (snd (f x w1))"
      using w1 f [of x w1] by (intro world_keeps_same) (simp_all add: world_keeps_def)
    ultimately show ?thesis
      using run w1 by (simp add: and_then_def map_oper_err_def world_keeps_trans [OF w1])
  qed
qed

lemma handlers_keep:
  assumes cd: "codec_ok (e_codec E)" and ok: "database_ok (e_codec E) (w_db w)"
    and handler: "rpc_module name = Some handler"
  shows "world_keeps (e_codec E) w (snd (handler E io params w))"
proof -
  have frame: "w_db (snd (and_then wake (\<lambda>_. ok y) w)) = w_db w \<and>
      w_provider (snd (and_then wake (\<lambda>_. ok y) w)) = w_provider w" for y w
    by (simp add: and_then_def wake_def)
  consider "handler = system_info" | "handler = host_claim_create" | "handler = host_claim_get"
    | "handler = host_claim_list" | "handler = host_claim_delete" | "handler = host_get" | "handler = host_list"
    using handler by (auto simp: rpc_module_def split: if_splits)
  then show ?thesis
    by cases
      (auto simp: system_info_def host_claim_create_def host_claim_get_def host_claim_list_def
        host_claim_delete_def host_get_def host_list_def world_keeps_same frame
        intro!: parse_params_keeps storage_handler_keeps safe_calls [OF cd] safe_reads ok)
qed

lemma serve_message_keeps:
  assumes "codec_ok (e_codec E)" and "database_ok (e_codec E) (w_db w)"
  shows "world_keeps (e_codec E) w (snd (serve_message E io message w))"
proof (cases message)
  case (Call name params)
  show ?thesis
  proof (cases "rpc_module name :: 'a handler option")
    case None
    with Call assms show ?thesis by (simp add: serve_message_def world_keeps_same)
  next
    case (Some handler)
    with handlers_keep [OF assms Some, of io params] Call show ?thesis
      by (cases "handler E io params w") (simp add: serve_message_def)
  qed
next
  case (Notification name params)
  with assms show ?thesis by (simp add: serve_message_def world_keeps_same)
qed

lemma serve_all_keeps:
  assumes cd: "codec_ok (e_codec E)"
  shows "database_ok (e_codec E) (w_db w) \<Longrightarrow> world_keeps (e_codec E) w (serve_all E requests w)"
proof (induction requests arbitrary: w)
  case Nil
  then show ?case by (simp add: serve_all_def world_keeps_same)
next
  case (Cons request requests)
  obtain message io where request: "request = (message, io)" by (rule prod.exhaust)
  let ?w1 = "snd (serve_message E io message w)"
  have w1: "world_keeps (e_codec E) w ?w1" using cd Cons.prems by (rule serve_message_keeps)
  then have "world_keeps (e_codec E) ?w1 (serve_all E requests ?w1)"
    using Cons.IH by (simp add: world_keeps_def)
  moreover have "serve_all E (request # requests) w = serve_all E requests ?w1"
    by (simp add: serve_all_def request)
  ultimately show ?case using world_keeps_trans [OF w1] by simp
qed

section \<open>What a request does to the database\<close>

lemma handler_db:
  "w_db (snd (host_claim_create E io params w)) = (case parse_create_params (e_params E) params of
     Inl _ \<Rightarrow> w_db w | Inr req \<Rightarrow> snd (create_claim (e_codec E) io (ccp_id req) (ccp_spec req) (w_db w)))"
  "w_db (snd (host_claim_delete E io params w)) = (case parse_claim_params (e_params E) params of
     Inl _ \<Rightarrow> w_db w | Inr i \<Rightarrow> snd (mark_claim_deleting (e_codec E) io i (w_db w)))"
  "w_db (snd (system_info E io params w)) = w_db w" "w_db (snd (host_claim_get E io params w)) = w_db w"
  "w_db (snd (host_claim_list E io params w)) = w_db w" "w_db (snd (host_get E io params w)) = w_db w"
  "w_db (snd (host_list E io params w)) = w_db w"
  using reads_keep_database
  by (auto simp: host_claim_create_def host_claim_delete_def system_info_def host_claim_get_def host_claim_list_def
      host_get_def host_list_def parse_params_def lift_result_def map_oper_err_def on_db_def wake_def ok_def and_then_def
      split: sum.split prod.split) (metis snd_conv)+

text \<open>The two calls that write.\<close>

lemma serve_message_db:
  obtains (same) "w_db (snd (serve_message E io message w)) = w_db w"
    | (create) params req where "message = Call HOST_CLAIM_CREATE params" "parse_create_params (e_params E) params = Inr req"
        "w_db (snd (serve_message E io message w)) = snd (create_claim (e_codec E) io (ccp_id req) (ccp_spec req) (w_db w))"
    | (delete) params i where "message = Call HOST_CLAIM_DELETE params" "parse_claim_params (e_params E) params = Inr i"
        "w_db (snd (serve_message E io message w)) = snd (mark_claim_deleting (e_codec E) io i (w_db w))"
proof (cases message)
  case (Call name params)
  have run: "snd (serve_message E io message w) = (case rpc_module name of None \<Rightarrow> w | Some handler \<Rightarrow> snd (handler E io params w))"
    by (simp add: serve_message_def Call split: option.split prod.split)
  consider "name = HOST_CLAIM_CREATE" | "name = HOST_CLAIM_DELETE" | "w_db (snd (serve_message E io message w)) = w_db w"
  proof (cases "rpc_module name :: 'a handler option")
    case None
    then show ?thesis using that(3) run by simp
  next
    case (Some handler)
    then consider "name = HOST_CLAIM_CREATE" | "name = HOST_CLAIM_DELETE" | "handler = system_info"
      | "handler = host_claim_get" | "handler = host_claim_list" | "handler = host_get" | "handler = host_list"
      by (auto simp: rpc_module_def split: if_splits)
    then show ?thesis using that Some run by cases (simp_all add: handler_db)
  qed
  then show ?thesis
  proof cases
    case 1
    show ?thesis
    proof (cases "parse_create_params (e_params E) params")
      case (Inl e)
      then show ?thesis using same run 1 by (simp add: rpc_module_registered handler_db)
    next
      case (Inr req)
      then show ?thesis using create [of params req] run 1 Call by (simp add: rpc_module_registered handler_db)
    qed
  next
    case 2
    then show ?thesis
      using same delete run Call by (cases "parse_claim_params (e_params E) params") (simp_all add: rpc_module_registered handler_db)
  next
    case 3
    then show ?thesis by (rule same)
  qed
next
  case (Notification name params)
  then show ?thesis using same by (simp add: serve_message_def)
qed

section \<open>Stable assertions\<close>

definition stable :: "codec \<Rightarrow> ('p world \<Rightarrow> bool) \<Rightarrow> bool" where
  "stable cd A \<longleftrightarrow>
     (\<forall>w. A w \<longrightarrow> database_ok cd (w_db w)) \<and> (\<forall>w w'. A w \<longrightarrow> world_keeps cd w w' \<longrightarrow> A w')"

lemma stableD:
  assumes "stable cd A"
  shows "A w \<Longrightarrow> database_ok cd (w_db w)" and "A w \<Longrightarrow> world_keeps cd w w' \<Longrightarrow> A w'"
  using assms by (auto simp: stable_def)

lemma stable_conj:
  assumes "stable cd A" and "\<And>w w'. A w \<Longrightarrow> B w \<Longrightarrow> world_keeps cd w w' \<Longrightarrow> B w'"
  shows "stable cd (\<lambda>w. A w \<and> B w)"
  using assms unfolding stable_def by blast

lemma stable_same:
  assumes "stable cd A" and "A w" and "w_db w' = w_db w" and "w_provider w' = w_provider w"
  shows "A w'"
  using assms stableD(1) [OF assms(1,2)] by (blast intro: stableD(2) world_keeps_same)

lemma now_timestamp_triple:
  assumes "stable cd A" shows "triple A (now_timestamp E) (\<lambda>_. A) R"
  unfolding triple_def using stable_same [OF assms] by (simp add: now_timestamp_def)

lemma read_now_unix_ms_triple:
  assumes "stable cd A" shows "triple A (read_now_unix_ms E) (\<lambda>_. A) R"
  unfolding triple_def using stable_same [OF assms] by (simp add: read_now_unix_ms_def)

lemma wake_triple:
  assumes "stable cd A" shows "triple A wake (\<lambda>_. A) R"
  unfolding triple_def using stable_same [OF assms] by (simp add: wake_def)

text \<open>The world a storage call runs in: the requests served meanwhile have kept the assertion.\<close>

lemma before_storage_call:
  assumes cd: "codec_ok (e_codec E)" and A: "stable (e_codec E) A" and w: "A w"
  shows "A (tick (serve_all E (e_requests E (w_count w)) w))"
proof -
  have "A (serve_all E (e_requests E (w_count w)) w)"
    using w serve_all_keeps [OF cd stableD(1) [OF A w]] by (rule stableD(2) [OF A])
  with A show ?thesis by (rule stable_same) simp_all
qed

lemma storage_call_triple:
  assumes cd: "codec_ok (e_codec E)" and A: "stable (e_codec E) A"
    and success: "\<And>io w x db. A w \<Longrightarrow> m io (w_db w) = (Inr x, db) \<Longrightarrow> Q x (w\<lparr>w_db := db\<rparr>)"
    and failure: "\<And>io w e db. A w \<Longrightarrow> m io (w_db w) = (Inl e, db) \<Longrightarrow> R (w\<lparr>w_db := db\<rparr>)"
  shows "triple A (storage_call E m) Q R"
  unfolding triple_def
proof (intro allI impI)
  fix w assume "A w"
  let ?w = "tick (serve_all E (e_requests E (w_count w)) w)"
  have "A ?w" using cd A \<open>A w\<close> by (rule before_storage_call)
  then show "case storage_call E m w of (Inl e, s') \<Rightarrow> R s' | (Inr x, s') \<Rightarrow> Q x s'"
    using success [of ?w] failure [of ?w]
    by (auto simp: storage_call_def on_db_def Let_def split: prod.splits sum.splits)
qed

lemma safe_storage_call:
  assumes cd: "codec_ok (e_codec E)" and A: "stable (e_codec E) A" and m: "safe_call (e_codec E) m"
    and "\<And>w. A w \<Longrightarrow> R w"
  shows "triple A (storage_call E m) (\<lambda>_. A) R"
proof -
  have "A (w\<lparr>w_db := db\<rparr>)" if "A w" "m io (w_db w) = (r, db)" for w io r db
    using on_db_keeps [OF m stableD(1) [OF A that(1)], of io] that(2)
    by (intro stableD(2) [OF A that(1)]) (simp add: on_db_def)
  then show ?thesis using assms(4) by (intro storage_call_triple [OF cd A]) blast+
qed

section \<open>Saving\<close>

lemma persist_claim_status_triple:
  assumes cd: "codec_ok (e_codec E)" and A: "stable (e_codec E) A" and "\<And>w. A w \<Longrightarrow> R w"
  shows "triple A (persist_claim_status E claim) (\<lambda>_. A) R"
  unfolding persist_claim_status_def
  by (intro triple_and_then [OF safe_storage_call [OF cd A safe_calls(3) [OF cd]]] triple_if
      wake_triple [OF A] triple_ok) (use assms(3) in auto)

lemma save_host_call_triple:
  assumes cd: "codec_ok (e_codec E)" and A: "stable (e_codec E) A" and "\<And>w. A w \<Longrightarrow> R w"
  shows "triple A (save_host_call E host) (\<lambda>_. A) R"
  unfolding save_host_call_def
  by (rule safe_storage_call [OF cd A safe_calls(5) [OF cd]]) (use assms(3) in auto)

lemma save_both_triple:
  assumes cd: "codec_ok (e_codec E)" and A: "stable (e_codec E) A" and "\<And>w. A w \<Longrightarrow> R w"
    and "\<And>w. A w \<Longrightarrow> Q result w"
  shows "triple A (save_both E both result) Q R"
  unfolding save_both_def
  by (intro triple_and_then [OF save_host_call_triple [OF cd A]]
      triple_and_then [OF persist_claim_status_triple [OF cd A]] triple_ok) (use assms in auto)

end
