(* ===== verification/Controller_Safety.thy ===== *)
theory Controller_Safety
  imports World_Frames
begin

text \<open>
  What one reconciliation step keeps true whatever the database, the provider and the RPC clients
  do meanwhile: no provider resource without a stored host that names its plan, resources never
  replaced and only removed for a claim whose deletion was requested, stored claims and hosts
  never altered in what identifies them. The proof is carried out for every provider that keeps
  the contract of \<open>HostProvider\<close>.
\<close>

section \<open>The assertions\<close>

text \<open>Every resource the provider holds is held for a stored host, with the plan the host names.\<close>

definition world_ok ::
  "codec \<Rightarrow> ('p \<Rightarrow> HostId \<Rightarrow> (ProviderResource \<times> string) option) \<Rightarrow> ('p \<Rightarrow> bool) \<Rightarrow> 'p world \<Rightarrow> bool" where
  "world_ok cd owned sane w \<longleftrightarrow>
     database_ok cd (w_db w) \<and> sane (w_provider w)
     \<and> (\<forall>h res plan. owned (w_provider w) h = Some (res, plan) \<longrightarrow>
          (\<exists>hr. host_view cd (w_db w) h = Some hr \<and> hr_provider_plan_id hr = plan))"

text \<open>The host's claim is stored and its deletion has been requested.\<close>

definition released :: "codec \<Rightarrow> 'p world \<Rightarrow> HostId \<Rightarrow> bool" where
  "released cd w h \<longleftrightarrow>
     (\<exists>hr c. host_view cd (w_db w) h = Some hr \<and> claim_view cd (w_db w) (host_claim_of hr) = Some c
        \<and> claim_deletion c \<noteq> None)"

text \<open>What may have become of the resources that \<open>w\<close>'s provider held, in \<open>w'\<close>.\<close>

definition resources_safe ::
  "codec \<Rightarrow> ('p \<Rightarrow> HostId \<Rightarrow> (ProviderResource \<times> string) option) \<Rightarrow> 'p world \<Rightarrow> 'p world \<Rightarrow> bool" where
  "resources_safe cd owned w w' \<longleftrightarrow>
     (\<forall>h x. owned (w_provider w) h = Some x \<longrightarrow>
        owned (w_provider w') h = Some x \<or> owned (w_provider w') h = None \<and> released cd w' h)"

text \<open>What may have become of stored claims and hosts: they are kept, or they are gone.\<close>

definition records_safe :: "store \<Rightarrow> store \<Rightarrow> bool" where
  "records_safe st st' \<longleftrightarrow>
     (\<forall>i r. s_claims st i = Some r \<longrightarrow>
        s_claims st' i = None \<or> (\<exists>r'. s_claims st' i = Some r' \<and> same_claim r r'))
     \<and> (\<forall>h r. s_hosts st h = Some r \<longrightarrow>
        s_hosts st' h = None \<or> (\<exists>r'. s_hosts st' h = Some r' \<and> same_host r r'))"

lemma keeps_records_safe: "keeps st st' \<Longrightarrow> records_safe st st'"
  by (auto simp: keeps_def records_safe_def)

text \<open>The outcome of a step from \<open>w0\<close>, and the two assertions that lead up to it.\<close>

definition step_safe ::
  "codec \<Rightarrow> ('p \<Rightarrow> HostId \<Rightarrow> (ProviderResource \<times> string) option) \<Rightarrow> ('p \<Rightarrow> bool) \<Rightarrow> 'p world \<Rightarrow> 'p world \<Rightarrow> bool" where
  "step_safe cd owned sane w0 w \<longleftrightarrow>
     world_ok cd owned sane w \<and> resources_safe cd owned w0 w
     \<and> records_safe (store_of cd (w_db w0)) (store_of cd (w_db w))"

definition moved ::
  "codec \<Rightarrow> ('p \<Rightarrow> HostId \<Rightarrow> (ProviderResource \<times> string) option) \<Rightarrow> ('p \<Rightarrow> bool) \<Rightarrow> 'p world \<Rightarrow> 'p world \<Rightarrow> bool" where
  "moved cd owned sane w0 w \<longleftrightarrow>
     world_ok cd owned sane w \<and> resources_safe cd owned w0 w
     \<and> keeps (store_of cd (w_db w0)) (store_of cd (w_db w))"

definition calm ::
  "codec \<Rightarrow> ('p \<Rightarrow> HostId \<Rightarrow> (ProviderResource \<times> string) option) \<Rightarrow> ('p \<Rightarrow> bool) \<Rightarrow> 'p world \<Rightarrow> 'p world \<Rightarrow> bool" where
  "calm cd owned sane w0 w \<longleftrightarrow>
     world_ok cd owned sane w \<and> owned (w_provider w) = owned (w_provider w0)
     \<and> keeps (store_of cd (w_db w0)) (store_of cd (w_db w))"

lemma moved_step_safe: "moved cd owned sane w0 w \<Longrightarrow> step_safe cd owned sane w0 w"
  by (simp add: moved_def step_safe_def keeps_records_safe)

lemma calm_moved: "calm cd owned sane w0 w \<Longrightarrow> moved cd owned sane w0 w"
  by (simp add: calm_def moved_def resources_safe_def)

text \<open>A controller's copy of a claim or host is of a stored one.\<close>

definition claim_at :: "codec \<Rightarrow> HostClaimRecord \<Rightarrow> 'p world \<Rightarrow> bool" where
  "claim_at cd claim w \<longleftrightarrow>
     (\<exists>r. claim_view cd (w_db w) (claim_id_of claim) = Some r \<and> same_claim claim r)"

definition host_at :: "codec \<Rightarrow> HostRecord \<Rightarrow> 'p world \<Rightarrow> bool" where
  "host_at cd host w \<longleftrightarrow>
     (\<exists>r. host_view cd (w_db w) (host_id_of host) = Some r \<and> same_host host r)"

lemma claim_at_keeps: "claim_at cd claim w \<Longrightarrow> world_keeps cd w w' \<Longrightarrow> claim_at cd claim w'"
  unfolding claim_at_def world_keeps_def using keepsD(1) same_claim_trans by fastforce

lemma host_at_keeps: "host_at cd host w \<Longrightarrow> world_keeps cd w w' \<Longrightarrow> host_at cd host w'"
  unfolding host_at_def world_keeps_def using keepsD(2) same_host_trans by fastforce

lemma world_ok_keeps:
  assumes ok: "world_ok cd owned sane w" and k: "world_keeps cd w w'"
  shows "world_ok cd owned sane w'"
  unfolding world_ok_def
proof (intro conjI allI impI)
  fix h res plan assume "owned (w_provider w') h = Some (res, plan)"
  moreover have "w_provider w' = w_provider w" using k by (simp add: world_keeps_def)
  ultimately obtain hr where hr: "host_view cd (w_db w) h = Some hr" "hr_provider_plan_id hr = plan"
    using ok unfolding world_ok_def by metis
  with k keepsD(2) [of "store_of cd (w_db w)" "store_of cd (w_db w')" h hr]
  show "\<exists>hr. host_view cd (w_db w') h = Some hr \<and> hr_provider_plan_id hr = plan"
    by (auto simp: world_keeps_def same_host_def)
qed (use assms in \<open>auto simp: world_ok_def world_keeps_def\<close>)

lemma released_keeps:
  assumes "released cd w h" and "world_keeps cd w w'"
  shows "released cd w' h"
proof -
  obtain hr c where hr: "host_view cd (w_db w) h = Some hr"
    and c: "claim_view cd (w_db w) (host_claim_of hr) = Some c" "claim_deletion c \<noteq> None"
    using assms(1) by (auto simp: released_def)
  have keep: "keeps (store_of cd (w_db w)) (store_of cd (w_db w'))"
    using assms(2) by (simp add: world_keeps_def)
  obtain hr' where "host_view cd (w_db w') h = Some hr'" "same_host hr hr'"
    using keepsD(2) [OF keep, of h hr] hr by auto
  moreover obtain c' where "claim_view cd (w_db w') (host_claim_of hr) = Some c'" "same_claim c c'"
    using keepsD(1) [OF keep, of "host_claim_of hr" c] c by auto
  ultimately show ?thesis using c(2) by (auto simp: released_def same_host_def same_claim_def)
qed

lemma resources_safe_keeps:
  assumes r: "resources_safe cd owned w0 w" and k: "world_keeps cd w w'"
  shows "resources_safe cd owned w0 w'"
  unfolding resources_safe_def
proof (intro allI impI)
  fix h x assume "owned (w_provider w0) h = Some x"
  with r have "owned (w_provider w) h = Some x \<or> owned (w_provider w) h = None \<and> released cd w h"
    unfolding resources_safe_def by blast
  moreover have "w_provider w' = w_provider w" using k by (simp add: world_keeps_def)
  ultimately show "owned (w_provider w') h = Some x \<or> owned (w_provider w') h = None \<and> released cd w' h"
    using released_keeps [OF _ k] by auto
qed

lemma world_okD:
  assumes "world_ok cd owned sane w"
  shows "database_ok cd (w_db w)" and "sane (w_provider w)"
    and "owned (w_provider w) h = Some (res, plan) \<Longrightarrow>
      \<exists>hr. host_view cd (w_db w) h = Some hr \<and> hr_provider_plan_id hr = plan"
  using assms by (simp_all add: world_ok_def)

lemma stable_calm: "stable cd (calm cd owned sane w0)"
  unfolding stable_def calm_def
  by (auto intro: world_ok_keeps keeps_trans dest: world_okD(1) simp: world_keeps_def)

lemma stable_moved: "stable cd (moved cd owned sane w0)"
  unfolding stable_def moved_def
  by (auto intro: world_ok_keeps resources_safe_keeps keeps_trans dest: world_okD(1) simp: world_keeps_def)

section \<open>Finalizing\<close>

text \<open>
  Removing a claim whose deletion was requested is safe once it has no host, or once the provider
  holds nothing for its host.
\<close>

lemma finalize_safe:
  assumes cd: "codec_ok cd" and calm: "calm cd owned sane w0 w"
    and claim: "claim_at cd claim w" and deleting: "claim_deletion claim \<noteq> None"
    and absent: "\<And>h. claim_host claim = Some h \<Longrightarrow> owned (w_provider w) h = None"
    and run: "finalize_claim cd io (claim_id_of claim) (w_db w) = (r, db')"
  shows "step_safe cd owned sane w0 (w\<lparr>w_db := db'\<rparr>)"
proof -
  have ok: "world_ok cd owned sane w" and same: "owned (w_provider w) = owned (w_provider w0)"
    and keep: "keeps (store_of cd (w_db w0)) (store_of cd (w_db w))"
    using calm by (simp_all add: calm_def)
  note db = world_okD(1) [OF ok]
  note effect = finalize_claim_effect(1,2) [OF cd db run]
  show ?thesis
  proof (cases "db' = w_db w")
    case True
    then have "calm cd owned sane w0 (w\<lparr>w_db := db'\<rparr>)" using calm by simp
    then show ?thesis by (intro moved_step_safe calm_moved)
  next
    case False
    then have st: "store_of cd db' = without_claim (claim_id_of claim) (store_of cd (w_db w))"
      using effect(2) by simp
    have not_gone: "host_claim_of hr \<noteq> claim_id_of claim"
      if "host_view cd (w_db w) h = Some hr" "owned (w_provider w) h \<noteq> None" for h hr
    proof
      assume "host_claim_of hr = claim_id_of claim"
      moreover obtain r' where r': "claim_view cd (w_db w) (claim_id_of claim) = Some r'" "same_claim claim r'"
        using claim by (auto simp: claim_at_def)
      ultimately have "claim_host r' = Some h"
        using claim_host_iff [OF cd db r'(1), of h] that(1) by blast
      then have "claim_host claim = Some h"
        using r'(2) deleting by (simp add: same_claim_def)
      then show False using absent that(2) by simp
    qed
    have hosts: "host_view cd db' h = (case host_view cd (w_db w) h of None \<Rightarrow> None
        | Some hr \<Rightarrow> if host_claim_of hr = claim_id_of claim then None else Some hr)" for h
      using arg_cong [OF st, of s_hosts] by (simp add: without_claim_def)
    have "world_ok cd owned sane (w\<lparr>w_db := db'\<rparr>)"
      unfolding world_ok_def
    proof (intro conjI allI impI)
      fix h res plan assume "owned (w_provider (w\<lparr>w_db := db'\<rparr>)) h = Some (res, plan)"
      then have h: "owned (w_provider w) h = Some (res, plan)" by simp
      then obtain hr where "host_view cd (w_db w) h = Some hr" "hr_provider_plan_id hr = plan"
        using world_okD(3) [OF ok] by blast
      with not_gone h show "\<exists>hr. host_view cd (w_db (w\<lparr>w_db := db'\<rparr>)) h = Some hr \<and> hr_provider_plan_id hr = plan"
        by (simp add: hosts)
    qed (use effect ok in \<open>simp_all add: world_ok_def\<close>)
    moreover have "resources_safe cd owned w0 (w\<lparr>w_db := db'\<rparr>)"
      by (simp add: resources_safe_def same)
    moreover have "records_safe (store_of cd (w_db w0)) (store_of cd db')"
      using keep unfolding st by (fastforce simp: keeps_def records_safe_def without_claim_def split: option.splits)
    ultimately show ?thesis by (simp add: step_safe_def)
  qed
qed

section \<open>The effects of a step\<close>

text \<open>\<open>calm\<close>, together with the controller's copies of claims and hosts.\<close>

definition watch ::
  "codec \<Rightarrow> ('p \<Rightarrow> HostId \<Rightarrow> (ProviderResource \<times> string) option) \<Rightarrow> ('p \<Rightarrow> bool) \<Rightarrow> 'p world
     \<Rightarrow> HostClaimRecord set \<Rightarrow> HostRecord set \<Rightarrow> 'p world \<Rightarrow> bool" where
  "watch cd owned sane w0 C H w \<longleftrightarrow>
     calm cd owned sane w0 w \<and> (\<forall>c \<in> C. claim_at cd c w) \<and> (\<forall>h \<in> H. host_at cd h w)"

lemma stable_watch: "stable cd (watch cd owned sane w0 C H)"
  unfolding watch_def
  by (intro stable_conj [OF stable_calm]) (blast intro: claim_at_keeps host_at_keeps)

lemma watch_mono: "watch cd owned sane w0 C H w \<Longrightarrow> C' \<subseteq> C \<Longrightarrow> H' \<subseteq> H \<Longrightarrow> watch cd owned sane w0 C' H' w"
  by (auto simp: watch_def)

lemma watch_step_safe: "watch cd owned sane w0 C H w \<Longrightarrow> step_safe cd owned sane w0 w"
  by (simp add: watch_def moved_step_safe calm_moved)

lemma watch_moved: "watch cd owned sane w0 C H w \<Longrightarrow> moved cd owned sane w0 w"
  by (simp add: watch_def calm_moved)

lemma claim_at_db: "claim_at cd c (w\<lparr>w_provider := p\<rparr>) = claim_at cd c w"
  by (simp add: claim_at_def)

lemma host_at_db: "host_at cd h (w\<lparr>w_provider := p\<rparr>) = host_at cd h w"
  by (simp add: host_at_def)

text \<open>A provider call that keeps what the provider owns keeps what is watched.\<close>

lemma watch_provider:
  assumes "watch cd owned sane w0 C H w" and "sane p" and "owned p = owned (w_provider w)"
  shows "watch cd owned sane w0 C H (w\<lparr>w_provider := p\<rparr>)"
  using assms by (simp add: watch_def calm_def world_ok_def claim_at_db host_at_db)

lemma get_host_triple:
  assumes cd: "codec_ok (e_codec E)"
  shows "triple (watch (e_codec E) owned sane w0 C H)
    (storage_call E (\<lambda>io. get_host (e_codec E) io h))
    (\<lambda>host w. host_id_of host = h \<and> watch (e_codec E) owned sane w0 C (insert host H) w)
    (step_safe (e_codec E) owned sane w0)"
proof (rule storage_call_triple [OF cd stable_watch])
  fix io and w :: "'a world" and host db
  assume w: "watch (e_codec E) owned sane w0 C H w"
    and run: "get_host (e_codec E) io h (w_db w) = (Inr host, db)"
  note dbok = stableD(1) [OF stable_watch w]
  have "db = w_db w" and view: "host_view (e_codec E) (w_db w) h = Some host"
    using get_host_success [OF cd dbok run] by auto
  moreover have "host_id_of host = h"
    using view by (simp add: host_view_Some [OF cd dbok])
  ultimately show "host_id_of host = h \<and> watch (e_codec E) owned sane w0 C (insert host H) (w\<lparr>w_db := db\<rparr>)"
    using w by (simp add: watch_def host_at_def)
next
  fix io and w :: "'a world" and e db
  assume w: "watch (e_codec E) owned sane w0 C H w"
    and run: "get_host (e_codec E) io h (w_db w) = (Inl e, db)"
  then have "db = w_db w" using reads_keep_database(3) [of "e_codec E" io h "w_db w"] by simp
  then show "step_safe (e_codec E) owned sane w0 (w\<lparr>w_db := db\<rparr>)" using watch_step_safe [OF w] by simp
qed

lemma list_claims_triple:
  assumes cd: "codec_ok (e_codec E)"
  shows "triple (watch (e_codec E) owned sane w0 {} {})
    (storage_call E (list_claims (e_codec E)))
    (\<lambda>claims. watch (e_codec E) owned sane w0 (set claims) {})
    (step_safe (e_codec E) owned sane w0)"
proof (rule storage_call_triple [OF cd stable_watch])
  fix io and w :: "'a world" and claims db
  assume w: "watch (e_codec E) owned sane w0 {} {} w"
    and run: "list_claims (e_codec E) io (w_db w) = (Inr claims, db)"
  note list = list_claims_success [OF cd stableD(1) [OF stable_watch w] run]
  have "claim_at (e_codec E) c w" if "c \<in> set claims" for c
    using that list(2) [of c] by (auto simp: claim_at_def)
  with w list(1) show "watch (e_codec E) owned sane w0 (set claims) {} (w\<lparr>w_db := db\<rparr>)"
    by (simp add: watch_def)
next
  fix io and w :: "'a world" and e db
  assume w: "watch (e_codec E) owned sane w0 {} {} w"
    and run: "list_claims (e_codec E) io (w_db w) = (Inl e, db)"
  then have "db = w_db w" using reads_keep_database(2) [of "e_codec E" io "w_db w"] by simp
  then show "step_safe (e_codec E) owned sane w0 (w\<lparr>w_db := db\<rparr>)" using watch_step_safe [OF w] by simp
qed

lemma finalize_triple:
  assumes cd: "codec_ok (e_codec E)" and claim: "claim \<in> C" "claim_deletion claim \<noteq> None"
    and A: "\<And>w. A w \<Longrightarrow> watch (e_codec E) owned sane w0 C H w"
      "\<And>w h. A w \<Longrightarrow> claim_host claim = Some h \<Longrightarrow> owned (w_provider w) h = None"
  shows "triple A (storage_call E (\<lambda>io. finalize_claim (e_codec E) io (claim_id_of claim)))
    (\<lambda>_. step_safe (e_codec E) owned sane w0) (step_safe (e_codec E) owned sane w0)"
proof -
  let ?A = "\<lambda>w. watch (e_codec E) owned sane w0 C H w
      \<and> (\<forall>h. claim_host claim = Some h \<longrightarrow> owned (w_provider w) h = None)"
  have stable: "stable (e_codec E) ?A"
    by (rule stable_conj [OF stable_watch]) (simp add: world_keeps_def)
  have safe: "step_safe (e_codec E) owned sane w0 (w\<lparr>w_db := db\<rparr>)"
    if "?A w" "finalize_claim (e_codec E) io (claim_id_of claim) (w_db w) = (r, db)" for w io r db
    using that claim by (intro finalize_safe [OF cd, where claim = claim]) (auto simp: watch_def)
  have "triple ?A (storage_call E (\<lambda>io. finalize_claim (e_codec E) io (claim_id_of claim)))
      (\<lambda>_. step_safe (e_codec E) owned sane w0) (step_safe (e_codec E) owned sane w0)"
    by (rule storage_call_triple [OF cd stable]) (use safe in blast)+
  then show ?thesis by (rule triple_weaken) (use A in auto)
qed

end

