(* ===== verification/Controller_Contract.thy ===== *)
theory Controller_Contract
  imports Controller_Safety
begin

text \<open>
  The controller over any provider that keeps the contract: the triples of its provider calls and
  of its methods, up to one reconciliation step and the steps of a wake. \<open>Fake_Provider_Contract\<close>
  and \<open>Safety_Properties\<close> apply the result to the fake provider.
\<close>

context host_provider_contract
begin

section \<open>Provider calls\<close>

lemma select_triple:
  "triple (watch cd owned sane w0 C H) (provider_call (select_plan P req))
     (\<lambda>_. watch cd owned sane w0 C H) R"
  unfolding triple_def
proof (intro allI impI)
  fix w assume w: "watch cd owned sane w0 C H w"
  obtain sel p where run: "select_plan P req (w_provider w) = (sel, p)" by (rule prod.exhaust)
  have "sane (w_provider w)" using w by (simp add: watch_def calm_def world_ok_def)
  from select_state [OF this run] watch_provider [OF w, of p]
  show "case provider_call (select_plan P req) w of (Inl e, s') \<Rightarrow> R s' | (Inr x, s') \<Rightarrow> watch cd owned sane w0 C H s'"
    by (simp add: provider_call_def run)
qed

lemma observe_triple:
  "triple (watch cd owned sane w0 C H) (provider_call (observe P h))
     (\<lambda>observed w. watch cd owned sane w0 C H w \<and> (observed = Inr Absent \<longrightarrow> owned (w_provider w) h = None)) R"
  unfolding triple_def
proof (intro allI impI)
  fix w assume w: "watch cd owned sane w0 C H w"
  obtain obs p where run: "observe P h (w_provider w) = (obs, p)" by (rule prod.exhaust)
  have sane: "sane (w_provider w)" using w by (simp add: watch_def calm_def world_ok_def)
  from observe_state [OF sane run] watch_provider [OF w, of p] observe_absent [OF sane, of h p] run
  show "case provider_call (observe P h) w of (Inl e, s') \<Rightarrow> R s'
      | (Inr x, s') \<Rightarrow> watch cd owned sane w0 C H s' \<and> (x = Inr Absent \<longrightarrow> owned (w_provider s') h = None)"
    by (auto simp: provider_call_def)
qed

text \<open>Creating for a stored host, with the plan it names, leaves no resource without its host.\<close>

lemma create_triple:
  assumes host: "host \<in> H"
  shows "triple (watch cd owned sane w0 C H)
    (provider_call (create_resource P (host_id_of host) (hr_provider_plan_id host)))
    (\<lambda>_. moved cd owned sane w0) R"
  unfolding triple_def
proof (intro allI impI)
  fix w assume w: "watch cd owned sane w0 C H w"
  let ?h = "host_id_of host" and ?plan = "hr_provider_plan_id host"
  obtain cre p where run: "create_resource P ?h ?plan (w_provider w) = (cre, p)" by (rule prod.exhaust)
  have ok: "world_ok cd owned sane w" and same: "owned (w_provider w) = owned (w_provider w0)"
    using w by (simp_all add: watch_def calm_def)
  note sane = world_okD(2) [OF ok]
  obtain r where r: "host_view cd (w_db w) ?h = Some r" "hr_provider_plan_id r = ?plan"
    using w host by (auto simp: watch_def host_at_def same_host_def)
  have "\<exists>hr. host_view cd (w_db w) h = Some hr \<and> hr_provider_plan_id hr = plan"
    if "owned p h = Some (res, plan)" for h res plan
    using that create_owned [OF sane run] create_frame [OF sane run, of h] r world_okD(3) [OF ok, of h res plan]
    by (cases "h = ?h") auto
  then have "world_ok cd owned sane (w\<lparr>w_provider := p\<rparr>)"
    using ok create_sane [OF sane run] by (simp add: world_ok_def)
  moreover have "owned p h = Some x" if "owned (w_provider w) h = Some x" for h x
    using that create_owned [OF sane run] create_frame [OF sane run, of h] by (cases "h = ?h") auto
  then have "resources_safe cd owned w0 (w\<lparr>w_provider := p\<rparr>)"
    by (simp add: resources_safe_def same)
  ultimately have "moved cd owned sane w0 (w\<lparr>w_provider := p\<rparr>)"
    using w by (simp add: moved_def watch_def calm_def)
  then show "case provider_call (create_resource P ?h ?plan) w of (Inl e, s') \<Rightarrow> R s'
      | (Inr x, s') \<Rightarrow> moved cd owned sane w0 s'"
    by (simp add: provider_call_def run)
qed

text \<open>Deleting for the host of a claim whose deletion was requested releases that host.\<close>

lemma delete_triple:
  assumes cd: "codec_ok cd" and claim: "claim \<in> C" "claim_deletion claim \<noteq> None" "claim_host claim = Some h"
  shows "triple (watch cd owned sane w0 C H) (provider_call (delete_resource P h))
    (\<lambda>_. moved cd owned sane w0) R"
  unfolding triple_def
proof (intro allI impI)
  fix w assume w: "watch cd owned sane w0 C H w"
  obtain del p where run: "delete_resource P h (w_provider w) = (del, p)" by (rule prod.exhaust)
  have ok: "world_ok cd owned sane w" and same: "owned (w_provider w) = owned (w_provider w0)"
    using w by (simp_all add: watch_def calm_def)
  note sane = world_okD(2) [OF ok] and db = world_okD(1) [OF ok]
  obtain r where r: "claim_view cd (w_db w) (claim_id_of claim) = Some r" "same_claim claim r"
    using w claim(1) by (auto simp: watch_def claim_at_def)
  then have "claim_host r = Some h" "claim_deletion r \<noteq> None"
    using claim by (auto simp: same_claim_def)
  moreover from this(1) obtain hr where "host_view cd (w_db w) h = Some hr" "host_claim_of hr = claim_id_of claim"
    using claim_host_iff [OF cd db r(1), of h] by blast
  ultimately have released: "released cd (w\<lparr>w_provider := p\<rparr>) h"
    using r(1) by (auto simp: released_def)
  have kept: "owned p h' = owned (w_provider w) h' \<or> h' = h \<and> owned p h' = None" for h'
    using delete_owned [OF sane run] delete_frame [OF sane run, of h'] by (cases "h' = h") auto
  have "\<exists>hr. host_view cd (w_db w) h' = Some hr \<and> hr_provider_plan_id hr = plan"
    if "owned p h' = Some (res, plan)" for h' res plan
    using that kept [of h'] world_okD(3) [OF ok, of h' res plan] by auto
  then have "world_ok cd owned sane (w\<lparr>w_provider := p\<rparr>)"
    using ok delete_sane [OF sane run] by (simp add: world_ok_def)
  moreover have "resources_safe cd owned w0 (w\<lparr>w_provider := p\<rparr>)"
    unfolding resources_safe_def
  proof (intro allI impI)
    fix h' x assume "owned (w_provider w0) h' = Some x"
    with kept [of h'] released show "owned (w_provider (w\<lparr>w_provider := p\<rparr>)) h' = Some x
        \<or> owned (w_provider (w\<lparr>w_provider := p\<rparr>)) h' = None \<and> released cd (w\<lparr>w_provider := p\<rparr>) h'"
      by (auto simp: same)
  qed
  ultimately have "moved cd owned sane w0 (w\<lparr>w_provider := p\<rparr>)"
    using w by (simp add: moved_def watch_def calm_def)
  then show "case provider_call (delete_resource P h) w of (Inl e, s') \<Rightarrow> R s'
      | (Inr x, s') \<Rightarrow> moved cd owned sane w0 s'"
    by (simp add: provider_call_def run)
qed

section \<open>The methods\<close>

definition outcome :: "codec \<Rightarrow> 'p world \<Rightarrow> HostClaimRecord set \<Rightarrow> ReconcileResult \<Rightarrow> 'p world \<Rightarrow> bool" where
  "outcome cd w0 C result w \<longleftrightarrow>
     step_safe cd owned sane w0 w \<and> (result = Idle \<longrightarrow> watch cd owned sane w0 C {} w)"

lemma outcome_watch: "watch cd owned sane w0 C H w \<Longrightarrow> outcome cd w0 C result w"
  by (auto simp: outcome_def watch_step_safe elim: watch_mono)

lemma outcome_progress: "step_safe cd owned sane w0 w \<Longrightarrow> outcome cd w0 C Progress w"
  by (simp add: outcome_def)

lemma outcome_moved: "moved cd owned sane w0 w \<Longrightarrow> outcome cd w0 C Progress w"
  by (simp add: outcome_def moved_step_safe)

lemma wake_idle_triple:
  "triple (watch (e_codec E) owned sane w0 C {}) (and_then wake (\<lambda>_. ok Idle))
    (outcome (e_codec E) w0 C) (step_safe (e_codec E) owned sane w0)"
  by (intro triple_and_then [OF wake_triple [OF stable_watch]] triple_ok) (erule outcome_watch)

text \<open>The assignment of a host: a conflict or a missing claim wakes the controller, other errors are returned.\<close>

lemma assign_triple:
  assumes cd: "codec_ok (e_codec E)"
  shows "triple (watch (e_codec E) owned sane w0 C {})
      (\<lambda>w. case storage_call E (\<lambda>io. ensure_host (e_codec E) io i plan resources) w of
         (Inr host, w') \<Rightarrow> (Inr Progress, w')
       | (Inl (Conflict ty i m), w') \<Rightarrow> and_then wake (\<lambda>_. ok Idle) w'
       | (Inl (NotFound ty i), w') \<Rightarrow> and_then wake (\<lambda>_. ok Idle) w'
       | (Inl error, w') \<Rightarrow> (Inl error, w'))
    (outcome (e_codec E) w0 C) (step_safe (e_codec E) owned sane w0)"
    (is "triple ?A ?m ?Q ?R")
  unfolding triple_def
proof (intro allI impI)
  fix w assume w: "?A w"
  let ?call = "storage_call E (\<lambda>io. ensure_host (e_codec E) io i plan resources)"
  have call: "triple ?A ?call (\<lambda>_. ?A) ?A"
    by (rule safe_storage_call [OF cd stable_watch safe_calls(4) [OF cd]])
  obtain r w' where run: "?call w = (r, w')" by (rule prod.exhaust)
  then have w': "?A w'" using triple_run [OF call run w] by (auto split: sum.splits)
  have woken: "case and_then wake (\<lambda>_. ok Idle) w' of (Inl e, s') \<Rightarrow> ?R s' | (Inr x, s') \<Rightarrow> ?Q x s'"
    by (rule wake_idle_triple [unfolded triple_def, rule_format, OF w'])
  show "case ?m w of (Inl e, s') \<Rightarrow> ?R s' | (Inr x, s') \<Rightarrow> ?Q x s'"
  proof (cases r)
    case (Inl error)
    then show ?thesis
      unfolding run using woken watch_step_safe [OF w'] by (cases error) simp_all
  next
    case (Inr host)
    then show ?thesis
      unfolding run using outcome_watch [OF w'] by simp
  qed
qed

lemma reconcile_unbound_claim_triple:
  assumes cd: "codec_ok (e_codec E)"
  shows "triple (watch (e_codec E) owned sane w0 C {}) (reconcile_unbound_claim E P claim now_ms)
    (outcome (e_codec E) w0 C) (step_safe (e_codec E) owned sane w0)"
    (is "triple ?A _ ?Q ?R")
proof -
  note persist = persist_claim_status_triple [OF cd stable_watch watch_step_safe]
  show ?thesis
    unfolding reconcile_unbound_claim_def
    unfolding Let_def
  proof (rule triple_and_then [OF select_triple], rule triple_case_sum)
    fix selected :: "ProviderError + Plan option" and error assume "selected = Inl error"
    show "triple ?A (and_then (now_timestamp E) (\<lambda>now.
        and_then (persist_claim_status E (schedule_claim_provider_error now claim error now_ms)) (\<lambda>_. ok Progress))) ?Q ?R"
      by (rule triple_and_then [OF now_timestamp_triple [OF stable_watch]], rule triple_and_then [OF persist], assumption,
          rule triple_ok, erule outcome_watch)
  qed (rule triple_case_option, rule triple_and_then [OF now_timestamp_triple [OF stable_watch]],
      rule triple_case_prod, rule triple_if, rule triple_and_then [OF persist], assumption, rule triple_ok,
      erule outcome_watch, rule triple_ok, erule outcome_watch, rule assign_triple [OF cd])
qed

text \<open>The branches of \<open>reconcile_host\<close> that only save, and the one that creates.\<close>

lemma note_and_save_triple:
  assumes cd: "codec_ok (e_codec E)"
  shows "triple (watch (e_codec E) owned sane w0 C H)
    (and_then (now_timestamp E) (\<lambda>now. save_both E (f now) result))
    (outcome (e_codec E) w0 C) (step_safe (e_codec E) owned sane w0)"
  by (rule triple_and_then [OF now_timestamp_triple [OF stable_watch]],
      rule save_both_triple [OF cd stable_watch], erule watch_step_safe, erule outcome_watch)

lemma save_moved_triple:
  assumes cd: "codec_ok (e_codec E)"
  shows "triple (moved (e_codec E) owned sane w0) (and_then (now_timestamp E) (\<lambda>now. save_both E (f now) Progress))
    (outcome (e_codec E) w0 C) (step_safe (e_codec E) owned sane w0)"
  by (rule triple_and_then [OF now_timestamp_triple [OF stable_moved]],
      rule save_both_triple [OF cd stable_moved], erule moved_step_safe, erule outcome_moved)

lemma reconcile_host_triple:
  assumes cd: "codec_ok (e_codec E)"
  shows "triple (watch (e_codec E) owned sane w0 C {host}) (reconcile_host E P claim host now_ms)
    (outcome (e_codec E) w0 C) (step_safe (e_codec E) owned sane w0)"
    (is "triple ?A _ ?Q ?R")
proof -
  let ?host1 = "(set_host_phase Provisioning host)\<lparr>hr_retry := default_retry\<rparr>"
  have same: "host_id_of ?host1 = host_id_of host" "hr_provider_plan_id ?host1 = hr_provider_plan_id host"
    by (simp_all add: set_host_phase_def update_host_status_def)
  have create: "triple ?A
      (and_then (save_host_call E ?host1) (\<lambda>_.
       and_then (provider_call (create_resource P (host_id_of ?host1) (hr_provider_plan_id ?host1))) (\<lambda>created.
       and_then (now_timestamp E) (\<lambda>now. save_both E (f created now) Progress)))) ?Q ?R" for f
    unfolding same
    by (rule triple_and_then [OF save_host_call_triple [OF cd stable_watch watch_step_safe]], assumption,
        rule triple_and_then [OF create_triple], simp, rule save_moved_triple [OF cd])
  have branches: "triple ?A
     (case observed of
       Inr (Present resource) \<Rightarrow> (case ownership_conflict host resource of
           Some expected \<Rightarrow>
             and_then (now_timestamp E) (\<lambda>now.
             save_both E (mark_host_failed now claim host ''ProviderOwnershipConflict''
               (ownership_conflict_message expected (pr_id resource))) Progress)
         | None \<Rightarrow>
             and_then (now_timestamp E) (\<lambda>now.
             save_both E (apply_provider_observation (e_codec E) now claim host resource)
               (if provider_observation_is_stable host resource then Idle else Progress)))
     | Inr Absent \<Rightarrow>
         if host_provider_resource host \<noteq> None \<or> host_phase host \<noteq> Pending
         then and_then (now_timestamp E) (\<lambda>now. save_both E (mark_provider_absent now claim host) Progress)
         else and_then (save_host_call E ?host1) (\<lambda>_.
            and_then (provider_call (create_resource P (host_id_of ?host1) (hr_provider_plan_id ?host1))) (\<lambda>created.
            and_then (now_timestamp E) (\<lambda>now. save_both E (f created now) Progress)))
     | Inl error \<Rightarrow>
         and_then (now_timestamp E) (\<lambda>now.
         save_both E (schedule_host_provider_error now claim host error now_ms) Progress)) ?Q ?R" for f observed
    by (rule triple_case_sum, rule note_and_save_triple [OF cd], rule triple_case_observation,
        rule triple_if, rule note_and_save_triple [OF cd], rule create,
        (rule triple_case_option, (rule note_and_save_triple [OF cd])+))
  show ?thesis
    unfolding reconcile_host_def Let_def
    by (rule triple_and_then [OF observe_triple], rule triple_weaken [OF branches]) auto
qed

lemma finalize_progress_triple:
  assumes cd: "codec_ok (e_codec E)" and claim: "claim \<in> C" "claim_deletion claim \<noteq> None"
    and A: "\<And>w. A w \<Longrightarrow> watch (e_codec E) owned sane w0 C H w"
      "\<And>w h. A w \<Longrightarrow> claim_host claim = Some h \<Longrightarrow> owned (w_provider w) h = None"
  shows "triple A (and_then (storage_call E (\<lambda>io. finalize_claim (e_codec E) io (claim_id_of claim))) (\<lambda>_. ok Progress))
    (outcome (e_codec E) w0 C') (step_safe (e_codec E) owned sane w0)"
  by (rule triple_and_then [OF finalize_triple [OF cd claim A]], assumption, assumption, assumption,
      rule triple_ok, erule outcome_progress)

lemma save_progress_triple:
  assumes cd: "codec_ok (e_codec E)"
  shows "triple (watch (e_codec E) owned sane w0 C H) (and_then (save_host_call E host) (\<lambda>_. ok Progress))
    (outcome (e_codec E) w0 C) (step_safe (e_codec E) owned sane w0)"
  by (rule triple_and_then [OF save_host_call_triple [OF cd stable_watch watch_step_safe]], assumption,
      rule triple_ok, erule outcome_watch)

text \<open>A resource that is present is deleted, unless it is not the one recorded.\<close>

lemma release_present_triple:
  assumes cd: "codec_ok (e_codec E)" and claim: "claim \<in> C" "claim_deletion claim \<noteq> None" "claim_host claim = Some h"
    and host: "host_id_of host = h"
  shows "triple (watch (e_codec E) owned sane w0 C {host})
      (case ownership_conflict host resource of
         Some expected \<Rightarrow>
           and_then (now_timestamp E) (\<lambda>now.
           let (claim', host') = mark_host_failed now claim host ''ProviderOwnershipConflict''
                 (ownership_conflict_message expected (pr_id resource)) in
           save_both E (claim', host'\<lparr>hr_retry := (hr_retry host')\<lparr>next_reconcile_at_unix_ms := Some i64_max\<rparr>\<rparr>) Progress)
       | None \<Rightarrow>
           and_then (now_timestamp E) (\<lambda>now.
           let host1 = (update_host_status (\<lambda>s. s\<lparr>hs_phase := Deleting,
                 hs_provider_resource_id := Some (pr_id resource), hs_observed_at := Some now\<rparr>) host)
                 \<lparr>hr_retry := default_retry\<rparr> in
           and_then (save_host_call E host1) (\<lambda>_.
           and_then (provider_call (delete_resource P (host_id_of host1))) (\<lambda>deleted.
           and_then (save_host_call E (after_delete host1 deleted now_ms)) (\<lambda>_.
           ok Progress)))))
    (outcome (e_codec E) w0 C) (step_safe (e_codec E) owned sane w0)"
proof -
  have delete: "triple (watch (e_codec E) owned sane w0 C {host})
      (and_then (save_host_call E host1) (\<lambda>_.
       and_then (provider_call (delete_resource P (host_id_of host1))) (\<lambda>deleted.
       and_then (save_host_call E (f deleted)) (\<lambda>_. ok Progress))))
      (outcome (e_codec E) w0 C) (step_safe (e_codec E) owned sane w0)"
    if "host_id_of host1 = h" for host1 f
    unfolding that
    by (rule triple_and_then [OF save_host_call_triple [OF cd stable_watch watch_step_safe]], assumption,
        rule triple_and_then [OF delete_triple [OF cd claim]],
        rule triple_and_then [OF save_host_call_triple [OF cd stable_moved moved_step_safe]], assumption,
        rule triple_ok, erule outcome_moved)
  show ?thesis
    unfolding Let_def case_prod_beta
    by (rule triple_case_option, rule triple_and_then [OF now_timestamp_triple [OF stable_watch]],
        rule delete, simp add: host update_host_status_def, rule note_and_save_triple [OF cd])
qed

text \<open>A host that is due is observed; only an answer that nothing is there finalizes the claim.\<close>

lemma observe_deleting_triple:
  assumes cd: "codec_ok (e_codec E)" and claim: "claim \<in> C" "claim_deletion claim \<noteq> None" "claim_host claim = Some h"
    and host: "host_id_of host = h"
    and present: "\<And>resource. triple (watch (e_codec E) owned sane w0 C {host}) (f resource)
      (outcome (e_codec E) w0 C) (step_safe (e_codec E) owned sane w0)"
  shows "triple (watch (e_codec E) owned sane w0 C {host})
      (and_then (provider_call (observe P (host_id_of host))) (\<lambda>observed.
       case observed of
         Inr Absent \<Rightarrow> and_then (storage_call E (\<lambda>io. finalize_claim (e_codec E) io (claim_id_of claim))) (\<lambda>_. ok Progress)
       | Inr (Present resource) \<Rightarrow> f resource
       | Inl error \<Rightarrow> and_then (save_host_call E (schedule_host_retry_only host error now_ms)) (\<lambda>_. ok Progress)))
    (outcome (e_codec E) w0 C) (step_safe (e_codec E) owned sane w0)"
  unfolding host
proof (rule triple_and_then [OF observe_triple], goal_cases)
  case (1 observed)
  show ?case
  proof (cases "observed = Inr Absent")
    case True
    then show ?thesis
      by simp (rule finalize_progress_triple [OF cd claim(1,2), where H = "{host}"], use claim(3) in auto)
  next
    case False
    then show ?thesis
      by (intro triple_weaken [OF triple_case_sum [OF save_progress_triple [OF cd] triple_case_observation [OF _ present]],
            where P' = "\<lambda>w. watch (e_codec E) owned sane w0 C {host} w \<and> _ w"]) auto
  qed
qed

lemma reconcile_deleting_claim_triple:
  assumes cd: "codec_ok (e_codec E)" and claim: "claim \<in> C" "claim_deletion claim \<noteq> None"
  shows "triple (watch (e_codec E) owned sane w0 C {}) (reconcile_deleting_claim E P claim now_ms)
    (outcome (e_codec E) w0 C) (step_safe (e_codec E) owned sane w0)"
    (is "triple _ _ ?Q ?R")
proof (cases "claim_host claim")
  case None
  then show ?thesis
    unfolding reconcile_deleting_claim_def
    by simp (rule finalize_progress_triple [OF cd claim], assumption, simp)
next
  case (Some h)
  show ?thesis
    unfolding reconcile_deleting_claim_def Some option.case
  proof (rule triple_and_then [OF get_host_triple [OF cd]], rule triple_pure, rule triple_if)
    show "triple (watch (e_codec E) owned sane w0 C (insert host {})) (ok Idle) ?Q ?R" for host
      by (rule triple_ok) (erule outcome_watch)
  qed (rule observe_deleting_triple [OF cd claim Some], assumption, rule release_present_triple [OF cd claim Some], assumption)
qed

section \<open>One step\<close>

text \<open>The loops go on after \<open>Idle\<close>, with what is watched intact, and return after \<open>Progress\<close>.\<close>

lemma continue_triple:
  assumes "triple (watch cd owned sane w0 C {}) m (outcome cd w0 C) (step_safe cd owned sane w0)"
    and "triple (watch cd owned sane w0 C {}) rest (outcome cd w0 C) (step_safe cd owned sane w0)"
  shows "triple (watch cd owned sane w0 C {})
    (and_then m (\<lambda>result. if result = Progress then ok result else rest))
    (outcome cd w0 C) (step_safe cd owned sane w0)"
proof (rule triple_and_then [OF assms(1)], rule triple_if)
  fix result :: ReconcileResult
  show "triple (outcome cd w0 C result) (ok result) (outcome cd w0 C) (step_safe cd owned sane w0)"
    by (rule triple_ok)
  show "triple (outcome cd w0 C result) rest (outcome cd w0 C) (step_safe cd owned sane w0)"
    if "result \<noteq> Progress"
    by (rule triple_weaken [OF assms(2)]) (use that in \<open>cases result; auto simp: outcome_def\<close>)+
qed

lemma reconcile_deletions_triple:
  assumes cd: "codec_ok (e_codec E)"
  shows "set claims \<subseteq> C \<Longrightarrow> triple (watch (e_codec E) owned sane w0 C {})
    (reconcile_deletions E P now_ms claims)
    (outcome (e_codec E) w0 C) (step_safe (e_codec E) owned sane w0)"
proof (induction claims)
  case Nil
  show ?case unfolding reconcile_deletions.simps by (rule triple_ok) (erule outcome_watch)
next
  case (Cons claim claims)
  then show ?case
    unfolding reconcile_deletions.simps
    by (intro triple_if continue_triple reconcile_deleting_claim_triple [OF cd]) auto
qed

lemma reconcile_active_claim_triple:
  assumes cd: "codec_ok (e_codec E)"
  shows "triple (watch (e_codec E) owned sane w0 C {}) (reconcile_active_claim E P now_ms claim)
    (outcome (e_codec E) w0 C) (step_safe (e_codec E) owned sane w0)"
  unfolding reconcile_active_claim_def
  by (rule triple_case_option, rule triple_if, rule triple_ok, erule outcome_watch,
      rule reconcile_unbound_claim_triple [OF cd],
      rule triple_and_then [OF get_host_triple [OF cd]], rule triple_pure, rule triple_if,
      rule triple_ok, erule outcome_watch, rule reconcile_host_triple [OF cd])

lemma reconcile_active_triple:
  assumes cd: "codec_ok (e_codec E)"
  shows "triple (watch (e_codec E) owned sane w0 C {}) (reconcile_active E P now_ms claims)
    (outcome (e_codec E) w0 C) (step_safe (e_codec E) owned sane w0)"
proof (induction claims)
  case Nil
  show ?case unfolding reconcile_active.simps by (rule triple_ok) (erule outcome_watch)
next
  case (Cons claim claims)
  then show ?case
    unfolding reconcile_active.simps
    by (intro triple_if continue_triple reconcile_active_claim_triple [OF cd]) auto
qed

lemma reconcile_once_triple:
  assumes cd: "codec_ok (e_codec E)"
  shows "triple (watch (e_codec E) owned sane w0 {} {}) (reconcile_once E P)
    (\<lambda>_. step_safe (e_codec E) owned sane w0) (step_safe (e_codec E) owned sane w0)"
  unfolding reconcile_once_def
proof (rule triple_and_then [OF read_now_unix_ms_triple [OF stable_watch]],
    rule triple_and_then [OF list_claims_triple [OF cd]])
  fix now_ms and claims
  show "triple (watch (e_codec E) owned sane w0 (set claims) {})
      (and_then (reconcile_deletions E P now_ms claims) (\<lambda>result.
       if result = Progress then ok result else reconcile_active E P now_ms claims))
      (\<lambda>_. step_safe (e_codec E) owned sane w0) (step_safe (e_codec E) owned sane w0)"
    by (rule triple_weaken [OF continue_triple [OF reconcile_deletions_triple [OF cd order_refl]
          reconcile_active_triple [OF cd]]]) (auto simp: outcome_def)
qed

theorem reconcile_once_safe:
  assumes "codec_ok (e_codec E)" and "world_ok (e_codec E) owned sane w"
  shows "step_safe (e_codec E) owned sane w (snd (reconcile_once E P w))"
  by (rule triple_const [OF reconcile_once_triple [OF assms(1)]])
    (use assms(2) in \<open>simp add: watch_def calm_def\<close>)

lemma serve_message_ok:
  assumes "codec_ok (e_codec E)" and "world_ok (e_codec E) owned sane w"
  shows "step_safe (e_codec E) owned sane w (snd (serve_message E io message w))"
proof -
  have "calm (e_codec E) owned sane w w" using assms(2) by (simp add: calm_def)
  then have "calm (e_codec E) owned sane w (snd (serve_message E io message w))"
    by (rule stableD(2) [OF stable_calm])
      (rule serve_message_keeps [OF assms(1) world_okD(1) [OF assms(2)]])
  then show ?thesis by (intro moved_step_safe calm_moved)
qed

lemma reconcile_steps_ok:
  assumes cd: "codec_ok (e_codec E)"
  shows "world_ok (e_codec E) owned sane w \<Longrightarrow> world_ok (e_codec E) owned sane (snd (reconcile_steps E P fuel w))"
proof (induction fuel arbitrary: w)
  case (Suc fuel)
  obtain r w' where run: "reconcile_once E P w = (r, w')" by (rule prod.exhaust)
  have "world_ok (e_codec E) owned sane w'"
    using reconcile_once_safe [OF cd Suc.prems] run by (simp add: step_safe_def)
  with Suc.IH run show ?case by (auto split: sum.split ReconcileResult.split)
qed simp

lemma reconcile_wake_ok:
  assumes "codec_ok (e_codec E)" and "world_ok (e_codec E) owned sane w"
  shows "world_ok (e_codec E) owned sane (reconcile_wake E P w)"
  using reconcile_steps_ok [OF assms, of MAX_STEPS_PER_WAKE]
  by (auto simp: reconcile_wake_def world_ok_def split: prod.split)

end

end
