(* ===== verification/Daemon_Safety.thy ===== *)
theory Daemon_Safety
  imports Daemon Controller_Contract
begin

text \<open>
  The invariant \<open>world_ok\<close> of every reachable world, by induction over the daemon's steps, for any
  provider that keeps the contract; and what it means for one claim.
\<close>

context host_provider_contract
begin

lemma world_ok_notified: "world_ok cd owned sane (w\<lparr>w_notified := b\<rparr>) = world_ok cd owned sane w"
  by (simp add: world_ok_def)

lemma daemon_step_ok:
  assumes cd: "codec_ok cd" and step: "daemon_step cd P d d'" and ok: "world_ok cd owned sane (snd d)"
  shows "world_ok cd owned sane (snd d')"
  using step ok
proof cases
  case (Message E task w io message)
  with serve_message_ok [of E w io message] cd ok show ?thesis by (simp add: step_safe_def)
next
  case (Notified E w)
  with reconcile_wake_ok [of E "w\<lparr>w_notified := False\<rparr>"] cd ok show ?thesis
    by (simp add: world_ok_notified)
next
  case (Scan E w)
  with reconcile_wake_ok [of E w] cd ok show ?thesis by simp
qed (simp_all add: world_ok_notified)

lemma reachable_ok:
  assumes cd: "codec_ok cd" and start: "sane p" "\<And>h. owned p h = None" and reach: "reachable cd P p w"
  shows "world_ok cd owned sane w"
proof -
  obtain task where "(daemon_step cd P)\<^sup>*\<^sup>* (first_start p) (task, w)"
    using reach by (auto simp: reachable_def)
  then have "world_ok cd owned sane (snd (task, w))"
  proof (induction "(task, w)" arbitrary: task w rule: rtranclp_induct)
    case base
    with start database_ok_empty show ?case by (auto simp: first_start_def world_ok_def)
  next
    case (step d)
    then show ?case using daemon_step_ok [OF cd step(2)] by (cases d) simp
  qed
  then show ?thesis by simp
qed

text \<open>Two resources are never held for one claim.\<close>

lemma one_resource:
  assumes cd: "codec_ok cd" and ok: "world_ok cd owned sane w"
    and "owned (w_provider w) h = Some (res, plan)" and "owned (w_provider w) h' = Some (res', plan')"
    and "host_view cd (w_db w) h = Some hr" and "host_view cd (w_db w) h' = Some hr'"
    and "host_claim_of hr = host_claim_of hr'"
  shows "h = h'"
proof -
  note db = world_okD(1) [OF ok]
  have "encode_host cd hr \<in> set (hosts (w_db w))" "encode_host cd hr' \<in> set (hosts (w_db w))"
      "host_id_of hr = h" "host_id_of hr' = h'"
    using assms(5,6) by (auto simp: host_view_Some [OF cd db])
  moreover have "distinct (map ho_claim_id (hosts (w_db w)))"
    using database_okD [OF db] by (simp add: keys_ok_def)
  moreover have "ho_claim_id (encode_host cd hr) = ho_claim_id (encode_host cd hr')"
    using assms(7) by simp
  ultimately have "encode_host cd hr = encode_host cd hr'"
    by (auto simp only: distinct_map dest: inj_onD)
  then have "host_id_text cd h = host_id_text cd h'"
    using \<open>host_id_of hr = h\<close> \<open>host_id_of hr' = h'\<close> encode_host_sel by metis
  then show ?thesis by (simp add: host_id_text_inj [OF cd])
qed

text \<open>A claim disappears in a step only when the provider holds nothing for its host.\<close>

lemma finalized_absent:
  assumes cd: "codec_ok (e_codec E)" and ok: "world_ok (e_codec E) owned sane w"
    and claim: "claim_view (e_codec E) (w_db w) i = Some r" "claim_host r = Some h"
    and run: "reconcile_once E P w = (result, w')" and gone: "claim_view (e_codec E) (w_db w') i = None"
  shows "owned (w_provider w') h = None"
proof (rule ccontr)
  assume "owned (w_provider w') h \<noteq> None"
  then obtain res plan where held: "owned (w_provider w') h = Some (res, plan)" by auto
  have safe: "step_safe (e_codec E) owned sane w w'"
    using reconcile_once_safe [OF cd ok] run by simp
  then have ok': "world_ok (e_codec E) owned sane w'" by (simp add: step_safe_def)
  obtain hr' where hr': "host_view (e_codec E) (w_db w') h = Some hr'"
    using world_okD(3) [OF ok' held] by blast
  obtain hr where hr: "host_view (e_codec E) (w_db w) h = Some hr" "host_claim_of hr = i"
    using claim_host_iff [OF cd world_okD(1) [OF ok] claim(1), of h] claim(2) by blast
  have "same_host hr hr'"
    using safe hr(1) hr' by (fastforce simp: step_safe_def records_safe_def)
  then have "host_claim_of hr' = i" using hr(2) by (simp add: same_host_def)
  moreover have "claim_view (e_codec E) (w_db w') (host_claim_of hr') \<noteq> None"
    by (rule host_claim_view [OF cd world_okD(1) [OF ok'] hr']) simp
  ultimately show False using gone by simp
qed

end

end
