(* ===== verification/Controller_Facts.thy ===== *)
theory Controller_Facts
  imports Controller_Contract
begin

text \<open>
  What single branches of the controller do, whatever the environment: which effects leave the
  provider alone, which leave every stored claim and host in place, and how the transitions set
  the retry schedule.
\<close>

section \<open>Effects that leave the provider alone\<close>

definition keeps_provider :: "('p, 'e, 'a) effect \<Rightarrow> bool" where
  "keeps_provider m \<longleftrightarrow> (\<forall>w. w_provider (snd (m w)) = w_provider w)"

named_theorems keeps_provider_intro \<open>effects that leave the provider alone\<close>

lemma keeps_providerD: "keeps_provider m \<Longrightarrow> m w = (r, w') \<Longrightarrow> w_provider w' = w_provider w"
  unfolding keeps_provider_def by (metis snd_conv)

lemma keeps_provider_snd: "keeps_provider m \<Longrightarrow> w_provider (snd (m w)) = w_provider w"
  by (simp add: keeps_provider_def)

lemma keeps_provider_and_then [keeps_provider_intro]:
  assumes "keeps_provider m" and "\<And>x. keeps_provider (f x)"
  shows "keeps_provider (and_then m f)"
  unfolding keeps_provider_def
proof
  fix w
  obtain r w' where run: "m w = (r, w')" by (rule prod.exhaust)
  with assms show "w_provider (snd (and_then m f w)) = w_provider w"
    by (cases r) (simp_all add: keeps_provider_def keeps_providerD [OF assms(1) run])
qed

lemma keeps_provider_basic [keeps_provider_intro]:
  "keeps_provider (ok x)" "keeps_provider (fail_with e)" "keeps_provider (lift_result r)"
  "keeps_provider wake" "keeps_provider (on_db m)" "keeps_provider (now_timestamp E)"
  by (auto simp: keeps_provider_def wake_def on_db_def now_timestamp_def split: prod.split)

lemma keeps_provider_if [keeps_provider_intro]:
  "keeps_provider m \<Longrightarrow> keeps_provider n \<Longrightarrow> keeps_provider (if b then m else n)"
  by simp

lemma keeps_provider_map_err [keeps_provider_intro]:
  "keeps_provider m \<Longrightarrow> keeps_provider (map_oper_err f m)"
  by (auto simp: keeps_provider_def map_oper_err_def split: prod.split) (metis snd_conv)

lemma handler_keeps_provider:
  assumes "rpc_module name = Some handler"
  shows "keeps_provider (handler E io params)"
proof -
  consider "handler = system_info" | "handler = host_claim_create" | "handler = host_claim_get"
    | "handler = host_claim_list" | "handler = host_claim_delete" | "handler = host_get" | "handler = host_list"
    using assms by (auto simp: rpc_module_def split: if_splits)
  then show ?thesis
    by cases
      (simp_all add: system_info_def host_claim_create_def host_claim_get_def host_claim_list_def
        host_claim_delete_def host_get_def host_list_def parse_params_def keeps_provider_intro)
qed

lemma serve_message_provider: "w_provider (snd (serve_message E io message w)) = w_provider w"
  by (auto simp: serve_message_def keeps_providerD [OF handler_keeps_provider]
      split: rpc_message.split option.split prod.split)

lemma serve_all_provider: "w_provider (serve_all E requests w) = w_provider w"
  by (induction requests arbitrary: w) (auto simp: serve_all_def serve_message_provider)

lemma keeps_provider_storage [keeps_provider_intro]: "keeps_provider (storage_call E m)"
  by (auto simp: keeps_provider_def storage_call_def Let_def on_db_def serve_all_provider split: prod.split)

lemma keeps_provider_saves [keeps_provider_intro]:
  "keeps_provider (persist_claim_status E claim)" "keeps_provider (save_host_call E host)"
  "keeps_provider (save_both E both result)"
  by (simp_all add: persist_claim_status_def save_host_call_def save_both_def keeps_provider_intro)

section \<open>Effects that leave claims and hosts in place\<close>

text \<open>The database of \<open>w0\<close>, with every claim and host still stored.\<close>

definition kept_since :: "codec \<Rightarrow> 'p world \<Rightarrow> 'p world \<Rightarrow> bool" where
  "kept_since cd w0 w \<longleftrightarrow>
     database_ok cd (w_db w) \<and> keeps (store_of cd (w_db w0)) (store_of cd (w_db w))"

lemma stable_kept_since: "stable cd (kept_since cd w0)"
  unfolding stable_def kept_since_def by (auto simp: world_keeps_def intro: keeps_trans)

lemma kept_since_provider: "triple (kept_since cd w0) (provider_call m) (\<lambda>_. kept_since cd w0) R"
  by (auto simp: triple_def provider_call_def kept_since_def split: prod.split)

text \<open>What a present resource leads to, short of a finalized claim: the saves around a delete.\<close>

lemmas kept_since_saves =
  save_host_call_triple [OF _ stable_kept_since]
  save_both_triple [OF _ stable_kept_since]

section \<open>A resource another host's record names\<close>

lemma and_then_provider:
  assumes "m w = (r, w')" and "\<And>x. r = Inr x \<Longrightarrow> keeps_provider (f x)"
  shows "w_provider (snd (and_then m f w)) = w_provider w'"
  using assms by (cases r) (simp_all add: keeps_provider_def)

lemma reconcile_host_conflict_provider:
  assumes "observe P (host_id_of host) (w_provider w) = (Inr (Present resource), p)"
    and "ownership_conflict host resource = Some expected"
  shows "w_provider (snd (reconcile_host E P claim host now_ms w)) = p"
proof -
  have "provider_call (observe P (host_id_of host)) w = (Inr (Inr (Present resource)), w\<lparr>w_provider := p\<rparr>)"
    using assms(1) by (simp add: provider_call_def)
  then have "w_provider (snd (reconcile_host E P claim host now_ms w)) = w_provider (w\<lparr>w_provider := p\<rparr>)"
    unfolding reconcile_host_def
    by (rule and_then_provider) (auto simp: assms(2) intro!: keeps_provider_intro)
  then show ?thesis by simp
qed

lemma reconcile_deleting_claim_conflict_provider:
  assumes claim: "claim_host claim = Some h"
    and host: "storage_call E (\<lambda>io. get_host (e_codec E) io h) w = (Inr host, w1)"
    and observed: "observe P (host_id_of host) (w_provider w) = (Inr (Present resource), p)"
    and conflict: "ownership_conflict host resource = Some expected"
    and due: "is_due (hr_retry host) now_ms"
  shows "w_provider (snd (reconcile_deleting_claim E P claim now_ms w)) = p"
proof -
  have w1: "w_provider w1 = w_provider w"
    by (rule keeps_providerD [OF keeps_provider_storage host])
  have "provider_call (observe P (host_id_of host)) w1 = (Inr (Inr (Present resource)), w1\<lparr>w_provider := p\<rparr>)"
    using observed w1 by (simp add: provider_call_def)
  then show ?thesis
    by (simp add: reconcile_deleting_claim_def claim due conflict and_then_def [of "storage_call E _"] host
        case_prod_beta)
      (subst keeps_provider_snd, auto intro!: keeps_provider_intro)
qed

section \<open>A delete is not the proof of absence\<close>

text \<open>The provider is still in the state the step found it in.\<close>

definition kept_before :: "codec \<Rightarrow> 'p world \<Rightarrow> 'p world \<Rightarrow> bool" where
  "kept_before cd w0 w \<longleftrightarrow> kept_since cd w0 w \<and> w_provider w = w_provider w0"

lemma stable_kept_before: "stable cd (kept_before cd w0)"
  unfolding kept_before_def by (rule stable_conj [OF stable_kept_since]) (simp add: world_keeps_def)

lemma get_host_before:
  assumes cd: "codec_ok (e_codec E)"
  shows "triple (kept_before (e_codec E) w0) (storage_call E (\<lambda>io. get_host (e_codec E) io h))
    (\<lambda>host w. host_id_of host = h \<and> kept_before (e_codec E) w0 w) (kept_since (e_codec E) w0)"
proof (rule storage_call_triple [OF cd stable_kept_before])
  fix io and w :: "'a world" and host db
  assume w: "kept_before (e_codec E) w0 w" and run: "get_host (e_codec E) io h (w_db w) = (Inr host, db)"
  note ok = stableD(1) [OF stable_kept_before w]
  show "host_id_of host = h \<and> kept_before (e_codec E) w0 (w\<lparr>w_db := db\<rparr>)"
    using get_host_success [OF cd ok run] w by (simp add: host_view_Some [OF cd ok])
next
  fix io and w :: "'a world" and e db
  assume w: "kept_before (e_codec E) w0 w" and run: "get_host (e_codec E) io h (w_db w) = (Inl e, db)"
  then show "kept_since (e_codec E) w0 (w\<lparr>w_db := db\<rparr>)"
    using reads_keep_database(3) [of "e_codec E" io h "w_db w"] by (simp add: kept_before_def)
qed

lemma observe_before:
  "triple (kept_before cd w0) (provider_call (observe P h))
    (\<lambda>observed w. observed = fst (observe P h (w_provider w0)) \<and> kept_since cd w0 w) R"
  by (auto simp: triple_def provider_call_def kept_before_def kept_since_def split: prod.split)

lemma reconcile_deleting_claim_keeps:
  assumes cd: "codec_ok (e_codec E)" and ok: "database_ok (e_codec E) (w_db w)"
    and claim: "claim_host claim = Some h" and observed: "fst (observe P h (w_provider w)) \<noteq> Inr Absent"
  shows "kept_since (e_codec E) w (snd (reconcile_deleting_claim E P claim now_ms w))"
proof -
  let ?K = "kept_since (e_codec E) w"
  note save = kept_since_saves(1) [OF cd] and both = kept_since_saves(2) [OF cd]
  have progress: "triple ?K (and_then (save_host_call E host) (\<lambda>_. ok Progress)) (\<lambda>_. ?K) ?K" for host
    by (rule triple_and_then [OF save], assumption, rule triple_ok, assumption)
  have "triple (kept_before (e_codec E) w) (reconcile_deleting_claim E P claim now_ms) (\<lambda>_. ?K) ?K"
    unfolding reconcile_deleting_claim_def claim option.case Let_def case_prod_beta
  proof (rule triple_and_then [OF get_host_before [OF cd]], rule triple_pure, rule triple_if,
      rule triple_ok, simp add: kept_before_def, simp only:,
      rule triple_and_then [OF observe_before], rule triple_pure, rule triple_case_sum, rule progress,
      rule triple_case_observation)
    show "triple ?K f (\<lambda>_. ?K) ?K" if "x = fst (observe P h (w_provider w))" "x = Inr y" "y = Absent" for x y f
      using that observed by simp
  qed (rule triple_case_option,
      rule triple_and_then [OF now_timestamp_triple [OF stable_kept_since]],
      rule triple_and_then [OF save], assumption, rule triple_and_then [OF kept_since_provider],
      rule progress,
      rule triple_and_then [OF now_timestamp_triple [OF stable_kept_since]],
      rule both, assumption, assumption)
  then show ?thesis
    by (rule triple_const) (simp add: ok kept_before_def kept_since_def)
qed

end
