(* ===== verification/Transition_Facts.thy ===== *)
theory Transition_Facts
  imports Transitions Storage_Frames
begin

text \<open>
  What the controller's transitions do to a claim's and a host's copy: what they never touch, the
  conditions they leave, and the retry schedule they set.
\<close>

section \<open>Writing through nested fields\<close>

lemma update_host_status_sel [simp]:
  "h_status (hr_resource (update_host_status f r)) = f (h_status (hr_resource r))"
  "host_id_of (update_host_status f r) = host_id_of r"
  "host_claim_of (update_host_status f r) = host_claim_of r"
  "h_created_at (hr_resource (update_host_status f r)) = h_created_at (hr_resource r)"
  "h_allocatable_resources (hr_resource (update_host_status f r)) = h_allocatable_resources (hr_resource r)"
  "hr_provider_plan_id (update_host_status f r) = hr_provider_plan_id r"
  "hr_retry (update_host_status f r) = hr_retry r"
  by (simp_all add: update_host_status_def)

lemma update_claim_frame [simp]:
  "hc_status (cr_resource (update_claim_status f r)) = f (hc_status (cr_resource r))"
  "claim_id_of (update_claim_status f r) = claim_id_of r"
  "hc_spec (cr_resource (update_claim_status f r)) = hc_spec (cr_resource r)"
  "hc_generation (cr_resource (update_claim_status f r)) = hc_generation (cr_resource r)"
  "hc_created_at (cr_resource (update_claim_status f r)) = hc_created_at (cr_resource r)"
  "claim_deletion (update_claim_status f r) = claim_deletion r"
  "cr_retry (update_claim_status f r) = cr_retry r"
  by (simp_all add: update_claim_status_def)

lemmas transition_defs = apply_provider_observation_def mark_provider_absent_def mark_outcome_unknown_def
  mark_host_failed_def schedule_claim_provider_error_def schedule_host_provider_error_def
  schedule_host_retry_only_def

lemmas edit_defs = set_host_condition_def set_host_phase_def set_claim_condition_def observe_generation_def
  claim_generation_def Let_def case_prod_beta

lemma same_hostI:
  "host_id_of r' = host_id_of r \<Longrightarrow> host_claim_of r' = host_claim_of r \<Longrightarrow>
   h_created_at (hr_resource r') = h_created_at (hr_resource r) \<Longrightarrow>
   h_allocatable_resources (hr_resource r') = h_allocatable_resources (hr_resource r) \<Longrightarrow>
   hr_provider_plan_id r' = hr_provider_plan_id r \<Longrightarrow> same_host r r'"
  by (simp add: same_host_def)

lemma same_claimI:
  "claim_id_of r' = claim_id_of r \<Longrightarrow> hc_spec (cr_resource r') = hc_spec (cr_resource r) \<Longrightarrow>
   hc_generation (cr_resource r') = hc_generation (cr_resource r) \<Longrightarrow>
   hc_created_at (cr_resource r') = hc_created_at (cr_resource r) \<Longrightarrow>
   claim_deletion r' = claim_deletion r \<Longrightarrow> claim_host r' = claim_host r \<Longrightarrow> same_claim r r'"
  by (simp add: same_claim_def)

section \<open>What no transition touches\<close>

lemma transitions_same_host:
  "same_host host (snd (apply_provider_observation cd now claim host res))"
  "same_host host (snd (mark_provider_absent now claim host))"
  "same_host host (snd (mark_outcome_unknown now claim host kind message now_ms))"
  "same_host host (snd (mark_host_failed now claim host kind message))"
  "same_host host (snd (schedule_host_provider_error now claim host error now_ms))"
  "same_host host (schedule_host_retry_only host error now_ms)"
  by (auto intro!: same_hostI simp: transition_defs edit_defs split: ProviderLifecycle.split ProviderError.split)

lemma transitions_same_claim:
  "same_claim claim (fst (apply_provider_observation cd now claim host res))"
  "same_claim claim (fst (mark_provider_absent now claim host))"
  "same_claim claim (fst (mark_outcome_unknown now claim host kind message now_ms))"
  "same_claim claim (fst (mark_host_failed now claim host kind message))"
  "same_claim claim (fst (schedule_host_provider_error now claim host error now_ms))"
  "same_claim claim (schedule_claim_provider_error now claim error now_ms)"
  by (auto intro!: same_claimI simp: transition_defs edit_defs split: ProviderLifecycle.split ProviderError.split)

section \<open>After an observation\<close>

lemma apply_provider_observation_host:
  assumes "host' = snd (apply_provider_observation cd now claim host res)"
  shows "host_phase host' = expected_phase (pr_lifecycle res)"
    and "host_provider_resource host' = Some (pr_id res)" and "hr_retry host' = default_retry"
    and "hs_observed_at (h_status (hr_resource host')) = Some now"
  using assms
  by (auto simp: apply_provider_observation_def edit_defs expected_phase_def split: ProviderLifecycle.split)

lemma apply_provider_observation_claim:
  assumes "claim' = fst (apply_provider_observation cd now claim host res)"
  shows "hcs_observed_generation (hc_status (cr_resource claim')) = hc_generation (cr_resource claim)"
    and "cr_retry claim' = default_retry" and "claim_deletion claim' = claim_deletion claim"
  using assms by (auto simp: apply_provider_observation_def edit_defs split: ProviderLifecycle.split)

lemma apply_provider_observation_conditions:
  assumes "claim' = fst (apply_provider_observation cd now claim host res)"
    and "conditions = hcs_conditions (hc_status (cr_resource claim'))"
  shows "map_option c_status (condition_at conditions ''Ready'')
      = Some (if pr_lifecycle res = LifecycleReady then StatusTrue else StatusFalse)"
    and "map_option c_status (condition_at conditions ''Accepted'') = Some StatusTrue"
    and "map_option c_status (condition_at conditions ''Bound'') = Some StatusTrue"
  unfolding assms
  by (cases "pr_lifecycle res"; simp add: apply_provider_observation_def edit_defs set_condition_at)+

lemma observation_then_stable:
  "provider_observation_is_stable (snd (apply_provider_observation cd now claim host res)) res"
  using apply_provider_observation_host [OF refl]
  by (simp add: provider_observation_is_stable_def default_retry_def)

section \<open>Conditions stay sorted and unique\<close>

abbreviation claim_conditions :: "HostClaimRecord \<Rightarrow> Condition list" where
  "claim_conditions r \<equiv> hcs_conditions (hc_status (cr_resource r))"

abbreviation host_conditions :: "HostRecord \<Rightarrow> Condition list" where
  "host_conditions r \<equiv> hs_conditions (h_status (hr_resource r))"

lemma transitions_claim_wf:
  assumes "conditions_wf (claim_conditions claim)"
  shows "conditions_wf (claim_conditions (fst (apply_provider_observation cd now claim host res)))"
    and "conditions_wf (claim_conditions (fst (mark_provider_absent now claim host)))"
    and "conditions_wf (claim_conditions (fst (mark_outcome_unknown now claim host kind message now_ms)))"
    and "conditions_wf (claim_conditions (fst (mark_host_failed now claim host kind message)))"
    and "conditions_wf (claim_conditions (fst (schedule_host_provider_error now claim host error now_ms)))"
    and "conditions_wf (claim_conditions (schedule_claim_provider_error now claim error now_ms))"
  using assms
  by (auto simp: transition_defs edit_defs split: ProviderLifecycle.split ProviderError.split
      intro!: set_condition_wf)

lemma transitions_host_wf:
  assumes "conditions_wf (host_conditions host)"
  shows "conditions_wf (host_conditions (snd (apply_provider_observation cd now claim host res)))"
    and "conditions_wf (host_conditions (snd (mark_provider_absent now claim host)))"
    and "conditions_wf (host_conditions (snd (mark_outcome_unknown now claim host kind message now_ms)))"
    and "conditions_wf (host_conditions (snd (mark_host_failed now claim host kind message)))"
    and "conditions_wf (host_conditions (snd (schedule_host_provider_error now claim host error now_ms)))"
    and "conditions_wf (host_conditions (schedule_host_retry_only host error now_ms))"
  using assms
  by (auto simp: transition_defs edit_defs split: ProviderLifecycle.split ProviderError.split
      intro!: set_condition_wf)

end
