(* ===== verification/Left_Alone.thy ===== *)
theory Left_Alone
  imports Controller_Facts Transition_Facts
begin

text \<open>
  A host the controller passes over (Failed, or not due) among any others, whatever fails and whatever
  else is asked for meanwhile: neither its record, nor its claim's, nor what the provider holds for it
  changes, as long as nobody asks for the claim's deletion.
\<close>

section \<open>The records at rest\<close>

definition at_rest :: "codec \<Rightarrow> HostClaimRecord \<Rightarrow> HostRecord \<Rightarrow> database \<Rightarrow> bool" where
  "at_rest cd r hr db \<longleftrightarrow>
     database_ok cd db \<and> claim_view cd db (claim_id_of r) = Some r \<and> host_view cd db (host_id_of hr) = Some hr
     \<and> claim_deletion r = None \<and> claim_host r = Some (host_id_of hr)"

lemma at_restD:
  assumes "at_rest cd r hr db"
  shows "database_ok cd db" and "claim_view cd db (claim_id_of r) = Some r" and "host_view cd db (host_id_of hr) = Some hr"
    and "claim_deletion r = None" and "claim_host r = Some (host_id_of hr)"
  using assms by (simp_all add: at_rest_def)

lemma at_rest_claim_of:
  assumes cd: "codec_ok cd" and rest: "at_rest cd r hr db"
  shows "host_claim_of hr = claim_id_of r"
  using claim_host_iff [OF cd at_restD(1,2) [OF rest], of "host_id_of hr"] at_restD(3,5) [OF rest] by simp

text \<open>A specification that writes neither record.\<close>

definition passes_by :: "HostClaimRecord \<Rightarrow> HostRecord \<Rightarrow> 'a store_oper \<Rightarrow> bool" where
  "passes_by r hr spec \<longleftrightarrow>
     (\<forall>st. s_claims st (claim_id_of r) = Some r \<longrightarrow> s_hosts st (host_id_of hr) = Some hr \<longrightarrow>
        s_claims (snd (spec st)) (claim_id_of r) = Some r \<and> s_hosts (snd (spec st)) (host_id_of hr) = Some hr)"

lemma specs_pass_by:
  "passes_by r hr (spec_create_claim cd now i spec)"
  "i \<noteq> claim_id_of r \<Longrightarrow> passes_by r hr (spec_mark_claim_deleting cd now i)"
  "claim_id_of c \<noteq> claim_id_of r \<Longrightarrow> passes_by r hr (spec_save_claim_status cd c)"
  "i \<noteq> claim_id_of r \<Longrightarrow> host_claim_of hr = claim_id_of r \<Longrightarrow> passes_by r hr (spec_finalize_claim cd i)"
  "i \<noteq> claim_id_of r \<Longrightarrow> passes_by r hr (spec_ensure_host cd now new_id i plan resources)"
  "host_id_of host \<noteq> host_id_of hr \<Longrightarrow> passes_by r hr (spec_save_host cd host)"
  by (auto simp: passes_by_def spec_create_claim_def spec_mark_claim_deleting_def spec_save_claim_status_def
      spec_finalize_claim_def spec_ensure_host_def spec_save_host_def Let_def split: sum.split option.split)

lemma at_rest_call:
  assumes tolerant: "fault_tolerant m" and refines: "\<And>io. io_fault io = no_fault \<Longrightarrow> refines cd (m io) (spec io)"
    and pass: "\<And>io. passes_by r hr (spec io)" and rest: "at_rest cd r hr db"
  shows "at_rest cd r hr (snd (m io db))"
proof -
  note db = at_restD(1) [OF rest]
  have "at_rest cd r hr (snd (m (healthy io) db))"
  proof -
    have ok: "database_ok cd (snd (m (healthy io) db))"
      and st: "store_of cd (snd (m (healthy io) db)) = snd (spec (healthy io) (store_of cd db))"
      using refinesD [OF refines [OF healthy_sel(3)] db, of io] by simp_all
    have "s_claims (store_of cd (snd (m (healthy io) db))) (claim_id_of r) = Some r
        \<and> s_hosts (store_of cd (snd (m (healthy io) db))) (host_id_of hr) = Some hr"
      unfolding st using pass [of "healthy io"] rest by (simp add: passes_by_def at_rest_def)
    with ok rest show ?thesis by (simp add: at_rest_def)
  qed
  with fault_tolerantD(1) [OF tolerant, of io db] rest show ?thesis by metis
qed

lemma at_rest_reads:
  assumes "at_rest cd r hr db"
  shows "at_rest cd r hr (snd (get_host cd io h db))" and "at_rest cd r hr (snd (list_claims cd io db))"
  using assms by (simp_all add: reads_keep_database)

lemma at_rest_writes:
  assumes cd: "codec_ok cd" and rest: "at_rest cd r hr db"
  shows "at_rest cd r hr (snd (create_claim cd io i spec db))"
    and "i \<noteq> claim_id_of r \<Longrightarrow> at_rest cd r hr (snd (mark_claim_deleting cd io i db))"
    and "claim_id_of c \<noteq> claim_id_of r \<Longrightarrow> at_rest cd r hr (snd (save_claim_status cd io c db))"
    and "i \<noteq> claim_id_of r \<Longrightarrow> at_rest cd r hr (snd (finalize_claim cd io i db))"
    and "i \<noteq> claim_id_of r \<Longrightarrow> at_rest cd r hr (snd (ensure_host cd io i plan resources db))"
    and "host_id_of host \<noteq> host_id_of hr \<Longrightarrow> at_rest cd r hr (snd (save_host cd io host db))"
proof -
  show "at_rest cd r hr (snd (create_claim cd io i spec db))"
    by (rule at_rest_call [OF fault_tolerant_ops(8) create_claim_refines [OF cd] specs_pass_by(1) rest])
  show "at_rest cd r hr (snd (mark_claim_deleting cd io i db))" if "i \<noteq> claim_id_of r"
    by (rule at_rest_call [OF fault_tolerant_ops(9) mark_claim_deleting_refines [OF cd] specs_pass_by(2) rest], assumption) (rule that)
  show "at_rest cd r hr (snd (save_claim_status cd io c db))" if "claim_id_of c \<noteq> claim_id_of r"
    by (rule at_rest_call [OF fault_tolerant_ops(6) save_claim_status_refines [OF cd] specs_pass_by(3) rest], assumption) (rule that)
  show "at_rest cd r hr (snd (finalize_claim cd io i db))" if "i \<noteq> claim_id_of r"
    by (rule at_rest_call [OF fault_tolerant_ops(5) finalize_claim_refines [OF cd] specs_pass_by(4) rest], assumption)
      (rule that at_rest_claim_of [OF cd rest])+
  show "at_rest cd r hr (snd (ensure_host cd io i plan resources db))" if "i \<noteq> claim_id_of r"
    by (rule at_rest_call [OF fault_tolerant_ops(10) ensure_host_refines [OF cd] specs_pass_by(5) rest], assumption) (rule that)
  show "at_rest cd r hr (snd (save_host cd io host db))" if "host_id_of host \<noteq> host_id_of hr"
    by (rule at_rest_call [OF fault_tolerant_ops(7) save_host_refines [OF cd] specs_pass_by(6) rest], assumption) (rule that)
qed

section \<open>Requests\<close>

text \<open>Nobody asks for the deletion of the claim.\<close>

definition spares :: "environment \<Rightarrow> HostClaimId \<Rightarrow> bool" where
  "spares E i \<longleftrightarrow>
     (\<forall>n io params. (Call HOST_CLAIM_DELETE params, io) \<in> set (e_requests E n) \<longrightarrow>
        parse_claim_params (e_params E) params \<noteq> Inr i)"

lemma at_rest_served:
  assumes cd: "codec_ok (e_codec E)" and rest: "at_rest (e_codec E) r hr (w_db w)"
    and spared: "\<And>io params. (Call HOST_CLAIM_DELETE params, io) \<in> set requests \<Longrightarrow>
      parse_claim_params (e_params E) params \<noteq> Inr (claim_id_of r)"
  shows "at_rest (e_codec E) r hr (w_db (serve_all E requests w))"
  using rest spared
proof (induction requests arbitrary: w)
  case Nil
  then show ?case by (simp add: serve_all_def)
next
  case (Cons request requests)
  obtain message io where request: "request = (message, io)" by (rule prod.exhaust)
  have "at_rest (e_codec E) r hr (w_db (snd (serve_message E io message w)))"
  proof (cases rule: serve_message_db [of E io message w])
    case same
    with Cons.prems(1) show ?thesis by simp
  next
    case (create params req)
    then show ?thesis using at_rest_writes(1) [OF cd Cons.prems(1)] by simp
  next
    case (delete params i)
    then have "i \<noteq> claim_id_of r" using Cons.prems(2) [where io = io and params = params] request by auto
    then show ?thesis using at_rest_writes(2) [OF cd Cons.prems(1)] delete(3) by simp
  qed
  then have "at_rest (e_codec E) r hr (w_db (serve_all E requests (snd (serve_message E io message w))))"
    by (rule Cons.IH) (use Cons.prems(2) in auto)
  then show ?case by (simp add: serve_all_def request)
qed

text \<open>Any other claim, with a host of its own or none.\<close>

definition elsewhere :: "HostClaimRecord \<Rightarrow> HostRecord \<Rightarrow> HostClaimRecord \<Rightarrow> bool" where
  "elsewhere r hr c \<longleftrightarrow> claim_id_of c \<noteq> claim_id_of r \<and> claim_host c \<noteq> Some (host_id_of hr)"

text \<open>What makes the controller pass over the host at a reading of the clock.\<close>

definition passed_over :: "HostRecord \<Rightarrow> i64 \<Rightarrow> bool" where
  "passed_over hr now_ms \<longleftrightarrow> host_phase hr = Failed \<or> \<not> is_due (hr_retry hr) now_ms"

section \<open>The provider, and the methods of the controller\<close>

context host_provider_contract
begin

definition resting ::
  "codec \<Rightarrow> HostClaimRecord \<Rightarrow> HostRecord \<Rightarrow> (ProviderResource \<times> string) option \<Rightarrow> 'p world \<Rightarrow> bool" where
  "resting cd r hr x w \<longleftrightarrow>
     at_rest cd r hr (w_db w) \<and> sane (w_provider w) \<and> owned (w_provider w) (host_id_of hr) = x"

lemma resting_frame:
  "resting cd r hr x w \<Longrightarrow> w_db w' = w_db w \<Longrightarrow> w_provider w' = w_provider w \<Longrightarrow> resting cd r hr x w'"
  by (simp add: resting_def)

lemma resting_clocks:
  "triple (resting cd r hr x) (now_timestamp E) (\<lambda>_. resting cd r hr x) R"
  "triple (resting cd r hr x) wake (\<lambda>_. resting cd r hr x) R"
  "triple (resting cd r hr x) (read_now_unix_ms E)
     (\<lambda>now w. (\<exists>n. now = now_unix_ms (e_clock_ms E n)) \<and> resting cd r hr x w) R"
  by (auto simp: triple_def now_timestamp_def wake_def read_now_unix_ms_def intro: resting_frame)

lemma resting_provider_calls:
  "triple (resting cd r hr x) (provider_call (select_plan P req)) (\<lambda>_. resting cd r hr x) R"
  "triple (resting cd r hr x) (provider_call (observe P h)) (\<lambda>_. resting cd r hr x) R"
  "h \<noteq> host_id_of hr \<Longrightarrow> triple (resting cd r hr x) (provider_call (create_resource P h plan)) (\<lambda>_. resting cd r hr x) R"
  "h \<noteq> host_id_of hr \<Longrightarrow> triple (resting cd r hr x) (provider_call (delete_resource P h)) (\<lambda>_. resting cd r hr x) R"
  by (auto simp: triple_def provider_call_def resting_def split: prod.split
      dest: select_state observe_state create_sane delete_sane create_frame delete_frame)

text \<open>A storage call that leaves the two records alone, and what it tells of the database it found.\<close>

lemma resting_storage_call:
  assumes cd: "codec_ok (e_codec E)" and spared: "spares E (claim_id_of r)"
    and m: "\<And>io db. at_rest (e_codec E) r hr db \<Longrightarrow> at_rest (e_codec E) r hr (snd (m io db))"
    and answer: "\<And>io db y db'. at_rest (e_codec E) r hr db \<Longrightarrow> m io db = (Inr y, db') \<Longrightarrow> Q y"
  shows "triple (resting (e_codec E) r hr x) (storage_call E m)
    (\<lambda>y w. Q y \<and> resting (e_codec E) r hr x w) (resting (e_codec E) r hr x)"
  unfolding triple_def
proof (intro allI impI)
  fix w assume w: "resting (e_codec E) r hr x w"
  let ?w = "tick (serve_all E (e_requests E (w_count w)) w)"
  have "at_rest (e_codec E) r hr (w_db (serve_all E (e_requests E (w_count w)) w))"
    by (rule at_rest_served [OF cd]) (use w spared in \<open>auto simp: resting_def spares_def\<close>)
  then have db: "at_rest (e_codec E) r hr (w_db ?w)" by simp
  have provider: "w_provider ?w = w_provider w" by (simp add: serve_all_provider)
  obtain y db' where run: "m (io_at E (w_count w)) (w_db ?w) = (y, db')" by (rule prod.exhaust)
  have "resting (e_codec E) r hr x (?w\<lparr>w_db := db'\<rparr>)"
    using m [OF db, of "io_at E (w_count w)"] run w provider by (simp add: resting_def)
  with run answer [OF db] show "case storage_call E m w of (Inl e, s') \<Rightarrow> resting (e_codec E) r hr x s'
      | (Inr y, s') \<Rightarrow> Q y \<and> resting (e_codec E) r hr x s'"
    by (auto simp: storage_call_def on_db_def Let_def split: sum.split)
qed

lemma resting_write:
  assumes cd: "codec_ok (e_codec E)" and spared: "spares E (claim_id_of r)"
    and m: "\<And>io db. at_rest (e_codec E) r hr db \<Longrightarrow> at_rest (e_codec E) r hr (snd (m io db))"
  shows "triple (resting (e_codec E) r hr x) (storage_call E m) (\<lambda>_. resting (e_codec E) r hr x) (resting (e_codec E) r hr x)"
  by (rule triple_weaken [OF resting_storage_call [OF cd spared m, where Q = "\<lambda>_. True"]]) simp_all

lemma resting_saves:
  assumes cd: "codec_ok (e_codec E)" and spared: "spares E (claim_id_of r)"
  shows "host_id_of host \<noteq> host_id_of hr \<Longrightarrow>
      triple (resting (e_codec E) r hr x) (save_host_call E host) (\<lambda>_. resting (e_codec E) r hr x) (resting (e_codec E) r hr x)"
    and "claim_id_of claim \<noteq> claim_id_of r \<Longrightarrow>
      triple (resting (e_codec E) r hr x) (persist_claim_status E claim) (\<lambda>_. resting (e_codec E) r hr x) (resting (e_codec E) r hr x)"
  unfolding save_host_call_def persist_claim_status_def
  by (rule resting_write [OF cd spared at_rest_writes(6) [OF cd]], assumption+)
    (rule triple_and_then [OF resting_write [OF cd spared at_rest_writes(3) [OF cd]]], assumption+,
      rule triple_if, rule resting_clocks, rule triple_ok, assumption)

lemma resting_save_both:
  assumes cd: "codec_ok (e_codec E)" and spared: "spares E (claim_id_of r)"
    and other: "claim_id_of claim \<noteq> claim_id_of r" "host_id_of host \<noteq> host_id_of hr"
    and same: "\<And>now. same_claim claim (fst (f now))" "\<And>now. same_host host (snd (f now))"
  shows "triple (resting (e_codec E) r hr x) (and_then (now_timestamp E) (\<lambda>now. save_both E (f now) result))
    (\<lambda>_. resting (e_codec E) r hr x) (resting (e_codec E) r hr x)"
proof -
  have "claim_id_of (fst (f now)) \<noteq> claim_id_of r" "host_id_of (snd (f now)) \<noteq> host_id_of hr" for now
    using same [of now] other by (simp_all add: same_claim_def same_host_def)
  then show ?thesis
    unfolding save_both_def
    by (intro triple_and_then [OF resting_clocks(1)] triple_and_then [OF resting_saves(1) [OF cd spared]]
        triple_and_then [OF resting_saves(2) [OF cd spared]] triple_ok)
qed

text \<open>The methods on other claims and their hosts.\<close>

lemma resting_reconcile_host:
  assumes cd: "codec_ok (e_codec E)" and spared: "spares E (claim_id_of r)"
    and other: "claim_id_of claim \<noteq> claim_id_of r" "host_id_of host \<noteq> host_id_of hr"
  shows "triple (resting (e_codec E) r hr x) (reconcile_host E P claim host now_ms)
    (\<lambda>_. resting (e_codec E) r hr x) (resting (e_codec E) r hr x)"
    (is "triple ?A _ _ _")
proof -
  let ?host1 = "(set_host_phase Provisioning host)\<lparr>hr_retry := default_retry\<rparr>"
  have host1: "host_id_of (set_host_phase Provisioning host) = host_id_of host" "same_host host ?host1"
    by (simp_all add: set_host_phase_def update_host_status_def same_host_def)
  note save = resting_save_both [OF cd spared other]
  have created: "triple ?A (and_then (now_timestamp E) (\<lambda>now. save_both E
      (case created of
         Inr (Created resource) \<Rightarrow> apply_provider_observation (e_codec E) now claim ?host1 resource
       | Inr CreateOutcomeUnknown \<Rightarrow> mark_outcome_unknown now claim ?host1 ''CreateOutcomeUnknown''
           ''The provider may have created the Host. The next step will rediscover it by Host ID.'' now_ms
       | Inl error \<Rightarrow> schedule_host_provider_error now claim ?host1 error now_ms) Progress)) (\<lambda>_. ?A) ?A" for created
    by (rule save)
      (auto split: sum.split CreateOutcome.split
        intro: transitions_same_claim same_host_trans [OF host1(2)] transitions_same_host)
  show ?thesis
    unfolding reconcile_host_def Let_def
    by (intro triple_and_then [OF resting_provider_calls(2)] triple_case_sum triple_case_observation triple_case_option triple_if
        created save transitions_same_claim transitions_same_host
        triple_and_then [OF resting_saves(1) [OF cd spared]] triple_and_then [OF resting_provider_calls(3)])
      (simp_all add: host1 other)
qed

lemma resting_unbound_claim:
  assumes cd: "codec_ok (e_codec E)" and spared: "spares E (claim_id_of r)"
    and other: "claim_id_of claim \<noteq> claim_id_of r"
  shows "triple (resting (e_codec E) r hr x) (reconcile_unbound_claim E P claim now_ms)
    (\<lambda>_. resting (e_codec E) r hr x) (resting (e_codec E) r hr x)"
    (is "triple ?A _ _ _")
proof -
  have assign: "triple ?A (\<lambda>w. case storage_call E (\<lambda>io. ensure_host (e_codec E) io (claim_id_of claim) plan resources) w of
         (Inr host, w') \<Rightarrow> (Inr Progress, w')
       | (Inl (Conflict ty i m), w') \<Rightarrow> and_then wake (\<lambda>_. ok Idle) w'
       | (Inl (NotFound ty i), w') \<Rightarrow> and_then wake (\<lambda>_. ok Idle) w'
       | (Inl error, w') \<Rightarrow> (Inl error, w')) (\<lambda>_. ?A) ?A" for plan resources
    unfolding triple_def
  proof (intro allI impI)
    fix w assume w: "?A w"
    let ?call = "storage_call E (\<lambda>io. ensure_host (e_codec E) io (claim_id_of claim) plan resources)"
    obtain y w' where run: "?call w = (y, w')" by (rule prod.exhaust)
    have w': "?A w'"
      using triple_run [OF resting_write [OF cd spared at_rest_writes(5) [OF cd _ other]] run w] by (cases y) simp_all
    then have "?A (w'\<lparr>w_notified := True\<rparr>)" by (rule resting_frame) simp_all
    with run w' show "case (case ?call w of (Inr host, w') \<Rightarrow> (Inr Progress, w')
       | (Inl (Conflict ty i m), w') \<Rightarrow> and_then wake (\<lambda>_. ok Idle) w'
       | (Inl (NotFound ty i), w') \<Rightarrow> and_then wake (\<lambda>_. ok Idle) w'
       | (Inl error, w') \<Rightarrow> (Inl error, w')) of (Inl e, s') \<Rightarrow> ?A s' | (Inr _, s') \<Rightarrow> ?A s'"
      by (cases y) (auto simp: wake_def split: AppError.split)
  qed
  have failed: "claim_id_of (schedule_claim_provider_error now claim error now_ms) = claim_id_of claim" for now error
    using transitions_same_claim(6) [of claim now error now_ms] by (simp add: same_claim_def)
  have unsatisfied: "claim_id_of claim' = claim_id_of claim"
    if "unsatisfiable_conditions now claim = (changed, claim')" for now changed claim'
    using that by (auto simp: unsatisfiable_conditions_def Let_def case_prod_beta set_claim_condition_def observe_generation_def)
  show ?thesis
    unfolding reconcile_unbound_claim_def Let_def
    by (intro triple_and_then [OF resting_provider_calls(1)] triple_case_sum triple_case_option triple_case_prod triple_if
        assign triple_ok triple_and_then [OF resting_clocks(1)] triple_and_then [OF resting_saves(2) [OF cd spared]])
      (use other in \<open>auto simp: failed dest: unsatisfied\<close>)
qed

lemma resting_get_host:
  assumes cd: "codec_ok (e_codec E)" and spared: "spares E (claim_id_of r)"
  shows "triple (resting (e_codec E) r hr x) (storage_call E (\<lambda>io. get_host (e_codec E) io h))
    (\<lambda>host w. (host_id_of host = h \<and> (h = host_id_of hr \<longrightarrow> host = hr)) \<and> resting (e_codec E) r hr x w)
    (resting (e_codec E) r hr x)"
proof (rule resting_storage_call [OF cd spared at_rest_reads(1)], assumption)
  fix io db host db'
  assume rest: "at_rest (e_codec E) r hr db" and run: "get_host (e_codec E) io h db = (Inr host, db')"
  have view: "host_view (e_codec E) db h = Some host" by (rule get_host_success(2) [OF cd at_restD(1) [OF rest] run])
  then have "host_id_of host = h" using host_view_Some [OF cd at_restD(1) [OF rest]] by simp
  moreover have "host = hr" if "h = host_id_of hr" using view at_restD(3) [OF rest] that by simp
  ultimately show "host_id_of host = h \<and> (h = host_id_of hr \<longrightarrow> host = hr)" by blast
qed

lemma resting_list_claims:
  assumes cd: "codec_ok (e_codec E)" and spared: "spares E (claim_id_of r)"
  shows "triple (resting (e_codec E) r hr x) (storage_call E (list_claims (e_codec E)))
    (\<lambda>claims w. (\<forall>c \<in> set claims. c = r \<or> elsewhere r hr c) \<and> resting (e_codec E) r hr x w)
    (resting (e_codec E) r hr x)"
proof (rule resting_storage_call [OF cd spared at_rest_reads(2)], assumption)
  fix io db claims db'
  assume rest: "at_rest (e_codec E) r hr db" and run: "list_claims (e_codec E) io db = (Inr claims, db')"
  note listed = list_claims_success(2) [OF cd at_restD(1) [OF rest] run]
  show "\<forall>c \<in> set claims. c = r \<or> elsewhere r hr c"
  proof
    fix c assume "c \<in> set claims"
    then have c: "claim_view (e_codec E) db (claim_id_of c) = Some c" by (simp add: listed)
    show "c = r \<or> elsewhere r hr c"
    proof (cases "claim_id_of c = claim_id_of r")
      case True
      with c have "claim_view (e_codec E) db (claim_id_of r) = Some c" by (simp only:)
      with at_restD(2) [OF rest] have "Some r = Some c" by (rule HOL.trans [OF sym])
      then show ?thesis by simp
    next
      case False
      then have "claim_host c \<noteq> Some (host_id_of hr)"
        using claim_host_iff [OF cd at_restD(1) [OF rest] c, of "host_id_of hr"] at_restD(3) [OF rest] at_rest_claim_of [OF cd rest]
        by auto
      with False show ?thesis by (simp add: elsewhere_def)
    qed
  qed
qed

lemma resting_deleting_claim:
  assumes cd: "codec_ok (e_codec E)" and spared: "spares E (claim_id_of r)" and other: "elsewhere r hr claim"
  shows "triple (resting (e_codec E) r hr x) (reconcile_deleting_claim E P claim now_ms)
    (\<lambda>_. resting (e_codec E) r hr x) (resting (e_codec E) r hr x)"
    (is "triple ?A _ _ _")
proof -
  have id: "claim_id_of claim \<noteq> claim_id_of r" using other by (simp add: elsewhere_def)
  have finalize: "triple ?A (and_then (storage_call E (\<lambda>io. finalize_claim (e_codec E) io (claim_id_of claim))) (\<lambda>_. ok Progress))
      (\<lambda>_. ?A) ?A"
    by (rule triple_and_then [OF resting_write [OF cd spared at_rest_writes(4) [OF cd _ id]]], assumption, rule triple_ok)
  have save: "triple ?A (save_host_call E host) (\<lambda>_. ?A) ?A" if "host_id_of host \<noteq> host_id_of hr" for host
    by (rule resting_saves(1) [OF cd spared that])
  have failed: "triple ?A (and_then (now_timestamp E) (\<lambda>now.
      case mark_host_failed now claim host kind message of (claim', host') \<Rightarrow>
      save_both E (claim', host'\<lparr>hr_retry := (hr_retry host')\<lparr>next_reconcile_at_unix_ms := Some i64_max\<rparr>\<rparr>) Progress)) (\<lambda>_. ?A) ?A"
    if "host_id_of host \<noteq> host_id_of hr" for host kind message
    unfolding case_prod_beta
    by (rule resting_save_both [OF cd spared id that])
      (use transitions_same_claim(4) transitions_same_host(4) in \<open>simp_all add: same_host_def\<close>)
  have after: "host_id_of (after_delete host deleted now_ms) = host_id_of host" for host deleted
    using transitions_same_host(6) by (simp add: after_delete_def same_host_def split: sum.split DeleteOutcome.split)
  show ?thesis
    unfolding reconcile_deleting_claim_def Let_def
  proof (rule triple_case_option, rule finalize, rule triple_and_then [OF resting_get_host [OF cd spared]], rule triple_pure)
    fix h host
    assume h: "claim_host claim = Some h" and host: "host_id_of host = h \<and> (h = host_id_of hr \<longrightarrow> host = hr)"
    then have away: "host_id_of host \<noteq> host_id_of hr" using other by (auto simp: elsewhere_def)
    show "triple ?A (if \<not> is_due (hr_retry host) now_ms then ok Idle
        else and_then (provider_call (observe P (host_id_of host))) (\<lambda>observed.
          case observed of
            Inr Absent \<Rightarrow> and_then (storage_call E (\<lambda>io. finalize_claim (e_codec E) io (claim_id_of claim))) (\<lambda>_. ok Progress)
          | Inr (Present resource) \<Rightarrow> (case ownership_conflict host resource of
              Some expected \<Rightarrow>
                and_then (now_timestamp E) (\<lambda>now.
                case mark_host_failed now claim host ''ProviderOwnershipConflict''
                      (ownership_conflict_message expected (pr_id resource)) of (claim', host') \<Rightarrow>
                save_both E (claim', host'\<lparr>hr_retry := (hr_retry host')\<lparr>next_reconcile_at_unix_ms := Some i64_max\<rparr>\<rparr>) Progress)
            | None \<Rightarrow>
                and_then (now_timestamp E) (\<lambda>now.
                and_then (save_host_call E ((update_host_status (\<lambda>s. s\<lparr>hs_phase := Deleting,
                      hs_provider_resource_id := Some (pr_id resource), hs_observed_at := Some now\<rparr>) host)
                      \<lparr>hr_retry := default_retry\<rparr>)) (\<lambda>_.
                and_then (provider_call (delete_resource P (host_id_of ((update_host_status (\<lambda>s. s\<lparr>hs_phase := Deleting,
                      hs_provider_resource_id := Some (pr_id resource), hs_observed_at := Some now\<rparr>) host)
                      \<lparr>hr_retry := default_retry\<rparr>)))) (\<lambda>deleted.
                and_then (save_host_call E (after_delete ((update_host_status (\<lambda>s. s\<lparr>hs_phase := Deleting,
                      hs_provider_resource_id := Some (pr_id resource), hs_observed_at := Some now\<rparr>) host)
                      \<lparr>hr_retry := default_retry\<rparr>) deleted now_ms)) (\<lambda>_.
                ok Progress)))))
          | Inl error \<Rightarrow>
              and_then (save_host_call E (schedule_host_retry_only host error now_ms)) (\<lambda>_.
              ok Progress))) (\<lambda>_. ?A) ?A"
      by (intro triple_if triple_ok triple_and_then [OF resting_provider_calls(2)] triple_case_sum triple_case_observation
          triple_case_option finalize failed triple_and_then [OF resting_clocks(1)] triple_and_then [OF save]
          triple_and_then [OF resting_provider_calls(4)])
        (use away transitions_same_host(6) in \<open>simp_all add: after same_host_def\<close>)
  qed
qed

section \<open>One step, and a wake\<close>

lemma resting_active_claim:
  assumes cd: "codec_ok (e_codec E)" and spared: "spares E (claim_id_of r)" and over: "passed_over hr now_ms"
    and claim: "claim = r \<and> claim_host r = Some (host_id_of hr) \<or> elsewhere r hr claim"
  shows "triple (resting (e_codec E) r hr x) (reconcile_active_claim E P now_ms claim)
    (\<lambda>_. resting (e_codec E) r hr x) (resting (e_codec E) r hr x)"
  unfolding reconcile_active_claim_def
proof (rule triple_case_option)
  show "triple (resting (e_codec E) r hr x)
      (if \<not> is_due (cr_retry claim) now_ms then ok Idle else reconcile_unbound_claim E P claim now_ms)
      (\<lambda>_. resting (e_codec E) r hr x) (resting (e_codec E) r hr x)" if "claim_host claim = None"
    by (intro triple_if triple_ok resting_unbound_claim [OF cd spared]) (use claim that in \<open>auto simp: elsewhere_def\<close>)
  fix h assume h: "claim_host claim = Some h"
  show "triple (resting (e_codec E) r hr x)
      (and_then (storage_call E (\<lambda>io. get_host (e_codec E) io h)) (\<lambda>host.
       if \<not> is_due (hr_retry host) now_ms \<or> host_phase host = Failed then ok Idle else reconcile_host E P claim host now_ms))
      (\<lambda>_. resting (e_codec E) r hr x) (resting (e_codec E) r hr x)"
    by (rule triple_and_then [OF resting_get_host [OF cd spared]], rule triple_pure, rule triple_if,
        rule triple_ok, assumption, rule resting_reconcile_host [OF cd spared])
      (use claim over h in \<open>auto simp: elsewhere_def passed_over_def\<close>)
qed

lemma resting_loops:
  assumes cd: "codec_ok (e_codec E)" and spared: "spares E (claim_id_of r)" and over: "passed_over hr now_ms"
    and rest: "claim_deletion r = None" "claim_host r = Some (host_id_of hr)"
  shows "\<forall>c \<in> set claims. c = r \<or> elsewhere r hr c \<Longrightarrow> triple (resting (e_codec E) r hr x)
      (reconcile_deletions E P now_ms claims) (\<lambda>_. resting (e_codec E) r hr x) (resting (e_codec E) r hr x)"
    and "\<forall>c \<in> set claims. c = r \<or> elsewhere r hr c \<Longrightarrow> triple (resting (e_codec E) r hr x)
      (reconcile_active E P now_ms claims) (\<lambda>_. resting (e_codec E) r hr x) (resting (e_codec E) r hr x)"
proof (induction claims)
  case (Cons claim claims)
  {
    case 1
    show ?case
      unfolding reconcile_deletions.simps
      by (intro triple_if triple_and_then [OF resting_deleting_claim [OF cd spared]] triple_ok Cons.IH(1))
        (use 1 rest in auto)
  next
    case 2
    show ?case
      unfolding reconcile_active.simps
      by (intro triple_if triple_and_then [OF resting_active_claim [OF cd spared over]] triple_ok Cons.IH(2))
        (use 2 rest in auto)
  }
qed (auto intro: triple_ok)

lemma resting_once:
  assumes cd: "codec_ok (e_codec E)" and spared: "spares E (claim_id_of r)"
    and over: "\<And>n. passed_over hr (now_unix_ms (e_clock_ms E n))" and w: "resting (e_codec E) r hr x w"
  shows "resting (e_codec E) r hr x (snd (reconcile_once E P w))"
proof -
  have rest: "claim_deletion r = None" "claim_host r = Some (host_id_of hr)" using w by (simp_all add: resting_def at_rest_def)
  have "triple (resting (e_codec E) r hr x) (reconcile_once E P) (\<lambda>_. resting (e_codec E) r hr x) (resting (e_codec E) r hr x)"
    unfolding reconcile_once_def
    by (rule triple_and_then [OF resting_clocks(3)], rule triple_pure, rule triple_and_then [OF resting_list_claims [OF cd spared]],
        rule triple_pure, intro triple_and_then [OF resting_loops(1) [OF cd spared _ rest]] triple_if triple_ok
          resting_loops(2) [OF cd spared _ rest])
      (use over in auto)
  then show ?thesis using w by (rule triple_const)
qed

theorem resting_wake:
  assumes cd: "codec_ok (e_codec E)" and spared: "spares E (claim_id_of r)"
    and over: "\<And>n. passed_over hr (now_unix_ms (e_clock_ms E n))" and w: "resting (e_codec E) r hr x w"
  shows "resting (e_codec E) r hr x (reconcile_wake E P w)"
proof -
  have "resting (e_codec E) r hr x (snd (reconcile_steps E P fuel w'))" if "resting (e_codec E) r hr x w'" for fuel w'
    using that
  proof (induction fuel arbitrary: w')
    case (Suc fuel)
    obtain y w1 where run: "reconcile_once E P w' = (y, w1)" by (rule prod.exhaust)
    have "resting (e_codec E) r hr x w1" using resting_once [OF cd spared over Suc.prems] run by simp
    with Suc.IH run show ?case by (auto split: sum.split ReconcileResult.split)
  qed simp
  from this [OF w, of MAX_STEPS_PER_WAKE] show ?thesis
    by (auto simp: reconcile_wake_def split: prod.split intro: resting_frame)
qed

end

end
