(* ===== verification/Fake_Provider_Contract.thy ===== *)
theory Fake_Provider_Contract
  imports Fake_Provider_Spec Daemon_Safety Left_Alone
begin

text \<open>
  The fake provider keeps the contract of \<open>HostProvider\<close>, so all that the controller's development
  proves from the contract holds of it.
\<close>

interpretation fake: host_provider_contract "FakeProvider E" "fake_owned E" "fake_sane E" for E
proof (unfold_locales, unfold FakeProvider_sel)
  fix p p' req sel plan h h' obs res cre del plan_text
  assume sane: "fake_sane E p"
  show "fake_sane E p' \<and> fake_owned E p' = fake_owned E p" if "fake_select_plan E req p = (sel, p')"
    using tables_sane [OF fake_select_state [OF that]] tables_owned [OF fake_select_state [OF that]] sane by simp
  show "satisfies (plan_resources plan) req" if "fake_select_plan E req p = (Inr (Some plan), p')"
    using fake_select_satisfies [OF sane that] .
  show "fake_sane E p' \<and> fake_owned E p' = fake_owned E p" if "fake_observe E h p = (obs, p')"
    using tables_sane [OF fake_observe_state [OF sane that]]
      tables_owned [OF fake_observe_state [OF sane that]] sane by simp
  show "fake_owned E p h = None" if "fake_observe E h p = (Inr Absent, p')"
    using fake_observe_answer [OF sane that] by simp
  show "\<exists>plan_text. fake_owned E p h = Some (res, plan_text)"
    if "fake_observe E h p = (Inr (Present res), p')"
    using fake_observe_answer [OF sane that] by simp
  show "fake_sane E p'" if "fake_create E h plan_text p = (cre, p')"
    using fake_create_effect(1) [OF sane that] .
  show "fake_owned E p' h' = fake_owned E p h'" if "fake_create E h plan_text p = (cre, p')" "h' \<noteq> h"
    using fake_create_effect(2) [OF sane that] .
  show "fake_owned E p' h = fake_owned E p h
      \<or> fake_owned E p h = None \<and> (\<exists>res. fake_owned E p' h = Some (res, plan_text))"
    if "fake_create E h plan_text p = (cre, p')"
    using fake_create_effect(3) [OF sane that] .
  show "fake_owned E p' h = Some (res, plan_text)"
    if "fake_create E h plan_text p = (Inr (Created res), p')"
    using fake_create_answer [OF sane that] .
  show "fake_sane E p'" if "fake_delete E h p = (del, p')"
    using fake_delete_effect(1) [OF sane that] .
  show "fake_owned E p' h' = fake_owned E p h'" if "fake_delete E h p = (del, p')" "h' \<noteq> h"
    using fake_delete_effect(2) [OF sane that] .
  show "fake_owned E p' h = None \<or> fake_owned E p' h = fake_owned E p h"
    if "fake_delete E h p = (del, p')"
    using fake_delete_effect(3) [OF sane that] .
  show "fake_owned E p' h = None" if "fake_delete E h p = (Inr Deleted, p')"
    using removed_tables_effect(2) [OF sane fake_delete_answer [OF that]] .
qed

end
