(* ===== verification/Quiet.thy ===== *)
theory Quiet
  imports Controller_Facts Transition_Facts
begin

text \<open>
  The storage calls of the controller in a quiet environment, where no database call fails and no
  request arrives meanwhile: each does what its specification says, on whatever claims and hosts the
  database holds.
\<close>

section \<open>Stored records and copies\<close>

lemma with_status_same: "same_claim r (with_status copy r)"
  by (simp add: same_claim_def with_status_def)

lemma with_status_sel [simp]:
  "claim_id_of (with_status copy r) = claim_id_of r" "claim_deletion (with_status copy r) = claim_deletion r"
  "claim_host (with_status copy r) = claim_host r" "hc_spec (cr_resource (with_status copy r)) = hc_spec (cr_resource r)"
  "hc_generation (cr_resource (with_status copy r)) = hc_generation (cr_resource r)"
  "claim_conditions (with_status copy r) = claim_conditions copy" "cr_retry (with_status copy r) = cr_retry copy"
  by (simp_all add: with_status_def)

lemma with_host_status_sel' [simp]:
  "host_id_of (with_host_status copy r) = host_id_of r" "host_claim_of (with_host_status copy r) = host_claim_of r"
  "hr_provider_plan_id (with_host_status copy r) = hr_provider_plan_id r"
  "h_allocatable_resources (hr_resource (with_host_status copy r)) = h_allocatable_resources (hr_resource r)"
  "h_status (hr_resource (with_host_status copy r)) = h_status (hr_resource copy)"
  "hr_retry (with_host_status copy r) = hr_retry copy"
  "with_host_status copy (with_host_status copy' r) = with_host_status copy r"
  by (simp_all add: with_host_status_def)

lemma bound_claim_sel [simp]:
  "claim_id_of (bound_claim cd host now r) = claim_id_of r"
  "claim_deletion (bound_claim cd host now r) = claim_deletion r"
  "claim_host (bound_claim cd host now r) = Some (h_id host)"
  "hc_spec (cr_resource (bound_claim cd host now r)) = hc_spec (cr_resource r)"
  "cr_retry (bound_claim cd host now r) = default_retry"
  by (simp_all add: bound_claim_def host_assigned_def Let_def claim_edit_defs)

section \<open>Quiet environments\<close>

definition quiet :: "environment \<Rightarrow> bool" where
  "quiet E \<longleftrightarrow> codec_ok (e_codec E) \<and> (\<forall>n. e_fault E n = no_fault) \<and> (\<forall>n. e_requests E n = [])"

abbreviation world_store :: "environment \<Rightarrow> 'p world \<Rightarrow> store" where
  "world_store E w \<equiv> store_of (e_codec E) (w_db w)"

abbreviation db_fine :: "environment \<Rightarrow> 'p world \<Rightarrow> bool" where
  "db_fine E w \<equiv> database_ok (e_codec E) (w_db w)"

type_synonym claim_map = "HostClaimId \<Rightarrow> HostClaimRecord option"
type_synonym host_map = "HostId \<Rightarrow> HostRecord option"

text \<open>The claims and hosts the database holds.\<close>

definition holds :: "environment \<Rightarrow> 'p world \<Rightarrow> claim_map \<Rightarrow> host_map \<Rightarrow> bool" where
  "holds E w cs hs \<longleftrightarrow> db_fine E w \<and> world_store E w = \<lparr>s_claims = cs, s_hosts = hs\<rparr>"

text \<open>What else a storage call leaves: it only counts an effect.\<close>

definition counted :: "'p world \<Rightarrow> 'p world \<Rightarrow> bool" where
  "counted w w' \<longleftrightarrow> w_provider w' = w_provider w \<and> w_notified w' = w_notified w \<and> w_count w < w_count w'"

lemma countedD:
  assumes "counted w w'"
  shows "w_provider w' = w_provider w" "w_notified w' = w_notified w" "w_count w < w_count w'"
  using assms by (simp_all add: counted_def)

lemma counted_trans: "counted w w1 \<Longrightarrow> counted w1 w2 \<Longrightarrow> counted w w2"
  by (simp add: counted_def)

lemma counted_tick [simp]: "counted w (tick w)"
  by (simp add: counted_def)

lemma holdsD:
  assumes "holds E w cs hs"
  shows "db_fine E w" "claim_view (e_codec E) (w_db w) = cs" "host_view (e_codec E) (w_db w) = hs"
proof -
  have st: "world_store E w = \<lparr>s_claims = cs, s_hosts = hs\<rparr>" and "db_fine E w"
    using assms by (simp_all add: holds_def)
  from arg_cong [OF st, of s_claims] arg_cong [OF st, of s_hosts] this(2)
  show "db_fine E w" "claim_view (e_codec E) (w_db w) = cs" "host_view (e_codec E) (w_db w) = hs" by simp_all
qed

lemma holds_views: "db_fine E w \<Longrightarrow> holds E w (claim_view (e_codec E) (w_db w)) (host_view (e_codec E) (w_db w))"
  by (simp add: holds_def store_of_def)

lemma holds_frame [simp]:
  "holds E (tick w) cs hs = holds E w cs hs"
  "holds E (w\<lparr>w_provider := p\<rparr>) cs hs = holds E w cs hs"
  "holds E (w\<lparr>w_notified := b\<rparr>) cs hs = holds E w cs hs"
  by (simp_all add: holds_def)

lemma quiet_call:
  assumes E: "quiet E" and held: "holds E w cs hs"
    and refines: "\<And>io. io_fault io = no_fault \<Longrightarrow> refines (e_codec E) (m io) (spec io)"
    and spec: "spec (io_at E (w_count w)) \<lparr>s_claims = cs, s_hosts = hs\<rparr> = (r, \<lparr>s_claims = cs', s_hosts = hs'\<rparr>)"
  obtains w' where "storage_call E m w = (r, w')" and "holds E w' cs' hs'" and "counted w w'"
proof -
  let ?io = "io_at E (w_count w)"
  obtain r' db where run: "m ?io (w_db w) = (r', db)" by (rule prod.exhaust)
  have "io_fault ?io = no_fault" using E by (simp add: quiet_def)
  note result = refinesD [OF refines [OF this] holdsD(1) [OF held]]
  have "spec ?io (world_store E w) = (r, \<lparr>s_claims = cs', s_hosts = hs'\<rparr>)"
    using held spec by (simp add: holds_def)
  then have "r' = r" "store_of (e_codec E) db = \<lparr>s_claims = cs', s_hosts = hs'\<rparr>" "database_ok (e_codec E) db"
    using result run by simp_all
  moreover have "storage_call E m w = (r', tick w\<lparr>w_db := db\<rparr>)"
    using E run by (simp add: storage_call_def Let_def on_db_def quiet_def serve_all_def)
  ultimately show ?thesis by (intro that [of "tick w\<lparr>w_db := db\<rparr>"]) (simp_all add: holds_def counted_def)
qed

section \<open>Each storage call of the controller\<close>

lemma quiet_list_claims:
  assumes E: "quiet E" and held: "holds E w cs hs"
  obtains rs where "storage_call E (list_claims (e_codec E)) w = (Inr rs, tick w)"
    and "\<And>x. x \<in> set rs \<longleftrightarrow> cs (claim_id_of x) = Some x" and "distinct (map claim_id_of rs)"
proof -
  have cd: "codec_ok (e_codec E)" and io: "io_fault (io_at E (w_count w)) = no_fault"
    using E by (simp_all add: quiet_def)
  obtain rs where rs: "list_claims (e_codec E) (io_at E (w_count w)) (w_db w) = (Inr rs, w_db w)"
      "\<And>x. x \<in> set rs \<longleftrightarrow> claim_view (e_codec E) (w_db w) (claim_id_of x) = Some x"
      "distinct (map claim_id_of rs)"
    by (rule list_claims_result [OF cd io holdsD(1) [OF held]]) blast
  have "storage_call E (list_claims (e_codec E)) w = (Inr rs, tick w)"
    using E rs(1) by (simp add: storage_call_def Let_def on_db_def quiet_def serve_all_def tick_def)
  then show ?thesis using that rs(2,3) holdsD(2) [OF held] by simp
qed

lemma quiet_get_host:
  assumes E: "quiet E" and held: "holds E w cs hs" and hr: "hs h = Some hr"
  obtains w' where "storage_call E (\<lambda>io. get_host (e_codec E) io h) w = (Inr hr, w')"
    and "holds E w' cs hs" and "counted w w'"
proof -
  have cd: "codec_ok (e_codec E)" using E by (simp add: quiet_def)
  show ?thesis
    by (rule quiet_call [OF E held, where m = "\<lambda>io. get_host (e_codec E) io h" and spec = "\<lambda>io. spec_get_host (e_codec E) h"
          and r = "Inr hr" and cs' = cs and hs' = hs, OF get_host_refines [OF cd]])
      (simp_all add: spec_get_host_def hr that)
qed

lemma quiet_save_host:
  assumes E: "quiet E" and held: "holds E w cs hs" and hr: "hs h = Some hr" and id: "host_id_of copy = h"
    and free: "\<And>h' hr'. hs h' = Some hr' \<Longrightarrow> h' \<noteq> h \<Longrightarrow> host_provider_resource copy \<noteq> None
      \<Longrightarrow> host_provider_resource hr' \<noteq> host_provider_resource copy"
  obtains w' where "save_host_call E copy w = (Inr (), w')"
    and "holds E w' cs (hs(h \<mapsto> with_host_status copy hr))" and "counted w w'"
proof -
  have cd: "codec_ok (e_codec E)" using E by (simp add: quiet_def)
  have "\<not> resource_taken \<lparr>s_claims = cs, s_hosts = hs\<rparr> h (host_provider_resource copy)"
    using free by (auto simp: resource_taken_def)
  then have spec: "spec_save_host (e_codec E) copy \<lparr>s_claims = cs, s_hosts = hs\<rparr> =
      (Inr (), \<lparr>s_claims = cs, s_hosts = hs(h \<mapsto> with_host_status copy hr)\<rparr>)"
    by (simp add: spec_save_host_def id hr)
  show ?thesis
    by (rule quiet_call [OF E held, where m = "\<lambda>io. save_host (e_codec E) io copy" and
          spec = "\<lambda>io. spec_save_host (e_codec E) copy", OF save_host_refines [OF cd] spec])
      (simp_all add: save_host_call_def that)
qed

lemma quiet_persist:
  assumes E: "quiet E" and held: "holds E w cs hs" and r: "cs (claim_id_of copy) = Some r"
    and fresh: "claim_deletion copy = claim_deletion r"
    and fits: "uint (hcs_observed_generation (hc_status (cr_resource copy))) \<le> i64_max"
  obtains w' where "persist_claim_status E copy w = (Inr (), w')"
    and "holds E w' (cs(claim_id_of copy \<mapsto> with_status copy r)) hs" and "counted w w'"
proof -
  have cd: "codec_ok (e_codec E)" using E by (simp add: quiet_def)
  have spec: "spec_save_claim_status (e_codec E) copy \<lparr>s_claims = cs, s_hosts = hs\<rparr> =
      (Inr True, \<lparr>s_claims = cs(claim_id_of copy \<mapsto> with_status copy r), s_hosts = hs\<rparr>)"
    using fits r fresh by (simp add: spec_save_claim_status_def to_i64_def)
  obtain w' where w': "storage_call E (\<lambda>io. save_claim_status (e_codec E) io copy) w = (Inr True, w')"
      "holds E w' (cs(claim_id_of copy \<mapsto> with_status copy r)) hs" "counted w w'"
    by (rule quiet_call [OF E held, where m = "\<lambda>io. save_claim_status (e_codec E) io copy" and
          spec = "\<lambda>io. spec_save_claim_status (e_codec E) copy", OF save_claim_status_refines [OF cd] spec], assumption)
  show ?thesis
    by (rule that [OF _ w'(2,3)]) (simp add: persist_claim_status_def and_then_def w'(1))
qed

lemma quiet_save_both:
  assumes E: "quiet E" and held: "holds E w cs hs" and hr: "hs h = Some hr" and id: "host_id_of host = h"
    and free: "\<And>h' hr'. hs h' = Some hr' \<Longrightarrow> h' \<noteq> h \<Longrightarrow> host_provider_resource host \<noteq> None
      \<Longrightarrow> host_provider_resource hr' \<noteq> host_provider_resource host"
    and r: "cs i = Some r" "claim_id_of claim = i" and fresh: "claim_deletion claim = claim_deletion r"
    and fits: "uint (hcs_observed_generation (hc_status (cr_resource claim))) \<le> i64_max"
  obtains w' where "save_both E (claim, host) result w = (Inr result, w')"
    and "holds E w' (cs(i \<mapsto> with_status claim r)) (hs(h \<mapsto> with_host_status host hr))" and "counted w w'"
proof -
  obtain w1 where w1: "save_host_call E host w = (Inr (), w1)" "holds E w1 cs (hs(h \<mapsto> with_host_status host hr))" "counted w w1"
    by (rule quiet_save_host [OF E held hr id free])
  have r': "cs (claim_id_of claim) = Some r" using r by simp
  obtain w2 where w2: "persist_claim_status E claim w1 = (Inr (), w2)"
      "holds E w2 (cs(claim_id_of claim \<mapsto> with_status claim r)) (hs(h \<mapsto> with_host_status host hr))" "counted w1 w2"
    by (rule quiet_persist [OF E w1(2) r' fresh fits])
  show ?thesis
    by (rule that [of w2]) (use w1(1,3) w2 r(2) in \<open>simp_all add: save_both_def and_then_def counted_trans [of w w1 w2]\<close>)
qed

text \<open>Copies made at the moment they are saved.\<close>

lemma quiet_saved_now:
  assumes E: "quiet E" and held: "holds E w cs hs" and hr: "hs h = Some hr" and r: "cs i = Some r"
    and host: "\<And>now. host_id_of (snd (both now)) = h"
      "\<And>now h' hr'. hs h' = Some hr' \<Longrightarrow> h' \<noteq> h \<Longrightarrow> host_provider_resource (snd (both now)) \<noteq> None
        \<Longrightarrow> host_provider_resource hr' \<noteq> host_provider_resource (snd (both now))"
    and claim: "\<And>now. claim_id_of (fst (both now)) = i" "\<And>now. claim_deletion (fst (both now)) = claim_deletion r"
      "\<And>now. uint (hcs_observed_generation (hc_status (cr_resource (fst (both now))))) \<le> i64_max"
  obtains w' now where "and_then (now_timestamp E) (\<lambda>now. save_both E (both now) result) w = (Inr result, w')"
    and "holds E w' (cs(i \<mapsto> with_status (fst (both now)) r)) (hs(h \<mapsto> with_host_status (snd (both now)) hr))"
    and "counted w w'"
proof -
  let ?now = "e_clock E (w_count w)"
  have "holds E (tick w) cs hs" using held by simp
  then obtain w' where w': "save_both E (fst (both ?now), snd (both ?now)) result (tick w) = (Inr result, w')"
      "holds E w' (cs(i \<mapsto> with_status (fst (both ?now)) r)) (hs(h \<mapsto> with_host_status (snd (both ?now)) hr))"
      "counted (tick w) w'"
    by (rule quiet_save_both [OF E, where host = "snd (both ?now)" and claim = "fst (both ?now)" and result = result])
      (use hr r host claim in blast)+
  then show ?thesis
    using that [OF _ w'(2)] counted_trans [OF counted_tick w'(3)] by (simp add: and_then_def now_timestamp_def)
qed

lemma quiet_ensure_host:
  assumes E: "quiet E" and held: "holds E w cs hs" and r: "cs i = Some r" "claim_deletion r = None" "claim_host r = None"
    and plan: "resources_fit resources" "plan \<noteq> []" and new: "hs (e_new_host_id E (w_count w)) = None"
  defines "h \<equiv> e_new_host_id E (w_count w)" and "now \<equiv> e_clock E (w_count w)"
  obtains w' where
    "storage_call E (\<lambda>io. ensure_host (e_codec E) io i plan resources) w = (Inr (new_host_record h i plan resources now), w')"
    and "holds E w' (cs(i \<mapsto> bound_claim (e_codec E) (initial_host h i resources now) now r))
      (hs(h \<mapsto> new_host_record h i plan resources now))"
    and "counted w w'"
proof -
  have cd: "codec_ok (e_codec E)" using E by (simp add: quiet_def)
  have valid: "validate_resources resources = Inr ()"
    using plan(1) by (simp add: validate_resources_Inr)
  have spec: "spec_ensure_host (e_codec E) (io_now (io_at E (w_count w))) (io_host_id (io_at E (w_count w))) i plan resources
      \<lparr>s_claims = cs, s_hosts = hs\<rparr> = (Inr (new_host_record h i plan resources now),
        \<lparr>s_claims = cs(i \<mapsto> bound_claim (e_codec E) (initial_host h i resources now) now r),
         s_hosts = hs(h \<mapsto> new_host_record h i plan resources now)\<rparr>)"
    using plan(2) r new by (simp add: spec_ensure_host_def valid Let_def h_def now_def new_host_record_def)
  show ?thesis
    by (rule quiet_call [OF E held, where m = "\<lambda>io. ensure_host (e_codec E) io i plan resources" and
          spec = "\<lambda>io. spec_ensure_host (e_codec E) (io_now io) (io_host_id io) i plan resources",
          OF ensure_host_refines [OF cd] spec], assumption) (rule that)
qed

text \<open>The hosts that are left when a claim is finalized.\<close>

definition hosts_without :: "HostClaimId \<Rightarrow> host_map \<Rightarrow> host_map" where
  "hosts_without i hs = (\<lambda>h. case hs h of None \<Rightarrow> None | Some hr \<Rightarrow> if host_claim_of hr = i then None else Some hr)"

lemma quiet_finalize:
  assumes E: "quiet E" and held: "holds E w cs hs" and r: "cs i = Some r"
  obtains w' where "storage_call E (\<lambda>io. finalize_claim (e_codec E) io i) w = (Inr (), w')"
    and "holds E w' (cs(i := None)) (hosts_without i hs)" and "counted w w'"
proof -
  have cd: "codec_ok (e_codec E)" using E by (simp add: quiet_def)
  have spec: "spec_finalize_claim (e_codec E) i \<lparr>s_claims = cs, s_hosts = hs\<rparr> =
      (Inr (), \<lparr>s_claims = cs(i := None), s_hosts = hosts_without i hs\<rparr>)"
    using r by (simp add: spec_finalize_claim_def hosts_without_def)
  show ?thesis
    by (rule quiet_call [OF E held, where m = "\<lambda>io. finalize_claim (e_codec E) io i" and
          spec = "\<lambda>io. spec_finalize_claim (e_codec E) i", OF finalize_claim_refines [OF cd] spec], assumption) (rule that)
qed

section \<open>What the database knows of stored records\<close>

lemma held_claim:
  assumes "quiet E" and "holds E w cs hs" and "cs i = Some r"
  shows "claim_id_of r = i" and "claim_fits r"
  using assms claim_view_iff [OF _ holdsD(1) [OF assms(2)], of i r] holdsD(2) [OF assms(2)]
  by (simp_all add: quiet_def)

lemma held_host:
  assumes "quiet E" and "holds E w cs hs" and "hs h = Some hr"
  shows "host_id_of hr = h"
  using assms host_view_Some [OF _ holdsD(1) [OF assms(2)], of h hr] holdsD(3) [OF assms(2)]
  by (simp add: quiet_def)

lemma held_host_of_claim:
  assumes "quiet E" and "holds E w cs hs" and "cs i = Some r"
  shows "claim_host r = Some h \<longleftrightarrow> (\<exists>hr. hs h = Some hr \<and> host_claim_of hr = i)"
  using assms claim_host_iff [OF _ holdsD(1) [OF assms(2)], of i r h] holdsD(2,3) [OF assms(2)]
  by (simp add: quiet_def)

lemma and_then_Inr: "m w = (Inr x, w') \<Longrightarrow> and_then m f w = f x w'"
  by (simp add: and_then_def)

end
