(* ===== verification/Convergence.thy ===== *)
theory Convergence
  imports Quiet
begin

text \<open>
  Progress: in a quiet environment, where no database call fails and no request arrives meanwhile,
  the storage calls of a step do what their specifications say, and a step can be followed through
  to its outcome. The lemmas follow the one claim of a database from its creation to a host that is
  Ready, and a claim whose deletion was requested to its removal.
\<close>

section \<open>One claim\<close>

text \<open>A database that holds one claim and at most its host.\<close>

definition lone :: "environment \<Rightarrow> 'p world \<Rightarrow> HostClaimRecord \<Rightarrow> host_map \<Rightarrow> bool" where
  "lone E w r hs \<longleftrightarrow> holds E w [claim_id_of r \<mapsto> r] hs"

lemma loneD:
  assumes "lone E w r hs"
  shows "db_fine E w" and "claim_view (e_codec E) (w_db w) = [claim_id_of r \<mapsto> r]"
    and "host_view (e_codec E) (w_db w) = hs"
  using holdsD [OF assms [unfolded lone_def]] by simp_all

lemma lone_frame [simp]:
  "lone E (tick w) r hs = lone E w r hs"
  "lone E (w\<lparr>w_provider := p\<rparr>) r hs = lone E w r hs"
  by (simp_all add: lone_def)

lemma lone_listed:
  assumes E: "quiet E" and lone: "lone E w r hs"
  shows "storage_call E (list_claims (e_codec E)) w = (Inr [r], tick w)"
proof -
  obtain rs where rs: "storage_call E (list_claims (e_codec E)) w = (Inr rs, tick w)"
      "\<And>x. x \<in> set rs \<longleftrightarrow> [claim_id_of r \<mapsto> r] (claim_id_of x) = Some x" "distinct (map claim_id_of rs)"
    by (rule quiet_list_claims [OF E lone [unfolded lone_def]]) blast
  have "x \<in> set rs \<longleftrightarrow> x = r" for x unfolding rs(2) by (auto split: if_splits)
  then have "set rs = {r}" by blast
  moreover have "distinct rs" using rs(3) by (simp add: distinct_map)
  ultimately have "rs = [r]" by (cases rs; cases "tl rs") auto
  with rs(1) show ?thesis by simp
qed

text \<open>Each storage call of the controller, on such a database.\<close>

lemma lone_ensure_host:
  assumes E: "quiet E" and lone: "lone E w r Map.empty" and r: "claim_deletion r = None" "claim_host r = None"
    and plan: "resources_fit resources" "plan \<noteq> []"
  obtains w' h now where
    "storage_call E (\<lambda>io. ensure_host (e_codec E) io (claim_id_of r) plan resources) w
       = (Inr (new_host_record h (claim_id_of r) plan resources now), w')"
    and "lone E w' (bound_claim (e_codec E) (initial_host h (claim_id_of r) resources now) now r)
      [h \<mapsto> new_host_record h (claim_id_of r) plan resources now]"
    and "w_provider w' = w_provider w" and "w_notified w' = w_notified w"
proof -
  show ?thesis
    by (rule quiet_ensure_host [OF E lone [unfolded lone_def] _ r plan], simp, simp, rule that, assumption)
      (simp_all add: lone_def countedD)
qed

lemma lone_get_host:
  assumes E: "quiet E" and lone: "lone E w r [h \<mapsto> hr]"
  obtains w' where "storage_call E (\<lambda>io. get_host (e_codec E) io h) w = (Inr hr, w')"
    and "lone E w' r [h \<mapsto> hr]" and "w_provider w' = w_provider w" and "w_notified w' = w_notified w"
  by (rule quiet_get_host [OF E lone [unfolded lone_def], of h hr], simp, rule that, assumption)
    (simp_all add: lone_def countedD)

lemma lone_save_host:
  assumes E: "quiet E" and lone: "lone E w r [h \<mapsto> hr]" and id: "host_id_of copy = h"
  obtains w' where "save_host_call E copy w = (Inr (), w')"
    and "lone E w' r [h \<mapsto> with_host_status copy hr]"
    and "w_provider w' = w_provider w" and "w_notified w' = w_notified w"
  by (rule quiet_save_host [OF E lone [unfolded lone_def] _ id, of hr], simp, simp split: if_splits, rule that, assumption)
    (simp_all add: lone_def countedD)

lemma lone_persist:
  assumes E: "quiet E" and lone: "lone E w r hs" and id: "claim_id_of copy = claim_id_of r"
    and fresh: "claim_deletion copy = claim_deletion r"
    and fits: "uint (hcs_observed_generation (hc_status (cr_resource copy))) \<le> i64_max"
  obtains w' where "persist_claim_status E copy w = (Inr (), w')"
    and "lone E w' (with_status copy r) hs"
    and "w_provider w' = w_provider w" and "w_notified w' = w_notified w"
proof -
  have same: "claim_id_of (with_status copy r) = claim_id_of r" by (simp add: with_status_def)
  show ?thesis
    by (rule quiet_persist [OF E lone [unfolded lone_def] _ fresh fits], simp add: id, rule that, assumption)
      (simp_all add: id lone_def same countedD)
qed

lemma lone_save_both:
  assumes E: "quiet E" and lone: "lone E w r [h \<mapsto> hr]" and "host_id_of host = h" and "claim_id_of claim = claim_id_of r"
    and "claim_deletion claim = claim_deletion r"
    and "uint (hcs_observed_generation (hc_status (cr_resource claim))) \<le> i64_max"
  obtains w' where "save_both E (claim, host) result w = (Inr result, w')"
    and "lone E w' (with_status claim r) [h \<mapsto> with_host_status host hr]"
    and "w_provider w' = w_provider w" and "w_notified w' = w_notified w"
proof -
  obtain w1 where w1: "save_host_call E host w = (Inr (), w1)" "lone E w1 r [h \<mapsto> with_host_status host hr]"
      "w_provider w1 = w_provider w" "w_notified w1 = w_notified w"
    by (rule lone_save_host [OF E lone assms(3)])
  obtain w2 where w2: "persist_claim_status E claim w1 = (Inr (), w2)"
      "lone E w2 (with_status claim r) [h \<mapsto> with_host_status host hr]"
      "w_provider w2 = w_provider w1" "w_notified w2 = w_notified w1"
    by (rule lone_persist [OF E w1(2) assms(4-6)])
  show ?thesis
    by (rule that [of w2]) (simp_all add: save_both_def and_then_def w1 w2)
qed

section \<open>Assigning a host\<close>

lemma assign_step:
  assumes E: "quiet E" and lone: "lone E w r Map.empty"
    and r: "claim_deletion r = None" "claim_host r = None" "next_reconcile_at_unix_ms (cr_retry r) = None"
    and plan: "select_plan P (spec_resources (hc_spec (cr_resource r))) (w_provider w) = (Inr (Some plan), p)"
      "resources_fit (plan_resources plan)" "plan_id plan \<noteq> []"
  obtains w' h now where "reconcile_once E P w = (Inr Progress, w')"
    and "w_provider w' = p" and "w_notified w' = w_notified w"
    and "lone E w' (bound_claim (e_codec E) (initial_host h (claim_id_of r) (plan_resources plan) now) now r)
      [h \<mapsto> new_host_record h (claim_id_of r) (plan_id plan) (plan_resources plan) now]"
proof -
  let ?w2 = "(tick (tick w))\<lparr>w_provider := p\<rparr>"
  let ?now_ms = "now_unix_ms (e_clock_ms E (w_count w))"
  have "lone E ?w2 r Map.empty" using lone by simp
  then obtain w' h now where w':
      "storage_call E (\<lambda>io. ensure_host (e_codec E) io (claim_id_of r) (plan_id plan) (plan_resources plan)) ?w2
        = (Inr (new_host_record h (claim_id_of r) (plan_id plan) (plan_resources plan) now), w')"
      "lone E w' (bound_claim (e_codec E) (initial_host h (claim_id_of r) (plan_resources plan) now) now r)
        [h \<mapsto> new_host_record h (claim_id_of r) (plan_id plan) (plan_resources plan) now]"
      "w_provider w' = w_provider ?w2" "w_notified w' = w_notified ?w2"
    by (rule lone_ensure_host [OF E _ r(1,2) plan(2,3)])
  have "provider_call (select_plan P (spec_resources (hc_spec (cr_resource r)))) (tick (tick w)) = (Inr (Inr (Some plan)), ?w2)"
    using plan(1) by (simp add: provider_call_def)
  then have unbound: "reconcile_unbound_claim E P r ?now_ms (tick (tick w)) = (Inr Progress, w')"
    using w'(1) by (simp add: reconcile_unbound_claim_def and_then_Inr)
  have listed: "storage_call E (list_claims (e_codec E)) (tick w) = (Inr [r], tick (tick w))"
    using lone by (intro lone_listed [OF E]) simp
  have "reconcile_active_claim E P ?now_ms r (tick (tick w)) = (Inr Progress, w')"
    using r unbound by (simp add: reconcile_active_claim_def is_due_def)
  then have "reconcile_once E P w = (Inr Progress, w')"
    using r listed by (simp add: reconcile_once_def read_now_unix_ms_def and_then_def)
  then show ?thesis using that w' by simp
qed

section \<open>A step of an assigned claim\<close>

text \<open>A step on one claim with an active host comes down to \<open>reconcile_host\<close>.\<close>

lemma lone_bound_step:
  assumes E: "quiet E" and lone: "lone E w r [h \<mapsto> hr]"
    and r: "claim_deletion r = None" "claim_host r = Some h"
  defines "now_ms \<equiv> now_unix_ms (e_clock_ms E (w_count w))"
  obtains w1 where "lone E w1 r [h \<mapsto> hr]" and "w_provider w1 = w_provider w" and "w_notified w1 = w_notified w"
    and "reconcile_once E P w = (if \<not> is_due (hr_retry hr) now_ms \<or> host_phase hr = Failed then (Inr Idle, w1)
      else reconcile_host E P r hr now_ms w1)"
proof -
  obtain w1 where w1: "storage_call E (\<lambda>io. get_host (e_codec E) io h) (tick (tick w)) = (Inr hr, w1)"
      "lone E w1 r [h \<mapsto> hr]" "w_provider w1 = w_provider (tick (tick w))" "w_notified w1 = w_notified (tick (tick w))"
    by (rule lone_get_host [OF E, of "tick (tick w)" r h hr]) (use lone in simp)
  have listed: "storage_call E (list_claims (e_codec E)) (tick w) = (Inr [r], tick (tick w))"
    using lone by (intro lone_listed [OF E]) simp
  let ?step = "if \<not> is_due (hr_retry hr) now_ms \<or> host_phase hr = Failed then (Inr Idle, w1)
      else reconcile_host E P r hr now_ms w1"
  have active: "reconcile_active_claim E P now_ms r (tick (tick w)) = ?step"
    using r w1(1) by (simp add: reconcile_active_claim_def and_then_def)
  obtain result w' where step: "?step = (result, w')" by (rule prod.exhaust)
  have "reconcile_once E P w = ?step"
  proof (cases result)
    case (Inl e)
    then show ?thesis
      using active step r listed by (simp add: reconcile_once_def read_now_unix_ms_def and_then_def now_ms_def)
  next
    case (Inr x)
    then show ?thesis
      using active step r listed
      by (cases x) (simp_all add: reconcile_once_def read_now_unix_ms_def and_then_def now_ms_def)
  qed
  then show ?thesis using that [of w1] w1 by simp
qed

text \<open>The claim's host is due, or it is passed over.\<close>

lemma lone_due_step:
  assumes E: "quiet E" and lone: "lone E w r [h \<mapsto> hr]"
    and r: "claim_deletion r = None" "claim_host r = Some h"
    and hr: "is_due (hr_retry hr) (now_unix_ms (e_clock_ms E (w_count w)))" "host_phase hr \<noteq> Failed"
  obtains w1 where "lone E w1 r [h \<mapsto> hr]" and "w_provider w1 = w_provider w" and "w_notified w1 = w_notified w"
    and "reconcile_once E P w = reconcile_host E P r hr (now_unix_ms (e_clock_ms E (w_count w))) w1"
  by (rule lone_bound_step [OF E lone r, where P = P]) (use that hr in auto)

lemma lone_passed_over:
  assumes E: "quiet E" and lone: "lone E w r [h \<mapsto> hr]"
    and r: "claim_deletion r = None" "claim_host r = Some h"
    and hr: "\<not> is_due (hr_retry hr) (now_unix_ms (e_clock_ms E (w_count w))) \<or> host_phase hr = Failed"
  obtains w1 where "reconcile_once E P w = (Inr Idle, w1)" and "lone E w1 r [h \<mapsto> hr]"
    and "w_provider w1 = w_provider w" and "w_notified w1 = w_notified w"
  by (rule lone_bound_step [OF E lone r, where P = P]) (use that hr in auto)

lemma lone_active_step:
  assumes E: "quiet E" and lone: "lone E w r [h \<mapsto> hr]"
    and r: "claim_deletion r = None" "claim_host r = Some h"
    and hr: "next_reconcile_at_unix_ms (hr_retry hr) = None" "host_phase hr \<noteq> Failed"
  obtains w1 now_ms where "lone E w1 r [h \<mapsto> hr]" and "w_provider w1 = w_provider w" and "w_notified w1 = w_notified w"
    and "\<And>result w'. reconcile_host E P r hr now_ms w1 = (Inr result, w') \<Longrightarrow> reconcile_once E P w = (Inr result, w')"
proof -
  have due: "is_due (hr_retry hr) (now_unix_ms (e_clock_ms E (w_count w)))" using hr(1) by (simp add: is_due_def)
  show ?thesis
    by (rule lone_due_step [OF E lone r due hr(2), where P = P]) (use that in auto)
qed

lemma stored_generation_fits:
  assumes "quiet E" and "lone E w r hs"
  shows "uint (hc_generation (cr_resource r)) \<le> i64_max"
  using held_claim(2) [OF assms(1) assms(2) [unfolded lone_def], of "claim_id_of r" r] by (simp add: claim_fits_def)

lemma host_id_stored:
  assumes "quiet E" and "lone E w r [h \<mapsto> hr]"
  shows "host_id_of hr = h"
  by (rule held_host [OF assms(1) assms(2) [unfolded lone_def]]) simp

text \<open>Applying an observation to the stored claim and host, and saving both.\<close>

lemma observation_saved:
  fixes res :: ProviderResource
  assumes E: "quiet E" and lone: "lone E w r [h \<mapsto> hr']" and id: "host_id_of host = h"
  defines "applied \<equiv> \<lambda>now. apply_provider_observation (e_codec E) now r host res"
  obtains w' now where
    "and_then (now_timestamp E) (\<lambda>now. save_both E (applied now) result) w = (Inr result, w')"
    and "lone E w' (with_status (fst (applied now)) r) [h \<mapsto> with_host_status (snd (applied now)) hr']"
    and "w_provider w' = w_provider w" and "w_notified w' = w_notified w"
proof -
  let ?now = "e_clock E (w_count w)"
  let ?claim = "fst (applied ?now)" and ?host = "snd (applied ?now)"
  have "same_claim r ?claim" "same_host host ?host"
    by (simp_all add: applied_def transitions_same_claim transitions_same_host)
  moreover have "claim_deletion ?claim = claim_deletion r"
    "hcs_observed_generation (hc_status (cr_resource ?claim)) = hc_generation (cr_resource r)"
    by (simp_all add: applied_def apply_provider_observation_claim [OF refl])
  ultimately obtain w' where w': "save_both E (?claim, ?host) result (tick w) = (Inr result, w')"
      "lone E w' (with_status ?claim r) [h \<mapsto> with_host_status ?host hr']"
      "w_provider w' = w_provider (tick w)" "w_notified w' = w_notified (tick w)"
    using lone_save_both [OF E, of "tick w" r h hr' ?host ?claim result] lone id stored_generation_fits [OF E lone]
    by (auto simp: same_claim_def same_host_def)
  then show ?thesis
    using that [of w' ?now] by (simp add: and_then_def now_timestamp_def)
qed

text \<open>The provider confirms what is recorded: an idle step.\<close>

lemma settled_step:
  assumes E: "quiet E" and lone: "lone E w r [h \<mapsto> hr]"
    and r: "claim_deletion r = None" "claim_host r = Some h"
    and observed: "observe P h (w_provider w) = (Inr (Present res), p)"
    and stable: "provider_observation_is_stable hr res"
  obtains w' now where "reconcile_once E P w = (Inr Idle, w')" and "w_provider w' = p" and "w_notified w' = w_notified w"
    and "lone E w' (with_status (fst (apply_provider_observation (e_codec E) now r hr res)) r)
      [h \<mapsto> with_host_status (snd (apply_provider_observation (e_codec E) now r hr res)) hr]"
proof -
  have id: "host_id_of hr = h" by (rule host_id_stored [OF E lone])
  have hr: "next_reconcile_at_unix_ms (hr_retry hr) = None" "host_phase hr \<noteq> Failed"
      "ownership_conflict hr res = None"
    using stable
    by (auto simp: provider_observation_is_stable_def ownership_conflict_def expected_phase_def
        split: ProviderLifecycle.splits)
  obtain w1 now_ms where w1: "lone E w1 r [h \<mapsto> hr]" "w_provider w1 = w_provider w" "w_notified w1 = w_notified w"
      "\<And>result w'. reconcile_host E P r hr now_ms w1 = (Inr result, w') \<Longrightarrow> reconcile_once E P w = (Inr result, w')"
    by (rule lone_active_step [OF E lone r hr(1,2), where P = P]) blast
  let ?w = "w1\<lparr>w_provider := p\<rparr>"
  obtain w' now where w':
      "and_then (now_timestamp E) (\<lambda>now. save_both E (apply_provider_observation (e_codec E) now r hr res) Idle) ?w = (Inr Idle, w')"
      "lone E w' (with_status (fst (apply_provider_observation (e_codec E) now r hr res)) r)
        [h \<mapsto> with_host_status (snd (apply_provider_observation (e_codec E) now r hr res)) hr]"
      "w_provider w' = w_provider ?w" "w_notified w' = w_notified ?w"
    by (rule observation_saved [OF E, of ?w r h hr hr res Idle]) (use w1(1) id in simp_all)
  have "reconcile_host E P r hr now_ms w1 = (Inr Idle, w')"
    using observed w'(1) hr(3) stable
    by (simp add: reconcile_host_def id and_then_def [of "provider_call _"] provider_call_def w1(2))
  with w1(4) w' w1(3) that show ?thesis by simp
qed

text \<open>The provider holds nothing for a pending host: the step creates its resource and records it.\<close>

lemma create_step:
  assumes E: "quiet E" and lone: "lone E w r [h \<mapsto> hr]"
    and r: "claim_deletion r = None" "claim_host r = Some h"
    and hr: "is_due (hr_retry hr) (now_unix_ms (e_clock_ms E (w_count w)))" "host_phase hr = Pending"
      "host_provider_resource hr = None"
    and observed: "observe P h (w_provider w) = (Inr Absent, p)"
    and created: "create_resource P h (hr_provider_plan_id hr) p = (Inr (Created res), p')"
  obtains w' now host1 where "reconcile_once E P w = (Inr Progress, w')" and "w_provider w' = p'" and "w_notified w' = w_notified w"
    and "same_host hr host1"
    and "lone E w' (with_status (fst (apply_provider_observation (e_codec E) now r host1 res)) r)
      [h \<mapsto> with_host_status (snd (apply_provider_observation (e_codec E) now r host1 res)) hr]"
proof -
  have id: "host_id_of hr = h" by (rule host_id_stored [OF E lone])
  let ?host1 = "(set_host_phase Provisioning hr)\<lparr>hr_retry := default_retry\<rparr>"
  have host1: "host_id_of ?host1 = h" "hr_provider_plan_id ?host1 = hr_provider_plan_id hr" "same_host hr ?host1"
    by (simp_all add: set_host_phase_def id same_host_def)
  let ?now_ms = "now_unix_ms (e_clock_ms E (w_count w))"
  obtain w1 where w1: "lone E w1 r [h \<mapsto> hr]" "w_provider w1 = w_provider w" "w_notified w1 = w_notified w"
      "reconcile_once E P w = reconcile_host E P r hr ?now_ms w1"
    by (rule lone_due_step [OF E lone r hr(1), where P = P]) (use hr(2) in simp)
  obtain w2 where w2: "save_host_call E ?host1 (w1\<lparr>w_provider := p\<rparr>) = (Inr (), w2)"
      "lone E w2 r [h \<mapsto> with_host_status ?host1 hr]" "w_provider w2 = w_provider (w1\<lparr>w_provider := p\<rparr>)"
      "w_notified w2 = w_notified (w1\<lparr>w_provider := p\<rparr>)"
    by (rule lone_save_host [OF E, of "w1\<lparr>w_provider := p\<rparr>" r h hr ?host1]) (use w1(1) host1(1) in simp_all)
  let ?w3 = "w2\<lparr>w_provider := p'\<rparr>"
  let ?applied = "\<lambda>now. apply_provider_observation (e_codec E) now r ?host1 res"
  obtain w' now where w':
      "and_then (now_timestamp E) (\<lambda>now. save_both E (?applied now) Progress) ?w3 = (Inr Progress, w')"
      "lone E w' (with_status (fst (?applied now)) r)
        [h \<mapsto> with_host_status (snd (?applied now)) (with_host_status ?host1 hr)]"
      "w_provider w' = w_provider ?w3" "w_notified w' = w_notified ?w3"
    by (rule observation_saved [OF E, of ?w3 r h "with_host_status ?host1 hr" ?host1 res Progress])
      (use w2(2) host1(1) in simp_all)
  have "reconcile_host E P r hr ?now_ms w1 = (Inr Progress, w')"
    using observed created w'(1) hr w2(1) unfolding set_host_phase_def
    by (simp add: reconcile_host_def id and_then_def [of "provider_call _"] provider_call_def w1(2)
        Let_def set_host_phase_def and_then_def [of "save_host_call _ _"] w2(3))
  then have "reconcile_once E P w = (Inr Progress, w')" by (simp add: w1(4))
  from that [OF this] w'(2-4) w1(3) w2(4) host1(3) show ?thesis by simp
qed

section \<open>A create that fails\<close>

lemma stored_observed_fits:
  assumes "quiet E" and "lone E w r hs"
  shows "uint (hcs_observed_generation (hc_status (cr_resource r))) \<le> i64_max"
  using held_claim(2) [OF assms(1) assms(2) [unfolded lone_def], of "claim_id_of r" r] by (simp add: claim_fits_def)

text \<open>Saving a transition that leaves the claim's observed generation alone.\<close>

lemma transition_saved:
  assumes E: "quiet E" and lone: "lone E w r [h \<mapsto> hr']" and id: "\<And>now. host_id_of (snd (both now)) = h"
    and r: "\<And>now. claim_id_of (fst (both now)) = claim_id_of r" "\<And>now. claim_deletion (fst (both now)) = claim_deletion r"
      "\<And>now. hcs_observed_generation (hc_status (cr_resource (fst (both now)))) = hcs_observed_generation (hc_status (cr_resource r))"
  obtains w' now where "and_then (now_timestamp E) (\<lambda>now. save_both E (both now) result) w = (Inr result, w')"
    and "lone E w' (with_status (fst (both now)) r) [h \<mapsto> with_host_status (snd (both now)) hr']"
    and "w_provider w' = w_provider w" and "w_notified w' = w_notified w"
proof -
  let ?now = "e_clock E (w_count w)"
  obtain w' where w': "save_both E (fst (both ?now), snd (both ?now)) result (tick w) = (Inr result, w')"
      "lone E w' (with_status (fst (both ?now)) r) [h \<mapsto> with_host_status (snd (both ?now)) hr']"
      "w_provider w' = w_provider (tick w)" "w_notified w' = w_notified (tick w)"
    by (rule lone_save_both [OF E, of "tick w" r h hr' "snd (both ?now)" "fst (both ?now)" result])
      (use lone id r stored_observed_fits [OF E lone] in simp_all)
  then show ?thesis
    using that [of w' ?now] by (simp add: and_then_def now_timestamp_def)
qed

text \<open>The provider holds nothing for a host that was being provisioned: it is Pending again.\<close>

lemma lost_step:
  assumes E: "quiet E" and lone: "lone E w r [h \<mapsto> hr]"
    and r: "claim_deletion r = None" "claim_host r = Some h"
    and hr: "is_due (hr_retry hr) (now_unix_ms (e_clock_ms E (w_count w)))" "host_phase hr \<noteq> Failed"
      "host_provider_resource hr \<noteq> None \<or> host_phase hr \<noteq> Pending"
    and observed: "observe P h (w_provider w) = (Inr Absent, p)"
  obtains w' r' hr' where "reconcile_once E P w = (Inr Progress, w')" and "w_provider w' = p" and "w_notified w' = w_notified w"
    and "lone E w' r' [h \<mapsto> hr']" and "claim_id_of r' = claim_id_of r" and "claim_deletion r' = None" and "claim_host r' = Some h"
    and "host_phase hr' = Pending" and "host_provider_resource hr' = None" and "hr_retry hr' = default_retry"
    and "hr_provider_plan_id hr' = hr_provider_plan_id hr"
proof -
  have id: "host_id_of hr = h" by (rule host_id_stored [OF E lone])
  let ?now_ms = "now_unix_ms (e_clock_ms E (w_count w))"
  obtain w1 where w1: "lone E w1 r [h \<mapsto> hr]" "w_provider w1 = w_provider w" "w_notified w1 = w_notified w"
      "reconcile_once E P w = reconcile_host E P r hr ?now_ms w1"
    by (rule lone_due_step [OF E lone r hr(1,2), where P = P])
  let ?w = "w1\<lparr>w_provider := p\<rparr>"
  let ?both = "\<lambda>now. mark_provider_absent now r hr"
  obtain w' now where w': "and_then (now_timestamp E) (\<lambda>now. save_both E (?both now) Progress) ?w = (Inr Progress, w')"
      "lone E w' (with_status (fst (?both now)) r) [h \<mapsto> with_host_status (snd (?both now)) hr]"
      "w_provider w' = w_provider ?w" "w_notified w' = w_notified ?w"
    by (rule transition_saved [OF E, of ?w r h hr ?both Progress])
      (use w1(1) id in \<open>simp_all add: mark_provider_absent_def edit_defs\<close>)
  have "reconcile_host E P r hr ?now_ms w1 = (Inr Progress, w')"
    using observed w'(1) hr(3)
    by (simp add: reconcile_host_def id and_then_def [of "provider_call _"] provider_call_def w1(2))
  then show ?thesis
    by (intro that [OF _ _ _ w'(2)]) (use w1(3,4) w'(3,4) r in \<open>simp_all add: mark_provider_absent_def edit_defs\<close>)
qed

text \<open>A create that did not give a resource: the host is in provisioning, as the outcome says.\<close>

lemma uncreated_step:
  fixes hr :: HostRecord and E :: environment and w :: "'p world"
  defines "host1 \<equiv> (set_host_phase Provisioning hr)\<lparr>hr_retry := default_retry\<rparr>"
    and "now_ms \<equiv> now_unix_ms (e_clock_ms E (w_count w))"
  assumes E: "quiet E" and lone: "lone E w r [h \<mapsto> hr]"
    and r: "claim_deletion r = None" "claim_host r = Some h"
    and hr: "is_due (hr_retry hr) now_ms" "host_phase hr = Pending" "host_provider_resource hr = None"
    and observed: "observe P h (w_provider w) = (Inr Absent, p)"
    and answer: "create_resource P h (hr_provider_plan_id hr) p = (outcome, p')"
    and both: "outcome = Inl error \<and> both = (\<lambda>now. schedule_host_provider_error now r host1 error now_ms)
      \<or> outcome = Inr CreateOutcomeUnknown \<and> both = (\<lambda>now. mark_outcome_unknown now r host1 ''CreateOutcomeUnknown''
          ''The provider may have created the Host. The next step will rediscover it by Host ID.'' now_ms)"
  obtains w' now where "reconcile_once E P w = (Inr Progress, w')" and "w_provider w' = p'" and "w_notified w' = w_notified w"
    and "lone E w' (with_status (fst (both now)) r) [h \<mapsto> with_host_status (snd (both now)) hr]"
proof -
  have id: "host_id_of hr = h" by (rule host_id_stored [OF E lone])
  then have host1: "host_id_of host1 = h" by (simp add: host1_def set_host_phase_def)
  obtain w1 where w1: "lone E w1 r [h \<mapsto> hr]" "w_provider w1 = w_provider w" "w_notified w1 = w_notified w"
      "reconcile_once E P w = reconcile_host E P r hr now_ms w1"
    unfolding now_ms_def by (rule lone_due_step [OF E lone r hr(1) [unfolded now_ms_def], where P = P]) (use hr(2) in simp)
  obtain w2 where w2: "save_host_call E host1 (w1\<lparr>w_provider := p\<rparr>) = (Inr (), w2)"
      "lone E w2 r [h \<mapsto> with_host_status host1 hr]" "w_provider w2 = w_provider (w1\<lparr>w_provider := p\<rparr>)"
      "w_notified w2 = w_notified (w1\<lparr>w_provider := p\<rparr>)"
    by (rule lone_save_host [OF E, of "w1\<lparr>w_provider := p\<rparr>" r h hr host1]) (use w1(1) host1 in simp_all)
  have kept: "host_id_of (snd (both now)) = h" "claim_id_of (fst (both now)) = claim_id_of r"
      "claim_deletion (fst (both now)) = claim_deletion r"
      "hcs_observed_generation (hc_status (cr_resource (fst (both now)))) = hcs_observed_generation (hc_status (cr_resource r))" for now
    using both host1 by (auto simp: schedule_host_provider_error_def mark_outcome_unknown_def mark_host_failed_def edit_defs
        split: ProviderError.splits)
  let ?w3 = "w2\<lparr>w_provider := p'\<rparr>"
  obtain w' now where w': "and_then (now_timestamp E) (\<lambda>now. save_both E (both now) Progress) ?w3 = (Inr Progress, w')"
      "lone E w' (with_status (fst (both now)) r) [h \<mapsto> with_host_status (snd (both now)) (with_host_status host1 hr)]"
      "w_provider w' = w_provider ?w3" "w_notified w' = w_notified ?w3"
    by (rule transition_saved [OF E, of ?w3 r h "with_host_status host1 hr" both Progress]) (use w2(2) kept in simp_all)
  have "reconcile_host E P r hr now_ms w1 = (Inr Progress, w')"
    using observed answer w'(1) hr w2(1) both
    by (auto simp: reconcile_host_def id and_then_def [of "provider_call _"] provider_call_def w1(2)
        Let_def host1_def set_host_phase_def and_then_def [of "save_host_call _ _"] w2(3))
  then show ?thesis
    by (intro that [of w' now]) (use w1(3,4) w2(4) w'(2-4) in simp_all)
qed

lemma failed_create_step:
  assumes E: "quiet E" and lone: "lone E w r [h \<mapsto> hr]"
    and r: "claim_deletion r = None" "claim_host r = Some h"
    and hr: "is_due (hr_retry hr) (now_unix_ms (e_clock_ms E (w_count w)))" "host_phase hr = Pending"
      "host_provider_resource hr = None"
    and observed: "observe P h (w_provider w) = (Inr Absent, p)"
    and failed: "create_resource P h (hr_provider_plan_id hr) p = (Inl (Transient message), p')"
  obtains w' r' hr' where "reconcile_once E P w = (Inr Progress, w')" and "w_provider w' = p'" and "w_notified w' = w_notified w"
    and "lone E w' r' [h \<mapsto> hr']" and "claim_id_of r' = claim_id_of r" and "host_phase hr' = Provisioning"
    and "hr_retry hr' = \<lparr>attempt = 1,
      next_reconcile_at_unix_ms = Some (retry_deadline (now_unix_ms (e_clock_ms E (w_count w))) 1),
      last_error_kind = Some ''ProviderUnavailable'', last_error_message = Some message\<rparr>"
proof -
  let ?host1 = "(set_host_phase Provisioning hr)\<lparr>hr_retry := default_retry\<rparr>"
  let ?both = "\<lambda>now. schedule_host_provider_error now r ?host1 (Transient message) (now_unix_ms (e_clock_ms E (w_count w)))"
  obtain w' now where w': "reconcile_once E P w = (Inr Progress, w')" "w_provider w' = p'" "w_notified w' = w_notified w"
      "lone E w' (with_status (fst (?both now)) r) [h \<mapsto> with_host_status (snd (?both now)) hr]"
    by (rule uncreated_step [OF E lone r hr observed failed, of "Transient message" ?both]) simp
  have "saturating_add_u32 0 1 = 1" by (simp add: saturating_add_u32_def)
  then show ?thesis
    by (intro that [OF w']) (simp_all add: schedule_host_provider_error_def edit_defs default_retry_def)
qed

section \<open>From a claim to a Ready host\<close>

text \<open>A wake runs its steps until one is idle.\<close>

lemma reconcile_steps_Progress:
  "reconcile_once E P w = (Inr Progress, w') \<Longrightarrow> reconcile_steps E P (Suc n) w = reconcile_steps E P n w'"
  by simp

lemma reconcile_steps_Idle:
  "reconcile_once E P w = (Inr Idle, w') \<Longrightarrow> reconcile_steps E P (Suc n) w = (False, w')"
  by simp

text \<open>
  A resource that was recorded and is Ready: the next step observes it again, finds nothing to do, and
  claim and host are Ready.
\<close>

lemma recorded_settles:
  fixes res :: ProviderResource
  assumes E: "quiet E" and r: "claim_deletion r = None" "claim_host r = Some h"
  defines "applied \<equiv> \<lambda>now claim host. apply_provider_observation (e_codec E) now claim host res"
  assumes lone: "lone E w (with_status (fst (applied t r host)) r) [h \<mapsto> with_host_status (snd (applied t r host)) hr]"
    and observed: "observe P h (w_provider w) = (Inr (Present res), p)" and ready: "pr_lifecycle res = LifecycleReady"
  obtains w' r' hr' where "reconcile_once E P w = (Inr Idle, w')" and "w_provider w' = p" and "w_notified w' = w_notified w"
    and "lone E w' r' [h \<mapsto> hr']" and "claim_id_of r' = claim_id_of r" and "claim_host r' = Some h" and "claim_deletion r' = None"
    and "hr_provider_plan_id hr' = hr_provider_plan_id hr"
    and "h_allocatable_resources (hr_resource hr') = h_allocatable_resources (hr_resource hr)"
    and "host_phase hr' = Ready" and "host_provider_resource hr' = Some (pr_id res)" and "hr_retry hr' = default_retry"
    and "map_option c_status (condition_at (claim_conditions r') ''Ready'') = Some StatusTrue"
proof -
  let ?r = "with_status (fst (applied t r host)) r"
  let ?hr = "with_host_status (snd (applied t r host)) hr"
  have stable: "provider_observation_is_stable ?hr res"
    using observation_then_stable [of "e_codec E" t r host res] by (simp add: applied_def provider_observation_is_stable_def)
  have r': "claim_deletion ?r = None" "claim_host ?r = Some h" by (simp_all add: r)
  obtain w' now where w': "reconcile_once E P w = (Inr Idle, w')" "w_provider w' = p" "w_notified w' = w_notified w"
      "lone E w' (with_status (fst (apply_provider_observation (e_codec E) now ?r ?hr res)) ?r)
        [h \<mapsto> with_host_status (snd (apply_provider_observation (e_codec E) now ?r ?hr res)) ?hr]"
    by (rule settled_step [OF E lone r' observed stable])
  show ?thesis
    by (rule that [OF w'(1-4)])
      (use ready r in \<open>simp_all add: apply_provider_observation_host [OF refl]
        apply_provider_observation_conditions(1) [OF refl refl] expected_phase_def\<close>)
qed

text \<open>
  A claim a plan suffices for, with a provider that answers: one wake assigns a host, creates its
  resource, and leaves claim and host Ready.
\<close>

lemma wake_makes_ready:
  assumes E: "quiet E" and lone: "lone E w r Map.empty"
    and r: "claim_deletion r = None" "claim_host r = None" "next_reconcile_at_unix_ms (cr_retry r) = None"
    and plan: "select_plan P (spec_resources (hc_spec (cr_resource r))) (w_provider w) = (Inr (Some plan), p0)"
      "resources_fit (plan_resources plan)" "plan_id plan \<noteq> []"
    and provider: "\<And>h. \<exists>p1 p2 p3 res. observe P h p0 = (Inr Absent, p1)
      \<and> create_resource P h (plan_id plan) p1 = (Inr (Created res), p2)
      \<and> observe P h p2 = (Inr (Present res), p3) \<and> pr_lifecycle res = LifecycleReady"
  obtains w' r' h hr p1 res p2 p3 where "reconcile_wake E P w = w'" and "w_notified w' = w_notified w"
    and "lone E w' r' [h \<mapsto> hr]" and "claim_id_of r' = claim_id_of r" and "claim_host r' = Some h"
    and "hr_provider_plan_id hr = plan_id plan" and "h_allocatable_resources (hr_resource hr) = plan_resources plan"
    and "host_phase hr = Ready" and "host_provider_resource hr = Some (pr_id res)"
    and "hr_retry hr = default_retry" and "claim_deletion r' = None"
    and "map_option c_status (condition_at (claim_conditions r') ''Ready'') = Some StatusTrue"
    and "observe P h p0 = (Inr Absent, p1)" and "create_resource P h (plan_id plan) p1 = (Inr (Created res), p2)"
    and "observe P h p2 = (Inr (Present res), p3)" and "w_provider w' = p3"
proof -
  obtain w1 h t where w1: "reconcile_once E P w = (Inr Progress, w1)" "w_provider w1 = p0" "w_notified w1 = w_notified w"
      "lone E w1 (bound_claim (e_codec E) (initial_host h (claim_id_of r) (plan_resources plan) t) t r)
        [h \<mapsto> new_host_record h (claim_id_of r) (plan_id plan) (plan_resources plan) t]"
    by (rule assign_step [OF E lone r plan])
  let ?r1 = "bound_claim (e_codec E) (initial_host h (claim_id_of r) (plan_resources plan) t) t r"
  let ?hr1 = "new_host_record h (claim_id_of r) (plan_id plan) (plan_resources plan) t"
  obtain p1 p2 p3 res where p: "observe P h p0 = (Inr Absent, p1)"
      "create_resource P h (plan_id plan) p1 = (Inr (Created res), p2)"
      "observe P h p2 = (Inr (Present res), p3)" "pr_lifecycle res = LifecycleReady"
    using provider by blast
  have hr1: "is_due (hr_retry ?hr1) now_ms" "host_phase ?hr1 = Pending"
      "host_provider_resource ?hr1 = None" "hr_provider_plan_id ?hr1 = plan_id plan"
      "h_allocatable_resources (hr_resource ?hr1) = plan_resources plan" for now_ms
    by (simp_all add: new_host_record_def default_retry_def initial_host_def is_due_def)
  have r1: "claim_deletion ?r1 = None" "claim_host ?r1 = Some h" by (simp_all add: r)
  have created: "create_resource P h (hr_provider_plan_id ?hr1) p1 = (Inr (Created res), p2)"
    using p(2) by (simp add: hr1)
  obtain w2 t2 host1 where w2: "reconcile_once E P w1 = (Inr Progress, w2)" "w_provider w2 = p2"
      "w_notified w2 = w_notified w1" "same_host ?hr1 host1"
      "lone E w2 (with_status (fst (apply_provider_observation (e_codec E) t2 ?r1 host1 res)) ?r1)
        [h \<mapsto> with_host_status (snd (apply_provider_observation (e_codec E) t2 ?r1 host1 res)) ?hr1]"
    by (rule create_step [OF E w1(4) r1 hr1(1-3) p(1) [folded w1(2)] created])
  obtain w3 r3 hr3 where w3: "reconcile_once E P w2 = (Inr Idle, w3)" "w_provider w3 = p3" "w_notified w3 = w_notified w2"
      "lone E w3 r3 [h \<mapsto> hr3]" "claim_id_of r3 = claim_id_of ?r1" "claim_host r3 = Some h" "claim_deletion r3 = None"
      and hr3: "hr_provider_plan_id hr3 = hr_provider_plan_id ?hr1"
      "h_allocatable_resources (hr_resource hr3) = h_allocatable_resources (hr_resource ?hr1)"
      "host_phase hr3 = Ready" "host_provider_resource hr3 = Some (pr_id res)" "hr_retry hr3 = default_retry"
      "map_option c_status (condition_at (claim_conditions r3) ''Ready'') = Some StatusTrue"
    by (rule recorded_settles [OF E r1 w2(5) p(3) [folded w2(2)] p(4)])
  have "reconcile_steps E P MAX_STEPS_PER_WAKE w = (False, w3)"
    using w1(1) w2(1) w3(1) by (simp add: MAX_STEPS_PER_WAKE_def eval_nat_numeral)
  then have "reconcile_wake E P w = w3" by (simp add: reconcile_wake_def)
  then show ?thesis
    by (rule that [OF _ _ w3(4)]) (use w1(3) w2(3) w3 hr3 p hr1 r in simp_all)
qed

section \<open>From a deletion request to removal\<close>

definition vacant :: "environment \<Rightarrow> 'p world \<Rightarrow> bool" where
  "vacant E w \<longleftrightarrow> holds E w Map.empty Map.empty"

lemma vacant_frame [simp]: "vacant E (tick w) = vacant E w"
  by (simp add: vacant_def)

lemma vacant_step:
  assumes E: "quiet E" and vacant: "vacant E w"
  shows "reconcile_once E P w = (Inr Idle, tick (tick w))"
proof -
  have "holds E (tick w) Map.empty Map.empty" using vacant by (simp add: vacant_def)
  then obtain rs where rs: "storage_call E (list_claims (e_codec E)) (tick w) = (Inr rs, tick (tick w))"
      "\<And>x. x \<in> set rs \<longleftrightarrow> Map.empty (claim_id_of x) = Some x"
    by (rule quiet_list_claims [OF E]) blast
  then have "rs = []" by (cases rs) auto
  with rs(1) show ?thesis by (simp add: reconcile_once_def read_now_unix_ms_def and_then_def)
qed

lemma lone_finalize:
  assumes E: "quiet E" and lone: "lone E w r hs" and only: "\<And>h hr. hs h = Some hr \<Longrightarrow> host_claim_of hr = claim_id_of r"
  obtains w' where "storage_call E (\<lambda>io. finalize_claim (e_codec E) io (claim_id_of r)) w = (Inr (), w')"
    and "vacant E w'" and "w_provider w' = w_provider w" and "w_notified w' = w_notified w"
proof -
  have gone: "hosts_without (claim_id_of r) hs = Map.empty"
    using only by (auto simp: hosts_without_def fun_eq_iff split: option.split)
  show ?thesis
    by (rule quiet_finalize [OF E lone [unfolded lone_def], of "claim_id_of r" r], simp, rule that, assumption)
      (simp_all add: vacant_def gone countedD)
qed

text \<open>A step on one claim that is being deleted comes down to \<open>reconcile_deleting_claim\<close>.\<close>

lemma lone_deleting_step:
  assumes E: "quiet E" and lone: "lone E w r hs"
    and r: "claim_deletion r \<noteq> None" "next_reconcile_at_unix_ms (cr_retry r) = None"
    and run: "reconcile_deleting_claim E P r (now_unix_ms (e_clock_ms E (w_count w))) (tick (tick w)) = (Inr Progress, w')"
  shows "reconcile_once E P w = (Inr Progress, w')"
proof -
  have listed: "storage_call E (list_claims (e_codec E)) (tick w) = (Inr [r], tick (tick w))"
    using lone by (intro lone_listed [OF E]) simp
  then show ?thesis
    using r run by (simp add: reconcile_once_def read_now_unix_ms_def and_then_def is_due_def)
qed

lemma host_claim_stored:
  assumes "quiet E" and "lone E w r [h \<mapsto> hr]" and "claim_host r = Some h"
  shows "host_claim_of hr = claim_id_of r"
  using held_host_of_claim [OF assms(1) assms(2) [unfolded lone_def], of "claim_id_of r" r h] assms(3) by auto

lemma absent_due_step:
  assumes E: "quiet E" and lone: "lone E w r [h \<mapsto> hr]"
    and r: "claim_deletion r \<noteq> None" "next_reconcile_at_unix_ms (cr_retry r) = None" "claim_host r = Some h"
    and hr: "is_due (hr_retry hr) (now_unix_ms (e_clock_ms E (w_count w)))"
    and observed: "observe P h (w_provider w) = (Inr Absent, p)"
  obtains w' where "reconcile_once E P w = (Inr Progress, w')" and "vacant E w'" and "w_provider w' = p"
    and "w_notified w' = w_notified w"
proof -
  have id: "host_id_of hr = h" by (rule host_id_stored [OF E lone])
  obtain w1 where w1: "storage_call E (\<lambda>io. get_host (e_codec E) io h) (tick (tick w)) = (Inr hr, w1)"
      "lone E w1 r [h \<mapsto> hr]" "w_provider w1 = w_provider (tick (tick w))" "w_notified w1 = w_notified (tick (tick w))"
    by (rule lone_get_host [OF E, of "tick (tick w)" r h hr]) (use lone in simp)
  obtain w2 where w2: "storage_call E (\<lambda>io. finalize_claim (e_codec E) io (claim_id_of r)) (w1\<lparr>w_provider := p\<rparr>) = (Inr (), w2)"
      "vacant E w2" "w_provider w2 = w_provider (w1\<lparr>w_provider := p\<rparr>)" "w_notified w2 = w_notified (w1\<lparr>w_provider := p\<rparr>)"
    by (rule lone_finalize [OF E, of "w1\<lparr>w_provider := p\<rparr>" r "[h \<mapsto> hr]"])
      (use w1(2) host_claim_stored [OF E lone r(3)] in \<open>auto split: if_splits\<close>)
  have "reconcile_deleting_claim E P r (now_unix_ms (e_clock_ms E (w_count w))) (tick (tick w)) = (Inr Progress, w2)"
    using r hr observed w1(1,3) w2(1)
    by (simp add: reconcile_deleting_claim_def and_then_def provider_call_def id)
  from that [OF lone_deleting_step [OF E lone r(1,2) this]] w2 w1(4) show ?thesis by simp
qed

lemma absent_step:
  assumes E: "quiet E" and lone: "lone E w r [h \<mapsto> hr]"
    and r: "claim_deletion r \<noteq> None" "next_reconcile_at_unix_ms (cr_retry r) = None" "claim_host r = Some h"
    and hr: "next_reconcile_at_unix_ms (hr_retry hr) = None"
    and observed: "observe P h (w_provider w) = (Inr Absent, p)"
  obtains w' where "reconcile_once E P w = (Inr Progress, w')" and "vacant E w'" and "w_provider w' = p"
    and "w_notified w' = w_notified w"
  by (rule absent_due_step [OF E lone r _ observed]) (simp add: is_due_def hr, rule that)

text \<open>The delete call, whatever it answers.\<close>

lemma deleting_step:
  assumes E: "quiet E" and lone: "lone E w r [h \<mapsto> hr]"
    and r: "claim_deletion r \<noteq> None" "next_reconcile_at_unix_ms (cr_retry r) = None" "claim_host r = Some h"
    and hr: "next_reconcile_at_unix_ms (hr_retry hr) = None" "ownership_conflict hr res = None"
    and observed: "observe P h (w_provider w) = (Inr (Present res), p)"
    and deleted: "delete_resource P h p = (outcome, p')"
  obtains w' host1 hr' where "reconcile_once E P w = (Inr Progress, w')" and "lone E w' r [h \<mapsto> hr']"
    and "hr_retry hr' = hr_retry (after_delete host1 outcome (now_unix_ms (e_clock_ms E (w_count w))))"
    and "hr_retry host1 = default_retry" and "w_provider w' = p'" and "w_notified w' = w_notified w"
proof -
  have id: "host_id_of hr = h" by (rule host_id_stored [OF E lone])
  obtain w1 where w1: "storage_call E (\<lambda>io. get_host (e_codec E) io h) (tick (tick w)) = (Inr hr, w1)"
      "lone E w1 r [h \<mapsto> hr]" "w_provider w1 = w_provider (tick (tick w))" "w_notified w1 = w_notified (tick (tick w))"
    by (rule lone_get_host [OF E, of "tick (tick w)" r h hr]) (use lone in simp)
  let ?w2 = "tick (w1\<lparr>w_provider := p\<rparr>)"
  let ?host1 = "(update_host_status (\<lambda>s. s\<lparr>hs_phase := Deleting, hs_provider_resource_id := Some (pr_id res),
      hs_observed_at := Some (e_clock E (w_count w1))\<rparr>) hr)\<lparr>hr_retry := default_retry\<rparr>"
  obtain w3 where w3: "save_host_call E ?host1 ?w2 = (Inr (), w3)" "lone E w3 r [h \<mapsto> with_host_status ?host1 hr]"
      "w_provider w3 = w_provider ?w2" "w_notified w3 = w_notified ?w2"
    by (rule lone_save_host [OF E, of ?w2 r h hr ?host1]) (use w1(2) id in simp_all)
  let ?now_ms = "now_unix_ms (e_clock_ms E (w_count w))"
  let ?host2 = "after_delete ?host1 outcome ?now_ms"
  have id2: "host_id_of ?host2 = h"
    using id by (simp add: after_delete_def schedule_host_retry_only_def Let_def
        split: sum.split DeleteOutcome.split ProviderError.split)
  obtain w4 where w4: "save_host_call E ?host2 (w3\<lparr>w_provider := p'\<rparr>) = (Inr (), w4)"
      "lone E w4 r [h \<mapsto> with_host_status ?host2 (with_host_status ?host1 hr)]"
      "w_provider w4 = w_provider (w3\<lparr>w_provider := p'\<rparr>)" "w_notified w4 = w_notified (w3\<lparr>w_provider := p'\<rparr>)"
    by (rule lone_save_host [OF E, of "w3\<lparr>w_provider := p'\<rparr>" r h "with_host_status ?host1 hr" ?host2])
      (use w3(2) id2 in simp_all)
  have "reconcile_deleting_claim E P r ?now_ms (tick (tick w)) = (Inr Progress, w4)"
    using r hr observed deleted w1(1,3) w3(1,3) w4(1)
    by (simp add: reconcile_deleting_claim_def and_then_def provider_call_def is_due_def id now_timestamp_def Let_def)
  from that [OF lone_deleting_step [OF E lone r(1,2) this] w4(2), of ?host1] w4(3,4) w3(4) w1(4) show ?thesis by simp
qed

lemma delete_step:
  assumes E: "quiet E" and lone: "lone E w r [h \<mapsto> hr]"
    and r: "claim_deletion r \<noteq> None" "next_reconcile_at_unix_ms (cr_retry r) = None" "claim_host r = Some h"
    and hr: "next_reconcile_at_unix_ms (hr_retry hr) = None" "ownership_conflict hr res = None"
    and observed: "observe P h (w_provider w) = (Inr (Present res), p)"
    and deleted: "delete_resource P h p = (Inr Deleted, p')"
  obtains w' hr' where "reconcile_once E P w = (Inr Progress, w')" and "lone E w' r [h \<mapsto> hr']"
    and "next_reconcile_at_unix_ms (hr_retry hr') = None" and "w_provider w' = p'" and "w_notified w' = w_notified w"
  by (rule deleting_step [OF assms], rule that, assumption, assumption) (simp_all add: after_delete_def default_retry_def)


text \<open>
  A claim whose deletion was requested: one wake deletes its host's resource, sees it absent, and
  removes claim and host.
\<close>

lemma wake_releases:
  assumes E: "quiet E" and lone: "lone E w r [h \<mapsto> hr]"
    and r: "claim_deletion r \<noteq> None" "next_reconcile_at_unix_ms (cr_retry r) = None" "claim_host r = Some h"
    and hr: "next_reconcile_at_unix_ms (hr_retry hr) = None" "ownership_conflict hr res = None"
    and observed: "observe P h (w_provider w) = (Inr (Present res), p1)"
    and deleted: "delete_resource P h p1 = (Inr Deleted, p2)"
    and absent: "observe P h p2 = (Inr Absent, p3)"
  shows "vacant E (reconcile_wake E P w) \<and> w_provider (reconcile_wake E P w) = p3
    \<and> w_notified (reconcile_wake E P w) = w_notified w"
proof -
  obtain w1 hr1 where w1: "reconcile_once E P w = (Inr Progress, w1)" "lone E w1 r [h \<mapsto> hr1]"
      "next_reconcile_at_unix_ms (hr_retry hr1) = None" "w_provider w1 = p2" "w_notified w1 = w_notified w"
    by (rule delete_step [OF E lone r hr observed deleted])
  obtain w2 where w2: "reconcile_once E P w1 = (Inr Progress, w2)" "vacant E w2" "w_provider w2 = p3"
      "w_notified w2 = w_notified w1"
    by (rule absent_step [OF E w1(2) r w1(3) absent [folded w1(4)]])
  have "reconcile_steps E P MAX_STEPS_PER_WAKE w = (False, tick (tick w2))"
    using w1(1) w2(1) vacant_step [OF E w2(2), of P] by (simp add: MAX_STEPS_PER_WAKE_def eval_nat_numeral)
  then show ?thesis using w2 w1(5) by (simp add: reconcile_wake_def)
qed

end
