(* ===== verification/Fake_Provider_Progress.thy ===== *)
theory Fake_Provider_Progress
  imports Fake_Provider_Spec
begin

text \<open>
  The fake provider when nothing fails: its database answers and no fault is injected. Each
  operation then has one answer, read off the tables.
\<close>

definition fake_up :: "fake_env \<Rightarrow> fake_provider \<Rightarrow> bool" where
  "fake_up E s \<longleftrightarrow> fake_sane E s \<and> (\<forall>n. fk_fault E n = Healthy)"

definition fake_calm :: "fake_env \<Rightarrow> fake_provider \<Rightarrow> bool" where
  "fake_calm E s \<longleftrightarrow> fake_sane E s \<and> (\<forall>n. fk_fault E n = Healthy) \<and> (\<forall>operation. fault_remaining operation s = 0)"

lemma fake_calm_up [simp]: "fake_calm E s \<Longrightarrow> fake_up E s"
  by (simp add: fake_calm_def fake_up_def)

lemma fault_remaining_frame [simp]:
  "fault_remaining operation (s\<lparr>statement_count := n\<rparr>) = fault_remaining operation s"
  "fault_remaining operation (s\<lparr>provider_resources := rows\<rparr>) = fault_remaining operation s"
  "fault_remaining operation (s\<lparr>plans := ps\<rparr>) = fault_remaining operation s"
  by (simp_all add: fault_remaining_def)

lemma statement_calm:
  "(\<forall>n. fk_fault E n = Healthy) \<Longrightarrow> statement E f s =
     (let s1 = s\<lparr>statement_count := Suc (statement_count s)\<rparr> in
      case f s1 of Inl e \<Rightarrow> (Inl (transient e), s1) | Inr (x, s2) \<Rightarrow> (Inr x, s2))"
  by (simp add: statement_def Let_def)

lemma consume_fault_free:
  "fake_up E s \<Longrightarrow> fault_remaining operation s = 0 \<Longrightarrow>
    consume_fault E operation s = (Inr False, s\<lparr>statement_count := Suc (statement_count s)\<rparr>)"
  by (simp add: consume_fault_def fake_up_def statement_calm)

lemma consume_fault_calm:
  "fake_calm E s \<Longrightarrow> consume_fault E operation s = (Inr False, s\<lparr>statement_count := Suc (statement_count s)\<rparr>)"
  by (rule consume_fault_free [OF fake_calm_up]) (simp_all add: fake_calm_def)

lemma read_table_calm:
  "fake_up E s \<Longrightarrow> read_table E q s =
     (Inr (q (s\<lparr>statement_count := Suc (statement_count s)\<rparr>)), s\<lparr>statement_count := Suc (statement_count s)\<rparr>)"
  by (simp add: read_table_def fake_up_def statement_calm Let_def)

lemma fake_calm_count [simp]:
  "fake_calm E (s\<lparr>statement_count := n\<rparr>) = fake_calm E s" "fake_up E (s\<lparr>statement_count := n\<rparr>) = fake_up E s"
  by (simp_all add: fake_calm_def fake_up_def fake_sane_def)

lemma find_resource_count [simp]: "find_resource cd (s\<lparr>statement_count := n\<rparr>) h = find_resource cd s h"
  by (simp add: find_resource_def)

lemma resource_by_host_calm:
  assumes "fake_up E s"
  shows "resource_by_host E h s =
    (Inr (map_option fst (fake_owned E s h)), s\<lparr>statement_count := Suc (statement_count s)\<rparr>)"
proof (cases "find_resource (fk_codec E) s h")
  case None
  with assms show ?thesis
    by (simp add: resource_by_host_def and_then_def read_table_calm fake_owned_def)
next
  case (Some row)
  then have row: "row \<in> set (provider_resources s)" "re_host_id row = host_id_text (fk_codec E) h"
    by (auto simp: find_resource_def dest: find_SomeD)
  moreover have "codec_ok (fk_codec E)" "\<forall>row \<in> set (provider_resources s). resource_row_ok (fk_codec E) row"
    using assms by (auto simp: fake_up_def fake_sane_def)
  ultimately obtain lc where "resource_from_row (fk_codec E) row = Inr \<lparr>pr_id = re_id row, pr_host_id = h, pr_lifecycle = lc\<rparr>"
    by (blast elim: resource_row_decodes)
  with Some assms show ?thesis
    by (simp add: resource_by_host_def and_then_def read_table_calm fake_owned_def)
qed

lemma fake_owned_count [simp]: "fake_owned E (s\<lparr>statement_count := n\<rparr>) = fake_owned E s"
  by (rule tables_owned) simp

lemma fake_observe_run:
  assumes "fake_calm E s"
  shows "fake_observe E h s = (Inr (case fake_owned E s h of None \<Rightarrow> Absent | Some (res, plan) \<Rightarrow> Present res),
    s\<lparr>statement_count := statement_count s + 2\<rparr>)"
  using assms
  by (simp add: fake_observe_def and_then_def consume_fault_calm resource_by_host_calm split: option.split)

lemma fake_observe_calm:
  assumes "fake_calm E s"
  obtains n where "fake_observe E h s =
    (Inr (case fake_owned E s h of None \<Rightarrow> Absent | Some (res, plan) \<Rightarrow> Present res), s\<lparr>statement_count := n\<rparr>)"
  by (rule that [OF fake_observe_run [OF assms]])

lemma fake_delete_run:
  assumes "fake_calm E s"
  shows "fake_delete E h s = (Inr Deleted, s\<lparr>statement_count := statement_count s + 3, provider_resources :=
     filter (\<lambda>r. re_host_id r \<noteq> host_id_text (fk_codec E) h) (provider_resources s)\<rparr>)"
proof -
  have healthy: "\<forall>n. fk_fault E n = Healthy" using assms by (simp add: fake_calm_def)
  show ?thesis
    using assms
    by (simp add: fake_delete_def and_then_def consume_fault_calm statement_calm [OF healthy] Let_def numeral_3_eq_3)
qed

lemma fake_delete_calm:
  assumes "fake_calm E s"
  obtains n where "fake_delete E h s = (Inr Deleted, s\<lparr>statement_count := n, provider_resources :=
     filter (\<lambda>r. re_host_id r \<noteq> host_id_text (fk_codec E) h) (provider_resources s)\<rparr>)"
  by (rule that [OF fake_delete_run [OF assms]])

text \<open>A create for a host without a resource, from a plan that is enabled.\<close>

lemma fake_create_run:
  fixes E :: fake_env and s :: fake_provider
  defines "n \<equiv> statement_count s + 5"
  assumes calm: "fake_calm E s" and absent: "fake_owned E s h = None"
    and plan: "length (filter (\<lambda>r. pl_id r = plan \<and> pl_enabled r = 1) (plans s)) = 1"
    and new: "''fake-'' @ fk_uuid E n \<notin> re_id ` set (provider_resources s)"
  shows "fake_create E h plan s = (Inr (Created (ready_resource (''fake-'' @ fk_uuid E n) h)),
      s\<lparr>statement_count := statement_count s + 6, provider_resources := provider_resources s @
        [\<lparr>re_id = ''fake-'' @ fk_uuid E n, re_host_id = host_id_text (fk_codec E) h,
        re_plan_id = plan, re_lifecycle = ''ready'', re_created_at = timestamp_text (fk_codec E) (fk_now E n)\<rparr>]\<rparr>)"
proof -
  have known: "plan \<in> pl_id ` set (plans s)"
  proof -
    obtain r where "filter (\<lambda>r. pl_id r = plan \<and> pl_enabled r = 1) (plans s) = [r]"
      using plan by (cases "filter (\<lambda>r. pl_id r = plan \<and> pl_enabled r = 1) (plans s)") auto
    then have "r \<in> set (filter (\<lambda>r. pl_id r = plan \<and> pl_enabled r = 1) (plans s))" by simp
    then show ?thesis by auto
  qed
  have "find_resource (fk_codec E) s h = None"
    using absent fake_owned_None_iff [of E s h] calm by (simp add: fake_calm_def)
  then have host: "host_id_text (fk_codec E) h \<notin> re_host_id ` set (provider_resources s)"
    by (auto simp: find_resource_def find_None_iff)
  have healthy: "\<forall>n. fk_fault E n = Healthy" using calm by (simp add: fake_calm_def)
  show ?thesis
    using calm absent plan known host new
    by (simp add: fake_create_def and_then_def consume_fault_calm resource_by_host_calm read_table_calm n_def
        statement_calm [OF healthy] Let_def insert_resource_row_def ready_resource_def eval_nat_numeral)
qed

lemma fake_create_calm:
  assumes calm: "fake_calm E s" and none: "provider_resources s = []"
    and plan: "length (filter (\<lambda>r. pl_id r = plan \<and> pl_enabled r = 1) (plans s)) = 1"
  obtains n rid at where "fake_create E h plan s =
     (Inr (Created \<lparr>pr_id = rid, pr_host_id = h, pr_lifecycle = LifecycleReady\<rparr>),
      s\<lparr>statement_count := n, provider_resources := [\<lparr>re_id = rid, re_host_id = host_id_text (fk_codec E) h,
        re_plan_id = plan, re_lifecycle = ''ready'', re_created_at = at\<rparr>]\<rparr>)"
proof -
  have absent: "fake_owned E s h = None" using none by (simp add: fake_owned_def find_resource_def)
  show ?thesis using fake_create_run [OF calm absent plan] none that by (simp add: ready_resource_def)
qed

text \<open>When some enabled plan suffices, selecting answers with one that does.\<close>

lemma fake_select_run:
  assumes up: "fake_up E s" and row: "row \<in> set (plans s)"
    and suffices: "plan_suffices (uint (vcpus req)) (uint (memory_bytes req)) (uint (storage_bytes req)) row"
  obtains best plan where "fake_select_plan E req s = (Inr (Some plan), s\<lparr>statement_count := Suc (statement_count s)\<rparr>)"
    and "best \<in> set (plans s)" and "plan_from_row best = Inr plan" and "pl_enabled best = 1"
    and "satisfies (plan_resources plan) req"
proof -
  let ?best = "cheapest_plan (uint (vcpus req)) (uint (memory_bytes req)) (uint (storage_bytes req)) (plans s)"
  have rows: "\<forall>r \<in> set (plans s). plan_row_ok r" using up by (simp add: fake_up_def fake_sane_def)
  then have "uint (memory_bytes req) \<le> i64_max" "uint (storage_bytes req) \<le> i64_max"
    using row suffices by (auto simp: plan_row_ok_def plan_suffices_def intro: order_trans)
  moreover obtain best where best: "?best = Some best"
    using row suffices cheapest_plan_None [of "uint (vcpus req)" "uint (memory_bytes req)" "uint (storage_bytes req)" "plans s"]
    by (cases ?best) auto
  moreover from cheapest_plan_Some(1,2) [OF best] rows obtain plan where plan: "plan_from_row best = Inr plan"
    by (meson plan_row_ok_from_row)
  ultimately have "fake_select_plan E req s = (Inr (Some plan), s\<lparr>statement_count := Suc (statement_count s)\<rparr>)"
    using up by (simp add: fake_select_plan_def and_then_def read_table_calm)
  moreover have "satisfies (plan_resources plan) req"
    using cheapest_plan_Some(1,2) [OF best] rows plan by (intro plan_suffices_satisfies [of best]) auto
  moreover have "pl_enabled best = 1" using cheapest_plan_Some(2) [OF best] by (simp add: plan_suffices_def)
  ultimately show ?thesis using that cheapest_plan_Some(1) [OF best] plan by blast
qed

lemma fake_select_calm:
  assumes "fake_calm E s" and "row \<in> set (plans s)"
    and "plan_suffices (uint (vcpus req)) (uint (memory_bytes req)) (uint (storage_bytes req)) row"
  obtains best plan n where "fake_select_plan E req s = (Inr (Some plan), s\<lparr>statement_count := n\<rparr>)"
    and "best \<in> set (plans s)" and "plan_from_row best = Inr plan" and "pl_enabled best = 1"
    and "satisfies (plan_resources plan) req"
  by (rule fake_select_run [OF fake_calm_up [OF assms(1)] assms(2,3)]) (rule that)

end
