(* ===== verification/Samples.thy ===== *)
theory Samples
  imports Codec
begin

text \<open>
  A codec that keeps \<open>codec_ok\<close>, to show that the assumption can hold and to evaluate the model:
  numbers as decimal text, a text as its characters each after an \<open>x\<close> and then a full stop, and a
  list of conditions as the sequence of its fields. Nothing of the program is modelled here.
\<close>

section \<open>Numbers\<close>

definition parse_nat :: "string \<Rightarrow> nat" where
  "parse_nat s = foldl (\<lambda>n c. 10 * n + (of_char c - 48)) 0 s"

lemma parse_nat_text: "parse_nat (nat_text n) = n"
proof (induction n rule: nat_text.induct)
  case (1 n)
  show ?case
  proof (cases "n < 10")
    case True
    then show ?thesis by (simp add: parse_nat_def nat_text.simps [of n])
  next
    case False
    have "parse_nat (s @ [char_of (48 + n mod 10)]) = 10 * parse_nat s + n mod 10" for s
      by (simp add: parse_nat_def)
    with False 1 show ?thesis by (simp add: nat_text.simps [of n])
  qed
qed

definition parse_int :: "string \<Rightarrow> int" where
  "parse_int s = (case s of c # cs \<Rightarrow> (if c = CHR ''-'' then - int (parse_nat cs) else int (parse_nat s)) | [] \<Rightarrow> 0)"

lemma nat_text_digit: "\<exists>c cs. nat_text n = c # cs \<and> c \<noteq> CHR ''-''"
proof (induction n rule: nat_text.induct)
  case (1 n)
  have "char_of (48 + n) \<noteq> CHR ''-''" if "n < 10"
  proof
    assume "char_of (48 + n) = CHR ''-''"
    then have "of_char (char_of (48 + n)) = (of_char (CHR ''-'') :: nat)" by simp
    with that show False by simp
  qed
  with 1 show ?case by (cases "n < 10") (auto simp: nat_text.simps [of n])
qed

lemma parse_int_text: "parse_int (int_text x) = x"
proof (cases "x < 0")
  case True
  then show ?thesis by (simp add: int_text_def parse_int_def parse_nat_text)
next
  case False
  obtain c cs where "nat_text (nat x) = c # cs" "c \<noteq> CHR ''-''" using nat_text_digit by blast
  with False parse_nat_text [of "nat x"] show ?thesis by (simp add: int_text_def parse_int_def)
qed

section \<open>Texts and lists of texts\<close>

definition frame_text :: "string \<Rightarrow> string" where
  "frame_text s = concat (map (\<lambda>c. [CHR ''x'', c]) s) @ ''.''"

fun unframe :: "string \<Rightarrow> string \<Rightarrow> string list" where
  "unframe acc (m # c # rest) =
     (if m = CHR ''x'' then unframe (acc @ [c]) rest else acc # unframe [] (c # rest))"
| "unframe acc [m] = [acc]"
| "unframe acc [] = []"

lemma unframe_text: "unframe acc (frame_text s @ rest) = (acc @ s) # unframe [] rest"
proof (induction s arbitrary: acc)
  case Nil
  show ?case by (cases rest) (simp_all add: frame_text_def)
next
  case (Cons c s)
  then show ?case by (simp add: frame_text_def)
qed

lemma unframe_concat: "unframe [] (concat (map frame_text xs)) = xs"
  by (induction xs) (simp_all add: unframe_text)

section \<open>Conditions\<close>

definition status_text :: "ConditionStatus \<Rightarrow> string" where
  "status_text s = (case s of StatusTrue \<Rightarrow> ''true'' | StatusFalse \<Rightarrow> ''false'' | StatusUnknown \<Rightarrow> ''unknown'')"

definition text_status :: "string \<Rightarrow> ConditionStatus" where
  "text_status s = (if s = ''true'' then StatusTrue else if s = ''false'' then StatusFalse else StatusUnknown)"

definition condition_fields :: "Condition \<Rightarrow> string list" where
  "condition_fields c = [c_type c, status_text (c_status c), c_reason c, c_message c,
     nat_text (unat (c_observed_generation c)), int_text (timestamp_ns (c_last_transition_at c))]"

fun fields_conditions :: "string list \<Rightarrow> Condition list" where
  "fields_conditions (ty # st # re # me # gen # at # rest) =
     \<lparr>c_type = ty, c_status = text_status st, c_reason = re, c_message = me,
      c_observed_generation = of_nat (parse_nat gen),
      c_last_transition_at = Timestamp_of_ns (parse_int at)\<rparr> # fields_conditions rest"
| "fields_conditions _ = []"

lemma text_status_text: "text_status (status_text s) = s"
  by (cases s) (simp_all add: text_status_def status_text_def)

lemma fields_conditions_fields: "fields_conditions (concat (map condition_fields cs)) = cs"
  by (induction cs)
    (simp_all add: condition_fields_def text_status_text parse_nat_text parse_int_text timestamp_ns_inverse)

section \<open>The codec\<close>

definition sample_codec :: codec where
  "sample_codec =
     \<lparr>claim_id_text = (\<lambda>i. nat_text (unat (claim_uuid i))),
      parse_claim_id = (\<lambda>s. Some (HostClaimId (of_nat (parse_nat s)))),
      host_id_text = (\<lambda>i. nat_text (unat (host_uuid i))),
      parse_host_id = (\<lambda>s. Some (HostId (of_nat (parse_nat s)))),
      timestamp_text = (\<lambda>t. int_text (timestamp_ns t)),
      parse_timestamp_text = (\<lambda>s. Some (Timestamp_of_ns (parse_int s))),
      conditions_to_json = (\<lambda>cs. Some (concat (map frame_text (concat (map condition_fields cs))))),
      conditions_from_json = (\<lambda>s. Some (fields_conditions (unframe [] s)))\<rparr>"

lemma sample_codec_ok: "codec_ok sample_codec"
  by (simp add: codec_ok_def sample_codec_def parse_nat_text parse_int_text timestamp_ns_inverse
      unframe_concat fields_conditions_fields)

end
