(* ===== verification/Provider_Properties.thy ===== *)
theory Provider_Properties
  imports Fake_Provider_Progress Samples
begin

text \<open>
  The properties of the fake provider: plan selection, the idempotence of create and delete over
  lost responses, and the seeding of the catalog.
\<close>

section \<open>Seeding\<close>

lemma upsert_plan_ids: "distinct (map pl_id rows) \<Longrightarrow> distinct (map pl_id (upsert_plan row rows))"
  by (auto simp: upsert_plan_def map_update_where)

lemma upsert_plan_member: "row \<in> set (upsert_plan row rows)"
  by (auto simp: upsert_plan_def set_update_where)

lemma upsert_plan_other: "r \<in> set rows \<Longrightarrow> pl_id r \<noteq> pl_id row \<Longrightarrow> r \<in> set (upsert_plan row rows)"
  by (auto simp: upsert_plan_def set_update_where)

lemma upsert_plan_present:
  assumes "distinct (map pl_id rows)" and "row \<in> set rows"
  shows "upsert_plan row rows = rows"
proof -
  have "row = r" if "r \<in> set rows" "pl_id r = pl_id row" for r
    using assms that by (auto simp: distinct_map dest: inj_onD)
  then show ?thesis using assms(2) by (auto simp: upsert_plan_def update_where_def intro!: map_idI)
qed

lemma fold_upsert_other:
  "r \<in> set rows \<Longrightarrow> pl_id r \<notin> pl_id ` set ps \<Longrightarrow> r \<in> set (fold upsert_plan ps rows)"
  by (induction ps arbitrary: rows) (auto intro: upsert_plan_other)

lemma fold_upsert_ids: "distinct (map pl_id rows) \<Longrightarrow> distinct (map pl_id (fold upsert_plan ps rows))"
  by (induction ps arbitrary: rows) (simp_all add: upsert_plan_ids)

lemma fold_upsert_present:
  "distinct (map pl_id rows) \<Longrightarrow> set ps \<subseteq> set rows \<Longrightarrow> fold upsert_plan ps rows = rows"
  by (induction ps) (simp_all add: upsert_plan_present)

lemma fold_upsert_members:
  "distinct (map pl_id ps) \<Longrightarrow> set ps \<subseteq> set (fold upsert_plan ps rows)"
  by (induction ps arbitrary: rows) (auto intro: fold_upsert_other [OF upsert_plan_member])

lemma fold_upsert_plans: "set (fold upsert_plan ps rows) \<subseteq> set rows \<union> set ps"
proof (induction ps arbitrary: rows)
  case (Cons p ps)
  have "set (upsert_plan p rows) \<subseteq> set rows \<union> {p}"
    by (auto simp: upsert_plan_def set_update_where)
  with Cons [of "upsert_plan p rows"] show ?case by auto
qed simp

lemma catalog_ids: "distinct (map pl_id catalog)"
  by (simp add: catalog_def)

lemma catalog_ok: "r \<in> set catalog \<Longrightarrow> plan_row_ok r"
  by (auto simp: catalog_def plan_row_ok_def i64_max_def push_bit_eq_mult)

lemma seed_catalog_sane: "fake_sane E s \<Longrightarrow> fake_sane E (seed_catalog s)"
  using fold_upsert_plans [of catalog "plans s"] catalog_ok
  by (auto simp: fake_sane_def seed_catalog_def)

lemma empty_fake_sane: "codec_ok (fk_codec E) \<Longrightarrow> fake_sane E empty_fake_provider"
  by (simp add: fake_sane_def empty_fake_provider_def)

lemma empty_fake_owned: "fake_owned E (seed_catalog empty_fake_provider) h = None"
  by (simp add: fake_owned_def find_resource_def seed_catalog_def empty_fake_provider_def)

section \<open>Sample instances\<close>

definition sample_fake_env :: fake_env where
  "sample_fake_env = \<lparr>fk_codec = sample_codec, fk_fault = (\<lambda>_. Healthy), fk_uuid = nat_text,
     fk_now = (\<lambda>_. unix_epoch)\<rparr>"

definition sample_provider :: fake_provider where
  "sample_provider = seed_catalog empty_fake_provider"

lemma sample_fake_sane: "fake_sane sample_fake_env sample_provider"
  unfolding sample_provider_def
  by (rule seed_catalog_sane [OF empty_fake_sane]) (simp add: sample_fake_env_def sample_codec_ok)

definition sample_resources :: HostResources where
  "sample_resources = \<lparr>vcpus = 3, memory_bytes = 1024, storage_bytes = 1024\<rparr>"

lemma sample_plans: "plans sample_provider = catalog"
  by (simp add: sample_provider_def seed_catalog_def empty_fake_provider_def catalog_def upsert_plan_def)

section \<open>Properties\<close>

text \<open>
  C18: \<open>select_plan\<close> changes no table and answers with an enabled plan that offers at least what
  was asked for and comes first in the order of price, memory, storage, processors and
  identifier; it answers that there is none only when no enabled plan suffices.
\<close>

theorem select_plan_least:
  assumes "fake_sane E s" and "fake_select_plan E req s = (Inr answer, s')"
  shows "tables s' = tables s
    \<and> (case answer of
         None \<Rightarrow> \<forall>r \<in> set (plans s). \<not> plan_suffices (uint (vcpus req)) (uint (memory_bytes req)) (uint (storage_bytes req)) r
       | Some plan \<Rightarrow> satisfies (plan_resources plan) req
           \<and> (\<exists>r \<in> set (plans s). plan_from_row r = Inr plan
                \<and> plan_suffices (uint (vcpus req)) (uint (memory_bytes req)) (uint (storage_bytes req)) r
                \<and> (\<forall>r' \<in> set (plans s).
                     plan_suffices (uint (vcpus req)) (uint (memory_bytes req)) (uint (storage_bytes req)) r'
                     \<longrightarrow> plan_order r \<le> plan_order r')))"
proof (cases answer)
  case None
  with assms select_plan_answer [OF assms] fake_select_state [OF assms(2)] show ?thesis by simp
next
  case (Some plan)
  with assms select_plan_answer [OF assms] fake_select_state [OF assms(2)]
    fake_select_satisfies [of E s req plan s']
  show ?thesis by auto
qed

lemma sample_selection:
  "fake_select_plan sample_fake_env sample_resources sample_provider =
     (Inr (Some \<lparr>plan_id = ''fake-4c-8g-80g'', plan_resources =
        \<lparr>vcpus = 4, memory_bytes = push_bit 33 1, storage_bytes = push_bit 34 5\<rparr>\<rparr>),
      sample_provider\<lparr>statement_count := 1\<rparr>)"
  by (simp add: fake_select_plan_def read_table_def statement_def and_then_def sample_plans catalog_def
      cheapest_plan_def plan_order_def sample_resources_def sample_fake_env_def i64_max_def
      plan_from_row_def u32_try_from_def u64_try_from_def Let_def push_bit_eq_mult
      sample_provider_def seed_catalog_def empty_fake_provider_def upsert_plan_def)

theorem select_plan_least_witness:
  "\<exists>r \<in> set (plans sample_provider). pl_id r = ''fake-4c-8g-80g''
     \<and> (\<forall>r' \<in> set (plans sample_provider). plan_suffices 3 1024 1024 r' \<longrightarrow> plan_order r \<le> plan_order r')"
  using select_plan_least [OF sample_fake_sane sample_selection]
  by (auto simp: sample_resources_def dest!: plan_from_row_resources(1))

text \<open>
  C11: \<open>create\<close> is idempotent, lost responses included: once a create for a host was answered, a
  further create with the same plan adds no resource, and if it is answered at all its answer is
  the resource the host already has.
\<close>

theorem create_idempotent:
  assumes "fake_sane E s" and "fake_create E h plan s = (Inr outcome, s1)"
    and "fake_create E h plan s1 = (r, s2)"
  shows "tables s2 = tables s1 \<and> (\<forall>outcome'. r = Inr outcome' \<longrightarrow>
    (\<exists>res. outcome' = Created res \<and> fake_owned E s1 h = Some (res, plan)))"
proof -
  obtain res where owned: "fake_owned E s1 h = Some (res, plan)"
    using fake_create_answer [OF assms(1), of h plan] fake_create_unknown(2) [OF assms(1), of h plan] assms(2)
    by (cases outcome) blast+
  have sane: "fake_sane E s1" using fake_create_effect(1) [OF assms(1,2)] .
  have same: "tables s2 = tables s1"
    using fake_create_tables [OF sane assms(3)] created_tables_effect(2) [OF sane] owned by auto
  then have "fake_owned E s2 h = Some (res, plan)" using owned tables_owned [OF same] by simp
  then have "outcome' = Created res" if "r = Inr outcome'" for outcome'
    using that fake_create_answer [OF sane, of h plan _ s2] fake_create_unknown(1) [OF sane, of h plan s2]
      owned assms(3) by (cases outcome') auto
  with same owned show ?thesis by auto
qed

text \<open>A create whose response is lost, on the sample provider.\<close>

definition sample_host :: HostId where "sample_host = HostId 7"

definition sample_lossy :: fake_provider where
  "sample_lossy = inject_fault FAULT_CREATE_RESPONSE_LOSS 1 sample_provider"

lemma sample_lossy_sane: "fake_sane sample_fake_env sample_lossy"
  using sample_fake_sane by (simp add: sample_lossy_def inject_fault_def fake_sane_def)

definition sample_created :: fake_provider where
  "sample_created = snd (fake_create sample_fake_env sample_host ''fake-2c-4g-40g'' sample_lossy)"

lemma sample_create:
  "fake_create sample_fake_env sample_host ''fake-2c-4g-40g'' sample_lossy = (Inr CreateOutcomeUnknown, sample_created)"
  unfolding sample_created_def
  by (simp add: fake_create_def consume_fault_def fault_remaining_def statement_def and_then_def sample_lossy_def
      inject_fault_def sample_provider_def seed_catalog_def empty_fake_provider_def catalog_def
      upsert_plan_def sample_fake_env_def Let_def FAULT_CREATE_DEFINITIVE_def FAULT_CREATE_TRANSIENT_def
      FAULT_CREATE_RESPONSE_LOSS_def resource_by_host_def read_table_def find_resource_def
      insert_resource_row_def update_where_def)

theorem create_idempotent_witness:
  "tables (snd (fake_create sample_fake_env sample_host ''fake-2c-4g-40g'' sample_created)) = tables sample_created"
proof -
  obtain r s2 where "fake_create sample_fake_env sample_host ''fake-2c-4g-40g'' sample_created = (r, s2)"
    by (rule prod.exhaust)
  with create_idempotent [OF sample_lossy_sane sample_create this] show ?thesis by simp
qed

text \<open>
  A lost create response is rediscovered: when \<open>create\<close> answers that its outcome is unknown,
  the resource exists, and every later observation that is answered names it, as long as no other
  call intervenes.
\<close>

theorem lost_create_rediscovered:
  assumes "fake_sane E s" and "fake_create E h plan s = (Inr CreateOutcomeUnknown, s1)"
    and "fake_observe E h s1 = (Inr observed, s2)"
  shows "\<exists>res. observed = Present res \<and> pr_host_id res = h \<and> fake_owned E s2 h = Some (res, plan)"
proof -
  have sane: "fake_sane E s1" using fake_create_effect(1) [OF assms(1,2)] .
  obtain res where owned: "fake_owned E s1 h = Some (res, plan)"
    using fake_create_unknown(2) [OF assms(1,2)] by blast
  then have "observed = Present res"
    using fake_observe_answer [OF sane assms(3)] by (cases observed) auto
  moreover have "pr_host_id res = h"
    using owned sane
    by (auto simp: fake_owned_def find_resource_def fake_sane_def split: option.splits sum.splits
        dest!: find_SomeD elim!: resource_row_decodes)
  moreover have "fake_owned E s2 h = Some (res, plan)"
    using owned tables_owned [OF fake_observe_state [OF sane assms(3)]] by simp
  ultimately show ?thesis by simp
qed

lemma sample_observed:
  "\<exists>s2. fake_observe sample_fake_env sample_host sample_created =
     (Inr (Present \<lparr>pr_id = ''fake-5'', pr_host_id = sample_host, pr_lifecycle = LifecycleReady\<rparr>), s2)"
proof -
  have seven: "parse_nat (nat_text 7) = 7" by (rule parse_nat_text)
  have five: "nat_text (Suc (Suc (Suc (Suc (Suc 0))))) = ''5''" by code_simp
  show ?thesis
    by (simp add: sample_created_def fake_observe_def FAULT_OBSERVE_TRANSIENT_def lifecycle_from_db_def resource_from_row_def
        sample_codec_def sample_host_def seven five
        fake_create_def consume_fault_def fault_remaining_def statement_def and_then_def sample_lossy_def
        inject_fault_def sample_provider_def seed_catalog_def empty_fake_provider_def catalog_def
        upsert_plan_def sample_fake_env_def Let_def FAULT_CREATE_DEFINITIVE_def FAULT_CREATE_TRANSIENT_def
        FAULT_CREATE_RESPONSE_LOSS_def resource_by_host_def read_table_def find_resource_def
        insert_resource_row_def update_where_def)
qed

theorem lost_create_rediscovered_witness:
  "\<exists>s2 res. fake_observe sample_fake_env sample_host sample_created = (Inr (Present res), s2)
     \<and> fake_owned sample_fake_env s2 sample_host = Some (res, ''fake-2c-4g-40g'')"
proof -
  obtain s2 where "fake_observe sample_fake_env sample_host sample_created =
      (Inr (Present \<lparr>pr_id = ''fake-5'', pr_host_id = sample_host, pr_lifecycle = LifecycleReady\<rparr>), s2)"
    using sample_observed by blast
  with lost_create_rediscovered [OF sample_lossy_sane sample_create this] show ?thesis by auto
qed

text \<open>
  A host keeps the plan its resource was created from: asking for another plan is an error and
  changes no table.
\<close>

theorem create_other_plan_refused:
  assumes "fake_sane E s" and "fake_owned E s h = Some (res, plan)" and "plan' \<noteq> plan"
    and "fake_create E h plan' s = (r, s')"
  shows "tables s' = tables s \<and> (\<exists>e. r = Inl e)"
proof -
  have same: "tables s' = tables s"
    using fake_create_tables [OF assms(1,4)] created_tables_effect(2) [OF assms(1)] assms(2) by auto
  have "r \<noteq> Inr outcome" for outcome
    using fake_create_answer [OF assms(1), of h plan' _ s'] fake_create_unknown(1) [OF assms(1), of h plan' s']
      tables_owned [OF same] assms(2-4) by (cases outcome) auto
  with same show ?thesis by (cases r) auto
qed

theorem create_other_plan_refused_witness:
  "\<exists>e. fst (fake_create sample_fake_env sample_host ''fake-8c-16g-160g'' sample_created) = Inl e"
proof -
  have sane: "fake_sane sample_fake_env sample_created"
    using fake_create_effect(1) [OF sample_lossy_sane sample_create] .
  obtain res where "fake_owned sample_fake_env sample_created sample_host = Some (res, ''fake-2c-4g-40g'')"
    using fake_create_unknown(2) [OF sample_lossy_sane sample_create] by blast
  from create_other_plan_refused [OF sane this, of "''fake-8c-16g-160g''"] show ?thesis
    by (cases "fake_create sample_fake_env sample_host ''fake-8c-16g-160g'' sample_created") auto
qed

text \<open>
  C29: A delete that is answered, whether its response was lost or not, has removed the host's
  resource and no other; repeating it changes nothing further, and an answered observation after
  it is of an absent resource.
\<close>

theorem delete_removes:
  assumes "fake_sane E s" and "fake_delete E h s = (Inr outcome, s1)"
  shows "fake_owned E s1 = (fake_owned E s)(h := None)
    \<and> (\<forall>r s2. fake_delete E h s1 = (r, s2) \<longrightarrow> tables s2 = tables s1)
    \<and> (\<forall>observed s2. fake_observe E h s1 = (Inr observed, s2) \<longrightarrow> observed = Absent)"
proof (intro conjI allI impI)
  have removed: "tables s1 = removed_tables E h (tables s)"
    by (rule fake_delete_answer [OF assms(2)])
  have sane: "fake_sane E s1" using fake_delete_effect(1) [OF assms] .
  show owned: "fake_owned E s1 = (fake_owned E s)(h := None)"
    using removed_tables_effect(2,3) [OF assms(1) removed] by (auto simp: fun_eq_iff)
  show "tables s2 = tables s1" if "fake_delete E h s1 = (r, s2)" for r s2
    using fake_delete_tables [OF that] removed by (simp add: removed_tables_def)
  show "observed = Absent" if "fake_observe E h s1 = (Inr observed, s2)" for observed s2
    using fake_observe_answer [OF sane that] owned by (cases observed) auto
qed

lemma sample_delete:
  "\<exists>s2. fake_delete sample_fake_env sample_host sample_created = (Inr Deleted, s2)"
  by (simp add: sample_created_def fake_delete_def FAULT_DELETE_TRANSIENT_def FAULT_DELETE_RESPONSE_LOSS_def
      fake_create_def consume_fault_def fault_remaining_def statement_def and_then_def sample_lossy_def
      inject_fault_def sample_provider_def seed_catalog_def empty_fake_provider_def catalog_def
      upsert_plan_def sample_fake_env_def Let_def FAULT_CREATE_DEFINITIVE_def FAULT_CREATE_TRANSIENT_def
      FAULT_CREATE_RESPONSE_LOSS_def resource_by_host_def read_table_def find_resource_def
      insert_resource_row_def update_where_def)

theorem delete_removes_witness:
  "\<exists>s2. fake_delete sample_fake_env sample_host sample_created = (Inr Deleted, s2)
     \<and> fake_owned sample_fake_env s2 sample_host = None"
proof -
  obtain s2 where run: "fake_delete sample_fake_env sample_host sample_created = (Inr Deleted, s2)"
    using sample_delete by blast
  have "fake_sane sample_fake_env sample_created"
    using fake_create_effect(1) [OF sample_lossy_sane sample_create] .
  from delete_removes [OF this run] run show ?thesis by simp
qed

text \<open>
  Seeding the catalog, which every start does, installs the three plans, keeps every other
  plan and every resource, keeps identifiers unique, and changes nothing when it is repeated.
\<close>

theorem seed_catalog_idempotent:
  assumes "distinct (map pl_id (plans s))"
  shows "set catalog \<subseteq> set (plans (seed_catalog s))
    \<and> (\<forall>r \<in> set (plans s). pl_id r \<notin> pl_id ` set catalog \<longrightarrow> r \<in> set (plans (seed_catalog s)))
    \<and> provider_resources (seed_catalog s) = provider_resources s
    \<and> distinct (map pl_id (plans (seed_catalog s)))
    \<and> seed_catalog (seed_catalog s) = seed_catalog s"
  using fold_upsert_ids [OF assms, of catalog] fold_upsert_members [OF catalog_ids, of "plans s"]
  by (simp add: seed_catalog_def fold_upsert_other fold_upsert_present)

theorem seed_catalog_idempotent_witness:
  "seed_catalog sample_provider = sample_provider \<and> set catalog \<subseteq> set (plans sample_provider)"
  using seed_catalog_idempotent [of empty_fake_provider]
  by (simp add: sample_provider_def empty_fake_provider_def)

end
