(* ===== verification/Listing.thy ===== *)
theory Listing
  imports Storage_Frames
begin

text \<open>
  The readers of hosts beside \<open>get_host\<close>: \<open>list_hosts\<close> gives every stored host once, in the order of its
  query, and \<open>get_host_for_claim\<close> the host a claim is bound to.
\<close>

lemma list_hosts_result:
  assumes cd: "codec_ok cd" and io: "io_fault io = no_fault" and db: "database_ok cd db"
  obtains rs where "list_hosts cd io db = (Inr rs, db)"
    and "\<And>r. r \<in> set rs \<longleftrightarrow> host_view cd db (host_id_of r) = Some r"
    and "distinct (map host_id_of rs)"
proof -
  let ?rows = "hosts_in_order db"
  let ?of = "\<lambda>row r. row = encode_host cd r \<and> host_view cd db (host_id_of r) = Some r"
  have keys: "distinct (map ho_id ?rows)" and set: "set ?rows = set (hosts db)"
    using database_okD [OF db] by (simp_all add: hosts_in_order_def keys_ok_def distinct_map)
  have "\<exists>r. host_record_from_row cd row = Inr r \<and> ?of row r" if row: "row \<in> set ?rows" for row
  proof -
    obtain r where "host_fits r" "row = encode_host cd r"
      by (rule stored_host [OF db]) (use row set in blast)+
    then show ?thesis using row set cd by (simp add: host_round_trip host_view_Some [OF cd db])
  qed
  then obtain rs where rs: "traverse_list (host_record_from_row cd) ?rows = Inr rs" "list_all2 ?of ?rows rs"
    by (rule read_rows)
  have member: "r \<in> set rs \<longleftrightarrow> host_view cd db (host_id_of r) = Some r" for r
  proof
    assume "host_view cd db (host_id_of r) = Some r"
    then have "encode_host cd r \<in> set ?rows" by (simp add: set host_view_Some [OF cd db])
    from list_all2_partner(2) [OF rs(2) this] show "r \<in> set rs" using encode_host_inj [OF cd] by blast
  qed (use list_all2_partner(1) [OF rs(2)] in blast)
  have "map ho_id ?rows = map (host_id_text cd) (map host_id_of rs)"
    unfolding list.map_comp by (rule list_all2_map_eq [OF rs(2)]) simp
  then have "distinct (map host_id_of rs)" using keys by (metis distinct_map)
  then show ?thesis
    using rs(1) member by (intro that [of rs]) (simp_all add: list_hosts_def on_pool_def healthy_calls io)
qed

text \<open>The host a stored claim is bound to.\<close>

definition spec_get_host_for_claim :: "HostClaimId \<Rightarrow> HostRecord option store_oper" where
  "spec_get_host_for_claim i st =
     (Inr (case s_claims st i of None \<Rightarrow> None | Some r \<Rightarrow> Option.bind (claim_host r) (s_hosts st)), st)"

lemma get_host_for_claim_refines:
  assumes cd: "codec_ok cd" and io: "io_fault io = no_fault"
  shows "refines cd (get_host_for_claim cd io i) (spec_get_host_for_claim i)"
proof (rule refinesI)
  fix db assume db: "database_ok cd db"
  have "get_host_for_claim cd io i db = (Inr (case claim_view cd db i of None \<Rightarrow> None
      | Some r \<Rightarrow> Option.bind (claim_host r) (host_view cd db)), db)"
  proof (cases "claim_view cd db i")
    case None
    then have "claim_id_text cd i \<notin> cl_id ` set (host_claims db)" using claim_view_None(2) [OF cd db] by blast
    then have "fetch_host_for_claim_row db (claim_id_text cd i) = None"
      using database_okD [OF db] by (force simp: keys_ok_def fetch_host_for_claim_row_def find_None_iff)
    then show ?thesis using None by (simp add: get_host_for_claim_def on_pool_def healthy_calls io traverse_option_def)
  next
    case (Some r)
    show ?thesis
    proof (cases "claim_host r")
      case None
      then show ?thesis
        using Some assigned_host_row(1) [OF cd db Some None]
        by (simp add: get_host_for_claim_def on_pool_def healthy_calls io traverse_option_def)
    next
      case (Some h)
      obtain hr where "host_view cd db h = Some hr"
          "fetch_host_for_claim_row db (claim_id_text cd i) = Some (encode_host cd hr)"
        using assigned_host_row(2) [OF cd db \<open>claim_view cd db i = Some r\<close> Some] by blast
      then show ?thesis
        using Some \<open>claim_view cd db i = Some r\<close> cd
        by (simp add: get_host_for_claim_def on_pool_def healthy_calls io traverse_option_def host_round_trip)
    qed
  qed
  then show "\<exists>r db'. get_host_for_claim cd io i db = (r, db') \<and> database_ok cd db'
      \<and> spec_get_host_for_claim i (store_of cd db) = (r, store_of cd db')"
    using db by (simp add: spec_get_host_for_claim_def split: option.split)
qed

end
