(* ===== verification/Storage_Properties.thy ===== *)
theory Storage_Properties
  imports Listing Samples
begin

text \<open>
  The properties of \<open>Storage\<close>: the refinement of its operations, what each promises on the
  database a caller finds, and what failures leave behind.
\<close>

section \<open>A sample database\<close>

definition sample_io :: io where
  "sample_io = \<lparr>io_now = unix_epoch, io_host_id = HostId 7, io_fault = no_fault\<rparr>"

definition sample_claim_id :: HostClaimId where "sample_claim_id = HostClaimId 1"

definition sample_spec :: HostClaimSpec where
  "sample_spec = \<lparr>spec_resources = \<lparr>vcpus = 2, memory_bytes = 1024, storage_bytes = 1024\<rparr>\<rparr>"

definition sample_claim :: HostClaimRecord where
  "sample_claim = \<lparr>cr_resource = initial_claim sample_claim_id sample_spec unix_epoch, cr_retry = default_retry\<rparr>"

definition sample_db :: database where
  "sample_db = snd (create_claim sample_codec sample_io sample_claim_id sample_spec empty_database)"

lemma sample_io_healthy: "io_fault sample_io = no_fault"
  by (simp add: sample_io_def)

lemma sample_fit: "resources_fit (spec_resources sample_spec)"
  by (simp add: resources_fit_def sample_spec_def i64_max_def)

lemma empty_claim_view: "claim_view cd empty_database i = None"
  by (simp add: claim_view_def fetch_claim_row_def joined_claims_def empty_database_def)

lemma empty_host_view: "host_view cd empty_database h = None"
  by (simp add: host_view_def fetch_host_row_def empty_database_def)

lemma sample_db_ok: "database_ok sample_codec sample_db"
  unfolding sample_db_def
  by (rule refinesD(1) [OF create_claim_refines [OF sample_codec_ok sample_io_healthy] database_ok_empty])

lemma sample_db_spec: "snd (spec_create_claim sample_codec unix_epoch sample_claim_id sample_spec
    (store_of sample_codec empty_database)) = store_of sample_codec sample_db"
  using refinesD(2) [OF create_claim_refines [OF sample_codec_ok sample_io_healthy] database_ok_empty,
      of sample_claim_id sample_spec]
  by (simp add: sample_db_def sample_io_def)

lemma sample_db_store:
  "store_of sample_codec sample_db =
     \<lparr>s_claims = [sample_claim_id \<mapsto> sample_claim], s_hosts = Map.empty\<rparr>"
proof -
  have none: "store_of sample_codec empty_database = \<lparr>s_claims = Map.empty, s_hosts = Map.empty\<rparr>"
    by (simp add: store_of_def fun_eq_iff empty_claim_view empty_host_view)
  have valid: "validate_resources (spec_resources sample_spec) = Inr ()"
    by (simp add: validate_resources_Inr sample_fit)
  show ?thesis using sample_db_spec by (simp add: none spec_create_claim_def valid sample_claim_def)
qed

lemma sample_db_view: "claim_view sample_codec sample_db sample_claim_id = Some sample_claim"
  using arg_cong [OF sample_db_store, of s_claims] by simp

lemma sample_db_hosts: "host_view sample_codec sample_db h = None"
  using arg_cong [OF sample_db_store, of s_hosts] by simp

lemma sample_claim_sel [simp]:
  "claim_deletion sample_claim = None" "claim_host sample_claim = None"
  "hc_spec (cr_resource sample_claim) = sample_spec" "claim_id_of sample_claim = sample_claim_id"
  by (simp_all add: sample_claim_def initial_claim_def)

section \<open>Refinement\<close>



text \<open>
  A call to the database that may fail at any point: a well-formed database stays well-formed, and the
  operation either returns and stores what its specification says, errors of the specification included,
  or some call failed, the caller is told so, and the records stored are those from before or those the
  specification leaves.
\<close>

definition atomic_call :: "codec \<Rightarrow> (io \<Rightarrow> 'a db_oper) \<Rightarrow> (io \<Rightarrow> 'a store_oper) \<Rightarrow> bool" where
  "atomic_call cd m spec \<longleftrightarrow>
     (\<forall>io db answer db'. database_ok cd db \<longrightarrow> m io db = (answer, db') \<longrightarrow>
        database_ok cd db' \<and>
        (spec io (store_of cd db) = (answer, store_of cd db')
         \<or> io_fault io \<noteq> no_fault \<and> answer = Inl (internal ''sqlx'')
           \<and> store_of cd db' \<in> {store_of cd db, snd (spec io (store_of cd db))}))"

text \<open>A listing stores nothing, and gives every record once or the failure.\<close>

definition atomic_listing ::
  "codec \<Rightarrow> (io \<Rightarrow> 'r list db_oper) \<Rightarrow> (database \<Rightarrow> 'k \<Rightarrow> 'r option) \<Rightarrow> ('r \<Rightarrow> 'k) \<Rightarrow> bool" where
  "atomic_listing cd m view key \<longleftrightarrow>
     (\<forall>io db answer db'. database_ok cd db \<longrightarrow> m io db = (answer, db') \<longrightarrow>
        db' = db \<and>
        (case answer of
           Inl e \<Rightarrow> io_fault io \<noteq> no_fault \<and> e = internal ''sqlx''
         | Inr rs \<Rightarrow> distinct (map key rs) \<and> (\<forall>r. r \<in> set rs \<longleftrightarrow> view db (key r) = Some r)))"

lemma healthy_eq: "io_fault io = no_fault \<Longrightarrow> healthy io = io"
  by (simp add: healthy_def)

lemma atomic_callI:
  assumes tolerant: "fault_tolerant m"
    and refines: "\<And>io. io_fault io = no_fault \<Longrightarrow> refines cd (m io) (spec io)"
    and pure: "\<And>io. spec (healthy io) = spec io"
  shows "atomic_call cd m spec"
  unfolding atomic_call_def
proof (intro allI impI)
  fix io db answer db' assume db: "database_ok cd db" and run: "m io db = (answer, db')"
  note H = refinesD [OF refines [OF healthy_sel(3)] db, of io, unfolded pure]
  have "m (healthy io) db = (answer, db') \<or> answer = Inl (internal ''sqlx'') \<and> db' \<in> {db, snd (m (healthy io) db)}"
    using tolerant [unfolded fault_tolerant_def, rule_format, of io db] unfolding run by (simp add: eq_commute)
  then consider "m (healthy io) db = (answer, db')"
    | "m (healthy io) db \<noteq> (answer, db')" "answer = Inl (internal ''sqlx'')" "db' = db \<or> db' = snd (m (healthy io) db)"
    by blast
  then show "database_ok cd db' \<and> (spec io (store_of cd db) = (answer, store_of cd db')
      \<or> io_fault io \<noteq> no_fault \<and> answer = Inl (internal ''sqlx'')
        \<and> store_of cd db' \<in> {store_of cd db, snd (spec io (store_of cd db))})"
  proof cases
    case 1
    with H show ?thesis by simp
  next
    case 2
    have "io_fault io \<noteq> no_fault"
    proof
      assume "io_fault io = no_fault"
      then have "healthy io = io" by (rule healthy_eq)
      with 2(1) run show False by simp
    qed
    with 2(2,3) H db show ?thesis by (elim disjE) simp_all
  qed
qed

lemma atomic_listingI:
  assumes tolerant: "fault_tolerant m" and reads: "\<And>io db. snd (m io db) = db"
    and lists: "\<And>io db. io_fault io = no_fault \<Longrightarrow> database_ok cd db \<Longrightarrow>
      \<exists>rs. m io db = (Inr rs, db) \<and> distinct (map key rs) \<and> (\<forall>r. r \<in> set rs \<longleftrightarrow> view db (key r) = Some r)"
  shows "atomic_listing cd m view key"
  unfolding atomic_listing_def
proof (intro allI impI)
  fix io db answer db' assume db: "database_ok cd db" and run: "m io db = (answer, db')"
  obtain rs where rs: "m (healthy io) db = (Inr rs, db)" "distinct (map key rs)" "\<forall>r. r \<in> set rs \<longleftrightarrow> view db (key r) = Some r"
    using lists [OF healthy_sel(3) db, of io] by blast
  have "m io db = m (healthy io) db \<or> answer = Inl (internal ''sqlx'')"
    using tolerant [unfolded fault_tolerant_def, rule_format, of io db] run by auto
  then show "db' = db \<and> (case answer of Inl e \<Rightarrow> io_fault io \<noteq> no_fault \<and> e = internal ''sqlx''
      | Inr rs \<Rightarrow> distinct (map key rs) \<and> (\<forall>r. r \<in> set rs \<longleftrightarrow> view db (key r) = Some r))"
    using rs run reads [of io db] by (cases answer) (auto simp: healthy_eq)
qed

text \<open>
  C7: Whichever of its calls to the database fail, and whether with the work done or not (begin, each
  statement and commit, each on its own), a storage operation is atomic: it returns and stores what its
  specification on the maps of records says, or answers the internal error and leaves the records as they
  were or as the specification leaves them, nothing between; the database stays well-formed. A listing
  gives every stored record once or the internal error, and stores nothing.
\<close>

theorem storage_calls_atomic:
  assumes "codec_ok cd"
  shows "atomic_call cd (\<lambda>io. create_claim cd io i spec) (\<lambda>io. spec_create_claim cd (io_now io) i spec)
    \<and> atomic_call cd (\<lambda>io. get_claim cd io i) (\<lambda>io. spec_get_claim cd i)
    \<and> atomic_call cd (\<lambda>io. mark_claim_deleting cd io i) (\<lambda>io. spec_mark_claim_deleting cd (io_now io) i)
    \<and> atomic_call cd (\<lambda>io. save_claim_status cd io claim) (\<lambda>io. spec_save_claim_status cd claim)
    \<and> atomic_call cd (\<lambda>io. finalize_claim cd io i) (\<lambda>io. spec_finalize_claim cd i)
    \<and> atomic_call cd (\<lambda>io. ensure_host cd io i plan resources)
        (\<lambda>io. spec_ensure_host cd (io_now io) (io_host_id io) i plan resources)
    \<and> atomic_call cd (\<lambda>io. get_host cd io h) (\<lambda>io. spec_get_host cd h)
    \<and> atomic_call cd (\<lambda>io. save_host cd io host) (\<lambda>io. spec_save_host cd host)
    \<and> atomic_listing cd (list_claims cd) (claim_view cd) claim_id_of
    \<and> atomic_listing cd (list_hosts cd) (host_view cd) host_id_of"
proof (intro conjI)
  show "atomic_listing cd (list_claims cd) (claim_view cd) claim_id_of"
    by (rule atomic_listingI [OF fault_tolerant_ops(2) reads_keep_database(2)])
      (rule list_claims_result [OF assms], auto)
  show "atomic_listing cd (list_hosts cd) (host_view cd) host_id_of"
    by (rule atomic_listingI [OF fault_tolerant_ops(4) reads_keep_database(4)])
      (rule list_hosts_result [OF assms], auto)
qed (rule atomic_callI, rule fault_tolerant_ops, rule storage_refinements [OF assms], assumption, simp)+

text \<open>The commit of a create fails: the claim may be stored all the same, and nothing else may.\<close>

theorem storage_calls_atomic_witness:
  "\<exists>db'. create_claim sample_codec (sample_io\<lparr>io_fault := (\<lambda>n. if n = 3 then AppliedThenFailed else Healthy)\<rparr>)
        sample_claim_id sample_spec empty_database = (Inl (internal ''sqlx''), db')
      \<and> store_of sample_codec db' \<in> {store_of sample_codec empty_database, store_of sample_codec sample_db}"
proof -
  let ?io = "sample_io\<lparr>io_fault := (\<lambda>n. if n = 3 then AppliedThenFailed else Healthy)\<rparr>"
  let ?r = "\<lparr>cr_resource = initial_claim sample_claim_id sample_spec unix_epoch, cr_retry = default_retry\<rparr>"
  obtain db' where "insert_claim_row (encode_claim sample_codec ?r) empty_database = Inr db'"
    using initial_claim_values(2) [OF sample_codec_ok sample_fit] empty_claim_view
    by (rule_tac insert_claim_spec [OF sample_codec_ok database_ok_empty, of ?r]) (auto simp: initial_claim_def)
  moreover have "fetch_claim_row empty_database t = None" for t
    by (simp add: fetch_claim_row_def joined_claims_def empty_database_def)
  moreover have "validate_resources (spec_resources sample_spec) = Inr ()"
    by (simp add: validate_resources_Inr sample_fit)
  ultimately have "fst (create_claim sample_codec ?io sample_claim_id sample_spec empty_database) = Inl (internal ''sqlx'')"
    by (simp add: create_claim_def on_pool_def begin_transaction_def query_def execute_def commit_transaction_def
        database_call_def Let_def initial_claim_values(1) [OF sample_codec_ok sample_fit] sample_io_def)
  then obtain db' where run: "create_claim sample_codec ?io sample_claim_id sample_spec empty_database = (Inl (internal ''sqlx''), db')"
    by (cases "create_claim sample_codec ?io sample_claim_id sample_spec empty_database") simp
  have "atomic_call sample_codec (\<lambda>io. create_claim sample_codec io sample_claim_id sample_spec)
      (\<lambda>io. spec_create_claim sample_codec (io_now io) sample_claim_id sample_spec)"
    using storage_calls_atomic [OF sample_codec_ok] by simp
  from this [unfolded atomic_call_def, rule_format, OF database_ok_empty run]
  have "store_of sample_codec db' \<in> {store_of sample_codec empty_database,
      snd (spec_create_claim sample_codec unix_epoch sample_claim_id sample_spec (store_of sample_codec empty_database))}"
    by (auto simp: sample_io_def)
  with run sample_db_spec show ?thesis by simp
qed

text \<open>
  Every storage call but \<open>finalize_claim\<close>, failing or not, keeps the database well-formed and
  every claim and host stored, with identity, spec, plan and creation time as they are; a
  requested deletion stays requested and the claim's host stays its host.
\<close>

theorem storage_calls_keep:
  assumes "codec_ok cd"
  shows "safe_call cd (\<lambda>io. create_claim cd io i spec) \<and> safe_call cd (\<lambda>io. get_claim cd io i)
    \<and> safe_call cd (list_claims cd) \<and> safe_call cd (\<lambda>io. mark_claim_deleting cd io i)
    \<and> safe_call cd (\<lambda>io. save_claim_status cd io claim)
    \<and> safe_call cd (\<lambda>io. ensure_host cd io i plan resources) \<and> safe_call cd (\<lambda>io. get_host cd io h)
    \<and> safe_call cd (list_hosts cd) \<and> safe_call cd (\<lambda>io. save_host cd io host)"
  by (simp add: safe_calls [OF assms] safe_reads)

theorem storage_calls_keep_witness:
  "database_ok sample_codec (snd (mark_claim_deleting sample_codec sample_io sample_claim_id sample_db))"
proof -
  have "safe_call sample_codec (\<lambda>io. mark_claim_deleting sample_codec io sample_claim_id)"
    using storage_calls_keep [OF sample_codec_ok] by simp
  from this [unfolded safe_call_def, rule_format, OF sample_db_ok] show ?thesis by simp
qed

section \<open>HostClaims\<close>

text \<open>
  Creating a claim whose identifier is taken changes nothing and is answered with the stored
  claim when the spec is the same, with a conflict when it is not.
\<close>

theorem create_claim_idempotent:
  assumes "codec_ok cd" and "database_ok cd db" and "io_fault io = no_fault"
    and "claim_view cd db i = Some r" and "resources_fit (spec_resources spec)"
  shows "create_claim cd io i spec db =
    (if hc_spec (cr_resource r) = spec then Inr (cr_resource r)
     else Inl (Conflict ''HostClaim'' (claim_id_text cd i) ''the existing claim has a different spec''), db)"
proof -
  have "validate_resources (spec_resources spec) = Inr ()"
    using assms(5) by (simp add: validate_resources_Inr)
  with fetch_claim_by_view(2) [OF assms(1,2,4)] assms(3) show ?thesis
    by (auto simp: create_claim_def on_pool_def healthy_calls)
qed

theorem create_claim_idempotent_witness:
  "create_claim sample_codec sample_io sample_claim_id sample_spec sample_db =
     (Inr (cr_resource sample_claim), sample_db)"
  using create_claim_idempotent [OF sample_codec_ok sample_db_ok sample_io_healthy sample_db_view sample_fit]
  by simp

text \<open>
  A claim spec is rejected before the database is touched exactly when a quantity is zero or
  does not fit an \<open>i64\<close> column, whatever the database does.
\<close>

theorem create_claim_rejects:
  "(\<exists>message. create_claim cd io i spec db = (Inl (InvalidArgument message), db)) \<longleftrightarrow> \<not> resources_fit (spec_resources spec)"
    (is "?rejected \<longleftrightarrow> _")
proof
  assume "\<not> resources_fit (spec_resources spec)"
  then have "validate_resources (spec_resources spec) \<noteq> Inr ()"
    by (simp add: validate_resources_Inr)
  then obtain e where e: "validate_resources (spec_resources spec) = Inl e"
    by (cases "validate_resources (spec_resources spec)") auto
  then have "\<exists>message. e = InvalidArgument message"
    by (auto simp: validate_resources_def to_i64_def bind_result_def split: if_splits)
  with e show ?rejected by (auto simp: create_claim_def on_pool_def)
next
  assume ?rejected
  then obtain message where run: "create_claim cd io i spec db = (Inl (InvalidArgument message), db)" by blast
  show "\<not> resources_fit (spec_resources spec)"
  proof
    assume fit: "resources_fit (spec_resources spec)"
    then have "validate_resources (spec_resources spec) = Inr ()" by (simp add: validate_resources_Inr)
    moreover have "claim_insert_values cd (initial_claim i spec now) \<noteq> Inl (InvalidArgument m)" for now m
      using fit
      by (auto simp: claim_insert_values_def initial_claim_def Let_def to_i64_def resources_fit_def
          bind_result_def i64_max_def ok_or_def internal_def split: option.splits if_splits)
    ultimately show False
      using run
      by (auto simp: create_claim_def on_pool_def and_then_def begin_transaction_def commit_transaction_def query_def execute_def
          database_call_def Let_def internal_def map_err_def split: db_fault.splits sum.splits option.splits prod.splits if_splits)
  qed
qed

text \<open>
  Deletion intent is permanent: marking a claim records the time of the first request and
  resets its retry schedule, and a second request, whenever it comes, changes nothing and is
  answered with the first one's time.
\<close>

theorem deletion_request_permanent:
  assumes "codec_ok cd" and "database_ok cd db" and "io_fault io = no_fault"
    and "claim_view cd db i = Some r" and "mark_claim_deleting cd io i db = (answer, db1)"
  shows "\<exists>r1. claim_view cd db1 i = Some r1 \<and> answer = Inr (cr_resource r1)
    \<and> claim_deletion r1 = Some (case claim_deletion r of None \<Rightarrow> io_now io | Some t \<Rightarrow> t)
    \<and> (claim_deletion r = None \<longrightarrow> cr_retry r1 = default_retry)
    \<and> (\<forall>io'. io_fault io' = no_fault \<longrightarrow>
        (\<exists>db2. mark_claim_deleting cd io' i db1 = (Inr (cr_resource r1), db2)
          \<and> store_of cd db2 = store_of cd db1))"
proof -
  note first = refinesD [OF mark_claim_deleting_refines [OF assms(1,3)] assms(2), of i]
  have db1: "database_ok cd db1" and spec: "spec_mark_claim_deleting cd (io_now io) i (store_of cd db) = (answer, store_of cd db1)"
    using first assms(5) by simp_all
  define r1 where "r1 = (if claim_deletion r = None then deletion_requested (io_now io) r else r)"
  have answer: "answer = Inr (cr_resource r1)"
    using spec assms(4) by (auto simp: spec_mark_claim_deleting_def r1_def split: if_splits)
  have view: "claim_view cd db1 i = Some r1"
  proof (cases "claim_deletion r = None")
    case True
    then have "store_of cd db1 = (store_of cd db)\<lparr>s_claims := (claim_view cd db)(i \<mapsto> r1)\<rparr>"
      using spec assms(4) by (simp add: spec_mark_claim_deleting_def r1_def)
    from arg_cong [OF this, of s_claims] show ?thesis by simp
  next
    case False
    then have "store_of cd db1 = store_of cd db"
      using spec assms(4) by (auto simp: spec_mark_claim_deleting_def)
    from arg_cong [OF this, of s_claims] have "claim_view cd db1 = claim_view cd db" by simp
    moreover have "r1 = r" using False by (auto simp: r1_def)
    ultimately show ?thesis using assms(4) by simp
  qed
  have deletion: "claim_deletion r1 = Some (case claim_deletion r of None \<Rightarrow> io_now io | Some t \<Rightarrow> t)"
    by (auto simp: r1_def deletion_requested_def Let_def claim_edit_defs)
  have "\<exists>db2. mark_claim_deleting cd io' i db1 = (Inr (cr_resource r1), db2) \<and> store_of cd db2 = store_of cd db1"
    if "io_fault io' = no_fault" for io'
    using refinesD(2) [OF mark_claim_deleting_refines [OF assms(1) that] db1, of i] view deletion
    by (cases "mark_claim_deleting cd io' i db1") (simp add: spec_mark_claim_deleting_def)
  moreover have "claim_deletion r = None \<longrightarrow> cr_retry r1 = default_retry"
    by (simp add: r1_def deletion_requested_def Let_def)
  ultimately show ?thesis using answer view deletion by (intro exI [of _ r1]) simp
qed

text \<open>The sample claim after a deletion request.\<close>

definition sample_deleting_db :: database where
  "sample_deleting_db = snd (mark_claim_deleting sample_codec sample_io sample_claim_id sample_db)"

theorem deletion_request_permanent_witness:
  "\<exists>r1. claim_view sample_codec sample_deleting_db sample_claim_id = Some r1
     \<and> claim_deletion r1 = Some unix_epoch \<and> cr_retry r1 = default_retry"
proof -
  obtain answer where "mark_claim_deleting sample_codec sample_io sample_claim_id sample_db = (answer, sample_deleting_db)"
    by (simp add: sample_deleting_db_def) (meson surjective_pairing)
  from deletion_request_permanent [OF sample_codec_ok sample_db_ok sample_io_healthy sample_db_view this]
  show ?thesis by (auto simp: sample_io_def)
qed

text \<open>
  C10: A status computed from a copy of the claim that predates a deletion request, or from a claim
  that is gone, is discarded: \<open>save_claim_status\<close> answers \<open>false\<close> and leaves the database as it is;
  otherwise it replaces status and retry schedule and nothing else.
\<close>

theorem stale_status_discarded:
  assumes "codec_ok cd" and "database_ok cd db" and "io_fault io = no_fault"
    and "uint (hcs_observed_generation (hc_status (cr_resource copy))) \<le> i64_max"
    and "save_claim_status cd io copy db = (answer, db')"
  shows "case claim_view cd db (claim_id_of copy) of
      None \<Rightarrow> answer = Inr False \<and> store_of cd db' = store_of cd db
    | Some r \<Rightarrow>
        if claim_deletion r = claim_deletion copy
        then answer = Inr True \<and> store_of cd db' =
          (store_of cd db)\<lparr>s_claims := (claim_view cd db)(claim_id_of copy \<mapsto> with_status copy r)\<rparr>
        else answer = Inr False \<and> store_of cd db' = store_of cd db"
proof -
  have "spec_save_claim_status cd copy (store_of cd db) = (answer, store_of cd db')"
    using refinesD(2) [OF save_claim_status_refines [OF assms(1,3)] assms(2), of copy] assms(5) by simp
  moreover have "to_i64 (hcs_observed_generation (hc_status (cr_resource copy))) ''observed_generation''
      = Inr (uint (hcs_observed_generation (hc_status (cr_resource copy))))"
    using assms(4) by (simp add: to_i64_def)
  ultimately show ?thesis
    by (auto simp: spec_save_claim_status_def split: option.splits if_splits)
qed

lemma sample_deleting_ok: "database_ok sample_codec sample_deleting_db"
  unfolding sample_deleting_db_def
  by (rule refinesD(1) [OF mark_claim_deleting_refines [OF sample_codec_ok sample_io_healthy] sample_db_ok])

lemma sample_deleting_view:
  "claim_view sample_codec sample_deleting_db sample_claim_id = Some (deletion_requested unix_epoch sample_claim)"
proof -
  have "snd (spec_mark_claim_deleting sample_codec unix_epoch sample_claim_id (store_of sample_codec sample_db))
      = store_of sample_codec sample_deleting_db"
    using refinesD(2) [OF mark_claim_deleting_refines [OF sample_codec_ok sample_io_healthy] sample_db_ok, of sample_claim_id]
    by (simp add: sample_deleting_db_def sample_io_def)
  then have "store_of sample_codec sample_deleting_db =
      (store_of sample_codec sample_db)\<lparr>s_claims := (claim_view sample_codec sample_db)
        (sample_claim_id \<mapsto> deletion_requested unix_epoch sample_claim)\<rparr>"
    by (simp add: spec_mark_claim_deleting_def sample_db_view)
  from arg_cong [OF this, of s_claims] show ?thesis by simp
qed

theorem stale_status_discarded_witness:
  "\<exists>db'. save_claim_status sample_codec sample_io sample_claim sample_deleting_db = (Inr False, db')
     \<and> store_of sample_codec db' = store_of sample_codec sample_deleting_db"
proof -
  have fit: "uint (hcs_observed_generation (hc_status (cr_resource sample_claim))) \<le> i64_max"
    by (simp add: sample_claim_def initial_claim_def i64_max_def)
  have "claim_deletion (deletion_requested unix_epoch sample_claim) \<noteq> None"
    by (simp add: deletion_requested_def Let_def claim_edit_defs)
  with stale_status_discarded [OF sample_codec_ok sample_deleting_ok sample_io_healthy fit] sample_deleting_view
  show ?thesis
    by (cases "save_claim_status sample_codec sample_io sample_claim sample_deleting_db") (fastforce split: if_splits)
qed

section \<open>Hosts\<close>

text \<open>
  C17: \<open>ensure_host\<close> assigns one host to a claim and then pins it: for a claim that is not being
  deleted it stores a host with the given plan and resources when there is none; when there is
  one it is returned as it is if plan and resources agree and refused with a conflict if they do
  not. A claim being deleted gets no host.
\<close>

theorem ensure_host_pins:
  assumes "codec_ok cd" and "database_ok cd db" and "io_fault io = no_fault"
    and "claim_view cd db i = Some r" and "resources_fit resources" and "plan \<noteq> []"
    and "host_view cd db (io_host_id io) = None"
    and "ensure_host cd io i plan resources db = (answer, db')"
  shows "if claim_deletion r \<noteq> None then (\<exists>m. answer = Inl (Conflict ''HostClaim'' (claim_id_text cd i) m)) \<and> store_of cd db' = store_of cd db
    else case claim_host r of
      None \<Rightarrow> answer = Inr (new_host_record (io_host_id io) i plan resources (io_now io))
        \<and> host_view cd db' = (host_view cd db)(io_host_id io \<mapsto> new_host_record (io_host_id io) i plan resources (io_now io))
        \<and> map_option claim_host (claim_view cd db' i) = Some (Some (io_host_id io))
    | Some h \<Rightarrow> store_of cd db' = store_of cd db \<and> (\<exists>hr. host_view cd db h = Some hr
        \<and> (if hr_provider_plan_id hr = plan \<and> h_allocatable_resources (hr_resource hr) = resources
           then answer = Inr hr
           else \<exists>m. answer = Inl (Conflict ''HostClaim'' (claim_id_text cd (host_claim_of hr)) m)))"
proof -
  have spec: "spec_ensure_host cd (io_now io) (io_host_id io) i plan resources (store_of cd db) = (answer, store_of cd db')"
    using refinesD(2) [OF ensure_host_refines [OF assms(1,3)] assms(2), of i plan resources] assms(8) by simp
  have valid: "validate_resources resources = Inr ()"
    using assms(5) by (simp add: validate_resources_Inr)
  note defs = spec_ensure_host_def valid assms(4)
  show ?thesis
  proof (cases "claim_deletion r = None")
    case False
    with spec show ?thesis by (auto simp: defs)
  next
    case active: True
    show ?thesis
    proof (cases "claim_host r")
      case None
      let ?hr = "new_host_record (io_host_id io) i plan resources (io_now io)"
      have answer: "answer = Inr ?hr" and st: "store_of cd db' =
          \<lparr>s_claims = (claim_view cd db)(i \<mapsto> bound_claim cd (hr_resource ?hr) (io_now io) r),
           s_hosts = (host_view cd db)(io_host_id io \<mapsto> ?hr)\<rparr>"
        using spec None active assms(6,7) by (auto simp: defs Let_def store_of_def)
      have "claim_host (bound_claim cd (hr_resource ?hr) (io_now io) r) = Some (io_host_id io)"
        by (simp add: bound_claim_def host_assigned_def Let_def claim_edit_defs)
      with arg_cong [OF st, of s_claims] arg_cong [OF st, of s_hosts] answer None active show ?thesis
        by simp
    next
      case (Some h)
      then obtain hr where hr: "host_view cd db h = Some hr"
        using assigned_host_stored [OF assms(1,2,4)] by auto
      with spec Some active show ?thesis
        by (auto simp: defs validate_host_assignment_def bind_result_def split: if_splits)
    qed
  qed
qed

definition sample_bound_db :: database where
  "sample_bound_db = snd (ensure_host sample_codec sample_io sample_claim_id ''plan'' (spec_resources sample_spec) sample_db)"

theorem ensure_host_pins_witness:
  "host_view sample_codec sample_bound_db (HostId 7) =
     Some (new_host_record (HostId 7) sample_claim_id ''plan'' (spec_resources sample_spec) unix_epoch)"
proof -
  obtain answer where run: "ensure_host sample_codec sample_io sample_claim_id ''plan'' (spec_resources sample_spec) sample_db
      = (answer, sample_bound_db)"
    by (simp add: sample_bound_db_def) (meson surjective_pairing)
  have "host_view sample_codec sample_db (io_host_id sample_io) = None" by (rule sample_db_hosts)
  from ensure_host_pins [OF sample_codec_ok sample_db_ok sample_io_healthy sample_db_view sample_fit _ this run]
  show ?thesis by (simp add: sample_io_def)
qed

section \<open>Reading back\<close>

text \<open>
  C38: What the INSERT statements bind is read back as it was: a new claim and a new host with
  their plan and an empty retry schedule, and every phase through the text of its column, which
  no other text spells.
\<close>

theorem inserted_rows_read_back:
  assumes "codec_ok cd"
    and "claim_insert_values cd claim = Inr claim_row"
    and "hc_deletion_timestamp claim = None" and "hcs_host_id (hc_status claim) = None"
    and "host_insert_values cd host plan = Inr host_row"
    and "hs_phase (h_status host) = Pending" and "hs_provider_resource_id (h_status host) = None"
    and "hs_observed_at (h_status host) = None"
  shows "claim_record_from_row cd (claim_row, None) = Inr \<lparr>cr_resource = claim, cr_retry = default_retry\<rparr>
    \<and> host_record_from_row cd host_row = Inr \<lparr>hr_resource = host, hr_provider_plan_id = plan, hr_retry = default_retry\<rparr>
    \<and> host_phase_from_db (host_phase_to_db phase) = Inr phase
    \<and> (host_phase_from_db column = Inr phase \<longrightarrow> column = host_phase_to_db phase)"
proof (intro conjI)
  have "claim_row = encode_claim cd \<lparr>cr_resource = claim, cr_retry = default_retry\<rparr>"
    using assms(2,3)
    by (auto simp: claim_insert_values_def encode_claim_def Let_def bind_result_Inr_iff to_i64_Inr_iff
        default_retry_def conditions_to_json_text [OF assms(1)])
  then show "claim_record_from_row cd (claim_row, None) = Inr \<lparr>cr_resource = claim, cr_retry = default_retry\<rparr>"
    using claim_round_trip [OF assms(1), of "\<lparr>cr_resource = claim, cr_retry = default_retry\<rparr>" None] assms(4)
    by (simp add: with_host_def)
  have "host_row = encode_host cd \<lparr>hr_resource = host, hr_provider_plan_id = plan, hr_retry = default_retry\<rparr>"
    using assms(5-8)
    by (auto simp: host_insert_values_def encode_host_def Let_def bind_result_Inr_iff to_i64_Inr_iff
        default_retry_def conditions_to_json_text [OF assms(1)] host_phase_to_db_def)
  then show "host_record_from_row cd host_row = Inr \<lparr>hr_resource = host, hr_provider_plan_id = plan, hr_retry = default_retry\<rparr>"
    by (simp add: host_round_trip [OF assms(1)])
  show "host_phase_from_db (host_phase_to_db phase) = Inr phase" by (rule phase_column.decode_encode) simp
  show "host_phase_from_db column = Inr phase \<longrightarrow> column = host_phase_to_db phase"
    by (auto simp: host_phase_from_db_def host_phase_to_db_def split: if_splits)
qed

theorem inserted_rows_read_back_witness:
  "\<exists>row. claim_insert_values sample_codec (cr_resource sample_claim) = Inr row
     \<and> claim_record_from_row sample_codec (row, None) = Inr sample_claim"
proof -
  obtain row where row: "claim_insert_values sample_codec (cr_resource sample_claim) = Inr row"
    using initial_claim_values(1) [OF sample_codec_ok sample_fit] by (simp add: sample_claim_def)
  obtain host_row where host: "host_insert_values sample_codec
      (initial_host (HostId 7) sample_claim_id (spec_resources sample_spec) unix_epoch) ''plan'' = Inr host_row"
    using new_host_values [OF sample_codec_ok sample_fit] by simp
  have "hcs_host_id (hc_status (cr_resource sample_claim)) = None" by simp
  from inserted_rows_read_back [OF sample_codec_ok row _ this host] row show ?thesis
    by (simp add: initial_host_def) (simp add: sample_claim_def)
qed

text \<open>
  C39: Listing the claims of a well-formed database gives each stored claim once, as its lookup
  gives it, ordered by the text of its creation time and then of its identifier.
\<close>

theorem list_claims_complete:
  assumes "codec_ok cd" and "database_ok cd db" and "io_fault io = no_fault"
  shows "\<exists>rs. list_claims cd io db = (Inr rs, db)
    \<and> (\<forall>r. r \<in> set rs \<longleftrightarrow> claim_view cd db (claim_id_of r) = Some r)
    \<and> sorted (map (\<lambda>r. (timestamp_text cd (hc_created_at (cr_resource r)), claim_id_text cd (claim_id_of r))) rs)
    \<and> distinct (map claim_id_of rs)"
proof -
  obtain rs where "list_claims cd io db = (Inr rs, db)"
      "\<And>r. r \<in> set rs \<longleftrightarrow> claim_view cd db (claim_id_of r) = Some r"
      "sorted (map (\<lambda>r. (timestamp_text cd (hc_created_at (cr_resource r)), claim_id_text cd (claim_id_of r))) rs)"
      "distinct (map claim_id_of rs)"
    by (rule list_claims_result [OF assms(1,3,2)]) blast
  then show ?thesis by (intro exI [of _ rs]) simp
qed

theorem list_claims_complete_witness:
  "list_claims sample_codec sample_io sample_db = (Inr [sample_claim], sample_db)"
proof -
  obtain rs where rs: "list_claims sample_codec sample_io sample_db = (Inr rs, sample_db)"
      "\<forall>r. r \<in> set rs \<longleftrightarrow> claim_view sample_codec sample_db (claim_id_of r) = Some r"
      "distinct (map claim_id_of rs)"
    using list_claims_complete [OF sample_codec_ok sample_db_ok sample_io_healthy] by blast
  have "r \<in> set rs \<longleftrightarrow> r = sample_claim" for r
    using rs(2) arg_cong [OF sample_db_store, of s_claims] by auto
  then have "set rs = {sample_claim}" by auto
  moreover have "distinct rs" using rs(3) by (simp add: distinct_map)
  ultimately have "rs = [sample_claim]"
    by (cases rs; cases "tl rs") auto
  with rs(1) show ?thesis by simp
qed

text \<open>
  Finalizing removes the claim together with its host and nothing else; for a claim that is
  not stored it is an error and removes nothing.
\<close>

theorem finalize_cascades:
  assumes "codec_ok cd" and "database_ok cd db" and "io_fault io = no_fault"
    and "finalize_claim cd io i db = (answer, db')"
  shows "if claim_view cd db i = None
    then answer = Inl (NotFound ''HostClaim'' (claim_id_text cd i)) \<and> store_of cd db' = store_of cd db
    else answer = Inr () \<and> claim_view cd db' = (claim_view cd db)(i := None)
      \<and> (\<forall>h hr. host_view cd db' h = Some hr \<longleftrightarrow> host_view cd db h = Some hr \<and> host_claim_of hr \<noteq> i)"
proof -
  have spec: "spec_finalize_claim cd i (store_of cd db) = (answer, store_of cd db')"
    using refinesD(2) [OF finalize_claim_refines [OF assms(1,3)] assms(2), of i] assms(4) by simp
  show ?thesis
  proof (cases "claim_view cd db i")
    case None
    with spec show ?thesis by (simp add: spec_finalize_claim_def)
  next
    case (Some r)
    then have answer: "answer = Inr ()" and st: "store_of cd db' = without_claim i (store_of cd db)"
      using spec by (auto simp: spec_finalize_claim_def without_claim_def)
    from arg_cong [OF st, of s_claims] arg_cong [OF st, of s_hosts] Some answer show ?thesis
      by (auto simp: without_claim_def split: option.splits if_splits)
  qed
qed

theorem finalize_cascades_witness:
  "\<exists>db'. finalize_claim sample_codec sample_io sample_claim_id sample_db = (Inr (), db')
     \<and> claim_view sample_codec db' = Map.empty"
proof -
  have "claim_view sample_codec sample_db = [sample_claim_id \<mapsto> sample_claim]"
    using arg_cong [OF sample_db_store, of s_claims] by simp
  with finalize_cascades [OF sample_codec_ok sample_db_ok sample_io_healthy, of sample_claim_id] show ?thesis
    by (cases "finalize_claim sample_codec sample_io sample_claim_id sample_db") simp
qed

end
