(* ===== verification/Lifecycle.thy ===== *)
theory Lifecycle
  imports Daemon_Safety Convergence Provider_Properties Storage_Properties
begin

text \<open>
  A claim's life from an RPC request to a Ready host and back, on the daemon with the fake
  provider: the requests served on a quiet database, the fake provider's answers along the way,
  and the end-to-end properties.
\<close>

section \<open>Requests on a quiet database\<close>

lemma on_db_refines:
  assumes ok: "db_fine E w" and refines: "refines (e_codec E) m spec"
    and spec: "spec (world_store E w) = (r, st)"
  obtains db where "on_db m w = (r, w\<lparr>w_db := db\<rparr>)" and "store_of (e_codec E) db = st"
    and "database_ok (e_codec E) db"
proof -
  obtain r' db where run: "m (w_db w) = (r', db)" by (rule prod.exhaust)
  show ?thesis
    using refinesD [OF refines ok] run spec by (intro that [of db]) (simp_all add: on_db_def)
qed

lemma create_served:
  assumes E: "quiet E" and io: "io_fault io = no_fault" and vacant: "vacant E w"
    and req: "parse_create_params (e_params E) params = Inr req" and fit: "resources_fit (spec_resources (ccp_spec req))"
  defines "claim \<equiv> initial_claim (ccp_id req) (ccp_spec req) (io_now io)"
  obtains w' where "serve_message E io (Call HOST_CLAIM_CREATE params) w = (Some (Inr (ClaimResult claim)), w')"
    and "lone E w' \<lparr>cr_resource = claim, cr_retry = default_retry\<rparr> Map.empty"
    and "w_provider w' = w_provider w" and "w_notified w'"
proof -
  have cd: "codec_ok (e_codec E)" using E by (simp add: quiet_def)
  have valid: "validate_resources (spec_resources (ccp_spec req)) = Inr ()" using fit by (simp add: validate_resources_Inr)
  have id: "hc_id claim = ccp_id req" by (simp add: claim_def initial_claim_def)
  have st: "world_store E w = \<lparr>s_claims = Map.empty, s_hosts = Map.empty\<rparr>" and ok: "db_fine E w"
    using vacant by (simp_all add: vacant_def holds_def)
  have spec: "spec_create_claim (e_codec E) (io_now io) (ccp_id req) (ccp_spec req) (world_store E w) =
      (Inr claim, \<lparr>s_claims = [ccp_id req \<mapsto> \<lparr>cr_resource = claim, cr_retry = default_retry\<rparr>], s_hosts = Map.empty\<rparr>)"
    unfolding st by (simp add: spec_create_claim_def valid claim_def)
  obtain db where db: "on_db (create_claim (e_codec E) io (ccp_id req) (ccp_spec req)) w = (Inr claim, w\<lparr>w_db := db\<rparr>)"
      "store_of (e_codec E) db = \<lparr>s_claims = [ccp_id req \<mapsto> \<lparr>cr_resource = claim, cr_retry = default_retry\<rparr>], s_hosts = Map.empty\<rparr>"
      "database_ok (e_codec E) db"
    by (rule on_db_refines [OF ok create_claim_refines [OF cd io] spec])
  have "serve_message E io (Call HOST_CLAIM_CREATE params) w =
      (Some (Inr (ClaimResult claim)), w\<lparr>w_db := db, w_notified := True\<rparr>)"
    using req db(1)
    by (simp add: serve_message_def rpc_module_registered host_claim_create_def parse_params_def lift_result_def and_then_def
        map_oper_err_def wake_def ok_def)
  then show ?thesis by (rule that) (simp_all add: lone_def holds_def db(2,3) id)
qed

lemma delete_served:
  assumes E: "quiet E" and io: "io_fault io = no_fault" and lone: "lone E w r hs" and r: "claim_deletion r = None"
    and req: "parse_claim_params (e_params E) params = Inr (claim_id_of r)"
  obtains w' where "serve_message E io (Call HOST_CLAIM_DELETE params) w =
      (Some (Inr (ClaimResult (cr_resource (deletion_requested (io_now io) r)))), w')"
    and "lone E w' (deletion_requested (io_now io) r) hs"
    and "w_provider w' = w_provider w" and "w_notified w'"
proof -
  have cd: "codec_ok (e_codec E)" using E by (simp add: quiet_def)
  let ?r = "deletion_requested (io_now io) r"
  have id: "claim_id_of ?r = claim_id_of r" by (simp add: deletion_requested_def Let_def claim_edit_defs)
  have st: "world_store E w = \<lparr>s_claims = [claim_id_of r \<mapsto> r], s_hosts = hs\<rparr>"
    using lone by (simp add: lone_def holds_def)
  have spec: "spec_mark_claim_deleting (e_codec E) (io_now io) (claim_id_of r) (world_store E w) =
      (Inr (cr_resource ?r), \<lparr>s_claims = [claim_id_of r \<mapsto> ?r], s_hosts = hs\<rparr>)"
    unfolding st using r by (simp add: spec_mark_claim_deleting_def)
  obtain db where db: "on_db (mark_claim_deleting (e_codec E) io (claim_id_of r)) w = (Inr (cr_resource ?r), w\<lparr>w_db := db\<rparr>)"
      "store_of (e_codec E) db = \<lparr>s_claims = [claim_id_of r \<mapsto> ?r], s_hosts = hs\<rparr>" "database_ok (e_codec E) db"
    by (rule on_db_refines [OF loneD(1) [OF lone] mark_claim_deleting_refines [OF cd io] spec])
  have "serve_message E io (Call HOST_CLAIM_DELETE params) w =
      (Some (Inr (ClaimResult (cr_resource ?r))), w\<lparr>w_db := db, w_notified := True\<rparr>)"
    using req db(1)
    by (simp add: serve_message_def rpc_module_registered host_claim_delete_def parse_params_def lift_result_def and_then_def
        map_oper_err_def wake_def ok_def)
  then show ?thesis by (rule that) (simp_all add: lone_def holds_def db(2,3) id)
qed

lemma deletion_requested_sel:
  "claim_id_of (deletion_requested now r) = claim_id_of r" "claim_host (deletion_requested now r) = claim_host r"
  "claim_deletion (deletion_requested now r) = Some now" "cr_retry (deletion_requested now r) = default_retry"
  by (simp_all add: deletion_requested_def Let_def claim_edit_defs)

lemma lone_notified [simp]:
  "lone E (w\<lparr>w_notified := b\<rparr>) r hs = lone E w r hs" "vacant E (w\<lparr>w_notified := b\<rparr>) = vacant E w"
  by (simp_all add: lone_def holds_def vacant_def holds_def)

lemma first_start_vacant: "vacant E (snd (first_start p))"
  using database_ok_empty
  by (simp add: vacant_def holds_def first_start_def store_of_def fun_eq_iff empty_claim_view empty_host_view)

section \<open>The fake provider along the way\<close>

lemma seeded_plans: "plans (seed_catalog empty_fake_provider) = catalog"
  by (simp add: seed_catalog_def empty_fake_provider_def catalog_def upsert_plan_def)

lemma catalog_enabled:
  assumes "row \<in> set catalog"
  shows "length (filter (\<lambda>r. pl_id r = pl_id row \<and> pl_enabled r = 1) catalog) = 1" and "pl_id row \<noteq> []"
  using assms by (auto simp: catalog_def)

lemma seeded_calm:
  assumes "codec_ok (fk_codec F)" and "\<forall>n. fk_fault F n = Healthy"
  shows "fake_calm F (seed_catalog empty_fake_provider)"
    and "provider_resources (seed_catalog empty_fake_provider) = []"
  using assms seed_catalog_sane [OF empty_fake_sane [OF assms(1)]]
  by (simp_all add: fake_calm_def fault_remaining_def seed_catalog_def empty_fake_provider_def)

text \<open>A provider whose one resource is \<open>res\<close>, held for host \<open>h\<close> and created from \<open>plan\<close>.\<close>

definition sole_resource :: "fake_env \<Rightarrow> fake_provider \<Rightarrow> HostId \<Rightarrow> ProviderResource \<Rightarrow> string \<Rightarrow> bool" where
  "sole_resource F s h res plan \<longleftrightarrow>
     fake_calm F s \<and> fake_owned F s h = Some (res, plan)
     \<and> (\<forall>row \<in> set (provider_resources s). re_host_id row = host_id_text (fk_codec F) h)"

lemma sole_resource_count [simp]: "sole_resource F (s\<lparr>statement_count := n\<rparr>) h res plan = sole_resource F s h res plan"
  by (simp add: sole_resource_def)

lemma sole_resource_observed:
  assumes "sole_resource F s h res plan"
  obtains n where "fake_observe F h s = (Inr (Present res), s\<lparr>statement_count := n\<rparr>)"
proof -
  have calm: "fake_calm F s" using assms by (simp add: sole_resource_def)
  show ?thesis
    by (rule fake_observe_calm [OF calm, of h]) (use assms that in \<open>simp add: sole_resource_def\<close>)
qed

lemma sole_resource_deleted:
  assumes "sole_resource F s h res plan"
  obtains s' n where "fake_delete F h s = (Inr Deleted, s')" and "provider_resources s' = []"
    and "fake_observe F h s' = (Inr Absent, s'\<lparr>statement_count := n\<rparr>)"
proof -
  have calm: "fake_calm F s" and only: "\<forall>row \<in> set (provider_resources s). re_host_id row = host_id_text (fk_codec F) h"
    using assms by (simp_all add: sole_resource_def)
  obtain s' where s': "fake_delete F h s = (Inr Deleted, s')" "provider_resources s' = []"
      "\<forall>operation. fault_remaining operation s' = fault_remaining operation s"
    by (rule fake_delete_calm [OF calm, of h]) (use only in simp)
  have sane: "fake_sane F s" using calm by (simp add: fake_calm_def)
  have calm': "fake_calm F s'"
    using calm s'(3) fake_delete_effect(1) [OF sane s'(1)] by (simp add: fake_calm_def)
  have "fake_owned F s' h = None" using s'(2) by (simp add: fake_owned_def find_resource_def)
  moreover obtain n where "fake_observe F h s' =
      (Inr (case fake_owned F s' h of None \<Rightarrow> Absent | Some (res, plan) \<Rightarrow> Present res), s'\<lparr>statement_count := n\<rparr>)"
    by (rule fake_observe_calm [OF calm', of h])
  ultimately show ?thesis by (intro that [OF s'(1,2)]) simp
qed

lemma created_sole:
  assumes calm: "fake_calm F p" and none: "provider_resources p = []" and plans: "plans p = catalog"
    and row: "row \<in> set catalog" and plan: "plan = pl_id row"
  obtains p1 p2 p3 res where "fake_observe F h (p\<lparr>statement_count := n\<rparr>) = (Inr Absent, p1)"
    and "fake_create F h plan p1 = (Inr (Created res), p2)"
    and "fake_observe F h p2 = (Inr (Present res), p3)" and "pr_lifecycle res = LifecycleReady"
    and "sole_resource F p3 h res plan"
proof -
  have calm': "fake_calm F (p\<lparr>statement_count := m\<rparr>)" for m using calm by simp
  have absent: "fake_owned F p h = None"
    using none by (simp add: fake_owned_def find_resource_def)
  obtain m where observed: "fake_observe F h (p\<lparr>statement_count := n\<rparr>) = (Inr Absent, p\<lparr>statement_count := m\<rparr>)"
    by (rule fake_observe_calm [OF calm' [of n], of h]) (simp add: absent)
  obtain k rid at where created: "fake_create F h plan (p\<lparr>statement_count := m\<rparr>) =
      (Inr (Created \<lparr>pr_id = rid, pr_host_id = h, pr_lifecycle = LifecycleReady\<rparr>),
       p\<lparr>statement_count := k, provider_resources := [\<lparr>re_id = rid, re_host_id = host_id_text (fk_codec F) h,
         re_plan_id = plan, re_lifecycle = ''ready'', re_created_at = at\<rparr>]\<rparr>)"
    by (rule fake_create_calm [OF calm' [of m], of plan h]) (use none plans plan catalog_enabled(1) [OF row] in simp_all)
  let ?res = "\<lparr>pr_id = rid, pr_host_id = h, pr_lifecycle = LifecycleReady\<rparr>"
  let ?p2 = "p\<lparr>statement_count := k, provider_resources := [\<lparr>re_id = rid, re_host_id = host_id_text (fk_codec F) h,
         re_plan_id = plan, re_lifecycle = ''ready'', re_created_at = at\<rparr>]\<rparr>"
  have sane: "fake_sane F (p\<lparr>statement_count := m\<rparr>)" using calm' by (simp add: fake_calm_def)
  have owned: "fake_owned F ?p2 h = Some (?res, plan)"
    using fake_create_answer [OF sane, of h plan] created by blast
  have "fake_calm F ?p2"
    using fake_create_effect(1) [OF sane created] calm by (simp add: fake_calm_def)
  then have sole: "sole_resource F ?p2 h ?res plan" using owned by (simp add: sole_resource_def)
  obtain l where seen: "fake_observe F h ?p2 = (Inr (Present ?res), ?p2\<lparr>statement_count := l\<rparr>)"
    by (rule sole_resource_observed [OF sole])
  show ?thesis
    by (rule that [OF observed created seen]) (simp, simp only: sole_resource_count sole)
qed

section \<open>From a first start to a Ready host\<close>

text \<open>
  The daemon after its first start on empty databases, serving a create request for resources that
  a row of the catalog offers, and then running the wake that the request left behind.
\<close>

definition serves_create :: "environment \<Rightarrow> fake_env \<Rightarrow> io \<Rightarrow> string \<Rightarrow> CreateHostClaimParams \<Rightarrow> bool" where
  "serves_create E F io params req \<longleftrightarrow>
     quiet E \<and> codec_ok (fk_codec F) \<and> (\<forall>n. fk_fault F n = Healthy) \<and> io_fault io = no_fault
     \<and> parse_create_params (e_params E) params = Inr req
     \<and> resources_fit (spec_resources (ccp_spec req))
     \<and> (let r = spec_resources (ccp_spec req)
         in \<exists>row \<in> set catalog. plan_suffices (uint (vcpus r)) (uint (memory_bytes r)) (uint (storage_bytes r)) row)"

lemma catalog_row_fits:
  assumes "row \<in> set catalog" and "plan_from_row row = Inr plan"
  shows "resources_fit (plan_resources plan)" and "plan_id plan = pl_id row"
proof -
  note ok = catalog_ok [OF assms(1)]
  have "uint (memory_bytes (plan_resources plan)) = pl_memory_bytes row"
      "uint (storage_bytes (plan_resources plan)) = pl_storage_bytes row"
    using plan_row_ok_from_row [OF ok] assms(2) by auto
  then show "resources_fit (plan_resources plan)"
    using ok plan_from_row_resources(2) [OF assms(2)]
    by (simp add: resources_fit_def plan_row_ok_def word_less_def)
qed (rule plan_from_row_resources(1) [OF assms(2)])

lemma ready_reached:
  fixes E :: environment and io :: io and req :: CreateHostClaimParams
  defines "claim \<equiv> initial_claim (ccp_id req) (ccp_spec req) (io_now io)"
  assumes served: "serves_create E F io params req"
  obtains w1 w2 r h hr res where
    "serve_message E io (Call HOST_CLAIM_CREATE params) (snd (first_start (seed_catalog empty_fake_provider)))
       = (Some (Inr (ClaimResult claim)), w1)" and "w_notified w1"
    and "reconcile_wake E (FakeProvider F) (w1\<lparr>w_notified := False\<rparr>) = w2" and "\<not> w_notified w2"
    and "lone E w2 r [h \<mapsto> hr]" and "claim_id_of r = ccp_id req" and "claim_host r = Some h" and "claim_deletion r = None"
    and "map_option c_status (condition_at (claim_conditions r) ''Ready'') = Some StatusTrue"
    and "host_phase hr = Ready" and "host_provider_resource hr = Some (pr_id res)" and "hr_retry hr = default_retry"
    and "satisfies (h_allocatable_resources (hr_resource hr)) (spec_resources (ccp_spec req))"
    and "sole_resource F (w_provider w2) h res (hr_provider_plan_id hr)" and "pr_lifecycle res = LifecycleReady"
proof -
  let ?p = "seed_catalog empty_fake_provider"
  let ?req = "spec_resources (ccp_spec req)"
  have E: "quiet E" and F: "codec_ok (fk_codec F)" "\<forall>n. fk_fault F n = Healthy" and io: "io_fault io = no_fault"
    and parse: "parse_create_params (e_params E) params = Inr req" and fit: "resources_fit ?req"
    using served by (simp_all add: serves_create_def)
  obtain row where row: "row \<in> set (plans ?p)"
      "plan_suffices (uint (vcpus ?req)) (uint (memory_bytes ?req)) (uint (storage_bytes ?req)) row"
    using served unfolding serves_create_def Let_def seeded_plans by blast
  obtain w1 where w1: "serve_message E io (Call HOST_CLAIM_CREATE params) (snd (first_start ?p)) = (Some (Inr (ClaimResult claim)), w1)"
      "lone E w1 \<lparr>cr_resource = claim, cr_retry = default_retry\<rparr> Map.empty"
      "w_provider w1 = w_provider (snd (first_start ?p))" "w_notified w1"
    unfolding claim_def by (rule create_served [OF E io first_start_vacant parse fit])
  let ?w = "w1\<lparr>w_notified := False\<rparr>"
  let ?r = "\<lparr>cr_resource = claim, cr_retry = default_retry\<rparr>"
  note calm = seeded_calm(1) [OF F]
  obtain best plan n where select: "fake_select_plan F ?req ?p = (Inr (Some plan), ?p\<lparr>statement_count := n\<rparr>)"
      "best \<in> set (plans ?p)" "plan_from_row best = Inr plan" "pl_enabled best = 1" "satisfies (plan_resources plan) ?req"
    by (rule fake_select_calm [OF calm row])
  let ?p0 = "?p\<lparr>statement_count := n\<rparr>"
  have best: "best \<in> set catalog" using select(2) by (simp add: seeded_plans)
  note fits = catalog_row_fits [OF best select(3)]
  have provider: "\<exists>p1 p2 p3 res. fake_observe F h ?p0 = (Inr Absent, p1)
      \<and> fake_create F h (plan_id plan) p1 = (Inr (Created res), p2)
      \<and> fake_observe F h p2 = (Inr (Present res), p3) \<and> pr_lifecycle res = LifecycleReady
      \<and> sole_resource F p3 h res (plan_id plan)" for h
    by (rule created_sole [OF calm seeded_calm(2) [OF F] seeded_plans best fits(2), of h n]) blast
  have claim: "claim_deletion ?r = None" "claim_host ?r = None" "next_reconcile_at_unix_ms (cr_retry ?r) = None"
      "claim_id_of ?r = ccp_id req" "hc_spec (cr_resource ?r) = ccp_spec req"
    by (simp_all add: claim_def initial_claim_def default_retry_def)
  obtain w2 r h hr p1 res p2 p3 where w2: "reconcile_wake E (FakeProvider F) ?w = w2" "w_notified w2 = w_notified ?w"
      "lone E w2 r [h \<mapsto> hr]" "claim_id_of r = claim_id_of ?r" "claim_host r = Some h"
      "hr_provider_plan_id hr = plan_id plan" "h_allocatable_resources (hr_resource hr) = plan_resources plan"
      "host_phase hr = Ready" "host_provider_resource hr = Some (pr_id res)" "hr_retry hr = default_retry"
      "claim_deletion r = None" "map_option c_status (condition_at (claim_conditions r) ''Ready'') = Some StatusTrue"
      and run: "observe (FakeProvider F) h ?p0 = (Inr Absent, p1)"
      "create_resource (FakeProvider F) h (plan_id plan) p1 = (Inr (Created res), p2)"
      "observe (FakeProvider F) h p2 = (Inr (Present res), p3)" "w_provider w2 = p3"
  proof (rule wake_makes_ready [OF E, of ?w ?r "FakeProvider F" plan ?p0])
    show "lone E ?w ?r Map.empty" using w1(2) by simp
    show "select_plan (FakeProvider F) (spec_resources (hc_spec (cr_resource ?r))) (w_provider ?w) = (Inr (Some plan), ?p0)"
      using select(1) w1(3) claim(5) by (simp add: first_start_def)
    show "plan_id plan \<noteq> []" using fits(2) catalog_enabled(2) [OF best] by simp
    show "\<exists>p1 p2 p3 res. observe (FakeProvider F) h ?p0 = (Inr Absent, p1)
        \<and> create_resource (FakeProvider F) h (plan_id plan) p1 = (Inr (Created res), p2)
        \<and> observe (FakeProvider F) h p2 = (Inr (Present res), p3) \<and> pr_lifecycle res = LifecycleReady" for h
      using provider [of h] by auto
  qed (use claim fits(1) in simp_all)
  have "sole_resource F p3 h res (plan_id plan)" "pr_lifecycle res = LifecycleReady" using provider [of h] run by auto
  then show ?thesis
    by (intro that [OF w1(1,4) w2(1) _ w2(3)]) (use w2 run(4) claim(4) select(5) in simp_all)
qed

section \<open>End to end\<close>

text \<open>
  C2: From a first start on empty databases, a create request for resources that some plan of the
  catalog offers is answered with the new claim, wakes the controller, and the one wake that
  follows leaves the claim Ready on a Ready host: the host offers what was asked for, the provider
  holds the resource it names, created from the host's plan, and no further wake is asked for.
\<close>

theorem claim_becomes_ready:
  assumes "serves_create E F io params req"
  shows "\<exists>w1 w2 r h hr res.
    serve_message E io (Call HOST_CLAIM_CREATE params) (snd (first_start (seed_catalog empty_fake_provider)))
      = (Some (Inr (ClaimResult (initial_claim (ccp_id req) (ccp_spec req) (io_now io)))), w1)
    \<and> w_notified w1 \<and> reconcile_wake E (FakeProvider F) (w1\<lparr>w_notified := False\<rparr>) = w2 \<and> \<not> w_notified w2
    \<and> claim_view (e_codec E) (w_db w2) (ccp_id req) = Some r \<and> claim_host r = Some h
    \<and> map_option c_status (condition_at (claim_conditions r) ''Ready'') = Some StatusTrue
    \<and> host_view (e_codec E) (w_db w2) h = Some hr \<and> host_phase hr = Ready
    \<and> host_provider_resource hr = Some (pr_id res)
    \<and> satisfies (h_allocatable_resources (hr_resource hr)) (spec_resources (ccp_spec req))
    \<and> fake_owned F (w_provider w2) h = Some (res, hr_provider_plan_id hr)"
proof -
  obtain w1 w2 r h hr res where *: "serve_message E io (Call HOST_CLAIM_CREATE params)
      (snd (first_start (seed_catalog empty_fake_provider)))
        = (Some (Inr (ClaimResult (initial_claim (ccp_id req) (ccp_spec req) (io_now io)))), w1)"
      "w_notified w1" "reconcile_wake E (FakeProvider F) (w1\<lparr>w_notified := False\<rparr>) = w2" "\<not> w_notified w2"
      and lone: "lone E w2 r [h \<mapsto> hr]" "claim_id_of r = ccp_id req"
      and ready: "claim_host r = Some h" "map_option c_status (condition_at (claim_conditions r) ''Ready'') = Some StatusTrue"
      "host_phase hr = Ready" "host_provider_resource hr = Some (pr_id res)"
      "satisfies (h_allocatable_resources (hr_resource hr)) (spec_resources (ccp_spec req))"
      "sole_resource F (w_provider w2) h res (hr_provider_plan_id hr)"
    by (rule ready_reached [OF assms]) blast
  show ?thesis
    by (intro exI [of _ w1] exI [of _ w2] exI [of _ r] exI [of _ h] exI [of _ hr] exI [of _ res])
      (use * ready loneD(2,3) [OF lone(1)] lone(2) in \<open>simp add: sole_resource_def\<close>)
qed

definition sample_params :: params_codec where
  "sample_params = \<lparr>parse_empty_params = (\<lambda>_. Inr ()),
     parse_create_params = (\<lambda>_. Inr \<lparr>ccp_id = sample_claim_id, ccp_spec = sample_spec\<rparr>),
     parse_claim_params = (\<lambda>_. Inr sample_claim_id), parse_host_params = (\<lambda>_. Inr sample_host)\<rparr>"

definition sample_env :: environment where
  "sample_env = \<lparr>e_codec = sample_codec, e_params = sample_params, e_started_at = unix_epoch,
     e_binary_version = ''0.1.0'', e_rust_version = ''unknown'', e_clock = (\<lambda>_. unix_epoch), e_clock_ms = int,
     e_new_host_id = (\<lambda>n. HostId (of_nat n)), e_fault = (\<lambda>_. no_fault), e_requests = (\<lambda>_. [])\<rparr>"

lemma sample_serves_create:
  "serves_create sample_env sample_fake_env sample_io ''{}'' \<lparr>ccp_id = sample_claim_id, ccp_spec = sample_spec\<rparr>"
  unfolding serves_create_def
  using sample_fit sample_codec_ok sample_io_healthy
  by (simp add: sample_env_def quiet_def sample_fake_env_def sample_params_def sample_spec_def Let_def catalog_def
      plan_suffices_def push_bit_eq_mult)

lemma sample_env_codec [simp]: "e_codec sample_env = sample_codec"
  by (simp add: sample_env_def)

text \<open>The world after the sample request and the wake it asks for.\<close>

definition sample_created_world :: "fake_provider world" where
  "sample_created_world = snd (serve_message sample_env sample_io (Call HOST_CLAIM_CREATE ''{}'')
     (snd (first_start (seed_catalog empty_fake_provider))))"

definition sample_ready_world :: "fake_provider world" where
  "sample_ready_world = reconcile_wake sample_env (FakeProvider sample_fake_env)
     (sample_created_world\<lparr>w_notified := False\<rparr>)"

theorem claim_becomes_ready_witness:
  "\<exists>h. map_option host_phase (host_view sample_codec (w_db sample_ready_world) h) = Some Ready"
  unfolding sample_ready_world_def sample_created_world_def
  using claim_becomes_ready [OF sample_serves_create] by fastforce

text \<open>
  A claim that is Ready: the one claim of its database, bound to a host whose record agrees with the
  resource the provider holds for it.
\<close>

definition holds_ready :: "environment \<Rightarrow> fake_env \<Rightarrow> HostClaimId \<Rightarrow> fake_provider world \<Rightarrow> bool" where
  "holds_ready E F i w \<longleftrightarrow> (\<exists>r h hr res. lone E w r [h \<mapsto> hr] \<and> claim_id_of r = i \<and> claim_deletion r = None
     \<and> claim_host r = Some h \<and> map_option c_status (condition_at (claim_conditions r) ''Ready'') = Some StatusTrue
     \<and> provider_observation_is_stable hr res \<and> pr_lifecycle res = LifecycleReady
     \<and> sole_resource F (w_provider w) h res (hr_provider_plan_id hr))"

lemma holds_ready_wake:
  assumes E: "quiet E" and ready: "holds_ready E F i w"
  shows "holds_ready E F i (reconcile_wake E (FakeProvider F) w)
    \<and> tables (w_provider (reconcile_wake E (FakeProvider F) w)) = tables (w_provider w)
    \<and> w_notified (reconcile_wake E (FakeProvider F) w) = w_notified w"
proof -
  obtain r h hr res where lone: "lone E w r [h \<mapsto> hr]" and r: "claim_id_of r = i" "claim_deletion r = None" "claim_host r = Some h"
      and stable: "provider_observation_is_stable hr res" "pr_lifecycle res = LifecycleReady"
      and sole: "sole_resource F (w_provider w) h res (hr_provider_plan_id hr)"
    using ready by (auto simp: holds_ready_def)
  obtain n where seen: "fake_observe F h (w_provider w) = (Inr (Present res), (w_provider w)\<lparr>statement_count := n\<rparr>)"
    by (rule sole_resource_observed [OF sole])
  then have observed: "observe (FakeProvider F) h (w_provider w) = (Inr (Present res), (w_provider w)\<lparr>statement_count := n\<rparr>)"
    by simp
  obtain w' now where w': "reconcile_once E (FakeProvider F) w = (Inr Idle, w')"
      "w_provider w' = (w_provider w)\<lparr>statement_count := n\<rparr>" "w_notified w' = w_notified w"
      "lone E w' (with_status (fst (apply_provider_observation (e_codec E) now r hr res)) r)
        [h \<mapsto> with_host_status (snd (apply_provider_observation (e_codec E) now r hr res)) hr]"
    by (rule settled_step [OF E lone r(2,3) observed stable(1)])
  let ?r = "with_status (fst (apply_provider_observation (e_codec E) now r hr res)) r"
  let ?hr = "with_host_status (snd (apply_provider_observation (e_codec E) now r hr res)) hr"
  have "provider_observation_is_stable ?hr res"
    using observation_then_stable [of "e_codec E" now r hr res] by (simp add: provider_observation_is_stable_def)
  moreover have "map_option c_status (condition_at (claim_conditions ?r) ''Ready'') = Some StatusTrue"
    by (simp add: apply_provider_observation_conditions(1) [OF refl refl] stable(2))
  ultimately have "holds_ready E F i w'"
    unfolding holds_ready_def using r stable(2) sole w'(2)
    by (intro exI [of _ ?r] exI [of _ h] exI [of _ ?hr] exI [of _ res] conjI w'(4)) simp_all
  moreover have "reconcile_wake E (FakeProvider F) w = w'"
    using w'(1) by (simp add: reconcile_wake_def MAX_STEPS_PER_WAKE_def eval_nat_numeral)
  ultimately show ?thesis using w'(2,3) by simp
qed

text \<open>
  C15: Ready is steady: after the create and its wake, any number of further scans leaves the claim
  Ready on its host, the provider's tables as they are, and no wake pending.
\<close>

theorem ready_is_steady:
  assumes "serves_create E F io params req"
    and "serve_message E io (Call HOST_CLAIM_CREATE params) (snd (first_start (seed_catalog empty_fake_provider))) = (answer, w1)"
    and "reconcile_wake E (FakeProvider F) (w1\<lparr>w_notified := False\<rparr>) = w2"
    and "w = (reconcile_wake E (FakeProvider F) ^^ scans) w2"
  shows "tables (w_provider w) = tables (w_provider w2) \<and> \<not> w_notified w
    \<and> (\<exists>r h. claim_view (e_codec E) (w_db w) (ccp_id req) = Some r \<and> claim_host r = Some h
      \<and> map_option c_status (condition_at (claim_conditions r) ''Ready'') = Some StatusTrue
      \<and> map_option host_phase (host_view (e_codec E) (w_db w) h) = Some Ready)"
proof -
  have E: "quiet E" using assms(1) by (simp add: serves_create_def)
  obtain r h hr res where lone: "lone E w2 r [h \<mapsto> hr]" "claim_id_of r = ccp_id req"
      "claim_host r = Some h" "claim_deletion r = None"
      "map_option c_status (condition_at (claim_conditions r) ''Ready'') = Some StatusTrue"
      and hr: "host_phase hr = Ready" "host_provider_resource hr = Some (pr_id res)" "hr_retry hr = default_retry"
      and sole: "sole_resource F (w_provider w2) h res (hr_provider_plan_id hr)" "pr_lifecycle res = LifecycleReady"
      and quiet2: "\<not> w_notified w2"
    by (rule ready_reached [OF assms(1)]) (use assms(2,3) in simp)
  have "provider_observation_is_stable hr res"
    using hr sole(2) by (simp add: provider_observation_is_stable_def expected_phase_def default_retry_def)
  then have "holds_ready E F (ccp_id req) w2"
    unfolding holds_ready_def using lone sole by blast
  then have steady: "holds_ready E F (ccp_id req) w \<and> tables (w_provider w) = tables (w_provider w2) \<and> \<not> w_notified w"
    unfolding assms(4) using quiet2
    by (induction scans) (simp_all add: holds_ready_wake [OF E, where i = "ccp_id req"])
  then obtain r' h' hr' res' where ready: "lone E w r' [h' \<mapsto> hr']" "claim_id_of r' = ccp_id req" "claim_host r' = Some h'"
      "map_option c_status (condition_at (claim_conditions r') ''Ready'') = Some StatusTrue"
      "provider_observation_is_stable hr' res'" "pr_lifecycle res' = LifecycleReady"
    unfolding holds_ready_def by blast
  then have "host_phase hr' = Ready" by (simp add: provider_observation_is_stable_def expected_phase_def)
  then show ?thesis
    using steady loneD(2,3) [OF ready(1)] ready(2-4) by (intro conjI exI [of _ r'] exI [of _ h']) simp_all
qed

theorem ready_is_steady_witness:
  "tables (w_provider ((reconcile_wake sample_env (FakeProvider sample_fake_env) ^^ 100) sample_ready_world))
     = tables (w_provider sample_ready_world)"
proof -
  obtain answer where "serve_message sample_env sample_io (Call HOST_CLAIM_CREATE ''{}'')
      (snd (first_start (seed_catalog empty_fake_provider))) = (answer, sample_created_world)"
    by (metis prod.collapse sample_created_world_def)
  from ready_is_steady [OF sample_serves_create this sample_ready_world_def [symmetric] refl] show ?thesis by blast
qed

text \<open>
  C9: And back: after the create and its wake, a delete request for the claim is answered with the
  claim carrying the request's time, and the one wake that follows removes claim and host from the
  database and leaves the provider without any resource.
\<close>

theorem claim_released:
  assumes "serves_create E F io params req" and "io_fault io' = no_fault"
    and "parse_claim_params (e_params E) params' = Inr (ccp_id req)"
    and "serve_message E io (Call HOST_CLAIM_CREATE params) (snd (first_start (seed_catalog empty_fake_provider))) = (answer, w1)"
    and "reconcile_wake E (FakeProvider F) (w1\<lparr>w_notified := False\<rparr>) = w2"
    and "serve_message E io' (Call HOST_CLAIM_DELETE params') w2 = (answer', w3)"
    and "reconcile_wake E (FakeProvider F) (w3\<lparr>w_notified := False\<rparr>) = w4"
  shows "(\<exists>claim. answer' = Some (Inr (ClaimResult claim)) \<and> hc_deletion_timestamp claim = Some (io_now io'))
    \<and> w_notified w3 \<and> \<not> w_notified w4 \<and> store_of (e_codec E) (w_db w4) = \<lparr>s_claims = Map.empty, s_hosts = Map.empty\<rparr>
    \<and> provider_resources (w_provider w4) = []"
proof -
  have E: "quiet E" using assms(1) by (simp add: serves_create_def)
  obtain r h hr res where lone: "lone E w2 r [h \<mapsto> hr]" "claim_id_of r = ccp_id req"
      and r: "claim_host r = Some h" "claim_deletion r = None"
      and hr: "host_provider_resource hr = Some (pr_id res)" "hr_retry hr = default_retry"
      and sole: "sole_resource F (w_provider w2) h res (hr_provider_plan_id hr)"
    by (rule ready_reached [OF assms(1)]) (use assms(4,5) in simp)
  let ?r = "deletion_requested (io_now io') r"
  have parse: "parse_claim_params (e_params E) params' = Inr (claim_id_of r)" using assms(3) lone(2) by simp
  obtain w3' where "serve_message E io' (Call HOST_CLAIM_DELETE params') w2 = (Some (Inr (ClaimResult (cr_resource ?r))), w3')"
      "lone E w3' ?r [h \<mapsto> hr]" "w_provider w3' = w_provider w2" "w_notified w3'"
    by (rule delete_served [OF E assms(2) lone(1) r(2) parse])
  then have w3: "answer' = Some (Inr (ClaimResult (cr_resource ?r)))" "lone E w3 ?r [h \<mapsto> hr]"
      "w_provider w3 = w_provider w2" "w_notified w3"
    using assms(6) by simp_all
  let ?w = "w3\<lparr>w_notified := False\<rparr>"
  obtain n where seen: "fake_observe F h (w_provider w2) = (Inr (Present res), (w_provider w2)\<lparr>statement_count := n\<rparr>)"
    by (rule sole_resource_observed [OF sole])
  have "sole_resource F ((w_provider w2)\<lparr>statement_count := n\<rparr>) h res (hr_provider_plan_id hr)" using sole by simp
  then obtain p' m where deleted: "fake_delete F h ((w_provider w2)\<lparr>statement_count := n\<rparr>) = (Inr Deleted, p')"
      "provider_resources p' = []" "fake_observe F h p' = (Inr Absent, p'\<lparr>statement_count := m\<rparr>)"
    by (rule sole_resource_deleted)
  have "vacant E (reconcile_wake E (FakeProvider F) ?w) \<and> w_provider (reconcile_wake E (FakeProvider F) ?w) = p'\<lparr>statement_count := m\<rparr>
      \<and> w_notified (reconcile_wake E (FakeProvider F) ?w) = w_notified ?w"
    by (rule wake_releases [OF E, of ?w ?r h hr res "FakeProvider F"])
      (use w3 r hr seen deleted in \<open>simp_all add: deletion_requested_sel ownership_conflict_def default_retry_def\<close>)
  then show ?thesis using assms(7) w3(1,4) deleted(2) by (simp add: vacant_def holds_def deletion_requested_sel)
qed

theorem claim_released_witness:
  "provider_resources (w_provider (reconcile_wake sample_env (FakeProvider sample_fake_env)
     ((snd (serve_message sample_env sample_io (Call HOST_CLAIM_DELETE ''{}'') sample_ready_world))\<lparr>w_notified := False\<rparr>))) = []"
proof -
  obtain answer w1 where w1: "serve_message sample_env sample_io (Call HOST_CLAIM_CREATE ''{}'')
      (snd (first_start (seed_catalog empty_fake_provider))) = (answer, w1)" by (rule prod.exhaust)
  obtain answer' w3 where w3: "serve_message sample_env sample_io (Call HOST_CLAIM_DELETE ''{}'') sample_ready_world = (answer', w3)"
    by (rule prod.exhaust)
  have w2: "reconcile_wake sample_env (FakeProvider sample_fake_env) (w1\<lparr>w_notified := False\<rparr>) = sample_ready_world"
    using w1 by (simp add: sample_ready_world_def sample_created_world_def)
  have parse: "parse_claim_params (e_params sample_env) ''{}'' = Inr (ccp_id \<lparr>ccp_id = sample_claim_id, ccp_spec = sample_spec\<rparr>)"
    by (simp add: sample_env_def sample_params_def)
  show ?thesis
    using claim_released [OF sample_serves_create sample_io_healthy parse w1 w2 w3 refl] w3 by simp
qed

end
