(* ===== verification/Safety_Properties.thy ===== *)
theory Safety_Properties
  imports Fake_Provider_Contract Lifecycle
begin

text \<open>
  The safety properties of the daemon with the fake provider: what holds in every world that its
  steps reach from a first start, restarts, failing databases and concurrent requests included.
\<close>

section \<open>The reachable worlds\<close>

abbreviation fake_reachable :: "codec \<Rightarrow> fake_env \<Rightarrow> fake_provider world \<Rightarrow> bool" where
  "fake_reachable cd F w \<equiv> reachable cd (FakeProvider F) (seed_catalog empty_fake_provider) w"

lemma fake_reachable_ok:
  assumes "codec_ok cd" and "codec_ok (fk_codec F)" and "fake_reachable cd F w"
  shows "world_ok cd (fake_owned F) (fake_sane F) w"
  by (rule fake.reachable_ok [OF assms(1) seed_catalog_sane [OF empty_fake_sane [OF assms(2)]] empty_fake_owned assms(3)])

lemma sample_created_notified: "w_notified sample_created_world"
  by (rule ready_reached [OF sample_serves_create]) (simp add: sample_created_world_def)

lemma sample_ready_reachable: "fake_reachable sample_codec sample_fake_env sample_ready_world"
proof -
  let ?P = "FakeProvider sample_fake_env"
  let ?start = "snd (first_start (seed_catalog empty_fake_provider))"
  have "daemon_step sample_codec ?P (Waiting, ?start) (Waiting, sample_created_world)"
    unfolding sample_created_world_def by (rule Message) simp
  moreover have "daemon_step sample_codec ?P (Waiting, sample_created_world) (Waiting, sample_ready_world)"
    unfolding sample_ready_world_def by (rule Notified) (simp_all add: sample_created_notified)
  moreover have "first_start (seed_catalog empty_fake_provider) = (Waiting, ?start)"
    by (simp add: first_start_def)
  ultimately show ?thesis
    unfolding reachable_def by (metis rtranclp.rtrancl_into_rtrancl rtranclp.rtrancl_refl)
qed

lemma sample_fake_codec: "codec_ok (fk_codec sample_fake_env)"
  by (simp add: sample_fake_env_def sample_codec_ok)

lemma sample_ready_sole:
  obtains h hr res r where "lone sample_env sample_ready_world r [h \<mapsto> hr]" and "claim_host r = Some h"
    and "claim_id_of r = sample_claim_id" and "claim_deletion r = None"
    and "host_provider_resource hr = Some (pr_id res)" and "hr_retry hr = default_retry"
    and "sole_resource sample_fake_env (w_provider sample_ready_world) h res (hr_provider_plan_id hr)"
  by (rule ready_reached [OF sample_serves_create]) (auto simp: sample_created_world_def sample_ready_world_def)

lemma sample_ready_held:
  obtains h res plan where "fake_owned sample_fake_env (w_provider sample_ready_world) h = Some (res, plan)"
proof -
  obtain h hr res r where "lone sample_env sample_ready_world r [h \<mapsto> hr]"
      "sole_resource sample_fake_env (w_provider sample_ready_world) h res (hr_provider_plan_id hr)"
    by (rule sample_ready_sole)
  then show ?thesis by (intro that [of h res "hr_provider_plan_id hr"]) (simp add: sole_resource_def)
qed

section \<open>Resources, hosts and claims\<close>

text \<open>Resources are keyed by host, hosts by claim: neither outnumbers what it belongs to.\<close>

lemma resources_bounded:
  assumes cd: "codec_ok cd" and ok: "world_ok cd (fake_owned F) (fake_sane F) w"
  shows "length (provider_resources (w_provider w)) \<le> length (host_claims (w_db w))"
proof -
  note db = world_okD(1) [OF ok] and sane = world_okD(2) [OF ok]
  let ?resources = "provider_resources (w_provider w)" and ?hosts = "hosts (w_db w)"
  have cdF: "codec_ok (fk_codec F)" using sane by (simp add: fake_sane_def)
  have "\<exists>h. re_host_id row = host_id_text (fk_codec F) h \<and> (\<exists>hr. host_view cd (w_db w) h = Some hr)"
    if row: "row \<in> set ?resources" for row
    by (rule fake_owned_row [OF sane row]) (use world_okD(3) [OF ok] in blast)
  then obtain host where host: "\<And>row. row \<in> set ?resources \<Longrightarrow>
      re_host_id row = host_id_text (fk_codec F) (host row) \<and> (\<exists>hr. host_view cd (w_db w) (host row) = Some hr)"
    by metis
  let ?key = "\<lambda>row. host_id_text cd (host row)"
  have "inj_on re_host_id (set ?resources)" and distinct: "distinct ?resources"
    using sane by (simp_all add: fake_sane_def distinct_map)
  then have inj: "inj_on ?key (set ?resources)"
    using host by (intro inj_onI) (metis (no_types, lifting) host_id_text_inj [OF cd] inj_onD)
  have "?key ` set ?resources \<subseteq> ho_id ` set ?hosts"
  proof
    fix k
    assume "k \<in> ?key ` set ?resources"
    then obtain row where row: "row \<in> set ?resources" "k = host_id_text cd (host row)" by blast
    obtain hr where "host_view cd (w_db w) (host row) = Some hr" using host [OF row(1)] by blast
    then have "encode_host cd hr \<in> set ?hosts" "host_id_of hr = host row"
      by (simp_all add: host_view_Some [OF cd db])
    then show "k \<in> ho_id ` set ?hosts" using row(2) by force
  qed
  then have "card (set ?resources) \<le> card (ho_id ` set ?hosts)"
    using card_inj_on_le [OF inj] by simp
  then have "length ?resources \<le> length ?hosts"
    using distinct card_image_le [of "set ?hosts" ho_id] card_length [of ?hosts] by (simp add: distinct_card)
  also have "length ?hosts = card (ho_claim_id ` set ?hosts)"
    using database_okD [OF db] by (simp add: keys_ok_def distinct_map card_image distinct_card)
  also have "\<dots> \<le> card (cl_id ` set (host_claims (w_db w)))"
    using database_okD [OF db] by (intro card_mono) (auto simp: keys_ok_def)
  also have "\<dots> \<le> length (host_claims (w_db w))"
    using card_image_le [of "set (host_claims (w_db w))" cl_id] card_length [of "host_claims (w_db w)"] by simp
  finally show ?thesis .
qed

text \<open>
  C3: No orphans: in every reachable world a resource the provider holds is held for a host the
  database stores, was created from the plan that host names, and the host is the one assigned to
  a stored claim.
\<close>

theorem no_orphan_resources:
  assumes "codec_ok cd" and "codec_ok (fk_codec F)" and "fake_reachable cd F w"
    and "fake_owned F (w_provider w) h = Some (res, plan)"
  shows "\<exists>hr claim. host_view cd (w_db w) h = Some hr \<and> hr_provider_plan_id hr = plan
    \<and> claim_view cd (w_db w) (host_claim_of hr) = Some claim \<and> claim_host claim = Some h"
proof -
  note ok = fake_reachable_ok [OF assms(1-3)]
  note db = world_okD(1) [OF ok]
  obtain hr where hr: "host_view cd (w_db w) h = Some hr" "hr_provider_plan_id hr = plan"
    using world_okD(3) [OF ok assms(4)] by blast
  obtain claim where "claim_view cd (w_db w) (host_claim_of hr) = Some claim" "claim_host claim = Some h"
    by (rule host_claim_view [OF assms(1) db hr(1)])
  with hr show ?thesis by blast
qed

theorem no_orphan_resources_witness:
  "\<exists>h res plan hr. fake_owned sample_fake_env (w_provider sample_ready_world) h = Some (res, plan)
     \<and> host_view sample_codec (w_db sample_ready_world) h = Some hr \<and> hr_provider_plan_id hr = plan"
proof -
  obtain h res plan where held: "fake_owned sample_fake_env (w_provider sample_ready_world) h = Some (res, plan)"
    by (rule sample_ready_held)
  show ?thesis
    using no_orphan_resources [OF sample_codec_ok sample_fake_codec sample_ready_reachable held] held by blast
qed

text \<open>
  C16: One resource per claim: in every reachable world two resources are never held for hosts of
  the same claim, and the provider holds at most as many resources as there are claims.
\<close>

theorem one_resource_per_claim:
  assumes "codec_ok cd" and "codec_ok (fk_codec F)" and "fake_reachable cd F w"
  shows "length (provider_resources (w_provider w)) \<le> length (host_claims (w_db w))
    \<and> (fake_owned F (w_provider w) h = Some x \<and> fake_owned F (w_provider w) h' = Some x'
         \<and> host_view cd (w_db w) h = Some hr \<and> host_view cd (w_db w) h' = Some hr'
         \<and> host_claim_of hr = host_claim_of hr' \<longrightarrow> h = h')"
proof
  note ok = fake_reachable_ok [OF assms]
  show "length (provider_resources (w_provider w)) \<le> length (host_claims (w_db w))"
    by (rule resources_bounded [OF assms(1) ok])
  show "fake_owned F (w_provider w) h = Some x \<and> fake_owned F (w_provider w) h' = Some x'
      \<and> host_view cd (w_db w) h = Some hr \<and> host_view cd (w_db w) h' = Some hr'
      \<and> host_claim_of hr = host_claim_of hr' \<longrightarrow> h = h'"
    using fake.one_resource [OF assms(1) ok] by (cases x; cases x') blast
qed

theorem one_resource_per_claim_witness:
  "length (provider_resources (w_provider sample_ready_world)) \<le> length (host_claims (w_db sample_ready_world))"
  using one_resource_per_claim [OF sample_codec_ok sample_fake_codec sample_ready_reachable] by blast

text \<open>
  C35: The database of every reachable world is well-formed: every row can be read, keys are
  unique, every host belongs to a stored claim; so a healthy \<open>list_claims\<close>, the first thing a
  reconciliation step does, never fails.
\<close>

theorem reachable_database_readable:
  assumes "codec_ok cd" and "codec_ok (fk_codec F)" and "fake_reachable cd F w" and "io_fault io = no_fault"
  shows "database_ok cd (w_db w) \<and> (\<exists>claims. list_claims cd io (w_db w) = (Inr claims, w_db w))"
proof
  show ok: "database_ok cd (w_db w)" by (rule world_okD(1) [OF fake_reachable_ok [OF assms(1-3)]])
  show "\<exists>claims. list_claims cd io (w_db w) = (Inr claims, w_db w)"
    by (rule list_claims_result [OF assms(1,4) ok]) blast
qed

theorem reachable_database_readable_witness:
  "\<exists>claims. list_claims sample_codec sample_io (w_db sample_ready_world) = (Inr claims, w_db sample_ready_world)"
  using reachable_database_readable [OF sample_codec_ok sample_fake_codec sample_ready_reachable sample_io_healthy] by blast

section \<open>One reconciliation step\<close>

text \<open>
  C8: A reconciliation step from a world that keeps the invariant, as every reachable world does,
  keeps it; and whatever fails and whatever requests arrive meanwhile, it never replaces a resource, removes one only for a claim that is stored and whose
  deletion was requested, and changes nothing that identifies a claim or a host: they are kept as
  they are, or they are gone.
\<close>

theorem reconcile_step_safe:
  assumes "codec_ok (e_codec E)" and "world_ok (e_codec E) (fake_owned F) (fake_sane F) w"
    and "reconcile_once E (FakeProvider F) w = (result, w')"
  shows "world_ok (e_codec E) (fake_owned F) (fake_sane F) w'
    \<and> (fake_owned F (w_provider w) h = Some x \<longrightarrow>
        fake_owned F (w_provider w') h = Some x
        \<or> fake_owned F (w_provider w') h = None
          \<and> (\<exists>hr c. host_view (e_codec E) (w_db w') h = Some hr
               \<and> claim_view (e_codec E) (w_db w') (host_claim_of hr) = Some c \<and> claim_deletion c \<noteq> None))
    \<and> (\<forall>r. claim_view (e_codec E) (w_db w) i = Some r \<longrightarrow> claim_view (e_codec E) (w_db w') i = None
        \<or> (\<exists>r'. claim_view (e_codec E) (w_db w') i = Some r' \<and> same_claim r r'))
    \<and> (\<forall>r. host_view (e_codec E) (w_db w) h = Some r \<longrightarrow> host_view (e_codec E) (w_db w') h = None
        \<or> (\<exists>r'. host_view (e_codec E) (w_db w') h = Some r' \<and> same_host r r'))"
proof -
  have safe: "step_safe (e_codec E) (fake_owned F) (fake_sane F) w w'"
    using fake.reconcile_once_safe [OF assms(1,2)] assms(3) by simp
  then have "world_ok (e_codec E) (fake_owned F) (fake_sane F) w'" by (simp add: step_safe_def)
  moreover have "resources_safe (e_codec E) (fake_owned F) w w'" using safe by (simp add: step_safe_def)
  moreover have "records_safe (store_of (e_codec E) (w_db w)) (store_of (e_codec E) (w_db w'))"
    using safe by (simp add: step_safe_def)
  ultimately show ?thesis
    unfolding resources_safe_def released_def records_safe_def store_of_sel by blast
qed

theorem reconcile_step_safe_witness:
  "\<exists>h x result w'. fake_owned sample_fake_env (w_provider sample_ready_world) h = Some x
     \<and> reconcile_once sample_env (FakeProvider sample_fake_env) sample_ready_world = (result, w')
     \<and> (fake_owned sample_fake_env (w_provider w') h = Some x \<or> fake_owned sample_fake_env (w_provider w') h = None)"
proof -
  obtain h res plan where held: "fake_owned sample_fake_env (w_provider sample_ready_world) h = Some (res, plan)"
    by (rule sample_ready_held)
  obtain result w' where run: "reconcile_once sample_env (FakeProvider sample_fake_env) sample_ready_world = (result, w')"
    by (rule prod.exhaust)
  have "codec_ok (e_codec sample_env)"
      "world_ok (e_codec sample_env) (fake_owned sample_fake_env) (fake_sane sample_fake_env) sample_ready_world"
    using fake_reachable_ok [OF sample_codec_ok sample_fake_codec sample_ready_reachable]
    by (simp_all add: sample_codec_ok)
  from reconcile_step_safe [OF this run] held run show ?thesis by blast
qed

text \<open>The sample claim again, its deletion requested and its resource deleted by one step.\<close>

definition sample_deleting_world :: "fake_provider world" where
  "sample_deleting_world = snd (serve_message sample_env sample_io (Call HOST_CLAIM_DELETE ''{}'') sample_ready_world)"

definition sample_deleted_world :: "fake_provider world" where
  "sample_deleted_world = snd (reconcile_once sample_env (FakeProvider sample_fake_env) sample_deleting_world)"

lemma sample_env_quiet: "quiet sample_env"
  using sample_serves_create by (simp add: serves_create_def)

lemma sample_deleting_world_ok:
  "world_ok (e_codec sample_env) (fake_owned sample_fake_env) (fake_sane sample_fake_env) sample_deleting_world"
  using fake.serve_message_ok [where E = sample_env and w = sample_ready_world and io = sample_io and message = "Call HOST_CLAIM_DELETE ''{}''"]
    fake_reachable_ok [OF sample_codec_ok sample_fake_codec sample_ready_reachable] sample_codec_ok
  by (simp add: sample_deleting_world_def step_safe_def)

text \<open>The next step finds the resource absent and finalizes the claim.\<close>

lemma sample_finalizes:
  obtains r h w' where "claim_view sample_codec (w_db sample_deleted_world) sample_claim_id = Some r" and "claim_host r = Some h"
    and "reconcile_once sample_env (FakeProvider sample_fake_env) sample_deleted_world = (Inr Progress, w')"
    and "claim_view sample_codec (w_db w') sample_claim_id = None"
proof -
  obtain h hr res r where lone: "lone sample_env sample_ready_world r [h \<mapsto> hr]"
      and r: "claim_host r = Some h" "claim_id_of r = sample_claim_id" "claim_deletion r = None"
      and hr: "host_provider_resource hr = Some (pr_id res)" "hr_retry hr = default_retry"
      and sole: "sole_resource sample_fake_env (w_provider sample_ready_world) h res (hr_provider_plan_id hr)"
    by (rule sample_ready_sole)
  let ?r = "deletion_requested (io_now sample_io) r"
  have parse: "parse_claim_params (e_params sample_env) ''{}'' = Inr (claim_id_of r)"
    using r(2) by (simp add: sample_env_def sample_params_def)
  obtain w1 where "serve_message sample_env sample_io (Call HOST_CLAIM_DELETE ''{}'') sample_ready_world
        = (Some (Inr (ClaimResult (cr_resource ?r))), w1)"
      "lone sample_env w1 ?r [h \<mapsto> hr]" "w_provider w1 = w_provider sample_ready_world"
    by (rule delete_served [OF sample_env_quiet sample_io_healthy lone r(3) parse])
  then have w1: "lone sample_env sample_deleting_world ?r [h \<mapsto> hr]"
      "w_provider sample_deleting_world = w_provider sample_ready_world"
    by (simp_all add: sample_deleting_world_def)
  obtain n where seen: "fake_observe sample_fake_env h (w_provider sample_deleting_world)
      = (Inr (Present res), (w_provider sample_ready_world)\<lparr>statement_count := n\<rparr>)"
    by (rule sole_resource_observed [OF sole]) (use w1(2) in simp)
  have "sole_resource sample_fake_env ((w_provider sample_ready_world)\<lparr>statement_count := n\<rparr>) h res (hr_provider_plan_id hr)"
    using sole by simp
  then obtain p' m where deleted: "fake_delete sample_fake_env h ((w_provider sample_ready_world)\<lparr>statement_count := n\<rparr>) = (Inr Deleted, p')"
      "fake_observe sample_fake_env h p' = (Inr Absent, p'\<lparr>statement_count := m\<rparr>)"
    by (rule sole_resource_deleted)
  have deleting: "claim_deletion ?r \<noteq> None" "next_reconcile_at_unix_ms (cr_retry ?r) = None" "claim_host ?r = Some h"
    using r by (simp_all add: deletion_requested_sel default_retry_def)
  have hr': "next_reconcile_at_unix_ms (hr_retry hr) = None" "ownership_conflict hr res = None"
    using hr by (simp_all add: ownership_conflict_def default_retry_def)
  have deleted': "observe (FakeProvider sample_fake_env) h (w_provider sample_deleting_world)
        = (Inr (Present res), (w_provider sample_ready_world)\<lparr>statement_count := n\<rparr>)"
      "delete_resource (FakeProvider sample_fake_env) h ((w_provider sample_ready_world)\<lparr>statement_count := n\<rparr>) = (Inr Deleted, p')"
      "observe (FakeProvider sample_fake_env) h p' = (Inr Absent, p'\<lparr>statement_count := m\<rparr>)"
    using seen deleted by simp_all
  obtain w2 hr' where w2: "reconcile_once sample_env (FakeProvider sample_fake_env) sample_deleting_world = (Inr Progress, w2)"
      "lone sample_env w2 ?r [h \<mapsto> hr']" "next_reconcile_at_unix_ms (hr_retry hr') = None" "w_provider w2 = p'"
    by (rule delete_step [OF sample_env_quiet w1(1) deleting(1-3) hr' deleted'(1,2)])
  have w2': "sample_deleted_world = w2" using w2(1) by (simp add: sample_deleted_world_def)
  obtain w3 where w3: "reconcile_once sample_env (FakeProvider sample_fake_env) w2 = (Inr Progress, w3)" "vacant sample_env w3"
    by (rule absent_step [OF sample_env_quiet w2(2) deleting w2(3) deleted'(3) [folded w2(4)]])
  have gone: "claim_view sample_codec (w_db w3) sample_claim_id = None"
    using arg_cong [of _ _ s_claims, OF w3(2) [unfolded vacant_def holds_def, THEN conjunct2]] by simp
  have "claim_view sample_codec (w_db sample_deleted_world) sample_claim_id = Some ?r"
    using loneD(2) [OF w2(2)] r(2) by (simp add: w2' deletion_requested_sel)
  then show ?thesis by (rule that [OF _ deleting(3) w3(1) [folded w2'] gone])
qed

text \<open>
  C14: A claim disappears in a step only when the provider holds nothing for its host: deletion is
  finished only after absence.
\<close>

theorem finalized_means_absent:
  assumes "codec_ok (e_codec E)" and "world_ok (e_codec E) (fake_owned F) (fake_sane F) w"
    and "claim_view (e_codec E) (w_db w) i = Some r" and "claim_host r = Some h"
    and "reconcile_once E (FakeProvider F) w = (result, w')" and "claim_view (e_codec E) (w_db w') i = None"
  shows "fake_owned F (w_provider w') h = None"
  by (rule fake.finalized_absent [OF assms])

theorem finalized_means_absent_witness:
  "\<exists>h. fake_owned sample_fake_env
     (w_provider (snd (reconcile_once sample_env (FakeProvider sample_fake_env) sample_deleted_world))) h = None"
proof -
  obtain r h w' where run: "claim_view sample_codec (w_db sample_deleted_world) sample_claim_id = Some r" "claim_host r = Some h"
      "reconcile_once sample_env (FakeProvider sample_fake_env) sample_deleted_world = (Inr Progress, w')"
      "claim_view sample_codec (w_db w') sample_claim_id = None"
    by (rule sample_finalizes)
  have "world_ok (e_codec sample_env) (fake_owned sample_fake_env) (fake_sane sample_fake_env) sample_deleted_world"
    using fake.reconcile_once_safe [OF _ sample_deleting_world_ok] sample_codec_ok
    by (simp add: sample_deleted_world_def step_safe_def)
  from finalized_means_absent [OF _ this _ run(2,3)] run(1,3,4) sample_codec_ok show ?thesis by auto
qed

end
