(* ===== verification/Transition_Properties.thy ===== *)
theory Transition_Properties
  imports Transition_Facts Controller Storage_Properties Provider_Properties
begin

text \<open>
  The properties of the pure code: how conditions change, when a failed operation is tried again,
  and what the controller's transitions record.
\<close>

section \<open>Conditions\<close>

lemma set_condition_same:
  assumes "condition_at cs (c_type next) = Some c" and "c_status c = c_status next" and "c_reason c = c_reason next"
    and "c_message c = c_message next" and "c_observed_generation c = c_observed_generation next"
  shows "set_condition cs next = (False, cs)"
  using assms by (simp add: set_condition_def condition_at_def)

text \<open>
  \<open>set_condition\<close> replaces the condition of the new one's type and no other; the replacement
  keeps the time of the last change of status or reason. It reports a change exactly when the list
  changed, setting the same condition again at another time changes nothing, and a list sorted by
  unique types stays one.
\<close>

theorem set_condition_effect:
  "condition_at (snd (set_condition cs next)) ty =
      (if ty = c_type next then Some (merged_condition (condition_at cs ty) next) else condition_at cs ty)
    \<and> (fst (set_condition cs next) \<longleftrightarrow> snd (set_condition cs next) \<noteq> cs)
    \<and> set_condition (snd (set_condition cs next)) (next\<lparr>c_last_transition_at := later\<rparr>)
        = (False, snd (set_condition cs next))
    \<and> (conditions_wf cs \<longrightarrow> conditions_wf (snd (set_condition cs next)))"
  using set_condition_wf
  by (auto simp: set_condition_at set_condition_changed intro!: set_condition_same)

theorem set_condition_effect_witness:
  "conditions_wf (snd (set_condition (hcs_conditions (hc_status (cr_resource sample_claim)))
     (new_condition ''Degraded'' StatusTrue ''Probe'' ''slow'' 1 unix_epoch)))"
proof -
  have "conditions_wf (hcs_conditions (hc_status (cr_resource sample_claim)))"
    by (simp add: sample_claim_def initial_claim_conditions_wf)
  then show ?thesis using set_condition_effect by blast
qed

section \<open>Retries\<close>

text \<open>
  C24: A retry comes after 1000 milliseconds doubled with every attempt, at most 60000, never before
  the present and never overflowing: the deadline saturates at the end of the signed 64-bit range.
  More attempts never make it earlier, and a record with that deadline is not due before it.
\<close>

theorem retry_deadline_backoff:
  assumes "in_i64 now"
  shows "retry_deadline now a = sat_i64 (now + min 60000 (1000 * 2 ^ unat a))
    \<and> now \<le> retry_deadline now a \<and> retry_deadline now a \<le> now + 60000 \<and> in_i64 (retry_deadline now a)
    \<and> (a \<le> b \<longrightarrow> retry_deadline now a \<le> retry_deadline now b)
    \<and> (is_due \<lparr>attempt = a, next_reconcile_at_unix_ms = Some (retry_deadline now a),
          last_error_kind = k, last_error_message = m\<rparr> t \<longleftrightarrow> retry_deadline now a \<le> t)"
proof -
  have "retry_deadline now a \<le> max i64_min (now + 60000)"
    unfolding retry_deadline_eq sat_i64_def by (auto simp: max_def min_def)
  then have "retry_deadline now a \<le> now + 60000" using assms by (simp add: in_i64_def)
  then show ?thesis
    using assms retry_deadline_eq retry_deadline_later retry_deadline_in_i64 retry_deadline_mono [of a b now]
    by (simp add: is_due_def word_le_nat_alt)
qed

theorem retry_deadline_backoff_witness:
  "retry_deadline 5 3 \<le> retry_deadline 5 9 \<and> retry_deadline 5 9 \<le> 60005"
proof -
  have now: "in_i64 5" and le: "(3 :: u32) \<le> 9" by (simp_all add: in_i64_def i64_min_def i64_max_def)
  have "retry_deadline 5 9 \<le> 5 + 60000" using retry_deadline_backoff [OF now, of 9] by blast
  moreover have "retry_deadline 5 3 \<le> retry_deadline 5 9" using retry_deadline_backoff [OF now, of 3 9] le by blast
  ultimately show ?thesis by simp
qed

text \<open>
  A transient provider failure counts one more attempt, saturating, and puts the next one at
  the deadline of that count; a definitive one ends the attempts: the host is Failed and has no
  deadline, a claim or a host being deleted gets the last instant there is. The message is kept
  either way.
\<close>

theorem provider_failure_schedule:
  fixes host :: HostRecord and claim :: HostClaimRecord and now_ms :: i64 and message :: string
  defines "again \<equiv> \<lambda>retry. \<lparr>attempt = saturating_add_u32 (attempt retry) 1,
      next_reconcile_at_unix_ms = Some (retry_deadline now_ms (saturating_add_u32 (attempt retry) 1)),
      last_error_kind = Some ''ProviderUnavailable'', last_error_message = Some message\<rparr>"
  shows "hr_retry (snd (schedule_host_provider_error now claim host (Transient message) now_ms)) = again (hr_retry host)
    \<and> hr_retry (schedule_host_retry_only host (Transient message) now_ms) = again (hr_retry host)
    \<and> cr_retry (schedule_claim_provider_error now claim (Transient message) now_ms) = again (cr_retry claim)
    \<and> host_phase (snd (schedule_host_provider_error now claim host (Definitive message) now_ms)) = Failed
    \<and> next_reconcile_at_unix_ms (hr_retry (snd (schedule_host_provider_error now claim host (Definitive message) now_ms))) = None
    \<and> next_reconcile_at_unix_ms (hr_retry (schedule_host_retry_only host (Definitive message) now_ms)) = Some i64_max
    \<and> next_reconcile_at_unix_ms (cr_retry (schedule_claim_provider_error now claim (Definitive message) now_ms)) = Some i64_max
    \<and> last_error_message (hr_retry (snd (schedule_host_provider_error now claim host (Definitive message) now_ms))) = Some message"
  by (simp add: again_def transition_defs edit_defs)

section \<open>Observations\<close>

text \<open>The conditions an observation writes, in the code's order.\<close>

definition observed_claim_conditions :: "codec \<Rightarrow> Timestamp \<Rightarrow> u64 \<Rightarrow> HostId \<Rightarrow> bool \<Rightarrow> Condition list" where
  "observed_claim_conditions cd now generation h ready =
     [new_condition ''Accepted'' StatusTrue ''RequirementsValid''
        ''The current provider policy can satisfy this claim.'' generation now,
      new_condition ''Bound'' StatusTrue ''HostAssigned''
        (''Host '' @ host_id_text cd h @ '' is assigned.'') generation now,
      new_condition ''Ready'' (if ready then StatusTrue else StatusFalse)
        (if ready then ''HostReady'' else ''HostNotReady'')
        (if ready then ''The assigned Host is Ready.'' else ''The assigned Host is not Ready.'') generation now]"

definition observed_host_condition :: "Timestamp \<Rightarrow> ProviderLifecycle \<Rightarrow> Condition" where
  "observed_host_condition now lifecycle =
     (case lifecycle of
        LifecycleProvisioning \<Rightarrow> new_condition ''Ready'' StatusFalse ''ProviderResourceProvisioning''
          ''The provider resource is still provisioning.'' 1 now
      | LifecycleReady \<Rightarrow> new_condition ''Ready'' StatusTrue ''ProviderResourceReady''
          ''The provider resource is Ready.'' 1 now
      | LifecycleDeleting \<Rightarrow> new_condition ''Ready'' StatusFalse ''ProviderResourceDeleting''
          ''The provider resource is being deleted.'' 1 now)"

abbreviation set_conditions :: "Condition list \<Rightarrow> Condition list \<Rightarrow> Condition list" where
  "set_conditions nexts cs \<equiv> foldl (\<lambda>cs next. snd (set_condition cs next)) cs nexts"

lemma observation_conditions:
  assumes "(claim', host') = apply_provider_observation cd now claim host res"
  shows "claim_conditions claim' = set_conditions (observed_claim_conditions cd now (hc_generation (cr_resource claim))
      (host_id_of host) (pr_lifecycle res = LifecycleReady)) (claim_conditions claim)"
    and "host_conditions host' = snd (set_condition (host_conditions host) (observed_host_condition now (pr_lifecycle res)))"
    and "hc_generation (cr_resource claim') = hc_generation (cr_resource claim)" and "host_id_of host' = host_id_of host"
  using assms
  by (cases "pr_lifecycle res"; simp add: apply_provider_observation_def edit_defs observed_claim_conditions_def
      observed_host_condition_def)+

lemma observed_again:
  "set_conditions (observed_claim_conditions cd later generation h ready)
      (set_conditions (observed_claim_conditions cd now generation h ready) cs)
    = set_conditions (observed_claim_conditions cd now generation h ready) cs"
  "snd (set_condition (snd (set_condition cs (observed_host_condition now lifecycle))) (observed_host_condition later lifecycle))
    = snd (set_condition cs (observed_host_condition now lifecycle))"
proof -
  let ?cs = "set_conditions (observed_claim_conditions cd now generation h ready) cs"
  have "set_condition ?cs next = (False, ?cs)"
    if "next \<in> set (observed_claim_conditions cd later generation h ready)" for "next"
    using that
    by (auto simp: observed_claim_conditions_def intro!: set_condition_same simp: set_condition_at)
  then show "set_conditions (observed_claim_conditions cd later generation h ready) ?cs = ?cs"
    by (simp add: observed_claim_conditions_def)
  show "snd (set_condition (snd (set_condition cs (observed_host_condition now lifecycle))) (observed_host_condition later lifecycle))
      = snd (set_condition cs (observed_host_condition now lifecycle))"
    by (cases lifecycle)
      (simp_all add: observed_host_condition_def set_condition_same [OF set_condition_at [THEN trans]])
qed

text \<open>
  C30: Recording an observation makes the host's phase and resource those observed, clears both
  retry schedules, marks the claim Ready exactly when the resource is, and makes the observation
  stable; recording the same observation again at a later time changes no condition of either.
\<close>

theorem observation_recorded:
  fixes claim :: HostClaimRecord and host :: HostRecord
  assumes "(claim', host') = apply_provider_observation cd now claim host res"
    and "(claim'', host'') = apply_provider_observation cd later claim' host' res"
  shows "host_phase host' = expected_phase (pr_lifecycle res) \<and> host_provider_resource host' = Some (pr_id res)
    \<and> hr_retry host' = default_retry \<and> cr_retry claim' = default_retry
    \<and> map_option c_status (condition_at (claim_conditions claim') ''Ready'')
        = Some (if pr_lifecycle res = LifecycleReady then StatusTrue else StatusFalse)
    \<and> provider_observation_is_stable host' res
    \<and> claim_conditions claim'' = claim_conditions claim' \<and> host_conditions host'' = host_conditions host'"
proof -
  have c: "claim' = fst (apply_provider_observation cd now claim host res)"
    and h: "host' = snd (apply_provider_observation cd now claim host res)"
    using assms(1) by (metis fst_conv, metis snd_conv)
  have "claim_conditions claim'' = claim_conditions claim'" "host_conditions host'' = host_conditions host'"
    by (simp_all only: observation_conditions [OF assms(1)] observation_conditions [OF assms(2)] observed_again)
  then show ?thesis
    using apply_provider_observation_host [OF h] apply_provider_observation_claim [OF c]
      apply_provider_observation_conditions(1) [OF c refl] observation_then_stable [of cd now claim host res]
    by (simp add: h)
qed

definition sample_host_record :: HostRecord where
  "sample_host_record = new_host_record (HostId 7) sample_claim_id ''plan'' (spec_resources sample_spec) unix_epoch"

definition sample_ready_resource :: ProviderResource where
  "sample_ready_resource = \<lparr>pr_id = ''fake-1'', pr_host_id = HostId 7, pr_lifecycle = LifecycleReady\<rparr>"

theorem observation_recorded_witness:
  "host_phase (snd (apply_provider_observation sample_codec unix_epoch sample_claim sample_host_record sample_ready_resource)) = Ready"
proof -
  let ?once = "apply_provider_observation sample_codec unix_epoch sample_claim sample_host_record sample_ready_resource"
  have "(fst ?once, snd ?once) = ?once" by simp
  from observation_recorded [OF this prod.collapse] show ?thesis
    by (simp add: sample_ready_resource_def expected_phase_def)
qed

text \<open>
  A claim no plan can satisfy is marked not accepted, not bound and not ready, with a cleared
  retry schedule; evaluating it again, at any later time, reports no change and leaves its
  conditions as they are, so the step is idle and nothing is written.
\<close>

theorem unsatisfiable_settles:
  fixes claim :: HostClaimRecord and now :: Timestamp
  defines "claim' \<equiv> snd (unsatisfiable_conditions now claim)"
  shows "map_option c_status (condition_at (claim_conditions claim') ''Accepted'') = Some StatusFalse
    \<and> map_option c_reason (condition_at (claim_conditions claim') ''Accepted'') = Some ''Unsatisfiable''
    \<and> map_option c_status (condition_at (claim_conditions claim') ''Bound'') = Some StatusFalse
    \<and> map_option c_status (condition_at (claim_conditions claim') ''Ready'') = Some StatusFalse
    \<and> cr_retry claim' = default_retry \<and> same_claim claim claim'
    \<and> unsatisfiable_conditions later claim' = (False, claim')"
proof -
  have settled: "set_condition (claim_conditions claim') next = (False, claim_conditions claim')"
    if "next \<in> {new_condition ''Accepted'' StatusFalse ''Unsatisfiable''
            ''No provider plan can satisfy the requested allocatable resources.'' (claim_generation claim) later,
          new_condition ''Bound'' StatusFalse ''HostPending'' ''No Host has been assigned.'' (claim_generation claim) later,
          new_condition ''Ready'' StatusFalse ''HostNotReady'' ''No Ready Host is assigned.'' (claim_generation claim) later}" for "next"
    using that
    by (auto simp: claim'_def unsatisfiable_conditions_def edit_defs set_condition_at intro!: set_condition_same)
  have same: "set_claim_condition claim' next = claim'"
    if "set_condition (claim_conditions claim') next = (False, claim_conditions claim')" for "next"
    using that by (simp add: set_claim_condition_def update_claim_status_def)
  have seen: "observe_generation claim' = claim'" "cr_retry claim' = default_retry" "claim_generation claim' = claim_generation claim"
    by (simp_all add: claim'_def unsatisfiable_conditions_def edit_defs update_claim_status_def)
  have "unsatisfiable_conditions later claim' = (False, claim'\<lparr>cr_retry := default_retry\<rparr>)"
    unfolding unsatisfiable_conditions_def Let_def seen
    by (simp add: settled same)
  moreover have "claim'\<lparr>cr_retry := default_retry\<rparr> = claim'" by (simp add: seen(2) [symmetric])
  moreover have "same_claim claim claim'"
    by (auto intro!: same_claimI simp: claim'_def unsatisfiable_conditions_def edit_defs)
  moreover have "map_option c_status (condition_at (claim_conditions claim') ''Accepted'') = Some StatusFalse"
      "map_option c_reason (condition_at (claim_conditions claim') ''Accepted'') = Some ''Unsatisfiable''"
      "map_option c_status (condition_at (claim_conditions claim') ''Bound'') = Some StatusFalse"
      "map_option c_status (condition_at (claim_conditions claim') ''Ready'') = Some StatusFalse"
    by (simp_all add: claim'_def unsatisfiable_conditions_def edit_defs set_condition_at)
  ultimately show ?thesis using seen(2) by simp
qed

end
