(* ===== verification/Controller_Properties.thy ===== *)
theory Controller_Properties
  imports Safety_Properties Transition_Properties
begin

text \<open>
  The properties of the controller's branches: what stops a mutation, what a delete proves, what
  becomes of a failed host, how often a failing create is tried, and how a wake ends.
\<close>

section \<open>Ownership\<close>

text \<open>
  C12: A resource other than the one a host recorded stops every mutation: when the provider names
  it, neither reconciling the host nor releasing its claim calls the provider again; its state
  stays what the observation left.
\<close>

theorem ownership_conflict_stops:
  assumes "observe P (host_id_of host) (w_provider w) = (Inr (Present resource), p)"
    and "host_provider_resource host = Some expected" and "expected \<noteq> pr_id resource"
    and "claim_host claim = Some h" and "is_due (hr_retry host) now_ms"
    and "storage_call E (\<lambda>io. get_host (e_codec E) io h) w = (Inr host, w1)"
  shows "w_provider (snd (reconcile_host E P claim host now_ms w)) = p
    \<and> w_provider (snd (reconcile_deleting_claim E P claim now_ms w)) = p"
proof -
  have conflict: "ownership_conflict host resource = Some expected"
    using assms(2,3) by (simp add: ownership_conflict_def)
  show ?thesis
    using reconcile_host_conflict_provider [OF assms(1) conflict]
      reconcile_deleting_claim_conflict_provider [OF assms(4,6,1) conflict assms(5)]
    by simp
qed

text \<open>A provider that names one resource for every host, whatever happens.\<close>

definition stubborn_provider :: "nat host_provider" where
  "stubborn_provider = \<lparr>select_plan = (\<lambda>_ n. (Inr None, Suc n)), observe = (\<lambda>_ n. (Inr (Present sample_ready_resource), Suc n)),
     create_resource = (\<lambda>_ _ n. (Inr CreateOutcomeUnknown, 100 + n)), delete_resource = (\<lambda>_ n. (Inr Deleted, 100 + n))\<rparr>"

definition sample_bound_world :: "nat world" where
  "sample_bound_world = \<lparr>w_db = sample_bound_db, w_provider = 0, w_notified = False, w_count = 0\<rparr>"

lemma sample_bound_world_db: "w_db sample_bound_world = sample_bound_db"
  by (simp add: sample_bound_world_def)

text \<open>The stored sample host, as if it had recorded another resource.\<close>

definition sample_other_host :: HostRecord where
  "sample_other_host = update_host_status (\<lambda>s. s\<lparr>hs_provider_resource_id := Some ''fake-2''\<rparr>) sample_host_record"

lemma sample_bound_ok: "database_ok sample_codec sample_bound_db"
  unfolding sample_bound_db_def
  by (rule refinesD(1) [OF ensure_host_refines [OF sample_codec_ok sample_io_healthy] sample_db_ok])

definition sample_bound_claim :: HostClaimRecord where
  "sample_bound_claim = bound_claim sample_codec (hr_resource sample_host_record) unix_epoch sample_claim"

lemma sample_bound_claim_sel [simp]:
  "claim_id_of sample_bound_claim = sample_claim_id" "claim_deletion sample_bound_claim = None"
  "claim_host sample_bound_claim = Some (HostId 7)"
  by (simp_all add: sample_bound_claim_def sample_host_record_def new_host_record_def)

lemma sample_bound_lone: "w_db w = sample_bound_db \<Longrightarrow> lone sample_env w sample_bound_claim [HostId 7 \<mapsto> sample_host_record]"
proof -
  assume "w_db w = sample_bound_db"
  have valid: "validate_resources (spec_resources sample_spec) = Inr ()"
    by (simp add: validate_resources_Inr sample_fit)
  have "store_of sample_codec sample_bound_db = snd (spec_ensure_host sample_codec unix_epoch (HostId 7) sample_claim_id ''plan''
      (spec_resources sample_spec) (store_of sample_codec sample_db))"
    using refinesD(2) [OF ensure_host_refines [OF sample_codec_ok sample_io_healthy] sample_db_ok,
        of sample_claim_id "''plan''" "spec_resources sample_spec"]
    by (simp add: sample_bound_db_def sample_io_def)
  also have "\<dots> = \<lparr>s_claims = [sample_claim_id \<mapsto> sample_bound_claim], s_hosts = [HostId 7 \<mapsto> sample_host_record]\<rparr>"
    unfolding sample_db_store
    by (simp add: spec_ensure_host_def valid Let_def sample_bound_claim_def sample_host_record_def new_host_record_def)
  finally show ?thesis
    using sample_bound_ok \<open>w_db w = sample_bound_db\<close> by (simp add: lone_def holds_def)
qed

lemma sample_conflict:
  obtains w :: "nat world" where "lone sample_env w sample_bound_claim [HostId 7 \<mapsto> sample_other_host]" and "w_provider w = 0"
proof -
  have same: "with_host_status sample_other_host sample_host_record = sample_other_host"
    by (simp add: with_host_status_def sample_other_host_def update_host_status_def)
  have id: "host_id_of sample_other_host = HostId 7"
    by (simp add: sample_other_host_def sample_host_record_def new_host_record_def)
  obtain w where "lone sample_env w sample_bound_claim [HostId 7 \<mapsto> with_host_status sample_other_host sample_host_record]"
      "w_provider w = w_provider sample_bound_world"
    by (rule lone_save_host [OF sample_env_quiet sample_bound_lone [OF sample_bound_world_db] id])
  then show ?thesis by (intro that [of w]) (simp_all add: same sample_bound_world_def)
qed

theorem ownership_conflict_stops_witness:
  "\<exists>w. lone sample_env w sample_bound_claim [HostId 7 \<mapsto> sample_other_host]
     \<and> w_provider (snd (reconcile_deleting_claim sample_env stubborn_provider sample_bound_claim 0 w)) = 1"
proof -
  obtain w :: "nat world" where w: "lone sample_env w sample_bound_claim [HostId 7 \<mapsto> sample_other_host]" "w_provider w = 0"
    by (rule sample_conflict)
  obtain w1 where stored: "storage_call sample_env (\<lambda>io. get_host (e_codec sample_env) io (HostId 7)) w = (Inr sample_other_host, w1)"
    by (rule lone_get_host [OF sample_env_quiet w(1)])
  have observed: "observe stubborn_provider (host_id_of sample_other_host) (w_provider w) = (Inr (Present sample_ready_resource), 1)"
    using w(2) by (simp add: stubborn_provider_def)
  have other: "host_provider_resource sample_other_host = Some ''fake-2''" "''fake-2'' \<noteq> pr_id sample_ready_resource"
      "claim_host sample_bound_claim = Some (HostId 7)" "is_due (hr_retry sample_other_host) 0"
    by (simp_all add: sample_other_host_def sample_ready_resource_def sample_host_record_def new_host_record_def)
  from ownership_conflict_stops [OF observed other stored] w(1) show ?thesis by blast
qed

section \<open>Deletion\<close>

text \<open>
  C6: Only an observed absence finishes a deletion: while the provider does not answer that it
  holds nothing for the host, a deletion step keeps every claim and host, whatever the delete
  call answers and whatever fails.
\<close>

theorem delete_is_not_proof:
  assumes "codec_ok (e_codec E)" and "database_ok (e_codec E) (w_db w)" and "claim_host claim = Some h"
    and "fst (observe P h (w_provider w)) \<noteq> Inr Absent"
    and "reconcile_deleting_claim E P claim now_ms w = (result, w')"
  shows "database_ok (e_codec E) (w_db w')
    \<and> (\<forall>i r. claim_view (e_codec E) (w_db w) i = Some r \<longrightarrow> (\<exists>r'. claim_view (e_codec E) (w_db w') i = Some r' \<and> same_claim r r'))
    \<and> (\<forall>h r. host_view (e_codec E) (w_db w) h = Some r \<longrightarrow> (\<exists>r'. host_view (e_codec E) (w_db w') h = Some r' \<and> same_host r r'))"
  using reconcile_deleting_claim_keeps [OF assms(1-4), of now_ms] assms(5)
  by (simp add: kept_since_def keeps_def)

theorem delete_is_not_proof_witness:
  "claim_view sample_codec (w_db (snd (reconcile_deleting_claim sample_env stubborn_provider sample_bound_claim 0 sample_bound_world)))
     sample_claim_id \<noteq> None"
proof -
  obtain result w' where run: "reconcile_deleting_claim sample_env stubborn_provider sample_bound_claim 0 sample_bound_world = (result, w')"
    by (rule prod.exhaust)
  have "claim_view sample_codec (w_db sample_bound_world) sample_claim_id = Some sample_bound_claim"
    using loneD(2) [OF sample_bound_lone [OF sample_bound_world_db]] by simp
  moreover have "codec_ok (e_codec sample_env)" "database_ok (e_codec sample_env) (w_db sample_bound_world)"
      "claim_host sample_bound_claim = Some (HostId 7)"
      "fst (observe stubborn_provider (HostId 7) (w_provider sample_bound_world)) \<noteq> Inr Absent"
    using sample_codec_ok loneD(1) [OF sample_bound_lone [OF sample_bound_world_db]] by (simp_all add: stubborn_provider_def)
  ultimately show ?thesis using delete_is_not_proof [OF _ _ _ _ run] run by fastforce
qed

section \<open>Failures\<close>

text \<open>
  C25: A host that is Failed, or not due at any reading of the clock, is left alone whatever else there is:
  from any world that keeps the invariant, as every reachable world does, with any other claims, whatever
  fails and whatever requests arrive meanwhile, a wake leaves its record, its claim's record and what the
  provider holds for it as they are, as long as the claim is not being deleted and nobody asks for that.
\<close>

theorem failed_host_left_alone:
  assumes "codec_ok (e_codec E)" and "world_ok (e_codec E) (fake_owned F) (fake_sane F) w"
    and "claim_view (e_codec E) (w_db w) i = Some r" and "claim_deletion r = None" and "claim_host r = Some h"
    and "host_view (e_codec E) (w_db w) h = Some hr"
    and "host_phase hr = Failed \<or> (\<forall>n. \<not> is_due (hr_retry hr) (now_unix_ms (e_clock_ms E n)))"
    and "spares E i"
  defines "w' \<equiv> reconcile_wake E (FakeProvider F) w"
  shows "claim_view (e_codec E) (w_db w') i = Some r \<and> host_view (e_codec E) (w_db w') h = Some hr
    \<and> fake_owned F (w_provider w') h = fake_owned F (w_provider w) h"
proof -
  note db = world_okD(1) [OF assms(2)]
  have ids: "claim_id_of r = i" "host_id_of hr = h"
    using assms(3,6) by (simp_all add: claim_view_iff [OF assms(1) db] host_view_Some [OF assms(1) db])
  have "fake.resting F (e_codec E) r hr (fake_owned F (w_provider w) h) w"
    using assms(2-6) by (simp add: fake.resting_def at_rest_def world_ok_def ids)
  moreover have "passed_over hr (now_unix_ms (e_clock_ms E n))" for n using assms(7) by (auto simp: passed_over_def)
  ultimately have "fake.resting F (e_codec E) r hr (fake_owned F (w_provider w) h) w'"
    unfolding w'_def using assms(8) by (intro fake.resting_wake [OF assms(1)]) (simp_all add: ids)
  then show ?thesis by (simp add: fake.resting_def at_rest_def ids)
qed

definition sample_failed_host :: HostRecord where
  "sample_failed_host = set_host_phase Failed sample_host_record"

lemma sample_failed:
  fixes w0 :: "'p world"
  assumes "w_db w0 = sample_bound_db"
  obtains w where "lone sample_env w sample_bound_claim [HostId 7 \<mapsto> sample_failed_host]" and "w_provider w = w_provider w0"
proof -
  have same: "with_host_status sample_failed_host sample_host_record = sample_failed_host"
    by (simp add: with_host_status_def sample_failed_host_def set_host_phase_def update_host_status_def)
  have id: "host_id_of sample_failed_host = HostId 7"
    by (simp add: sample_failed_host_def set_host_phase_def sample_host_record_def new_host_record_def)
  obtain w where "lone sample_env w sample_bound_claim [HostId 7 \<mapsto> with_host_status sample_failed_host sample_host_record]"
      "w_provider w = w_provider w0"
    by (rule lone_save_host [OF sample_env_quiet sample_bound_lone [OF assms] id])
  then show ?thesis by (intro that [of w]) (simp_all add: same)
qed

text \<open>The sample with its host Failed, while the database answers to no call.\<close>

theorem failed_host_left_alone_witness:
  "\<exists>w. host_view sample_codec (w_db (reconcile_wake (sample_env\<lparr>e_fault := (\<lambda>_ _. AppliedThenFailed)\<rparr>)
        (FakeProvider sample_fake_env) w)) (HostId 7) = Some sample_failed_host"
proof -
  let ?w0 = "\<lparr>w_db = sample_bound_db, w_provider = seed_catalog empty_fake_provider, w_notified = False, w_count = 0\<rparr>"
  let ?E = "sample_env\<lparr>e_fault := (\<lambda>_ _. AppliedThenFailed)\<rparr>"
  obtain w where w: "lone sample_env w sample_bound_claim [HostId 7 \<mapsto> sample_failed_host]"
      "w_provider w = seed_catalog empty_fake_provider"
    by (rule sample_failed [of ?w0]) simp_all
  have ok: "world_ok (e_codec ?E) (fake_owned sample_fake_env) (fake_sane sample_fake_env) w"
    using loneD(1) [OF w(1)] w(2) seed_catalog_sane [OF empty_fake_sane [OF sample_fake_codec]]
    by (simp add: world_ok_def empty_fake_owned)
  have "codec_ok (e_codec ?E)" "claim_view (e_codec ?E) (w_db w) sample_claim_id = Some sample_bound_claim"
      "host_view (e_codec ?E) (w_db w) (HostId 7) = Some sample_failed_host" "spares ?E sample_claim_id"
      "host_phase sample_failed_host = Failed \<or> (\<forall>n. \<not> is_due (hr_retry sample_failed_host) (now_unix_ms (e_clock_ms ?E n)))"
    using loneD(2,3) [OF w(1)] sample_codec_ok
    by (simp_all add: spares_def sample_env_def sample_failed_host_def set_host_phase_def)
  from failed_host_left_alone [OF this(1) ok this(2) _ _ this(3,5,4)] show ?thesis by auto
qed

text \<open>
  C26: A create that keeps failing is tried at a constant pace: a host being provisioned, whatever
  the number of attempts it has recorded, that the provider does not hold first becomes Pending
  with its schedule cleared, and the create that then fails transiently records attempt 1 again,
  due two seconds later at most.
\<close>

theorem create_backoff_restarts:
  assumes "quiet E" and "lone E w r [h \<mapsto> hr]" and "claim_deletion r = None" and "claim_host r = Some h"
    and "is_due (hr_retry hr) (now_unix_ms (e_clock_ms E (w_count w)))"
    and "host_phase hr = Provisioning"
    and "observe P h (w_provider w) = (Inr Absent, p1)" and "observe P h p1 = (Inr Absent, p2)"
    and "create_resource P h (hr_provider_plan_id hr) p2 = (Inl (Transient message), p3)"
  shows "\<exists>w1 w2 hr'. reconcile_once E P w = (Inr Progress, w1) \<and> reconcile_once E P w1 = (Inr Progress, w2)
    \<and> host_view (e_codec E) (w_db w2) h = Some hr' \<and> host_phase hr' = Provisioning
    \<and> attempt (hr_retry hr') = 1
    \<and> next_reconcile_at_unix_ms (hr_retry hr') = Some (sat_i64 (now_unix_ms (e_clock_ms E (w_count w1)) + 2000))"
proof -
  obtain w1 r1 hr1 where w1: "reconcile_once E P w = (Inr Progress, w1)" "w_provider w1 = p1"
      "lone E w1 r1 [h \<mapsto> hr1]" "claim_deletion r1 = None" "claim_host r1 = Some h"
      and hr1: "host_phase hr1 = Pending" "host_provider_resource hr1 = None" "hr_retry hr1 = default_retry"
      "hr_provider_plan_id hr1 = hr_provider_plan_id hr"
    by (rule lost_step [OF assms(1-5) _ _ assms(7)]) (use assms(6) in auto)
  have due: "is_due (hr_retry hr1) (now_unix_ms (e_clock_ms E (w_count w1)))" by (simp add: hr1(3))
  have create: "create_resource P h (hr_provider_plan_id hr1) p2 = (Inl (Transient message), p3)"
    using assms(9) hr1(4) by simp
  obtain w2 r2 hr2 where w2: "reconcile_once E P w1 = (Inr Progress, w2)" "lone E w2 r2 [h \<mapsto> hr2]"
      "host_phase hr2 = Provisioning" "hr_retry hr2 = \<lparr>attempt = 1,
        next_reconcile_at_unix_ms = Some (retry_deadline (now_unix_ms (e_clock_ms E (w_count w1))) 1),
        last_error_kind = Some ''ProviderUnavailable'', last_error_message = Some message\<rparr>"
    by (rule failed_create_step [OF assms(1) w1(3-5) due hr1(1,2) assms(8) [folded w1(2)] create])
  have "retry_deadline t 1 = sat_i64 (t + 2000)" for t by (simp add: retry_deadline_eq)
  then show ?thesis
    using w1(1) w2 loneD(3) [OF w2(2)] by (intro exI [of _ w1] exI [of _ w2] exI [of _ hr2]) simp
qed

text \<open>A provider that holds nothing and cannot create, and the sample host after many attempts.\<close>

definition failing_provider :: "nat host_provider" where
  "failing_provider = stubborn_provider\<lparr>observe := (\<lambda>_ n. (Inr Absent, Suc n)),
     create_resource := (\<lambda>_ _ n. (Inl (Transient ''down''), Suc n))\<rparr>"

definition sample_tried_host :: HostRecord where
  "sample_tried_host = (set_host_phase Provisioning sample_host_record)
     \<lparr>hr_retry := \<lparr>attempt = 9, next_reconcile_at_unix_ms = Some 0, last_error_kind = None, last_error_message = None\<rparr>\<rparr>"

theorem create_backoff_restarts_witness:
  "\<exists>w hr' w1 w2. lone sample_env w sample_bound_claim [HostId 7 \<mapsto> sample_tried_host] \<and> attempt (hr_retry sample_tried_host) = 9
     \<and> reconcile_once sample_env failing_provider w = (Inr Progress, w1)
     \<and> reconcile_once sample_env failing_provider w1 = (Inr Progress, w2)
     \<and> host_view sample_codec (w_db w2) (HostId 7) = Some hr' \<and> attempt (hr_retry hr') = 1"
proof -
  have same: "with_host_status sample_tried_host sample_host_record = sample_tried_host"
    by (simp add: with_host_status_def sample_tried_host_def set_host_phase_def update_host_status_def)
  have id: "host_id_of sample_tried_host = HostId 7"
    by (simp add: sample_tried_host_def set_host_phase_def sample_host_record_def new_host_record_def)
  obtain w :: "nat world" where "lone sample_env w sample_bound_claim [HostId 7 \<mapsto> with_host_status sample_tried_host sample_host_record]"
    by (rule lone_save_host [OF sample_env_quiet sample_bound_lone [OF sample_bound_world_db] id])
  then have w: "lone sample_env w sample_bound_claim [HostId 7 \<mapsto> sample_tried_host]" by (simp only: same)
  have tried: "host_phase sample_tried_host = Provisioning"
      "is_due (hr_retry sample_tried_host) (now_unix_ms (e_clock_ms sample_env (w_count w)))"
    by (simp_all add: sample_tried_host_def set_host_phase_def is_due_def now_unix_ms_in_i64(2))
  from create_backoff_restarts [OF sample_env_quiet w _ _ tried(2,1), of failing_provider] w
  show ?thesis by (fastforce simp: failing_provider_def stubborn_provider_def sample_tried_host_def)
qed

section \<open>Wakes\<close>

lemma reconcile_steps_trace:
  "reconcile_steps E P fuel w = (limit, w') \<Longrightarrow>
     \<exists>n ws. ws 0 = w \<and> (\<forall>k < n. reconcile_once E P (ws k) = (Inr Progress, ws (Suc k)))
       \<and> (if limit then n = fuel \<and> w' = ws n
          else n < fuel \<and> (\<exists>r. r \<noteq> Inr Progress \<and> reconcile_once E P (ws n) = (r, w')))"
proof (induction fuel arbitrary: w)
  case 0
  then show ?case by (intro exI [of _ "0 :: nat"] exI [of _ "\<lambda>_. w"]) auto
next
  case (Suc fuel)
  obtain r w1 where run: "reconcile_once E P w = (r, w1)" by (rule prod.exhaust)
  show ?case
  proof (cases "r = Inr Progress")
    case True
    with Suc.prems run have "reconcile_steps E P fuel w1 = (limit, w')" by simp
    from Suc.IH [OF this] obtain n ws where ws: "ws 0 = w1" "\<forall>k < n. reconcile_once E P (ws k) = (Inr Progress, ws (Suc k))"
        "if limit then n = fuel \<and> w' = ws n else n < fuel \<and> (\<exists>r. r \<noteq> Inr Progress \<and> reconcile_once E P (ws n) = (r, w'))"
      by blast
    have "\<forall>k < Suc n. reconcile_once E P (case_nat w ws k) = (Inr Progress, case_nat w ws (Suc k))"
      using ws(1,2) run True by (auto split: nat.split)
    with ws(3) show ?thesis by (intro exI [of _ "Suc n"] exI [of _ "case_nat w ws"]) (auto split: if_splits)
  next
    case False
    with Suc.prems run have "\<not> limit" "w' = w1"
      by (auto split: sum.splits ReconcileResult.splits)
    with False run show ?thesis by (intro exI [of _ "0 :: nat"] exI [of _ "\<lambda>_. w"]) auto
  qed
qed

text \<open>
  C31: A wake takes one step after the other, each from the world the last one left, as long as they make
  progress, and leaves no work unnoticed: it stops after fewer than 64 steps at the first that found nothing
  to do or failed, with the world that step left and no wake asked for on its account, or after 64 steps
  that all made progress, and then it has asked for the next wake.
\<close>

theorem wake_leaves_no_work:
  "\<exists>n ws. ws 0 = w \<and> (\<forall>k < n. reconcile_once E P (ws k) = (Inr Progress, ws (Suc k)))
    \<and> (n < 64 \<and> (\<exists>r. r \<noteq> Inr Progress \<and> reconcile_once E P (ws n) = (r, reconcile_wake E P w))
       \<or> n = 64 \<and> reconcile_wake E P w = (ws n)\<lparr>w_notified := True\<rparr>)"
proof -
  obtain limit w' where steps: "reconcile_steps E P MAX_STEPS_PER_WAKE w = (limit, w')" by (rule prod.exhaust)
  from reconcile_steps_trace [OF steps] obtain n ws where ws: "ws 0 = w"
      "\<forall>k < n. reconcile_once E P (ws k) = (Inr Progress, ws (Suc k))"
      "if limit then n = 64 \<and> w' = ws n else n < 64 \<and> (\<exists>r. r \<noteq> Inr Progress \<and> reconcile_once E P (ws n) = (r, w'))"
    unfolding MAX_STEPS_PER_WAKE_def by blast
  have "reconcile_wake E P w = (if limit then w'\<lparr>w_notified := True\<rparr> else w')" by (simp add: reconcile_wake_def steps)
  with ws show ?thesis by (intro exI [of _ n] exI [of _ ws]) (auto split: if_splits)
qed

text \<open>A wake that finds the one host Failed ends with its first step.\<close>

theorem wake_leaves_no_work_witness:
  "\<exists>w. lone sample_env w sample_bound_claim [HostId 7 \<mapsto> sample_failed_host]
     \<and> reconcile_once sample_env stubborn_provider w = (Inr Idle, reconcile_wake sample_env stubborn_provider w)"
proof -
  obtain w :: "nat world" where w: "lone sample_env w sample_bound_claim [HostId 7 \<mapsto> sample_failed_host]"
    by (rule sample_failed [OF sample_bound_world_db])
  obtain w1 where w1: "reconcile_once sample_env stubborn_provider w = (Inr Idle, w1)"
    by (rule lone_passed_over [OF sample_env_quiet w, where P = stubborn_provider])
      (simp_all add: sample_failed_host_def set_host_phase_def)
  obtain n ws where ws: "ws 0 = w" "\<And>k. k < n \<Longrightarrow> reconcile_once sample_env stubborn_provider (ws k) = (Inr Progress, ws (Suc k))"
      "n < 64 \<and> (\<exists>r. r \<noteq> Inr Progress \<and> reconcile_once sample_env stubborn_provider (ws n) = (r, reconcile_wake sample_env stubborn_provider w))
       \<or> n = 64 \<and> reconcile_wake sample_env stubborn_provider w = (ws n)\<lparr>w_notified := True\<rparr>"
    using wake_leaves_no_work [of w sample_env stubborn_provider] by blast
  have "n = 0" using ws(1) ws(2) [of 0] w1 by (cases n) simp_all
  with ws(1,3) w w1 show ?thesis by auto
qed

end
