(* ===== verification/Recovery.thy ===== *)
theory Recovery
  imports Lifecycle
begin

text \<open>
  Recovery: whatever a crash, a lost response or an outage left of a host's record and of the
  provider's resource, one wake on a quiet database makes the claim Ready again.
\<close>

text \<open>The one claim of the database is Ready on a host whose record names \<open>res\<close>.\<close>

definition ready_claim :: "environment \<Rightarrow> 'p world \<Rightarrow> HostClaimId \<Rightarrow> HostId \<Rightarrow> ProviderResource \<Rightarrow> string \<Rightarrow> bool" where
  "ready_claim E w i h res plan \<longleftrightarrow> (\<exists>r hr. lone E w r [h \<mapsto> hr] \<and> claim_id_of r = i \<and> claim_deletion r = None
     \<and> claim_host r = Some h \<and> map_option c_status (condition_at (claim_conditions r) ''Ready'') = Some StatusTrue
     \<and> host_phase hr = Ready \<and> host_provider_resource hr = Some (pr_id res) \<and> hr_provider_plan_id hr = plan
     \<and> hr_retry hr = default_retry)"

section \<open>Steps\<close>

text \<open>The provider holds a resource the host's record does not contradict: the step records it.\<close>

lemma adopt_step:
  assumes E: "quiet E" and lone: "lone E w r [h \<mapsto> hr]"
    and r: "claim_deletion r = None" "claim_host r = Some h"
    and hr: "is_due (hr_retry hr) (now_unix_ms (e_clock_ms E (w_count w)))" "host_phase hr \<noteq> Failed"
    and observed: "observe P h (w_provider w) = (Inr (Present res), p)" and owned: "ownership_conflict hr res = None"
  obtains w' now where
    "reconcile_once E P w = (Inr (if provider_observation_is_stable hr res then Idle else Progress), w')"
    and "w_provider w' = p" and "w_notified w' = w_notified w"
    and "lone E w' (with_status (fst (apply_provider_observation (e_codec E) now r hr res)) r)
      [h \<mapsto> with_host_status (snd (apply_provider_observation (e_codec E) now r hr res)) hr]"
proof -
  let ?result = "if provider_observation_is_stable hr res then Idle else Progress"
  let ?now_ms = "now_unix_ms (e_clock_ms E (w_count w))"
  have id: "host_id_of hr = h" by (rule host_id_stored [OF E lone])
  obtain w1 where w1: "lone E w1 r [h \<mapsto> hr]" "w_provider w1 = w_provider w" "w_notified w1 = w_notified w"
      "reconcile_once E P w = reconcile_host E P r hr ?now_ms w1"
    by (rule lone_due_step [OF E lone r hr, where P = P])
  let ?w = "w1\<lparr>w_provider := p\<rparr>"
  obtain w' now where w':
      "and_then (now_timestamp E) (\<lambda>now. save_both E (apply_provider_observation (e_codec E) now r hr res) ?result) ?w = (Inr ?result, w')"
      "lone E w' (with_status (fst (apply_provider_observation (e_codec E) now r hr res)) r)
        [h \<mapsto> with_host_status (snd (apply_provider_observation (e_codec E) now r hr res)) hr]"
      "w_provider w' = w_provider ?w" "w_notified w' = w_notified ?w"
    by (rule observation_saved [OF E, of ?w r h hr hr res ?result]) (use w1(1) id in simp_all)
  have "reconcile_host E P r hr ?now_ms w1 = (Inr ?result, w')"
    using observed w'(1) owned
    by (simp add: reconcile_host_def id and_then_def [of "provider_call _"] provider_call_def w1(2))
  with w1(4) w' w1(3) that show ?thesis by simp
qed

lemma recorded_ready:
  assumes E: "quiet E" and r: "claim_deletion r = None" "claim_host r = Some h"
    and lone: "lone E w (with_status (fst (apply_provider_observation (e_codec E) t r host res)) r)
      [h \<mapsto> with_host_status (snd (apply_provider_observation (e_codec E) t r host res)) hr]"
    and ready: "pr_lifecycle res = LifecycleReady"
  shows "ready_claim E w (claim_id_of r) h res (hr_provider_plan_id hr)"
  unfolding ready_claim_def
  by (rule exI, rule exI, rule conjI, rule lone)
    (use ready r in \<open>simp add: apply_provider_observation_host [OF refl]
      apply_provider_observation_conditions(1) [OF refl refl] expected_phase_def\<close>)

text \<open>After a resource was recorded, the wake ends with the next step at the latest.\<close>

lemma recorded_steps:
  assumes E: "quiet E" and r: "claim_deletion r = None" "claim_host r = Some h"
    and lone: "lone E w (with_status (fst (apply_provider_observation (e_codec E) t r host res)) r)
      [h \<mapsto> with_host_status (snd (apply_provider_observation (e_codec E) t r host res)) hr]"
    and observed: "observe P h (w_provider w) = (Inr (Present res), p)" and ready: "pr_lifecycle res = LifecycleReady"
  obtains w' where "reconcile_steps E P (Suc n) w = (False, w')" and "w_provider w' = p" and "w_notified w' = w_notified w"
    and "ready_claim E w' (claim_id_of r) h res (hr_provider_plan_id hr)"
proof -
  obtain w' r' hr' where "reconcile_once E P w = (Inr Idle, w')" "w_provider w' = p" "w_notified w' = w_notified w"
      "lone E w' r' [h \<mapsto> hr']" "claim_id_of r' = claim_id_of r" "claim_host r' = Some h" "claim_deletion r' = None"
      "hr_provider_plan_id hr' = hr_provider_plan_id hr" "host_phase hr' = Ready"
      "host_provider_resource hr' = Some (pr_id res)" "hr_retry hr' = default_retry"
      "map_option c_status (condition_at (claim_conditions r') ''Ready'') = Some StatusTrue"
    by (rule recorded_settles [OF E r lone observed ready])
  then show ?thesis by (intro that [of w']) (auto simp: ready_claim_def)
qed

lemma adopted_steps:
  assumes E: "quiet E" and lone: "lone E w r [h \<mapsto> hr]"
    and r: "claim_deletion r = None" "claim_host r = Some h"
    and hr: "is_due (hr_retry hr) (now_unix_ms (e_clock_ms E (w_count w)))" "host_phase hr \<noteq> Failed"
    and observed: "observe P h (w_provider w) = (Inr (Present res), p1)" "observe P h p1 = (Inr (Present res), p2)"
    and owned: "ownership_conflict hr res = None" and ready: "pr_lifecycle res = LifecycleReady"
  obtains w' where "reconcile_steps E P (Suc (Suc n)) w = (False, w')" and "w_provider w' \<in> {p1, p2}"
    and "w_notified w' = w_notified w" and "ready_claim E w' (claim_id_of r) h res (hr_provider_plan_id hr)"
proof -
  obtain w1 t where w1: "reconcile_once E P w = (Inr (if provider_observation_is_stable hr res then Idle else Progress), w1)"
      "w_provider w1 = p1" "w_notified w1 = w_notified w"
      "lone E w1 (with_status (fst (apply_provider_observation (e_codec E) t r hr res)) r)
        [h \<mapsto> with_host_status (snd (apply_provider_observation (e_codec E) t r hr res)) hr]"
    by (rule adopt_step [OF E lone r hr observed(1) owned])
  show ?thesis
  proof (cases "provider_observation_is_stable hr res")
    case True
    then show ?thesis
      using w1(1-3) recorded_ready [OF E r w1(4) ready] by (intro that [of w1]) simp_all
  next
    case False
    obtain w2 where "reconcile_steps E P (Suc n) w1 = (False, w2)" "w_provider w2 = p2" "w_notified w2 = w_notified w1"
        "ready_claim E w2 (claim_id_of r) h res (hr_provider_plan_id hr)"
      by (rule recorded_steps [OF E r w1(4) observed(2) [folded w1(2)] ready])
    then show ?thesis using w1(1,3) False by (intro that [of w2]) simp_all
  qed
qed

lemma recreated_steps:
  assumes E: "quiet E" and lone: "lone E w r [h \<mapsto> hr]"
    and r: "claim_deletion r = None" "claim_host r = Some h"
    and hr: "is_due (hr_retry hr) (now_unix_ms (e_clock_ms E (w_count w)))" "host_phase hr = Pending"
      "host_provider_resource hr = None"
    and run: "observe P h (w_provider w) = (Inr Absent, p1)"
      "create_resource P h (hr_provider_plan_id hr) p1 = (Inr (Created res), p2)"
      "observe P h p2 = (Inr (Present res), p3)" "pr_lifecycle res = LifecycleReady"
  obtains w' where "reconcile_steps E P (Suc (Suc n)) w = (False, w')" and "w_provider w' = p3"
    and "w_notified w' = w_notified w" and "ready_claim E w' (claim_id_of r) h res (hr_provider_plan_id hr)"
proof -
  obtain w1 t host1 where w1: "reconcile_once E P w = (Inr Progress, w1)" "w_provider w1 = p2" "w_notified w1 = w_notified w"
      "lone E w1 (with_status (fst (apply_provider_observation (e_codec E) t r host1 res)) r)
        [h \<mapsto> with_host_status (snd (apply_provider_observation (e_codec E) t r host1 res)) hr]"
    by (rule create_step [OF E lone r hr run(1,2)])
  obtain w2 where "reconcile_steps E P (Suc n) w1 = (False, w2)" "w_provider w2 = p3" "w_notified w2 = w_notified w1"
      "ready_claim E w2 (claim_id_of r) h res (hr_provider_plan_id hr)"
    by (rule recorded_steps [OF E r w1(4) run(3) [folded w1(2)] run(4)])
  then show ?thesis using w1(1,3) by (intro that [of w2]) simp_all
qed

section \<open>The fake provider\<close>

text \<open>
  The states a host can be in, with the provider answering: the provider holds a resource for it, made
  from its plan, and the record names that one or none; or the provider holds nothing, and the record
  may say anything.
\<close>

definition recoverable :: "fake_env \<Rightarrow> fake_provider \<Rightarrow> HostId \<Rightarrow> HostRecord \<Rightarrow> bool" where
  "recoverable F s h hr \<longleftrightarrow> fake_calm F s
     \<and> ((\<exists>res. sole_resource F s h res (hr_provider_plan_id hr) \<and> pr_lifecycle res = LifecycleReady
          \<and> host_provider_resource hr \<in> {None, Some (pr_id res)})
        \<or> (provider_resources s = [] \<and> plans s = catalog \<and> hr_provider_plan_id hr \<in> pl_id ` set catalog))"

lemma absent_recovers:
  assumes E: "quiet E" and lone: "lone E w r [h \<mapsto> hr]"
    and r: "claim_deletion r = None" "claim_host r = Some h"
    and hr: "is_due (hr_retry hr) (now_unix_ms (e_clock_ms E (w_count w)))" "host_phase hr \<noteq> Failed"
    and calm: "fake_calm F (w_provider w)" and none: "provider_resources (w_provider w) = []"
    and plans: "plans (w_provider w) = catalog" and plan: "hr_provider_plan_id hr \<in> pl_id ` set catalog"
  obtains w' res where "reconcile_steps E (FakeProvider F) (Suc (Suc (Suc n))) w = (False, w')"
    and "w_notified w' = w_notified w" and "ready_claim E w' (claim_id_of r) h res (hr_provider_plan_id hr)"
    and "sole_resource F (w_provider w') h res (hr_provider_plan_id hr)"
proof -
  let ?P = "FakeProvider F" and ?s = "w_provider w"
  obtain row where row: "row \<in> set catalog" "hr_provider_plan_id hr = pl_id row" using plan by blast
  have created: "\<exists>p1 p2 p3 res. fake_observe F h (?s\<lparr>statement_count := k\<rparr>) = (Inr Absent, p1)
      \<and> fake_create F h (hr_provider_plan_id hr) p1 = (Inr (Created res), p2)
      \<and> fake_observe F h p2 = (Inr (Present res), p3) \<and> pr_lifecycle res = LifecycleReady
      \<and> sole_resource F p3 h res (hr_provider_plan_id hr)" for k
    by (rule created_sole [OF calm none plans row, of h k]) blast
  show ?thesis
  proof (cases "host_provider_resource hr \<noteq> None \<or> host_phase hr \<noteq> Pending")
    case False
    obtain p1 p2 p3 res where p: "observe ?P h ?s = (Inr Absent, p1)"
        "create_resource ?P h (hr_provider_plan_id hr) p1 = (Inr (Created res), p2)"
        "observe ?P h p2 = (Inr (Present res), p3)" "pr_lifecycle res = LifecycleReady"
        "sole_resource F p3 h res (hr_provider_plan_id hr)"
      using created [of "statement_count ?s"] by auto
    obtain w' where "reconcile_steps E ?P (Suc (Suc (Suc n))) w = (False, w')" "w_provider w' = p3"
        "w_notified w' = w_notified w" "ready_claim E w' (claim_id_of r) h res (hr_provider_plan_id hr)"
      by (rule recreated_steps [OF E lone r hr(1) _ _ p(1-4)]) (use False in auto)
    then show ?thesis using p(5) that by simp
  next
    case True
    obtain k where absent: "observe ?P h ?s = (Inr Absent, ?s\<lparr>statement_count := k\<rparr>)"
      by (rule fake_observe_calm [OF calm, of h]) (use none in \<open>auto simp: fake_owned_def find_resource_def\<close>)
    obtain w1 r1 hr1 where w1: "reconcile_once E ?P w = (Inr Progress, w1)" "w_provider w1 = ?s\<lparr>statement_count := k\<rparr>"
        "w_notified w1 = w_notified w" "lone E w1 r1 [h \<mapsto> hr1]" "claim_id_of r1 = claim_id_of r"
        "claim_deletion r1 = None" "claim_host r1 = Some h" "host_phase hr1 = Pending" "host_provider_resource hr1 = None"
        "hr_retry hr1 = default_retry" "hr_provider_plan_id hr1 = hr_provider_plan_id hr"
      by (rule lost_step [OF E lone r hr True absent])
    obtain p1 p2 p3 res where p: "observe ?P h (w_provider w1) = (Inr Absent, p1)"
        "create_resource ?P h (hr_provider_plan_id hr1) p1 = (Inr (Created res), p2)"
        "observe ?P h p2 = (Inr (Present res), p3)" "pr_lifecycle res = LifecycleReady"
        "sole_resource F p3 h res (hr_provider_plan_id hr)"
      using created [of k] w1(2,11) by auto
    have due: "is_due (hr_retry hr1) (now_unix_ms (e_clock_ms E (w_count w1)))" by (simp add: w1(10))
    obtain w' where "reconcile_steps E ?P (Suc (Suc n)) w1 = (False, w')" "w_provider w' = p3"
        "w_notified w' = w_notified w1" "ready_claim E w' (claim_id_of r1) h res (hr_provider_plan_id hr1)"
      by (rule recreated_steps [OF E w1(4,6,7) due w1(8,9) p(1-4)])
    then show ?thesis using w1(1,3,5,11) p(5) that by simp
  qed
qed

lemma held_recovers:
  assumes E: "quiet E" and lone: "lone E w r [h \<mapsto> hr]"
    and r: "claim_deletion r = None" "claim_host r = Some h"
    and hr: "is_due (hr_retry hr) (now_unix_ms (e_clock_ms E (w_count w)))" "host_phase hr \<noteq> Failed"
    and sole: "sole_resource F (w_provider w) h res (hr_provider_plan_id hr)" and ready: "pr_lifecycle res = LifecycleReady"
    and named: "host_provider_resource hr \<in> {None, Some (pr_id res)}"
  obtains w' where "reconcile_steps E (FakeProvider F) (Suc (Suc n)) w = (False, w')"
    and "w_notified w' = w_notified w" and "ready_claim E w' (claim_id_of r) h res (hr_provider_plan_id hr)"
    and "sole_resource F (w_provider w') h res (hr_provider_plan_id hr)"
proof -
  obtain n1 where p1: "observe (FakeProvider F) h (w_provider w) = (Inr (Present res), (w_provider w)\<lparr>statement_count := n1\<rparr>)"
    by (rule sole_resource_observed [OF sole]) simp
  let ?p1 = "(w_provider w)\<lparr>statement_count := n1\<rparr>"
  have "sole_resource F ?p1 h res (hr_provider_plan_id hr)" using sole by simp
  then obtain n2 where p2: "observe (FakeProvider F) h ?p1 = (Inr (Present res), ?p1\<lparr>statement_count := n2\<rparr>)"
    by (rule sole_resource_observed) simp
  have owned: "ownership_conflict hr res = None" using named by (auto simp: ownership_conflict_def)
  obtain w' where w': "reconcile_steps E (FakeProvider F) (Suc (Suc n)) w = (False, w')"
      "w_provider w' \<in> {?p1, ?p1\<lparr>statement_count := n2\<rparr>}" "w_notified w' = w_notified w"
      "ready_claim E w' (claim_id_of r) h res (hr_provider_plan_id hr)"
    by (rule adopted_steps [OF E lone r hr p1 p2 owned ready])
  have "sole_resource F (w_provider w') h res (hr_provider_plan_id hr)" using w'(2) sole by auto
  then show ?thesis by (rule that [OF w'(1,3,4)])
qed

text \<open>
  C4: Recovery: whatever phase, observation and retry schedule a crash, a lost response or an outage
  left in a host's record, as long as it is due, not Failed, and does not name another resource than
  the provider holds, one wake on a quiet database leaves the claim Ready on that host: an existing
  resource is adopted, a missing one is created from the host's plan, and the provider ends with that
  one resource.
\<close>

theorem host_recovers:
  assumes "quiet E" and "lone E w r [h \<mapsto> hr]" and "claim_deletion r = None" and "claim_host r = Some h"
    and "is_due (hr_retry hr) (now_unix_ms (e_clock_ms E (w_count w)))" and "host_phase hr \<noteq> Failed"
    and "recoverable F (w_provider w) h hr"
  shows "\<exists>w' res. reconcile_wake E (FakeProvider F) w = w' \<and> w_notified w' = w_notified w
    \<and> ready_claim E w' (claim_id_of r) h res (hr_provider_plan_id hr)
    \<and> sole_resource F (w_provider w') h res (hr_provider_plan_id hr)"
proof -
  have wake: "reconcile_wake E (FakeProvider F) w = w'" if "reconcile_steps E (FakeProvider F) 64 w = (False, w')" for w'
    using that by (simp add: reconcile_wake_def MAX_STEPS_PER_WAKE_def)
  have calm: "fake_calm F (w_provider w)" using assms(7) by (simp add: recoverable_def)
  consider (held) res where "sole_resource F (w_provider w) h res (hr_provider_plan_id hr)" "pr_lifecycle res = LifecycleReady"
      "host_provider_resource hr \<in> {None, Some (pr_id res)}"
    | (missing) "provider_resources (w_provider w) = []" "plans (w_provider w) = catalog" "hr_provider_plan_id hr \<in> pl_id ` set catalog"
    using assms(7) unfolding recoverable_def by blast
  then show ?thesis
  proof cases
    case held
    obtain w' where w': "reconcile_steps E (FakeProvider F) (Suc (Suc 62)) w = (False, w')" "w_notified w' = w_notified w"
        "ready_claim E w' (claim_id_of r) h res (hr_provider_plan_id hr)"
        "sole_resource F (w_provider w') h res (hr_provider_plan_id hr)"
      by (rule held_recovers [OF assms(1-6) held])
    then have "reconcile_wake E (FakeProvider F) w = w'" by (intro wake) simp
    then show ?thesis using w'(2-4) by blast
  next
    case missing
    obtain w' res where w': "reconcile_steps E (FakeProvider F) (Suc (Suc (Suc 61))) w = (False, w')" "w_notified w' = w_notified w"
        "ready_claim E w' (claim_id_of r) h res (hr_provider_plan_id hr)"
        "sole_resource F (w_provider w') h res (hr_provider_plan_id hr)"
      by (rule absent_recovers [OF assms(1-6) calm missing])
    then have "reconcile_wake E (FakeProvider F) w = w'" by (intro wake) simp
    then show ?thesis using w'(2-4) by blast
  qed
qed

text \<open>A host whose create was answered by the provider, and whose daemon crashed before it was recorded.\<close>

theorem host_recovers_witness:
  "\<exists>(w :: fake_provider world) r h hr w' res. lone sample_env w r [h \<mapsto> hr] \<and> host_phase hr = Provisioning
     \<and> host_provider_resource hr = None \<and> provider_resources (w_provider w) \<noteq> []
     \<and> reconcile_wake sample_env (FakeProvider sample_fake_env) w = w'
     \<and> ready_claim sample_env w' (claim_id_of r) h res (hr_provider_plan_id hr)"
proof -
  have E: "quiet sample_env" using sample_serves_create by (simp add: serves_create_def)
  obtain w2 :: "fake_provider world" and r h hr res where lone: "lone sample_env w2 r [h \<mapsto> hr]"
      and r: "claim_host r = Some h" "claim_deletion r = None" and retry: "hr_retry hr = default_retry"
      and sole: "sole_resource sample_fake_env (w_provider w2) h res (hr_provider_plan_id hr)" "pr_lifecycle res = LifecycleReady"
    by (rule ready_reached [OF sample_serves_create])
  let ?crashed = "update_host_status (\<lambda>s. s\<lparr>hs_phase := Provisioning, hs_provider_resource_id := None\<rparr>) hr"
  have id: "host_id_of ?crashed = h" using host_id_stored [OF E lone] by simp
  obtain w where w: "lone sample_env w r [h \<mapsto> with_host_status ?crashed hr]" "w_provider w = w_provider w2"
    by (rule lone_save_host [OF E lone id])
  let ?hr = "with_host_status ?crashed hr"
  have hr: "is_due (hr_retry ?hr) (now_unix_ms (e_clock_ms sample_env (w_count w)))" "host_phase ?hr \<noteq> Failed"
      "host_phase ?hr = Provisioning" "host_provider_resource ?hr = None"
    using retry by (simp_all add: with_host_status_def update_host_status_def)
  have "recoverable sample_fake_env (w_provider w) h ?hr"
    using sole by (auto simp: recoverable_def w(2) hr(4) sole_resource_def)
  from host_recovers [OF E w(1) r(2,1) hr(1,2) this]
  obtain w' res' where "reconcile_wake sample_env (FakeProvider sample_fake_env) w = w'"
      "ready_claim sample_env w' (claim_id_of r) h res' (hr_provider_plan_id ?hr)" by blast
  moreover have "provider_resources (w_provider w) \<noteq> []"
    using sole(1) by (auto simp: w(2) sole_resource_def fake_owned_def find_resource_def split: option.splits)
  ultimately show ?thesis using w(1) hr(3,4) by blast
qed

end
