(* ===== verification/Settling.thy ===== *)
theory Settling
  imports Quiet
begin

text \<open>
  What a controller step on any number of claims keeps and brings nearer: the order between claims,
  hosts and the provider's resources, and the number of steps each claim is away from being settled.
\<close>

section \<open>Claims, hosts and resources\<close>

record view =
  v_claims :: claim_map
  v_hosts :: host_map
  v_own :: "HostId \<Rightarrow> (ProviderResource \<times> string) option"
  v_ids :: "string set"

text \<open>
  \<open>v_ids\<close> are the identifiers the provider has issued. In order are: every claim due, and one without
  a host asks for what some plan offers; every host due and not Failed, of a known plan; every resource
  ready, of a stored host, made from its plan, and no host names another host's.
\<close>

definition claim_open :: "(HostResources \<Rightarrow> bool) \<Rightarrow> HostClaimRecord \<Rightarrow> bool" where
  "claim_open offers r \<longleftrightarrow> next_reconcile_at_unix_ms (cr_retry r) = None
     \<and> (claim_deletion r = None \<and> claim_host r = None \<longrightarrow> offers (spec_resources (hc_spec (cr_resource r))))"

definition host_open :: "(string \<Rightarrow> bool) \<Rightarrow> string set \<Rightarrow> HostRecord \<Rightarrow> bool" where
  "host_open known ids hr \<longleftrightarrow> next_reconcile_at_unix_ms (hr_retry hr) = None \<and> host_phase hr \<noteq> Failed
     \<and> known (hr_provider_plan_id hr) \<and> set_option (host_provider_resource hr) \<subseteq> ids"

definition resource_placed :: "view \<Rightarrow> HostId \<Rightarrow> ProviderResource \<Rightarrow> string \<Rightarrow> bool" where
  "resource_placed v h res plan \<longleftrightarrow> pr_lifecycle res = LifecycleReady \<and> pr_id res \<in> v_ids v
     \<and> (\<exists>hr. v_hosts v h = Some hr \<and> hr_provider_plan_id hr = plan \<and> host_provider_resource hr \<in> {None, Some (pr_id res)})
     \<and> (\<forall>h' hr'. h' \<noteq> h \<longrightarrow> v_hosts v h' = Some hr' \<longrightarrow> host_provider_resource hr' \<noteq> Some (pr_id res))
     \<and> (\<forall>h' res' plan'. h' \<noteq> h \<longrightarrow> v_own v h' = Some (res', plan') \<longrightarrow> pr_id res' \<noteq> pr_id res)"

definition orderly :: "(HostResources \<Rightarrow> bool) \<Rightarrow> (string \<Rightarrow> bool) \<Rightarrow> view \<Rightarrow> bool" where
  "orderly offers known v \<longleftrightarrow>
     (\<forall>r \<in> ran (v_claims v). claim_open offers r)
     \<and> (\<forall>hr \<in> ran (v_hosts v). host_open known (v_ids v) hr)
     \<and> (\<forall>h res plan. v_own v h = Some (res, plan) \<longrightarrow> resource_placed v h res plan)"

lemma orderlyD:
  assumes "orderly offers known v"
  shows "v_claims v i = Some r \<Longrightarrow> claim_open offers r"
    and "v_hosts v h = Some hr \<Longrightarrow> host_open known (v_ids v) hr"
    and "v_own v h = Some (res, plan) \<Longrightarrow> resource_placed v h res plan"
  using assms by (auto simp: orderly_def intro: ranI)

lemma orderlyI:
  assumes "\<And>i r. v_claims v i = Some r \<Longrightarrow> claim_open offers r"
    and "\<And>h hr. v_hosts v h = Some hr \<Longrightarrow> host_open known (v_ids v) hr"
    and "\<And>h res plan. v_own v h = Some (res, plan) \<Longrightarrow> resource_placed v h res plan"
  shows "orderly offers known v"
  using assms by (auto simp: orderly_def ran_def)

lemma orderly_ids:
  assumes "orderly offers known v" and "v_ids v \<subseteq> ids"
  shows "orderly offers known (v\<lparr>v_ids := ids\<rparr>)"
  using assms orderlyD [OF assms(1)]
  by (intro orderlyI) (fastforce simp: host_open_def resource_placed_def)+

lemma orderly_claim:
  assumes "orderly offers known v" and "v_claims v i = Some r" and "next_reconcile_at_unix_ms (cr_retry copy) = None"
  shows "orderly offers known (v\<lparr>v_claims := (v_claims v)(i \<mapsto> with_status copy r)\<rparr>)"
  using assms orderlyD [OF assms(1)]
  by (intro orderlyI) (auto simp: claim_open_def resource_placed_def split: if_splits)

text \<open>A host's record may name the resource the provider holds for it, or none.\<close>

lemma orderly_host:
  assumes v: "orderly offers known v" and hr: "v_hosts v h = Some hr"
    and copy: "next_reconcile_at_unix_ms (hr_retry copy) = None" "host_phase copy \<noteq> Failed"
    and named: "host_provider_resource copy = None
      \<or> (\<exists>res plan. v_own v h = Some (res, plan) \<and> host_provider_resource copy = Some (pr_id res))"
  shows "orderly offers known (v\<lparr>v_hosts := (v_hosts v)(h \<mapsto> with_host_status copy hr)\<rparr>)"
proof (rule orderlyI)
  fix i r assume "v_claims (v\<lparr>v_hosts := (v_hosts v)(h \<mapsto> with_host_status copy hr)\<rparr>) i = Some r"
  then show "claim_open offers r" using orderlyD(1) [OF v] by simp
next
  fix h' hr' assume stored: "v_hosts (v\<lparr>v_hosts := (v_hosts v)(h \<mapsto> with_host_status copy hr)\<rparr>) h' = Some hr'"
  have "set_option (host_provider_resource copy) \<subseteq> v_ids v"
    using named orderlyD(3) [OF v] by (auto simp: resource_placed_def)
  then show "host_open known (v_ids (v\<lparr>v_hosts := (v_hosts v)(h \<mapsto> with_host_status copy hr)\<rparr>)) hr'"
    using stored copy orderlyD(2) [OF v, of h hr] hr orderlyD(2) [OF v, of h' hr']
    by (auto simp: host_open_def split: if_splits)
next
  fix h1 res plan assume "v_own (v\<lparr>v_hosts := (v_hosts v)(h \<mapsto> with_host_status copy hr)\<rparr>) h1 = Some (res, plan)"
  then have own: "v_own v h1 = Some (res, plan)" by simp
  note placed = orderlyD(3) [OF v own]
  have "host_provider_resource copy \<noteq> Some (pr_id res)" if "h \<noteq> h1"
    using named placed that own by (auto simp: resource_placed_def)
  then show "resource_placed (v\<lparr>v_hosts := (v_hosts v)(h \<mapsto> with_host_status copy hr)\<rparr>) h1 res plan"
    using placed hr own named by (auto simp: resource_placed_def split: if_splits)
qed

text \<open>A resource is made, with an identifier not issued before, for a host that names none.\<close>

lemma orderly_created:
  assumes v: "orderly offers known v" and hr: "v_hosts v h = Some hr" "host_provider_resource hr = None"
    and res: "pr_lifecycle res = LifecycleReady" "pr_id res \<notin> v_ids v" "pr_id res \<in> ids" "v_ids v \<subseteq> ids"
  shows "orderly offers known (v\<lparr>v_own := (v_own v)(h \<mapsto> (res, hr_provider_plan_id hr)), v_ids := ids\<rparr>)"
    (is "orderly offers known ?v")
proof (rule orderlyI)
  fix i r assume "v_claims ?v i = Some r"
  then show "claim_open offers r" using orderlyD(1) [OF v] by simp
next
  fix h' hr' assume "v_hosts ?v h' = Some hr'"
  then show "host_open known (v_ids ?v) hr'" using orderlyD(2) [OF v] res(4) by (fastforce simp: host_open_def)
next
  fix h1 res1 plan assume own: "v_own ?v h1 = Some (res1, plan)"
  have unnamed: "host_provider_resource hr' \<noteq> Some (pr_id res)" if "v_hosts v h' = Some hr'" for h' hr'
    using orderlyD(2) [OF v that] res(2) by (auto simp: host_open_def)
  have unowned: "pr_id res' \<noteq> pr_id res" if "v_own v h' = Some (res', plan')" for h' res' plan'
    using orderlyD(3) [OF v that] res(2) by (auto simp: resource_placed_def)
  show "resource_placed ?v h1 res1 plan"
  proof (cases "h1 = h")
    case True
    with own have "res1 = res" "plan = hr_provider_plan_id hr" by simp_all
    then show ?thesis
      using True hr res unnamed unowned by (auto simp: resource_placed_def)
  next
    case False
    with own have own1: "v_own v h1 = Some (res1, plan)" by simp
    have "pr_id res \<noteq> pr_id res1" using unowned [OF own1] by simp
    then show ?thesis
      using orderlyD(3) [OF v own1] res(4) by (auto simp: resource_placed_def)
  qed
qed

lemma orderly_deleted:
  assumes "orderly offers known v"
  shows "orderly offers known (v\<lparr>v_own := (v_own v)(h := None)\<rparr>)"
  using orderlyD [OF assms] by (intro orderlyI) (auto simp: resource_placed_def split: if_splits)

text \<open>A claim is given a host that was not stored, and so had no resource.\<close>

lemma orderly_bound:
  assumes v: "orderly offers known v" and r: "v_claims v i = Some r" and new: "v_hosts v h = None" and plan: "known plan"
  shows "orderly offers known (v\<lparr>v_claims := (v_claims v)(i \<mapsto> bound_claim cd (initial_host h i resources now) now r),
    v_hosts := (v_hosts v)(h \<mapsto> new_host_record h i plan resources now)\<rparr>)" (is "orderly offers known ?v")
proof (rule orderlyI)
  fix j r' assume "v_claims ?v j = Some r'"
  then show "claim_open offers r'"
    using orderlyD(1) [OF v] by (auto simp: claim_open_def default_retry_def initial_host_def split: if_splits)
next
  fix h' hr' assume "v_hosts ?v h' = Some hr'"
  then show "host_open known (v_ids ?v) hr'"
    using orderlyD(2) [OF v, of h' hr'] plan
    by (auto simp: host_open_def new_host_record_def initial_host_def default_retry_def split: if_splits)
next
  fix h1 res plan1 assume "v_own ?v h1 = Some (res, plan1)"
  then have placed: "resource_placed v h1 res plan1" using orderlyD(3) [OF v] by simp
  then have "h1 \<noteq> h" using new by (auto simp: resource_placed_def)
  then show "resource_placed ?v h1 res plan1"
    using placed by (auto simp: resource_placed_def new_host_record_def initial_host_def)
qed

text \<open>A claim goes with its hosts, none of which has a resource.\<close>

lemma orderly_finalized:
  assumes v: "orderly offers known v"
    and free: "\<And>h hr. v_hosts v h = Some hr \<Longrightarrow> host_claim_of hr = i \<Longrightarrow> v_own v h = None"
  shows "orderly offers known (v\<lparr>v_claims := (v_claims v)(i := None), v_hosts := hosts_without i (v_hosts v)\<rparr>)"
    (is "orderly offers known ?v")
proof (rule orderlyI)
  fix j r assume "v_claims ?v j = Some r"
  then show "claim_open offers r" using orderlyD(1) [OF v] by (auto split: if_splits)
next
  fix h hr assume "v_hosts ?v h = Some hr"
  then show "host_open known (v_ids ?v) hr"
    using orderlyD(2) [OF v] by (auto simp: hosts_without_def split: option.splits if_splits)
next
  fix h res plan assume own: "v_own ?v h = Some (res, plan)"
  then have placed: "resource_placed v h res plan" using orderlyD(3) [OF v] by simp
  then obtain hr where "v_hosts v h = Some hr" by (auto simp: resource_placed_def)
  then have "host_claim_of hr \<noteq> i" using free own by fastforce
  with placed show "resource_placed ?v h res plan"
    using \<open>v_hosts v h = Some hr\<close> by (auto simp: resource_placed_def hosts_without_def split: option.splits if_splits)
qed

section \<open>How far a claim is from being settled\<close>

text \<open>
  The steps a claim still needs when nothing fails: a deleted claim loses its resource, then goes; an
  active one is given a host, has its resource made, or seen to be lost first, and the resource is
  recorded.
\<close>

definition stage :: "view \<Rightarrow> HostClaimRecord \<Rightarrow> nat" where
  "stage v r =
     (case (claim_deletion r, claim_host r) of
        (Some _, None) \<Rightarrow> 1
      | (Some _, Some h) \<Rightarrow> if v_own v h = None then 1 else 2
      | (None, None) \<Rightarrow> 3
      | (None, Some h) \<Rightarrow> (case (v_own v h, v_hosts v h) of
          (None, Some hr) \<Rightarrow> if host_provider_resource hr = None \<and> host_phase hr = Pending then 2 else 3
        | (Some (res, _), Some hr) \<Rightarrow> if provider_observation_is_stable hr res then 0 else 1
        | (_, None) \<Rightarrow> 0))"

definition rank :: "view \<Rightarrow> nat" where
  "rank v = (\<Sum>i \<in> dom (v_claims v). stage v (the (v_claims v i)))"

lemma stage_le: "stage v r \<le> 3"
  by (simp add: stage_def split: option.split prod.split)

lemma rank_le: "rank v \<le> 3 * card (dom (v_claims v))"
  using sum_bounded_above [of "dom (v_claims v)" "\<lambda>i. stage v (the (v_claims v i))" 3] stage_le
  by (simp add: rank_def mult.commute)

lemma stage_cong:
  assumes "\<And>h. claim_host r = Some h \<Longrightarrow> v_own v' h = v_own v h \<and> v_hosts v' h = v_hosts v h"
  shows "stage v' r = stage v r"
  using assms by (cases "claim_host r"; cases "claim_deletion r") (simp_all add: stage_def)

text \<open>Every host belongs to the claim that names it.\<close>

definition linked :: "view \<Rightarrow> bool" where
  "linked v \<longleftrightarrow> (\<forall>i r h. v_claims v i = Some r \<longrightarrow>
     (claim_host r = Some h \<longleftrightarrow> (\<exists>hr. v_hosts v h = Some hr \<and> host_claim_of hr = i)))"

lemma linkedD: "linked v \<Longrightarrow> v_claims v i = Some r \<Longrightarrow> claim_host r = Some h \<longleftrightarrow> (\<exists>hr. v_hosts v h = Some hr \<and> host_claim_of hr = i)"
  by (simp add: linked_def)

text \<open>What one claim's step leaves of the other claims, their hosts and resources.\<close>

definition apart :: "HostClaimId \<Rightarrow> view \<Rightarrow> view \<Rightarrow> bool" where
  "apart i v v' \<longleftrightarrow> (\<forall>j. j \<noteq> i \<longrightarrow> v_claims v' j = v_claims v j)
     \<and> (\<forall>j r h. j \<noteq> i \<longrightarrow> v_claims v j = Some r \<longrightarrow> claim_host r = Some h \<longrightarrow>
          v_own v' h = v_own v h \<and> v_hosts v' h = v_hosts v h)"

lemma apart_stage: "apart i v v' \<Longrightarrow> j \<noteq> i \<Longrightarrow> v_claims v j = Some r \<Longrightarrow> stage v' r = stage v r"
  by (intro stage_cong) (simp add: apart_def)

lemma apartI:
  assumes "linked v" and "\<And>j. j \<noteq> i \<Longrightarrow> v_claims v' j = v_claims v j"
    and "\<And>h hr. v_hosts v h = Some hr \<Longrightarrow> host_claim_of hr \<noteq> i \<Longrightarrow> v_own v' h = v_own v h \<and> v_hosts v' h = v_hosts v h"
  shows "apart i v v'"
  using assms(2,3) linkedD [OF assms(1)] by (auto simp: apart_def)

lemma rank_split:
  assumes "finite (dom (v_claims v))" and "v_claims v i = Some r"
  shows "rank v = stage v r + (\<Sum>j \<in> dom (v_claims v) - {i}. stage v (the (v_claims v j)))"
proof -
  have "i \<in> dom (v_claims v)" using assms(2) by blast
  from sum.remove [OF assms(1) this, of "\<lambda>j. stage v (the (v_claims v j))"] show ?thesis
    by (simp add: rank_def assms(2))
qed

lemma rank_change:
  assumes fin: "finite (dom (v_claims v))" and r: "v_claims v i = Some r" and apart: "apart i v v'"
  shows "v_claims v' i = Some r' \<Longrightarrow> rank v' + stage v r = rank v + stage v' r'"
    and "v_claims v' i = None \<Longrightarrow> rank v' + stage v r = rank v"
proof -
  have same: "(\<Sum>j \<in> dom (v_claims v') - {i}. stage v' (the (v_claims v' j)))
      = (\<Sum>j \<in> dom (v_claims v) - {i}. stage v (the (v_claims v j)))"
    using apart apart_stage [OF apart] by (intro sum.cong) (auto simp: apart_def)
  have dom: "dom (v_claims v') \<subseteq> insert i (dom (v_claims v))" using apart by (auto simp: apart_def)
  have fin': "finite (dom (v_claims v'))" by (rule finite_subset [OF dom]) (use fin in simp)
  show "rank v' + stage v r = rank v + stage v' r'" if "v_claims v' i = Some r'"
    using rank_split [OF fin r] rank_split [OF fin' that] same by simp
  show "rank v' + stage v r = rank v" if "v_claims v' i = None"
  proof -
    have "dom (v_claims v') - {i} = dom (v_claims v')" using that by auto
    then show ?thesis using rank_split [OF fin r] same by (simp add: rank_def)
  qed
qed

section \<open>What is wanted, and being settled\<close>

text \<open>The claims not being deleted, with what they ask for.\<close>

definition wanted :: "view \<Rightarrow> (HostClaimId \<times> HostClaimSpec) set" where
  "wanted v = {(i, hc_spec (cr_resource r)) | i r. v_claims v i = Some r \<and> claim_deletion r = None}"

text \<open>A claim is Ready on a Ready host that names the resource the provider holds for it.\<close>

definition ready_at :: "view \<Rightarrow> HostClaimId \<Rightarrow> bool" where
  "ready_at v i \<longleftrightarrow> (\<exists>r h hr res. v_claims v i = Some r \<and> claim_deletion r = None \<and> claim_host r = Some h
     \<and> map_option c_status (condition_at (claim_conditions r) ''Ready'') = Some StatusTrue
     \<and> v_hosts v h = Some hr \<and> host_phase hr = Ready \<and> provider_observation_is_stable hr res
     \<and> v_own v h = Some (res, hr_provider_plan_id hr))"

definition all_ready :: "view \<Rightarrow> bool" where
  "all_ready v \<longleftrightarrow> (\<forall>i \<in> dom (v_claims v). ready_at v i)"

lemma ready_stage: "ready_at v i \<Longrightarrow> v_claims v i = Some r \<Longrightarrow> stage v r = 0"
  by (auto simp: ready_at_def stage_def)

lemma all_ready_active: "all_ready v \<Longrightarrow> v_claims v i = Some r \<Longrightarrow> claim_deletion r = None"
  by (force simp: all_ready_def ready_at_def)

lemma all_ready_rank: "all_ready v \<Longrightarrow> rank v = 0"
  by (auto simp: all_ready_def rank_def intro!: sum.neutral ready_stage)

lemma ready_apart: "apart i v v' \<Longrightarrow> j \<noteq> i \<Longrightarrow> ready_at v j \<Longrightarrow> ready_at v' j"
  unfolding ready_at_def apart_def by metis

lemma wanted_change:
  assumes "apart i v v'" and "v_claims v i = Some r"
    and "v_claims v' i = None \<and> claim_deletion r \<noteq> None
      \<or> (\<exists>r'. v_claims v' i = Some r' \<and> claim_deletion r' = claim_deletion r
           \<and> hc_spec (cr_resource r') = hc_spec (cr_resource r))"
  shows "wanted v' = wanted v"
proof -
  have "(j, s) \<in> wanted v' \<longleftrightarrow> (j, s) \<in> wanted v" for j s
    using assms by (cases "j = i") (auto simp: apart_def wanted_def)
  then show ?thesis by auto
qed

section \<open>Records saved after a provider call\<close>

text \<open>
  The claim's and the host's copies are saved over \<open>v1\<close>, which is what the provider's call left of \<open>v\<close>.
\<close>

definition recorded :: "view \<Rightarrow> HostClaimId \<Rightarrow> HostClaimRecord \<Rightarrow> HostId \<Rightarrow> HostRecord \<Rightarrow> view" where
  "recorded v i r h hr = v\<lparr>v_hosts := (v_hosts v)(h \<mapsto> hr), v_claims := (v_claims v)(i \<mapsto> r)\<rparr>"

lemma recorded_sel [simp]:
  "v_claims (recorded v i r h hr) = (v_claims v)(i \<mapsto> r)" "v_hosts (recorded v i r h hr) = (v_hosts v)(h \<mapsto> hr)"
  "v_own (recorded v i r h hr) = v_own v" "v_ids (recorded v i r h hr) = v_ids v"
  by (simp_all add: recorded_def)

lemma recorded_kept:
  assumes v: "linked v" "finite (dom (v_claims v))" and r: "v_claims v i = Some r" "claim_host r = Some h"
    and hr: "v_hosts v h = Some hr"
    and v1: "orderly offers known v1" "v_claims v1 = v_claims v" "v_hosts v1 = v_hosts v"
      "\<And>h'. h' \<noteq> h \<Longrightarrow> v_own v1 h' = v_own v h'"
    and claim: "next_reconcile_at_unix_ms (cr_retry c) = None"
    and host: "next_reconcile_at_unix_ms (hr_retry g) = None" "host_phase g \<noteq> Failed"
      "host_provider_resource g = None
        \<or> (\<exists>res plan. v_own v1 h = Some (res, plan) \<and> host_provider_resource g = Some (pr_id res))"
  defines "v' \<equiv> recorded v1 i (with_status c r) h (with_host_status g hr)"
  shows "orderly offers known v'" and "apart i v v'" and "wanted v' = wanted v"
    and "rank v' + stage v r = rank v + stage v' (with_status c r)"
proof -
  have "orderly offers known (v1\<lparr>v_hosts := (v_hosts v1)(h \<mapsto> with_host_status g hr)\<rparr>)"
    by (rule orderly_host [OF v1(1) _ host]) (simp add: v1(3) hr)
  from orderly_claim [OF this _ claim, of i r] show "orderly offers known v'"
    by (simp add: v'_def recorded_def v1(2) r(1))
  have mine: "host_claim_of hr = i" using linkedD [OF v(1) r(1), of h] r(2) hr by auto
  show apart: "apart i v v'"
    by (rule apartI [OF v(1)]) (use v1 mine hr in \<open>auto simp: v'_def\<close>)
  show "wanted v' = wanted v" by (rule wanted_change [OF apart r(1)]) (simp add: v'_def)
  show "rank v' + stage v r = rank v + stage v' (with_status c r)"
    by (rule rank_change(1) [OF v(2) r(1) apart]) (simp add: v'_def)
qed

end
