(* ===== verification/Counting.thy ===== *)
theory Counting
  imports Controller_Facts
begin

text \<open>
  Effects are counted upwards: whatever a step of the controller does, it uses the readings of the
  clock and the generated identifiers one after the other and never one of them again.
\<close>

definition counts_up :: "('p, 'e, 'a) effect \<Rightarrow> bool" where
  "counts_up m \<longleftrightarrow> (\<forall>w. w_count w \<le> w_count (snd (m w)))"

named_theorems counts_intro \<open>effects that count upwards\<close>

lemma counts_upD: "counts_up m \<Longrightarrow> w_count w \<le> w_count (snd (m w))"
  by (simp add: counts_up_def)

lemma counts_and_then [counts_intro]:
  assumes "counts_up m" and "\<And>x. counts_up (f x)"
  shows "counts_up (and_then m f)"
  unfolding counts_up_def
proof
  fix w
  obtain r w' where run: "m w = (r, w')" by (rule prod.exhaust)
  then have "w_count w \<le> w_count w'" using counts_upD [OF assms(1), of w] by simp
  then show "w_count w \<le> w_count (snd (and_then m f w))"
    using counts_upD [OF assms(2)] run by (cases r) (auto simp: and_then_def intro: le_trans)
qed

lemma counts_if [counts_intro]: "counts_up m \<Longrightarrow> counts_up n \<Longrightarrow> counts_up (if b then m else n)"
  by simp

lemma counts_case [counts_intro]:
  "(\<And>e. counts_up (f e)) \<Longrightarrow> (\<And>x. counts_up (g x)) \<Longrightarrow> counts_up (case r of Inl e \<Rightarrow> f e | Inr x \<Rightarrow> g x)"
  "counts_up m \<Longrightarrow> (\<And>y. counts_up (h y)) \<Longrightarrow> counts_up (case v of None \<Rightarrow> m | Some y \<Rightarrow> h y)"
  "counts_up m \<Longrightarrow> (\<And>z. counts_up (k z)) \<Longrightarrow> counts_up (case obs of Absent \<Rightarrow> m | Present z \<Rightarrow> k z)"
  "(\<And>a b. counts_up (q a b)) \<Longrightarrow> counts_up (case p of (a, b) \<Rightarrow> q a b)"
  by (cases r, simp_all) (cases v, simp_all, cases obs, simp_all, cases p, simp_all)

lemma and_then_count:
  assumes "\<And>x. counts_up (f x)"
  shows "w_count (snd (m w)) \<le> w_count (snd (and_then m f w))"
  using counts_upD [OF assms] by (cases "m w") (auto simp: and_then_def split: sum.split)

section \<open>Requests\<close>

lemma handler_count:
  assumes "rpc_module name = Some handler"
  shows "w_count (snd (handler E io params w)) = w_count w"
proof -
  consider "handler = system_info" | "handler = host_claim_create" | "handler = host_claim_get"
    | "handler = host_claim_list" | "handler = host_claim_delete" | "handler = host_get" | "handler = host_list"
    using assms by (auto simp: rpc_module_def split: if_splits)
  then show ?thesis
    by cases
      (auto simp: host_claim_create_def host_claim_delete_def system_info_def host_claim_get_def host_claim_list_def
        host_get_def host_list_def parse_params_def lift_result_def map_oper_err_def on_db_def wake_def ok_def and_then_def
        split: sum.split prod.split)
qed

lemma serve_message_count: "w_count (snd (serve_message E io message w)) = w_count w"
  by (auto simp: serve_message_def handler_count split: rpc_message.split option.split prod.split)
    (metis handler_count snd_conv)

lemma serve_all_count: "w_count (serve_all E requests w) = w_count w"
  by (induction requests arbitrary: w) (auto simp: serve_all_def serve_message_count)

section \<open>The controller\<close>

lemma storage_call_count: "w_count (snd (storage_call E m w)) = Suc (w_count w)"
  by (simp add: storage_call_def Let_def on_db_def serve_all_count split: prod.split)

lemma counts_basic [counts_intro]:
  "counts_up (ok x)" "counts_up (now_timestamp E)" "counts_up (read_now_unix_ms E)" "counts_up wake"
  "counts_up (storage_call E m)" "counts_up (provider_call c)"
  by (simp_all add: counts_up_def now_timestamp_def read_now_unix_ms_def wake_def storage_call_count provider_call_def
      split: prod.split)

lemma counts_saves [counts_intro]:
  "counts_up (persist_claim_status E claim)" "counts_up (save_host_call E host)" "counts_up (save_both E both result)"
  unfolding persist_claim_status_def save_host_call_def save_both_def by (intro counts_intro)+

lemma counts_unbound [counts_intro]: "counts_up (reconcile_unbound_claim E P claim now_ms)"
proof -
  have saved: "counts_up (\<lambda>w. case storage_call E m w of
      (Inr host, w') \<Rightarrow> (Inr Progress, w')
    | (Inl (Conflict ty i msg), w') \<Rightarrow> and_then wake (\<lambda>_. ok Idle) w'
    | (Inl (NotFound ty i), w') \<Rightarrow> and_then wake (\<lambda>_. ok Idle) w'
    | (Inl error, w') \<Rightarrow> (Inl error, w'))" for m :: "io \<Rightarrow> HostRecord db_oper"
    unfolding counts_up_def
  proof (rule allI, goal_cases)
    case (1 w)
    then show ?case
      using storage_call_count [of E m w]
      by (cases "storage_call E m w") (auto simp: and_then_def wake_def ok_def split: sum.split AppError.split)
  qed
  show ?thesis
    unfolding reconcile_unbound_claim_def Let_def by (intro counts_intro saved)
qed

lemma counts_claim [counts_intro]:
  "counts_up (reconcile_host E P claim host now_ms)"
  "counts_up (reconcile_active_claim E P now_ms claim)"
  "counts_up (reconcile_deleting_claim E P claim now_ms)"
  unfolding reconcile_host_def reconcile_active_claim_def reconcile_deleting_claim_def Let_def by (intro counts_intro)+

lemma counts_loops [counts_intro]:
  "counts_up (reconcile_deletions E P now_ms claims)" "counts_up (reconcile_active E P now_ms claims)"
  by (induction claims) (simp_all add: counts_intro)

lemma counts_once [counts_intro]: "counts_up (reconcile_once E P)"
  unfolding reconcile_once_def by (intro counts_intro)

lemma reconcile_steps_count: "w_count w \<le> w_count (snd (reconcile_steps E P fuel w))"
proof (induction fuel arbitrary: w)
  case (Suc fuel)
  obtain r w' where run: "reconcile_once E P w = (r, w')" by (rule prod.exhaust)
  have "w_count w \<le> w_count w'" using counts_upD [OF counts_once, of w E P] run by simp
  then show ?case
    using run Suc.IH [of w'] by (auto split: sum.split ReconcileResult.split)
qed simp

lemma steps_count_first: "w_count (snd (reconcile_once E P w)) \<le> w_count (snd (reconcile_steps E P (Suc fuel) w))"
  using reconcile_steps_count [of _ E P fuel]
  by (cases "reconcile_once E P w") (auto split: sum.split ReconcileResult.split)

lemma reconcile_wake_counts: "w_count (reconcile_wake E P w) = w_count (snd (reconcile_steps E P MAX_STEPS_PER_WAKE w))"
  by (cases "reconcile_steps E P MAX_STEPS_PER_WAKE w") (simp add: reconcile_wake_def)

lemma reconcile_wake_count: "w_count w \<le> w_count (reconcile_wake E P w)"
  by (simp add: reconcile_wake_counts reconcile_steps_count)

section \<open>How many effects a step takes\<close>

definition uses :: "nat \<Rightarrow> ('p, 'e, 'a) effect \<Rightarrow> bool" where
  "uses k m \<longleftrightarrow> (\<forall>w. w_count (snd (m w)) \<le> w_count w + k)"

named_theorems uses_intro \<open>effects that take at most so many\<close>

lemma usesD: "uses k m \<Longrightarrow> w_count (snd (m w)) \<le> w_count w + k"
  by (simp add: uses_def)

lemma uses_weaken: "uses j m \<Longrightarrow> j \<le> k \<Longrightarrow> uses k m"
  unfolding uses_def by (meson add_left_mono order_trans)

lemma uses_and_then [uses_intro]:
  assumes "uses j m" and "\<And>x. uses k (f x)"
  shows "uses (j + k) (and_then m f)"
  unfolding uses_def
proof
  fix w
  obtain r w' where run: "m w = (r, w')" by (rule prod.exhaust)
  then have "w_count w' \<le> w_count w + j" using usesD [OF assms(1), of w] by simp
  moreover have "w_count (snd (f x w')) \<le> w_count w' + k" for x by (rule usesD [OF assms(2)])
  ultimately show "w_count (snd (and_then m f w)) \<le> w_count w + (j + k)"
    using run by (cases r) (auto simp: and_then_def add.assoc [symmetric] intro: order_trans add_right_mono)
qed

lemma uses_max: "uses j m \<or> uses k m \<Longrightarrow> uses (max j k) m"
  by (auto intro: uses_weaken)

lemma uses_if [uses_intro]: "uses j m \<Longrightarrow> uses k n \<Longrightarrow> uses (max j k) (if b then m else n)"
  by (simp add: uses_max)

lemma uses_case [uses_intro]:
  "(\<And>e. uses i (f e)) \<Longrightarrow> (\<And>x. uses j (g x)) \<Longrightarrow> uses (max i j) (case r of Inl e \<Rightarrow> f e | Inr x \<Rightarrow> g x)"
  "uses i m \<Longrightarrow> (\<And>y. uses j (h y)) \<Longrightarrow> uses (max i j) (case v of None \<Rightarrow> m | Some y \<Rightarrow> h y)"
  "uses i m \<Longrightarrow> (\<And>z. uses j (k z)) \<Longrightarrow> uses (max i j) (case obs of Absent \<Rightarrow> m | Present z \<Rightarrow> k z)"
  "(\<And>a b. uses i (q a b)) \<Longrightarrow> uses i (case p of (a, b) \<Rightarrow> q a b)"
  by (auto intro!: uses_max split: sum.split option.split ProviderObservation.split prod.split)

lemma uses_basic [uses_intro]:
  "uses 0 (ok x)" "uses 1 (now_timestamp E)" "uses 1 (read_now_unix_ms E)" "uses 0 wake"
  "uses 1 (storage_call E m)" "uses 0 (provider_call c)"
  by (simp_all add: uses_def ok_def now_timestamp_def read_now_unix_ms_def wake_def storage_call_count provider_call_def
      split: prod.split)

lemma uses_saves [uses_intro]:
  "uses 1 (persist_claim_status E claim)" "uses 1 (save_host_call E host)" "uses 2 (save_both E both result)"
  unfolding persist_claim_status_def save_host_call_def save_both_def
  by - (rule uses_weaken, (rule uses_intro)+, simp)+

lemma uses_unbound [uses_intro]: "uses 2 (reconcile_unbound_claim E P claim now_ms)"
proof -
  have saved: "uses 1 (\<lambda>w. case storage_call E m w of
      (Inr host, w') \<Rightarrow> (Inr Progress, w')
    | (Inl (Conflict ty i msg), w') \<Rightarrow> and_then wake (\<lambda>_. ok Idle) w'
    | (Inl (NotFound ty i), w') \<Rightarrow> and_then wake (\<lambda>_. ok Idle) w'
    | (Inl error, w') \<Rightarrow> (Inl error, w'))" for m :: "io \<Rightarrow> HostRecord db_oper"
    unfolding uses_def
  proof (rule allI, goal_cases)
    case (1 w)
    then show ?case
      using storage_call_count [of E m w]
      by (cases "storage_call E m w") (auto simp: and_then_def wake_def ok_def split: sum.split AppError.split)
  qed
  show ?thesis
    unfolding reconcile_unbound_claim_def Let_def by (rule uses_weaken, (rule uses_intro saved)+, simp)
qed

lemma uses_claim [uses_intro]:
  "uses 4 (reconcile_host E P claim host now_ms)"
  "uses 4 (reconcile_deleting_claim E P claim now_ms)"
  unfolding reconcile_host_def reconcile_deleting_claim_def Let_def
  by - (rule uses_weaken, (rule uses_intro)+, simp)+

lemma uses_active [uses_intro]: "uses 5 (reconcile_active_claim E P now_ms claim)"
  unfolding reconcile_active_claim_def by (rule uses_weaken, (rule uses_intro)+, simp)

lemma uses_loops:
  "uses (4 * length claims) (reconcile_deletions E P now_ms claims)"
  "uses (5 * length claims) (reconcile_active E P now_ms claims)"
proof (induction claims)
  case (Cons claim claims)
  { case 1 show ?case
      by (simp only: reconcile_deletions.simps) (rule uses_weaken, (rule uses_intro Cons.IH(1))+, simp) }
  { case 2 show ?case
      by (simp only: reconcile_active.simps) (rule uses_weaken, (rule uses_intro Cons.IH(2))+, simp) }
qed (simp_all add: uses_def ok_def)

text \<open>The effects of a wake that finds so many claims, at most.\<close>

definition wake_effects :: "nat \<Rightarrow> nat" where
  "wake_effects claims = MAX_STEPS_PER_WAKE * (2 + 9 * claims)"

lemma wake_effects_mono: "n \<le> m \<Longrightarrow> wake_effects n \<le> wake_effects m"
  by (simp add: wake_effects_def)

end
