(* ===== verification/Settling_Steps.thy ===== *)
theory Settling_Steps
  imports Settling Counting
begin

text \<open>
  A step of the controller in a quiet environment, with a provider that answers: whatever claims there
  are, each step that makes progress brings one of them nearer to being settled and disturbs no other,
  and a step that finds nothing to do leaves every claim Ready.
\<close>

section \<open>The provider\<close>

text \<open>
  A provider that answers: \<open>own\<close> is what it holds for each host, \<open>issued\<close> the identifiers it has given
  to resources, \<open>offers\<close> the requests some plan suffices for, \<open>known\<close> the plans it creates from.
\<close>

definition alike :: "('p \<Rightarrow> bool) \<Rightarrow> ('p \<Rightarrow> HostId \<Rightarrow> (ProviderResource \<times> string) option) \<Rightarrow> ('p \<Rightarrow> string set)
    \<Rightarrow> (HostId \<Rightarrow> (ProviderResource \<times> string) option) \<Rightarrow> 'p \<Rightarrow> 'p \<Rightarrow> bool" where
  "alike live own issued o' p p' \<longleftrightarrow> live p' \<and> own p' = o' \<and> issued p \<subseteq> issued p'"

locale responsive_provider =
  fixes P :: "'p host_provider"
    and own :: "'p \<Rightarrow> HostId \<Rightarrow> (ProviderResource \<times> string) option"
    and live :: "'p \<Rightarrow> bool"
    and issued :: "'p \<Rightarrow> string set"
    and offers :: "HostResources \<Rightarrow> bool"
    and known :: "string \<Rightarrow> bool"
  assumes observes: "live p \<Longrightarrow> \<exists>p'. observe P h p =
      (Inr (case own p h of None \<Rightarrow> Absent | Some (res, _) \<Rightarrow> Present res), p') \<and> alike live own issued (own p) p p'"
    and selects: "live p \<Longrightarrow> offers req \<Longrightarrow> \<exists>plan p'. select_plan P req p = (Inr (Some plan), p')
      \<and> resources_fit (plan_resources plan) \<and> plan_id plan \<noteq> [] \<and> known (plan_id plan) \<and> alike live own issued (own p) p p'"
    and creates: "live p \<Longrightarrow> known plan \<Longrightarrow> own p h = None \<Longrightarrow> \<exists>res p'. create_resource P h plan p = (Inr (Created res), p')
      \<and> pr_lifecycle res = LifecycleReady \<and> pr_id res \<in> issued p' - issued p
      \<and> alike live own issued ((own p)(h \<mapsto> (res, plan))) p p'"
    and deletes: "live p \<Longrightarrow> \<exists>p'. delete_resource P h p = (Inr Deleted, p')
      \<and> alike live own issued ((own p)(h := None)) p p'"

section \<open>The world of a step\<close>

definition view_of :: "environment \<Rightarrow> ('p \<Rightarrow> HostId \<Rightarrow> (ProviderResource \<times> string) option) \<Rightarrow> ('p \<Rightarrow> string set) \<Rightarrow> 'p world \<Rightarrow> view" where
  "view_of E own issued w = \<lparr>v_claims = claim_view (e_codec E) (w_db w), v_hosts = host_view (e_codec E) (w_db w),
     v_own = own (w_provider w), v_ids = issued (w_provider w)\<rparr>"

lemma view_of_sel [simp]:
  "v_claims (view_of E own issued w) = claim_view (e_codec E) (w_db w)"
  "v_hosts (view_of E own issued w) = host_view (e_codec E) (w_db w)"
  "v_own (view_of E own issued w) = own (w_provider w)" "v_ids (view_of E own issued w) = issued (w_provider w)"
  by (simp_all add: view_of_def)

lemma view_held:
  "holds E w cs hs \<Longrightarrow> view_of E own issued w =
     \<lparr>v_claims = cs, v_hosts = hs, v_own = own (w_provider w), v_ids = issued (w_provider w)\<rparr>"
  by (simp add: view_of_def holdsD)

text \<open>
  The identifiers to be generated for hosts, in the effects before \<open>limit\<close>, differ from each other and
  from those in use: what UUIDs are for. Being 128 bits wide they cannot do so for ever.
\<close>

definition new_ids :: "environment \<Rightarrow> nat \<Rightarrow> 'p world \<Rightarrow> host_map \<Rightarrow> bool" where
  "new_ids E limit w hs \<longleftrightarrow> inj_on (e_new_host_id E) {..<limit}
     \<and> (\<forall>n. w_count w \<le> n \<longrightarrow> n < limit \<longrightarrow> hs (e_new_host_id E n) = None)"

definition settling ::
  "environment \<Rightarrow> nat \<Rightarrow> ('p \<Rightarrow> HostId \<Rightarrow> (ProviderResource \<times> string) option) \<Rightarrow> ('p \<Rightarrow> bool) \<Rightarrow> ('p \<Rightarrow> string set)
    \<Rightarrow> (HostResources \<Rightarrow> bool) \<Rightarrow> (string \<Rightarrow> bool) \<Rightarrow> 'p world \<Rightarrow> bool" where
  "settling E limit own live issued offers known w \<longleftrightarrow> quiet E \<and> db_fine E w \<and> live (w_provider w)
     \<and> orderly offers known (view_of E own issued w) \<and> new_ids E limit w (host_view (e_codec E) (w_db w))"

lemma held_linked: "quiet E \<Longrightarrow> db_fine E w \<Longrightarrow> linked (view_of E own issued w)"
  unfolding linked_def view_of_sel by (intro allI impI) (rule held_host_of_claim [OF _ holds_views])

lemma held_finite:
  assumes "quiet E" and "db_fine E w"
  shows "finite (dom (v_claims (view_of E own issued w)))"
proof -
  obtain rs where rs: "\<And>x. x \<in> set rs \<longleftrightarrow> claim_view (e_codec E) (w_db w) (claim_id_of x) = Some x"
    by (rule quiet_list_claims [OF assms(1) holds_views [OF assms(2)]]) blast
  have "i \<in> claim_id_of ` set rs" if "claim_view (e_codec E) (w_db w) i = Some r" for i r
    using rs [of r] held_claim(1) [OF assms(1) holds_views [OF assms(2)] that] that by auto
  then have "dom (v_claims (view_of E own issued w)) \<subseteq> claim_id_of ` set rs" by auto
  then show ?thesis by (rule finite_subset) simp
qed

text \<open>How a step on claim \<open>i\<close> changes the view, by its result.\<close>

definition step_done :: "HostClaimId \<Rightarrow> ReconcileResult \<Rightarrow> view \<Rightarrow> view \<Rightarrow> bool" where
  "step_done i result v v' \<longleftrightarrow> apart i v v' \<and> wanted v' = wanted v
     \<and> (case result of Progress \<Rightarrow> rank v' < rank v | Idle \<Rightarrow> ready_at v' i)"

text \<open>The new world is fine again when its view is in order.\<close>

lemma settlingI:
  assumes "quiet E" and "holds E w' cs hs" and "live (w_provider w')"
    and "orderly offers known \<lparr>v_claims = cs, v_hosts = hs, v_own = own (w_provider w'), v_ids = issued (w_provider w')\<rparr>"
    and "new_ids E limit w' hs"
  shows "settling E limit own live issued offers known w'"
  using assms by (simp add: settling_def view_held holdsD)

lemma new_ids_kept: "new_ids E limit w hs \<Longrightarrow> w_count w \<le> w_count w' \<Longrightarrow> dom hs' \<subseteq> dom hs \<Longrightarrow> new_ids E limit w' hs'"
  by (fastforce simp: new_ids_def domIff)

text \<open>A step on claim \<open>i\<close> that ends without an error and as wanted, within the limit.\<close>

definition goes ::
  "environment \<Rightarrow> nat \<Rightarrow> ('p \<Rightarrow> HostId \<Rightarrow> (ProviderResource \<times> string) option) \<Rightarrow> ('p \<Rightarrow> bool) \<Rightarrow> ('p \<Rightarrow> string set)
    \<Rightarrow> (HostResources \<Rightarrow> bool) \<Rightarrow> (string \<Rightarrow> bool) \<Rightarrow> HostClaimId \<Rightarrow> 'p world
    \<Rightarrow> (AppError + ReconcileResult) \<times> 'p world \<Rightarrow> bool" where
  "goes E limit own live issued offers known i w done_as \<longleftrightarrow> w_count (snd done_as) \<le> limit \<longrightarrow> (\<exists>result w'. done_as = (Inr result, w')
     \<and> settling E limit own live issued offers known w' \<and> w_notified w' = w_notified w
     \<and> step_done i result (view_of E own issued w) (view_of E own issued w'))"

lemma settlingD:
  assumes "settling E limit own live issued offers known w"
  shows "quiet E" "db_fine E w" "live (w_provider w)" "orderly offers known (view_of E own issued w)"
    "new_ids E limit w (host_view (e_codec E) (w_db w))" "linked (view_of E own issued w)"
    "finite (dom (v_claims (view_of E own issued w)))"
    "holds E w (claim_view (e_codec E) (w_db w)) (host_view (e_codec E) (w_db w))"
  using assms by (simp_all add: settling_def held_linked held_finite holds_views del: view_of_sel)

section \<open>A claim with a host\<close>

context responsive_provider begin

lemma observed_call:
  assumes "live (w_provider w)"
  obtains p where "provider_call (observe P h) w =
      (Inr (Inr (case own (w_provider w) h of None \<Rightarrow> Absent | Some (res, _) \<Rightarrow> Present res)), w\<lparr>w_provider := p\<rparr>)"
    and "live p" and "own p = own (w_provider w)" and "issued (w_provider w) \<subseteq> issued p"
  using observes [OF assms, of h] by (auto simp: provider_call_def alike_def)

text \<open>
  Both copies are saved after a provider call that left \<open>v1\<close> and the provider \<open>p\<close>: the claim has moved
  from its stage to that of the new records.
\<close>

lemma both_saved:
  assumes S: "settling E limit own live issued offers known w"
    and r: "claim_view (e_codec E) (w_db w) i = Some r" "claim_host r = Some h" "claim_deletion r = None"
    and hr: "host_view (e_codec E) (w_db w) h = Some hr"
    and w1: "holds E w1 (claim_view (e_codec E) (w_db w)) ((host_view (e_codec E) (w_db w))(h \<mapsto> hr1))" "live (w_provider w1)"
      "w_notified w1 = w_notified w" "w_count w \<le> w_count w1" "\<And>c. with_host_status c hr1 = with_host_status c hr"
    and v1: "orderly offers known ((view_of E own issued w)\<lparr>v_own := own (w_provider w1), v_ids := issued (w_provider w1)\<rparr>)"
      "\<And>h'. h' \<noteq> h \<Longrightarrow> own (w_provider w1) h' = own (w_provider w) h'"
    and claim: "\<And>now. same_claim r (fst (both now))" "\<And>now. next_reconcile_at_unix_ms (cr_retry (fst (both now))) = None"
      "\<And>now. uint (hcs_observed_generation (hc_status (cr_resource (fst (both now))))) \<le> i64_max"
      "\<And>now. claim_deletion (fst (both now)) = None"
    and host: "\<And>now. same_host hr (snd (both now))" "\<And>now. next_reconcile_at_unix_ms (hr_retry (snd (both now))) = None"
      "\<And>now. host_phase (snd (both now)) \<noteq> Failed"
      "\<And>now. host_provider_resource (snd (both now)) = None
        \<or> (\<exists>res plan. own (w_provider w1) h = Some (res, plan) \<and> host_provider_resource (snd (both now)) = Some (pr_id res))"
    and moved: "\<And>now v'. v' = recorded ((view_of E own issued w)\<lparr>v_own := own (w_provider w1), v_ids := issued (w_provider w1)\<rparr>)
        i (with_status (fst (both now)) r) h (with_host_status (snd (both now)) hr) \<Longrightarrow>
      (case result of Progress \<Rightarrow> stage v' (with_status (fst (both now)) r) < stage (view_of E own issued w) r | Idle \<Rightarrow> ready_at v' i)"
  shows "goes E limit own live issued offers known i w (and_then (now_timestamp E) (\<lambda>now. save_both E (both now) result) w1)"
proof -
  let ?v = "view_of E own issued w" and ?cs = "claim_view (e_codec E) (w_db w)" and ?hs = "host_view (e_codec E) (w_db w)"
  let ?v1 = "?v\<lparr>v_own := own (w_provider w1), v_ids := issued (w_provider w1)\<rparr>"
  note S' = settlingD [OF S]
  have id: "host_id_of hr = h" by (rule held_host [OF S'(1,8) hr])
  have mine: "claim_id_of r = i" by (rule held_claim(1) [OF S'(1,8) r(1)])
  have free: "host_provider_resource hr' \<noteq> host_provider_resource (snd (both now))"
    if "(?hs(h \<mapsto> hr1)) h' = Some hr'" "h' \<noteq> h" "host_provider_resource (snd (both now)) \<noteq> None" for now h' hr'
    using host(4) [of now] orderlyD(3) [OF v1(1), of h] that by (fastforce simp: resource_placed_def)
  have ids: "host_id_of (snd (both now)) = h" "claim_id_of (fst (both now)) = i" "claim_deletion (fst (both now)) = claim_deletion r" for now
    using claim(1,4) host(1) id mine r(3) by (simp_all add: same_claim_def same_host_def)
  obtain w' now where w': "and_then (now_timestamp E) (\<lambda>now. save_both E (both now) result) w1 = (Inr result, w')"
      "holds E w' (?cs(i \<mapsto> with_status (fst (both now)) r)) (?hs(h \<mapsto> hr1, h \<mapsto> with_host_status (snd (both now)) hr1))"
      "counted w1 w'"
    by (rule quiet_saved_now [OF S'(1) w1(1), where both = both and result = result and i = i and r = r and h = h and hr = hr1],
        simp, rule r(1), rule ids(1), erule (2) free, rule ids(2), rule ids(3), rule claim(3))
  let ?v' = "recorded ?v1 i (with_status (fst (both now)) r) h (with_host_status (snd (both now)) hr)"
  have kept: "orderly offers known ?v'" "apart i ?v ?v'" "wanted ?v' = wanted ?v"
    "rank ?v' + stage ?v r = rank ?v + stage ?v' (with_status (fst (both now)) r)"
    by (rule recorded_kept [OF S'(6,7) _ r(2) _ v1(1)]; use r(1) hr v1(2) claim host in simp)+
  have view: "view_of E own issued w' = ?v'"
    using view_held [OF w'(2), of own issued] countedD(1) [OF w'(3)] w1(5) by (simp add: recorded_def view_of_def)
  have "settling E limit own live issued offers known w'"
  proof (rule settlingI [OF S'(1) w'(2)])
    show "live (w_provider w')" using w1(2) countedD(1) [OF w'(3)] by simp
    show "new_ids E limit w' (?hs(h \<mapsto> hr1, h \<mapsto> with_host_status (snd (both now)) hr1))"
      by (rule new_ids_kept [OF S'(5)]) (use w1(4) countedD(3) [OF w'(3)] hr in auto)
  qed (use kept(1) view view_held [OF w'(2), of own issued] in simp)
  moreover have "step_done i result ?v ?v'"
    using kept(2-4) moved [OF refl, of now] by (cases result) (auto simp: step_done_def)
  ultimately show ?thesis
    using w'(1) view w1(3) countedD(2) [OF w'(3)] by (auto simp: goes_def)
qed

lemma claim_numbers:
  assumes "settling E limit own live issued offers known w" and "claim_view (e_codec E) (w_db w) i = Some r"
  shows "uint (hc_generation (cr_resource r)) \<le> i64_max" "uint (hcs_observed_generation (hc_status (cr_resource r))) \<le> i64_max"
  using held_claim(2) [OF settlingD(1,8) [OF assms(1)] assms(2)] by (simp_all add: claim_fits_def)

text \<open>The provider holds the host's resource: it is recorded, and nothing is left to do if it was.\<close>

lemma adopt_goes:
  assumes S: "settling E limit own live issued offers known w"
    and r: "claim_view (e_codec E) (w_db w) i = Some r" "claim_host r = Some h" "claim_deletion r = None"
    and hr: "host_view (e_codec E) (w_db w) h = Some hr" and owned: "own (w_provider w) h = Some (res, plan)"
  shows "goes E limit own live issued offers known i w (reconcile_host E P r hr now_ms w)"
proof -
  let ?v = "view_of E own issued w"
  note S' = settlingD [OF S]
  have id: "host_id_of hr = h" by (rule held_host [OF S'(1,8) hr])
  have placed: "resource_placed ?v h res plan" by (rule orderlyD(3) [OF S'(4)]) (simp add: owned)
  then have ready: "pr_lifecycle res = LifecycleReady" and named: "host_provider_resource hr \<in> {None, Some (pr_id res)}"
    and plan: "hr_provider_plan_id hr = plan"
    using hr by (auto simp: resource_placed_def)
  have agrees: "ownership_conflict hr res = None" using named by (auto simp: ownership_conflict_def)
  obtain p where p: "provider_call (observe P h) w = (Inr (Inr (Present res)), w\<lparr>w_provider := p\<rparr>)"
      "live p" "own p = own (w_provider w)" "issued (w_provider w) \<subseteq> issued p"
    by (rule observed_call [OF S'(3), of h]) (simp add: owned)
  let ?w1 = "w\<lparr>w_provider := p\<rparr>" and ?result = "if provider_observation_is_stable hr res then Idle else Progress"
  let ?both = "\<lambda>now. apply_provider_observation (e_codec E) now r hr res"
  have "orderly offers known (?v\<lparr>v_ids := issued p\<rparr>)" by (rule orderly_ids [OF S'(4)]) (simp add: p(4))
  moreover have "?v\<lparr>v_own := own (w_provider ?w1), v_ids := issued (w_provider ?w1)\<rparr> = ?v\<lparr>v_ids := issued p\<rparr>"
    by (simp add: p(3) view_of_def)
  ultimately have v1: "orderly offers known (?v\<lparr>v_own := own (w_provider ?w1), v_ids := issued (w_provider ?w1)\<rparr>)" by simp
  have "goes E limit own live issued offers known i w (and_then (now_timestamp E) (\<lambda>now. save_both E (?both now) ?result) ?w1)"
  proof (rule both_saved [OF S r hr _ _ _ _ _ v1, where ?hr1.0 = hr])
    fix now v'
    assume v': "v' = recorded (?v\<lparr>v_own := own (w_provider ?w1), v_ids := issued (w_provider ?w1)\<rparr>) i
      (with_status (fst (?both now)) r) h (with_host_status (snd (?both now)) hr)"
    have "provider_observation_is_stable (with_host_status (snd (?both now)) hr) res"
      using observation_then_stable [of "e_codec E" now r hr res] by (simp add: provider_observation_is_stable_def)
    then have "ready_at v' i"
      using ready plan owned r apply_provider_observation_host(1) [OF refl, of "e_codec E" now r hr res]
        apply_provider_observation_conditions(1) [OF refl refl, of "e_codec E" now r hr res]
      by (simp add: ready_at_def v' p(3) expected_phase_def)
    moreover have "stage ?v r = 1" if "\<not> provider_observation_is_stable hr res"
      using that r(2,3) hr owned by (simp add: stage_def)
    ultimately show "case ?result of Progress \<Rightarrow> stage v' (with_status (fst (?both now)) r) < stage ?v r | Idle \<Rightarrow> ready_at v' i"
      using ready_stage [of v' i "with_status (fst (?both now)) r"] by (simp add: v')
  qed (use S'(8) p r(1,3) hr owned claim_numbers [OF S r(1)] in
      \<open>simp_all add: transitions_same_claim transitions_same_host apply_provider_observation_host [OF refl]
        apply_provider_observation_claim [OF refl] default_retry_def expected_phase_def ready fun_upd_idem\<close>)
  moreover have "reconcile_host E P r hr now_ms w = and_then (now_timestamp E) (\<lambda>now. save_both E (?both now) ?result) ?w1"
    by (simp add: reconcile_host_def id and_then_def [of "provider_call _"] p(1) agrees)
  ultimately show ?thesis by simp
qed

text \<open>The provider holds nothing for a host that was provisioned, or being so: it is Pending again.\<close>

lemma lost_goes:
  assumes S: "settling E limit own live issued offers known w"
    and r: "claim_view (e_codec E) (w_db w) i = Some r" "claim_host r = Some h" "claim_deletion r = None"
    and hr: "host_view (e_codec E) (w_db w) h = Some hr" and owned: "own (w_provider w) h = None"
    and stale: "host_provider_resource hr \<noteq> None \<or> host_phase hr \<noteq> Pending"
  shows "goes E limit own live issued offers known i w (reconcile_host E P r hr now_ms w)"
proof -
  let ?v = "view_of E own issued w"
  note S' = settlingD [OF S]
  have id: "host_id_of hr = h" by (rule held_host [OF S'(1,8) hr])
  obtain p where p: "provider_call (observe P h) w = (Inr (Inr Absent), w\<lparr>w_provider := p\<rparr>)"
      "live p" "own p = own (w_provider w)" "issued (w_provider w) \<subseteq> issued p"
    by (rule observed_call [OF S'(3), of h]) (simp add: owned)
  let ?w1 = "w\<lparr>w_provider := p\<rparr>" and ?both = "\<lambda>now. mark_provider_absent now r hr"
  have "orderly offers known (?v\<lparr>v_ids := issued p\<rparr>)" by (rule orderly_ids [OF S'(4)]) (simp add: p(4))
  then have v1: "orderly offers known (?v\<lparr>v_own := own (w_provider ?w1), v_ids := issued (w_provider ?w1)\<rparr>)"
    by (simp add: p(3) view_of_def)
  have retry: "next_reconcile_at_unix_ms (cr_retry r) = None"
    using orderlyD(1) [OF S'(4), of i r] r(1) by (simp add: claim_open_def)
  have "goes E limit own live issued offers known i w (and_then (now_timestamp E) (\<lambda>now. save_both E (?both now) Progress) ?w1)"
  proof (rule both_saved [OF S r hr _ _ _ _ _ v1, where ?hr1.0 = hr])
    fix now v'
    assume v': "v' = recorded (?v\<lparr>v_own := own (w_provider ?w1), v_ids := issued (w_provider ?w1)\<rparr>) i
      (with_status (fst (?both now)) r) h (with_host_status (snd (?both now)) hr)"
    have "stage ?v r = 3" using stale owned r(2,3) hr by (auto simp: stage_def)
    moreover have "stage v' (with_status (fst (?both now)) r) = 2"
      using owned r(2,3) by (simp add: stage_def v' p(3) mark_provider_absent_def edit_defs)
    ultimately show "case Progress of Progress \<Rightarrow> stage v' (with_status (fst (?both now)) r) < stage ?v r | Idle \<Rightarrow> ready_at v' i"
      by simp
  next
    show "same_claim r (fst (?both now))" for now by (rule transitions_same_claim(2))
  next
    show "same_host hr (snd (?both now))" for now by (rule transitions_same_host(2))
  qed (use S'(8) p r(1,3) hr owned retry claim_numbers [OF S r(1)] in
      \<open>simp_all add: mark_provider_absent_def edit_defs default_retry_def fun_upd_idem\<close>)
  moreover have "reconcile_host E P r hr now_ms w = and_then (now_timestamp E) (\<lambda>now. save_both E (?both now) Progress) ?w1"
    using stale by (simp add: reconcile_host_def id and_then_def [of "provider_call _"] p(1))
  ultimately show ?thesis by simp
qed

text \<open>The provider holds nothing for a Pending host: its resource is created and recorded.\<close>

lemma create_goes:
  assumes S: "settling E limit own live issued offers known w"
    and r: "claim_view (e_codec E) (w_db w) i = Some r" "claim_host r = Some h" "claim_deletion r = None"
    and hr: "host_view (e_codec E) (w_db w) h = Some hr" and owned: "own (w_provider w) h = None"
    and pending: "host_provider_resource hr = None" "host_phase hr = Pending"
  shows "goes E limit own live issued offers known i w (reconcile_host E P r hr now_ms w)"
proof -
  let ?v = "view_of E own issued w" and ?cs = "claim_view (e_codec E) (w_db w)" and ?hs = "host_view (e_codec E) (w_db w)"
  note S' = settlingD [OF S]
  have id: "host_id_of hr = h" by (rule held_host [OF S'(1,8) hr])
  have known: "known (hr_provider_plan_id hr)" using orderlyD(2) [OF S'(4), of h hr] hr by (simp add: host_open_def)
  let ?host1 = "(set_host_phase Provisioning hr)\<lparr>hr_retry := default_retry\<rparr>"
  have host1: "host_id_of ?host1 = h" "hr_provider_plan_id ?host1 = hr_provider_plan_id hr" "same_host hr ?host1"
      "host_provider_resource ?host1 = None"
    by (simp_all add: set_host_phase_def id same_host_def pending)
  obtain p where p: "provider_call (observe P h) w = (Inr (Inr Absent), w\<lparr>w_provider := p\<rparr>)"
      "live p" "own p = own (w_provider w)" "issued (w_provider w) \<subseteq> issued p"
    by (rule observed_call [OF S'(3), of h]) (simp add: owned)
  have held: "holds E (w\<lparr>w_provider := p\<rparr>) ?cs ?hs" using S'(8) by simp
  obtain w2 where w2: "save_host_call E ?host1 (w\<lparr>w_provider := p\<rparr>) = (Inr (), w2)"
      "holds E w2 ?cs (?hs(h \<mapsto> with_host_status ?host1 hr))" "counted (w\<lparr>w_provider := p\<rparr>) w2"
    by (rule quiet_save_host [OF S'(1) held hr host1(1)]) (use host1(4) in simp_all)
  have "w_provider w2 = p" using countedD(1) [OF w2(3)] by simp
  then obtain res p' where created: "provider_call (create_resource P h (hr_provider_plan_id hr)) w2
        = (Inr (Inr (Created res)), w2\<lparr>w_provider := p'\<rparr>)"
      "pr_lifecycle res = LifecycleReady" "pr_id res \<in> issued p' - issued p" "live p'"
      "own p' = (own p)(h \<mapsto> (res, hr_provider_plan_id hr))" "issued p \<subseteq> issued p'"
    using creates [OF p(2) known, of h] owned p(3) by (auto simp: provider_call_def alike_def)
  let ?w3 = "w2\<lparr>w_provider := p'\<rparr>" and ?both = "\<lambda>now. apply_provider_observation (e_codec E) now r ?host1 res"
  have new: "own p' = (v_own ?v)(h \<mapsto> (res, hr_provider_plan_id hr))" "pr_id res \<notin> v_ids ?v" "v_ids ?v \<subseteq> issued p'"
    using created(3,5,6) p(3,4) by auto
  have "orderly offers known (?v\<lparr>v_own := (v_own ?v)(h \<mapsto> (res, hr_provider_plan_id hr)), v_ids := issued p'\<rparr>)"
    by (rule orderly_created [OF S'(4) _ pending(1) created(2) new(2) _ new(3)]) (use hr created(3) in simp_all)
  then have v1: "orderly offers known (?v\<lparr>v_own := own (w_provider ?w3), v_ids := issued (w_provider ?w3)\<rparr>)"
    by (simp add: new(1))
  have "goes E limit own live issued offers known i w (and_then (now_timestamp E) (\<lambda>now. save_both E (?both now) Progress) ?w3)"
  proof (rule both_saved [OF S r hr _ _ _ _ _ v1, where ?hr1.0 = "with_host_status ?host1 hr"])
    fix now v'
    assume v': "v' = recorded (?v\<lparr>v_own := own (w_provider ?w3), v_ids := issued (w_provider ?w3)\<rparr>) i
      (with_status (fst (?both now)) r) h (with_host_status (snd (?both now)) hr)"
    have "provider_observation_is_stable (with_host_status (snd (?both now)) hr) res"
      using observation_then_stable [of "e_codec E" now r ?host1 res] by (simp add: provider_observation_is_stable_def)
    then have "stage v' (with_status (fst (?both now)) r) = 0"
      using r(2,3) by (simp add: stage_def v' new(1))
    moreover have "stage ?v r = 2" using owned r(2,3) hr pending by (simp add: stage_def)
    ultimately show "case Progress of Progress \<Rightarrow> stage v' (with_status (fst (?both now)) r) < stage ?v r | Idle \<Rightarrow> ready_at v' i"
      by simp
  next
    show "same_host hr (snd (?both now))" for now
      by (rule same_host_trans [OF host1(3) transitions_same_host(1)])
  qed (use w2(2) countedD [OF w2(3)] created(2,4) new(1) r(1,3) claim_numbers [OF S r(1)] in
      \<open>simp_all add: transitions_same_claim apply_provider_observation_host [OF refl]
        apply_provider_observation_claim [OF refl] default_retry_def expected_phase_def\<close>)
  moreover have "reconcile_host E P r hr now_ms w = and_then (now_timestamp E) (\<lambda>now. save_both E (?both now) Progress) ?w3"
    using created(1) w2(1) pending
    by (simp add: reconcile_host_def id and_then_def [of "provider_call _"] p(1) Let_def set_host_phase_def
        and_then_def [of "save_host_call _ _"])
  ultimately show ?thesis by simp
qed

lemma reconcile_host_goes:
  assumes "settling E limit own live issued offers known w"
    and "claim_view (e_codec E) (w_db w) i = Some r" "claim_host r = Some h" "claim_deletion r = None"
    and "host_view (e_codec E) (w_db w) h = Some hr"
  shows "goes E limit own live issued offers known i w (reconcile_host E P r hr now_ms w)"
proof (cases "own (w_provider w) h")
  case None
  then show ?thesis using lost_goes [OF assms] create_goes [OF assms] by blast
next
  case (Some held)
  then show ?thesis using adopt_goes [OF assms] by (cases held) simp
qed

text \<open>Calls that leave claims, hosts and resources as they are may come first.\<close>

lemma ids_rank: "rank (v\<lparr>v_ids := ids\<rparr>) = rank v"
  unfolding rank_def by (intro sum.cong) (simp_all add: stage_cong [of _ "v\<lparr>v_ids := ids\<rparr>" v])

lemma goes_later:
  assumes "view_of E own issued w1 = (view_of E own issued w)\<lparr>v_ids := ids\<rparr>" and "w_notified w1 = w_notified w"
    and "goes E limit own live issued offers known i w1 x"
  shows "goes E limit own live issued offers known i w x"
proof -
  have "step_done i result (view_of E own issued w) v'" if "step_done i result ((view_of E own issued w)\<lparr>v_ids := ids\<rparr>) v'" for result v'
    using that by (cases result) (simp_all add: step_done_def apart_def wanted_def ids_rank)
  then show ?thesis using assms by (fastforce simp: goes_def)
qed

lemma settling_later:
  assumes S: "settling E limit own live issued offers known w"
    and held: "holds E w1 (claim_view (e_codec E) (w_db w)) (host_view (e_codec E) (w_db w))" and count: "w_count w \<le> w_count w1"
    and p: "live (w_provider w1)" "own (w_provider w1) = own (w_provider w)" "issued (w_provider w) \<subseteq> issued (w_provider w1)"
  shows "settling E limit own live issued offers known w1"
    and "view_of E own issued w1 = (view_of E own issued w)\<lparr>v_ids := issued (w_provider w1)\<rparr>"
proof -
  note S' = settlingD [OF S]
  show view: "view_of E own issued w1 = (view_of E own issued w)\<lparr>v_ids := issued (w_provider w1)\<rparr>"
    using view_held [OF held, of own issued] p(2) by (simp add: view_of_def)
  have "orderly offers known (view_of E own issued w1)"
    unfolding view by (rule orderly_ids [OF S'(4)]) (simp add: p(3))
  then show "settling E limit own live issued offers known w1"
    using S'(1) held p(1) new_ids_kept [OF S'(5) count]
    by (simp add: settling_def view_held [OF held] holdsD [OF held])
qed

lemma claim_with_host:
  assumes "settling E limit own live issued offers known w" and "claim_view (e_codec E) (w_db w) i = Some r" and "claim_host r = Some h"
  obtains hr where "host_view (e_codec E) (w_db w) h = Some hr" and "host_claim_of hr = i" and "is_due (hr_retry hr) now_ms"
    and "host_phase hr \<noteq> Failed"
proof -
  note S' = settlingD [OF assms(1)]
  obtain hr where hr: "host_view (e_codec E) (w_db w) h = Some hr" "host_claim_of hr = i"
    using linkedD [OF S'(6), of i r h] assms(2,3) by auto
  moreover have "host_open known (issued (w_provider w)) hr" using orderlyD(2) [OF S'(4), of h hr] hr by simp
  ultimately show ?thesis by (intro that [of hr]) (auto simp: host_open_def is_due_def)
qed

text \<open>An active claim with a host: its host is fetched and reconciled.\<close>

lemma bound_goes:
  assumes S: "settling E limit own live issued offers known w"
    and r: "claim_view (e_codec E) (w_db w) i = Some r" "claim_host r = Some h" "claim_deletion r = None"
  shows "goes E limit own live issued offers known i w (reconcile_active_claim E P now_ms r w)"
proof -
  note S' = settlingD [OF S]
  obtain hr where hr: "host_view (e_codec E) (w_db w) h = Some hr" "is_due (hr_retry hr) now_ms" "host_phase hr \<noteq> Failed"
    by (rule claim_with_host [OF S r(1,2)])
  obtain w1 where w1: "storage_call E (\<lambda>io. get_host (e_codec E) io h) w = (Inr hr, w1)"
      "holds E w1 (claim_view (e_codec E) (w_db w)) (host_view (e_codec E) (w_db w))" "counted w w1"
    by (rule quiet_get_host [OF S'(1,8) hr(1)])
  note later = settling_later [OF S w1(2)]
  have S1: "settling E limit own live issued offers known w1"
    "view_of E own issued w1 = (view_of E own issued w)\<lparr>v_ids := issued (w_provider w1)\<rparr>"
    using countedD [OF w1(3)] S'(3) by (simp_all add: later)
  have "goes E limit own live issued offers known i w1 (reconcile_host E P r hr now_ms w1)"
    using r hr(1) holdsD(2,3) [OF w1(2)] by (intro reconcile_host_goes [OF S1(1)]) simp_all
  then show ?thesis
    using goes_later [OF S1(2) countedD(2) [OF w1(3)]] r(2) hr(2,3)
    by (simp add: reconcile_active_claim_def and_then_def [of "storage_call _ _"] w1(1))
qed

text \<open>An active claim without a host: it is given one.\<close>

lemma unbound_counts:
  assumes "claim_host r = None" and "is_due (cr_retry r) now_ms"
    and "select_plan P (spec_resources (hc_spec (cr_resource r))) (w_provider w) = (Inr (Some plan), p)"
  shows "w_count (snd (reconcile_active_claim E P now_ms r w)) = Suc (w_count w)"
proof -
  let ?m = "\<lambda>io. ensure_host (e_codec E) io (claim_id_of r) (plan_id plan) (plan_resources plan)"
  have "w_count (snd (storage_call E ?m (w\<lparr>w_provider := p\<rparr>))) = Suc (w_count w)" by (simp add: storage_call_count)
  then show ?thesis
    using assms by (cases "storage_call E ?m (w\<lparr>w_provider := p\<rparr>)")
      (auto simp: reconcile_active_claim_def reconcile_unbound_claim_def and_then_def provider_call_def wake_def ok_def
        split: sum.split AppError.split)
qed

lemma unbound_goes:
  assumes S: "settling E limit own live issued offers known w"
    and r: "claim_view (e_codec E) (w_db w) i = Some r" "claim_host r = None" "claim_deletion r = None"
  shows "goes E limit own live issued offers known i w (reconcile_active_claim E P now_ms r w)"
proof -
  let ?v = "view_of E own issued w" and ?cs = "claim_view (e_codec E) (w_db w)" and ?hs = "host_view (e_codec E) (w_db w)"
  let ?h = "e_new_host_id E (w_count w)" and ?now = "e_clock E (w_count w)"
  note S' = settlingD [OF S]
  have due: "claim_open offers r" using orderlyD(1) [OF S'(4), of i r] r(1) by simp
  then obtain plan p where plan: "select_plan P (spec_resources (hc_spec (cr_resource r))) (w_provider w) = (Inr (Some plan), p)"
      "resources_fit (plan_resources plan)" "plan_id plan \<noteq> []" "known (plan_id plan)"
      "live p" "own p = own (w_provider w)" "issued (w_provider w) \<subseteq> issued p"
    using selects [OF S'(3)] r(2,3) by (fastforce simp: claim_open_def alike_def)
  have ready: "is_due (cr_retry r) now_ms" using due by (simp add: claim_open_def is_due_def)
  show ?thesis
  proof (cases "w_count w < limit")
    case False
    then show ?thesis using unbound_counts [OF r(2) ready plan(1), of E] by (simp add: goes_def)
  next
    case True
    have new: "?hs ?h = None" and inj: "inj_on (e_new_host_id E) {..<limit}" using S'(5) True by (simp_all add: new_ids_def)
    have other: "e_new_host_id E n \<noteq> ?h" if "w_count w < n" "n < limit" for n
      using inj_onD [OF inj, of n "w_count w"] that True by auto
    let ?w1 = "w\<lparr>w_provider := p\<rparr>" and ?host = "new_host_record ?h i (plan_id plan) (plan_resources plan) ?now"
    let ?r' = "bound_claim (e_codec E) (initial_host ?h i (plan_resources plan) ?now) ?now r"
    have held: "holds E ?w1 ?cs ?hs" using S'(8) by simp
    have mine: "claim_id_of r = i" by (rule held_claim(1) [OF S'(1,8) r(1)])
    obtain w' where w': "storage_call E (\<lambda>io. ensure_host (e_codec E) io i (plan_id plan) (plan_resources plan)) ?w1 = (Inr ?host, w')"
        "holds E w' (?cs(i \<mapsto> ?r')) (?hs(?h \<mapsto> ?host))" "counted ?w1 w'"
      by (rule quiet_ensure_host [OF S'(1) held r(1,3,2) plan(2,3)]) (use new in simp_all)
    let ?v1 = "?v\<lparr>v_ids := issued p\<rparr>"
    let ?v' = "?v1\<lparr>v_claims := (v_claims ?v1)(i \<mapsto> ?r'), v_hosts := (v_hosts ?v1)(?h \<mapsto> ?host)\<rparr>"
    have view: "view_of E own issued w' = ?v'"
      using view_held [OF w'(2), of own issued] countedD(1) [OF w'(3)] plan(6) by (simp add: view_of_def)
    have "orderly offers known ?v1" by (rule orderly_ids [OF S'(4)]) (simp add: plan(7))
    then have orderly: "orderly offers known ?v'" by (rule orderly_bound) (use r(1) new plan(4) in simp_all)
    have "own (w_provider w) ?h = None"
      using orderlyD(3) [OF S'(4), of ?h] new by (cases "own (w_provider w) ?h") (auto simp: resource_placed_def)
    then have stage: "stage ?v r = 3" "stage ?v' ?r' = 2"
      using r(2,3) by (simp_all add: stage_def new_host_record_def initial_host_def)
    have apart: "apart i ?v ?v'" by (rule apartI [OF S'(6)]) (use new in auto)
    have "rank ?v' + stage ?v r = rank ?v + stage ?v' ?r'"
      by (rule rank_change(1) [OF S'(7) _ apart]) (use r(1) in simp_all)
    moreover have "wanted ?v' = wanted ?v" by (rule wanted_change [OF apart]) (use r(1) in simp_all)
    moreover have "settling E limit own live issued offers known w'"
    proof (rule settlingI [OF S'(1) w'(2)])
      show "live (w_provider w')" using plan(5) countedD(1) [OF w'(3)] by simp
      show "new_ids E limit w' (?hs(?h \<mapsto> ?host))"
        using S'(5) countedD(3) [OF w'(3)] other by (simp add: new_ids_def)
    qed (use orderly view view_held [OF w'(2), of own issued] in simp)
    ultimately have "goes E limit own live issued offers known i w (Inr Progress, w')"
      using apart stage view countedD(2) [OF w'(3)] by (simp add: goes_def step_done_def)
    then show ?thesis
      using r(2) mine ready
      by (simp add: reconcile_active_claim_def reconcile_unbound_claim_def and_then_def provider_call_def plan(1) w'(1))
  qed
qed

lemma active_goes:
  assumes "settling E limit own live issued offers known w"
    and "claim_view (e_codec E) (w_db w) i = Some r" "claim_deletion r = None"
  shows "goes E limit own live issued offers known i w (reconcile_active_claim E P now_ms r w)"
  using bound_goes [OF assms(1,2) _ assms(3)] unbound_goes [OF assms(1,2) _ assms(3)] by (cases "claim_host r") simp_all

section \<open>A claim being deleted\<close>

lemma finalize_goes:
  assumes S: "settling E limit own live issued offers known w"
    and r: "claim_view (e_codec E) (w_db w) i = Some r" "claim_deletion r \<noteq> None"
    and free: "\<And>h. claim_host r = Some h \<Longrightarrow> own (w_provider w) h = None"
  shows "goes E limit own live issued offers known i w
    (and_then (storage_call E (\<lambda>io. finalize_claim (e_codec E) io i)) (\<lambda>_. ok Progress) w)"
proof -
  let ?v = "view_of E own issued w" and ?cs = "claim_view (e_codec E) (w_db w)" and ?hs = "host_view (e_codec E) (w_db w)"
  note S' = settlingD [OF S]
  obtain w' where w': "storage_call E (\<lambda>io. finalize_claim (e_codec E) io i) w = (Inr (), w')"
      "holds E w' (?cs(i := None)) (hosts_without i ?hs)" "counted w w'"
    by (rule quiet_finalize [OF S'(1,8) r(1)])
  let ?v' = "?v\<lparr>v_claims := (v_claims ?v)(i := None), v_hosts := hosts_without i (v_hosts ?v)\<rparr>"
  have view: "view_of E own issued w' = ?v'"
    using view_held [OF w'(2), of own issued] countedD(1) [OF w'(3)] by (simp add: view_of_def)
  have orderly: "orderly offers known ?v'"
    by (rule orderly_finalized [OF S'(4)]) (use free linkedD [OF S'(6), of i r] r(1) in auto)
  have apart: "apart i ?v ?v'" by (rule apartI [OF S'(6)]) (auto simp: hosts_without_def)
  have "rank ?v' + stage ?v r = rank ?v" by (rule rank_change(2) [OF S'(7) _ apart]) (use r(1) in simp_all)
  moreover have "0 < stage ?v r" using r(2) by (auto simp: stage_def split: option.split)
  moreover have "wanted ?v' = wanted ?v" by (rule wanted_change [OF apart]) (use r in simp_all)
  moreover have "settling E limit own live issued offers known w'"
  proof (rule settlingI [OF S'(1) w'(2)])
    show "live (w_provider w')" using S'(3) countedD(1) [OF w'(3)] by simp
    show "new_ids E limit w' (hosts_without i ?hs)"
      by (rule new_ids_kept [OF S'(5)])
        (use countedD(3) [OF w'(3)] in \<open>auto simp: hosts_without_def split: option.splits if_splits\<close>)
  qed (use orderly view view_held [OF w'(2), of own issued] in simp)
  ultimately have "goes E limit own live issued offers known i w (Inr Progress, w')"
    using apart view countedD(2) [OF w'(3)] by (simp add: goes_def step_done_def)
  then show ?thesis by (simp add: and_then_def w'(1))
qed

lemma delete_goes:
  assumes S: "settling E limit own live issued offers known w"
    and r: "claim_view (e_codec E) (w_db w) i = Some r" "claim_host r = Some h" "claim_deletion r \<noteq> None"
    and hr: "host_view (e_codec E) (w_db w) h = Some hr" and owned: "own (w_provider w) h = Some (res, plan)"
  defines "host now \<equiv> (update_host_status (\<lambda>s. s\<lparr>hs_phase := Deleting,
      hs_provider_resource_id := Some (pr_id res), hs_observed_at := Some now\<rparr>) hr)\<lparr>hr_retry := default_retry\<rparr>"
  shows "goes E limit own live issued offers known i w (and_then (now_timestamp E) (\<lambda>now.
    and_then (save_host_call E (host now)) (\<lambda>_.
    and_then (provider_call (delete_resource P h)) (\<lambda>deleted.
    and_then (save_host_call E (after_delete (host now) deleted now_ms)) (\<lambda>_.
    ok Progress)))) w)"
proof -
  let ?v = "view_of E own issued w" and ?cs = "claim_view (e_codec E) (w_db w)" and ?hs = "host_view (e_codec E) (w_db w)"
  let ?now = "e_clock E (w_count w)"
  note S' = settlingD [OF S]
  have host: "host_id_of (host now) = h" "host_provider_resource (host now) = Some (pr_id res)"
      "hr_retry (host now) = default_retry" "host_phase (host now) = Deleting" for now
    using held_host [OF S'(1,8) hr] by (simp_all add: host_def update_host_status_def)
  have placed: "resource_placed ?v h res plan" by (rule orderlyD(3) [OF S'(4)]) (simp add: owned)
  then have free: "host_provider_resource hr' \<noteq> Some (pr_id res)" if "?hs h' = Some hr'" "h' \<noteq> h" for h' hr'
    using that by (simp add: resource_placed_def)
  have held: "holds E (tick w) ?cs ?hs" using S'(8) by simp
  obtain w1 where w1: "save_host_call E (host ?now) (tick w) = (Inr (), w1)"
      "holds E w1 ?cs (?hs(h \<mapsto> with_host_status (host ?now) hr))" "counted (tick w) w1"
    by (rule quiet_save_host [OF S'(1) held hr host(1)]) (use free host(2) in simp_all)
  have "live (w_provider w1)" using S'(3) countedD(1) [OF w1(3)] by simp
  then obtain p where p: "provider_call (delete_resource P h) w1 = (Inr (Inr Deleted), w1\<lparr>w_provider := p\<rparr>)"
      "live p" "own p = (own (w_provider w))(h := None)" "issued (w_provider w) \<subseteq> issued p"
    using deletes [of "w_provider w1" h] countedD(1) [OF w1(3)] by (auto simp: provider_call_def alike_def)
  have held1: "holds E (w1\<lparr>w_provider := p\<rparr>) ?cs (?hs(h \<mapsto> with_host_status (host ?now) hr))" using w1(2) by simp
  have same: "(host ?now)\<lparr>hr_retry := default_retry\<rparr> = host ?now" by (simp add: host_def)
  obtain w' where w': "save_host_call E (host ?now) (w1\<lparr>w_provider := p\<rparr>) = (Inr (), w')"
      "holds E w' ?cs (?hs(h \<mapsto> with_host_status (host ?now) hr))" "counted (w1\<lparr>w_provider := p\<rparr>) w'"
    by (rule quiet_save_host [OF S'(1) held1 _ host(1), where hr = "with_host_status (host ?now) hr"])
      (use free host(2) in \<open>simp_all split: if_splits\<close>)
  let ?v1 = "?v\<lparr>v_hosts := (v_hosts ?v)(h \<mapsto> with_host_status (host ?now) hr)\<rparr>"
  let ?v2 = "?v1\<lparr>v_own := (v_own ?v1)(h := None)\<rparr>"
  let ?v' = "?v2\<lparr>v_ids := issued p\<rparr>"
  have "orderly offers known ?v1"
    by (rule orderly_host [OF S'(4)]) (use hr host owned in \<open>simp_all add: default_retry_def\<close>)
  from orderly_ids [OF orderly_deleted [OF this], of h "issued p"] have orderly: "orderly offers known ?v'"
    using p(4) by simp
  have view: "view_of E own issued w' = ?v'"
    using view_held [OF w'(2), of own issued] countedD(1) [OF w'(3)] p(3) by (simp add: view_of_def)
  have "host_claim_of hr = i" using linkedD [OF S'(6), of i r h] r(1,2) hr by simp
  then have apart: "apart i ?v ?v'" by (intro apartI [OF S'(6)]) (use hr in auto)
  have "rank ?v' + stage ?v r = rank ?v + stage ?v' r"
    by (rule rank_change(1) [OF S'(7) _ apart]) (use r(1) in simp_all)
  moreover have "stage ?v r = 2" "stage ?v' r = 1" using r(2,3) owned by (auto simp: stage_def)
  moreover have "wanted ?v' = wanted ?v" by (rule wanted_change [OF apart]) (use r(1) in simp_all)
  moreover have "settling E limit own live issued offers known w'"
  proof (rule settlingI [OF S'(1) w'(2)])
    show "live (w_provider w')" using p(2) countedD(1) [OF w'(3)] by simp
    show "new_ids E limit w' (?hs(h \<mapsto> with_host_status (host ?now) hr))"
      by (rule new_ids_kept [OF S'(5)]) (use countedD(3) [OF w1(3)] countedD(3) [OF w'(3)] hr in auto)
  qed (use orderly view view_held [OF w'(2), of own issued] in simp)
  ultimately have "goes E limit own live issued offers known i w (Inr Progress, w')"
    using apart view countedD(2) [OF w1(3)] countedD(2) [OF w'(3)] by (simp add: goes_def step_done_def)
  then show ?thesis
    by (simp add: and_then_def now_timestamp_def w1(1) p(1) after_delete_def same w'(1))
qed

lemma deleting_goes:
  assumes S: "settling E limit own live issued offers known w"
    and r: "claim_view (e_codec E) (w_db w) i = Some r" "claim_deletion r \<noteq> None"
  shows "goes E limit own live issued offers known i w (reconcile_deleting_claim E P r now_ms w)"
proof -
  note S' = settlingD [OF S]
  have mine: "claim_id_of r = i" by (rule held_claim(1) [OF S'(1,8) r(1)])
  show ?thesis
  proof (cases "claim_host r")
    case None
    then show ?thesis using finalize_goes [OF S r] mine by (simp add: reconcile_deleting_claim_def)
  next
    case (Some h)
    obtain hr where hr: "host_view (e_codec E) (w_db w) h = Some hr" "is_due (hr_retry hr) now_ms"
      by (rule claim_with_host [OF S r(1) Some])
    have id: "host_id_of hr = h" by (rule held_host [OF S'(1,8) hr(1)])
    obtain w1 where w1: "storage_call E (\<lambda>io. get_host (e_codec E) io h) w = (Inr hr, w1)"
        "holds E w1 (claim_view (e_codec E) (w_db w)) (host_view (e_codec E) (w_db w))" "counted w w1"
      by (rule quiet_get_host [OF S'(1,8) hr(1)])
    have "live (w_provider w1)" using S'(3) countedD(1) [OF w1(3)] by simp
    then obtain p where p: "provider_call (observe P h) w1 = (Inr (Inr (case own (w_provider w) h of
          None \<Rightarrow> Absent | Some (res, _) \<Rightarrow> Present res)), w1\<lparr>w_provider := p\<rparr>)"
        "live p" "own p = own (w_provider w)" "issued (w_provider w) \<subseteq> issued p"
      by (rule observed_call [of w1 h]) (use countedD(1) [OF w1(3)] in simp)
    let ?w2 = "w1\<lparr>w_provider := p\<rparr>"
    have S2: "settling E limit own live issued offers known ?w2"
        "view_of E own issued ?w2 = (view_of E own issued w)\<lparr>v_ids := issued p\<rparr>"
      using settling_later [OF S, of ?w2] w1(2) countedD [OF w1(3)] p(2-4) by simp_all
    have db: "claim_view (e_codec E) (w_db ?w2) = claim_view (e_codec E) (w_db w)"
        "host_view (e_codec E) (w_db ?w2) = host_view (e_codec E) (w_db w)" "own (w_provider ?w2) = own (w_provider w)"
      using holdsD(2,3) [OF w1(2)] p(3) by simp_all
    have notified: "w_notified ?w2 = w_notified w" using countedD(2) [OF w1(3)] by simp
    note step = reconcile_deleting_claim_def and_then_def [of "storage_call E (\<lambda>io. get_host _ io _)"]
      and_then_def [of "provider_call (observe _ _)"] w1(1) p(1)
    show ?thesis
    proof (cases "own (w_provider w) h")
      case None
      have "goes E limit own live issued offers known i ?w2
          (and_then (storage_call E (\<lambda>io. finalize_claim (e_codec E) io i)) (\<lambda>_. ok Progress) ?w2)"
        by (rule finalize_goes [OF S2(1) _ r(2)]) (use db r(1) Some None in simp_all)
      from goes_later [OF S2(2) notified this] show ?thesis
        using Some hr(2) id None mine by (simp add: step)
    next
      case (Some held)
      obtain res plan where owned: "own (w_provider w) h = Some (res, plan)" using Some by (cases held) simp
      have agrees: "ownership_conflict hr res = None"
        using orderlyD(3) [OF S'(4), of h res plan] owned hr(1) by (auto simp: resource_placed_def ownership_conflict_def)
      have at2: "claim_view (e_codec E) (w_db ?w2) i = Some r" "host_view (e_codec E) (w_db ?w2) h = Some hr"
          "own (w_provider ?w2) h = Some (res, plan)"
        using db r(1) hr(1) owned by simp_all
      note gone = delete_goes [OF S2(1) at2(1) \<open>claim_host r = Some h\<close> r(2) at2(2,3), of now_ms]
      show ?thesis
        using goes_later [OF S2(2) notified gone] \<open>claim_host r = Some h\<close> hr id owned agrees
        by (simp add: step Let_def)
    qed
  qed
qed

end

end
