(* ===== verification/Settled.thy ===== *)
theory Settled
  imports Settling_Steps
begin

text \<open>
  The loops of the controller over any number of claims: a pass either makes progress or ends with
  every claim Ready, and a number of wakes linear in the number of claims is enough.
\<close>

context responsive_provider begin

abbreviation settles :: "environment \<Rightarrow> nat \<Rightarrow> 'p world \<Rightarrow> bool" where
  "settles E limit \<equiv> settling E limit own live issued offers known"

abbreviation seen :: "environment \<Rightarrow> 'p world \<Rightarrow> view" where
  "seen E \<equiv> view_of E own issued"

section \<open>What a pass leaves\<close>

definition kept :: "environment \<Rightarrow> nat \<Rightarrow> 'p world \<Rightarrow> 'p world \<Rightarrow> bool" where
  "kept E limit w w' \<longleftrightarrow> settles E limit w' \<and> w_notified w' = w_notified w \<and> wanted (seen E w') = wanted (seen E w)
     \<and> dom (v_claims (seen E w')) \<subseteq> dom (v_claims (seen E w))"

definition nearer :: "environment \<Rightarrow> nat \<Rightarrow> 'p world \<Rightarrow> (AppError + ReconcileResult) \<times> 'p world \<Rightarrow> bool" where
  "nearer E limit w passed \<longleftrightarrow> (\<exists>w'. passed = (Inr Progress, w') \<and> kept E limit w w' \<and> rank (seen E w') < rank (seen E w))"

lemma kept_refl: "settles E limit w \<Longrightarrow> kept E limit w w"
  by (simp add: kept_def)

lemma kept_trans: "kept E limit w w1 \<Longrightarrow> kept E limit w1 w2 \<Longrightarrow> kept E limit w w2"
  unfolding kept_def by (metis subset_trans)

lemma nearer_after:
  assumes "kept E limit w w1" and "rank (seen E w1) \<le> rank (seen E w)" and "nearer E limit w1 passed"
  shows "nearer E limit w passed"
  using assms kept_trans [OF assms(1)] by (fastforce simp: nearer_def)

lemma goes_cases:
  assumes goes: "goes E limit own live issued offers known i w passed" and S: "settles E limit w"
    and r: "claim_view (e_codec E) (w_db w) i = Some r" and within: "w_count (snd passed) \<le> limit"
  obtains (progress) "nearer E limit w passed" "fst passed = Inr Progress"
    | (idle) w' where "passed = (Inr Idle, w')" "kept E limit w w'" "apart i (seen E w) (seen E w')" "ready_at (seen E w') i"
        "rank (seen E w') \<le> rank (seen E w)"
proof -
  from goes within obtain result w' where finished: "passed = (Inr result, w')" "settles E limit w'" "w_notified w' = w_notified w"
      "step_done i result (seen E w) (seen E w')"
    unfolding goes_def by blast
  have "dom (v_claims (seen E w')) \<subseteq> insert i (dom (v_claims (seen E w)))"
    using finished(4) by (auto simp: step_done_def apart_def)
  also have "insert i (dom (v_claims (seen E w))) = dom (v_claims (seen E w))" using r by auto
  finally have dom: "dom (v_claims (seen E w')) \<subseteq> dom (v_claims (seen E w))" .
  show ?thesis
  proof (cases result)
    case Progress
    then show ?thesis using finished dom progress by (simp add: nearer_def kept_def step_done_def)
  next
    case Idle
    then have idle': "apart i (seen E w) (seen E w')" "ready_at (seen E w') i" "wanted (seen E w') = wanted (seen E w)"
      using finished(4) by (simp_all add: step_done_def)
    obtain r' where r': "v_claims (seen E w') i = Some r'" using idle'(2) by (auto simp: ready_at_def)
    have "rank (seen E w') + stage (seen E w) r = rank (seen E w) + stage (seen E w') r'"
      by (rule rank_change(1) [OF settlingD(7) [OF S] _ idle'(1) r']) (simp add: r)
    then have "rank (seen E w') \<le> rank (seen E w)" using ready_stage [OF idle'(2) r'] by simp
    then show ?thesis using idle' finished dom Idle idle by (simp add: kept_def)
  qed
qed

section \<open>The loop over the claims being deleted\<close>

text \<open>A claim being deleted always makes progress: it never is Ready.\<close>

lemma deleting_nearer:
  assumes S: "settles E limit w" and r: "claim_view (e_codec E) (w_db w) i = Some r" "claim_deletion r \<noteq> None"
    and within: "w_count (snd (reconcile_deleting_claim E P r now_ms w)) \<le> limit"
  shows "nearer E limit w (reconcile_deleting_claim E P r now_ms w)"
    and "fst (reconcile_deleting_claim E P r now_ms w) = Inr Progress"
proof -
  have "\<not> ready_at v' i" if same: "wanted v' = wanted (seen E w)" for v'
  proof
    assume "ready_at v' i"
    then have "\<exists>s. (i, s) \<in> wanted v'" by (auto simp: ready_at_def wanted_def)
    then show False unfolding same using r by (auto simp: wanted_def)
  qed
  note never = this
  show "nearer E limit w (reconcile_deleting_claim E P r now_ms w)"
    "fst (reconcile_deleting_claim E P r now_ms w) = Inr Progress"
    by (rule goes_cases [OF deleting_goes [OF S r, of now_ms] S r(1) within]; use never in \<open>simp add: kept_def\<close>)+
qed

lemma deletions_pass:
  assumes S: "settles E limit w" and listed: "\<And>r. r \<in> set rs \<Longrightarrow> claim_view (e_codec E) (w_db w) (claim_id_of r) = Some r"
    and within: "w_count (snd (reconcile_deletions E P now_ms rs w)) \<le> limit"
  shows "nearer E limit w (reconcile_deletions E P now_ms rs w) \<and> fst (reconcile_deletions E P now_ms rs w) = Inr Progress
    \<or> reconcile_deletions E P now_ms rs w = (Inr Idle, w) \<and> (\<forall>r \<in> set rs. claim_deletion r = None)"
  using listed within
proof (induction rs)
  case (Cons r rs)
  have stored: "claim_view (e_codec E) (w_db w) (claim_id_of r) = Some r" using Cons.prems(1) by simp
  have due: "is_due (cr_retry r) now_ms"
    using orderlyD(1) [OF settlingD(4) [OF S], of "claim_id_of r" r] stored by (simp add: claim_open_def is_due_def)
  show ?case
  proof (cases "claim_deletion r = None")
    case True
    then show ?thesis using Cons.IH Cons.prems by simp
  next
    case False
    then have run: "reconcile_deletions E P now_ms (r # rs) w = and_then (reconcile_deleting_claim E P r now_ms)
        (\<lambda>result. if result = Progress then ok result else reconcile_deletions E P now_ms rs) w"
      using due by simp
    have "w_count (snd (reconcile_deleting_claim E P r now_ms w)) \<le> limit"
      by (rule le_trans [OF and_then_count Cons.prems(2) [unfolded run]]) (intro counts_intro)
    then show ?thesis
      using deleting_nearer [OF S stored False, of now_ms] False due
      by (cases "reconcile_deleting_claim E P r now_ms w") (auto simp: and_then_def)
  qed
qed simp

section \<open>The loop over the active claims\<close>

definition left_ready :: "environment \<Rightarrow> nat \<Rightarrow> HostClaimRecord list \<Rightarrow> 'p world \<Rightarrow> 'p world \<Rightarrow> bool" where
  "left_ready E limit rs w w' \<longleftrightarrow> kept E limit w w' \<and> dom (v_claims (seen E w')) = dom (v_claims (seen E w))
     \<and> (\<forall>j. ready_at (seen E w) j \<longrightarrow> ready_at (seen E w') j) \<and> (\<forall>r \<in> set rs. ready_at (seen E w') (claim_id_of r))"

lemma left_ready_Cons:
  assumes idle: "kept E limit w w1" "apart i (seen E w) (seen E w1)" "ready_at (seen E w1) i"
    and r: "claim_view (e_codec E) (w_db w) i = Some r" "claim_id_of r = i" and rest: "left_ready E limit rs w1 w'"
  shows "left_ready E limit (r # rs) w w'"
proof -
  have "ready_at (seen E w1) j" if "ready_at (seen E w) j" for j
    using ready_apart [OF idle(2) _ that] idle(3) by (cases "j = i") simp_all
  moreover have "dom (v_claims (seen E w1)) = dom (v_claims (seen E w))"
  proof -
    have "v_claims (seen E w1) j = None \<longleftrightarrow> v_claims (seen E w) j = None" for j
      using idle(2,3) r(1) by (cases "j = i") (auto simp: apart_def ready_at_def)
    then show ?thesis unfolding dom_def by simp
  qed
  ultimately show ?thesis
    using rest kept_trans [OF idle(1)] idle(3) r(2) by (auto simp: left_ready_def)
qed

lemma active_pass:
  assumes "settles E limit w" and "\<And>r. r \<in> set rs \<Longrightarrow> claim_view (e_codec E) (w_db w) (claim_id_of r) = Some r"
    and "distinct (map claim_id_of rs)" and "\<forall>r \<in> set rs. claim_deletion r = None"
    and "w_count (snd (reconcile_active E P now_ms rs w)) \<le> limit"
  shows "nearer E limit w (reconcile_active E P now_ms rs w)
    \<or> (\<exists>w'. reconcile_active E P now_ms rs w = (Inr Idle, w') \<and> left_ready E limit rs w w')"
  using assms
proof (induction rs arbitrary: w)
  case Nil
  then show ?case by (simp add: left_ready_def kept_refl)
next
  case (Cons r rs)
  let ?i = "claim_id_of r"
  have r: "claim_view (e_codec E) (w_db w) ?i = Some r" "claim_deletion r = None" using Cons.prems(2,4) by simp_all
  have start: "reconcile_active E P now_ms (r # rs) w = and_then (reconcile_active_claim E P now_ms r)
      (\<lambda>result. if result = Progress then ok result else reconcile_active E P now_ms rs) w"
    using r(2) by simp
  have within: "w_count (snd (reconcile_active_claim E P now_ms r w)) \<le> limit"
    by (rule le_trans [OF and_then_count Cons.prems(5) [unfolded start]]) (intro counts_intro)
  show ?case
  proof (cases rule: goes_cases [OF active_goes [OF Cons.prems(1) r, of now_ms] Cons.prems(1) r(1) within])
    case 1
    then show ?thesis using r(2)
      by (cases "reconcile_active_claim E P now_ms r w") (auto simp: and_then_def)
  next
    case (2 w1)
    have stored: "claim_view (e_codec E) (w_db w1) (claim_id_of r') = Some r'" if "r' \<in> set rs" for r'
    proof -
      have "claim_id_of r' \<noteq> ?i" using Cons.prems(3) that by (auto simp: image_iff)
      then show ?thesis using 2(3) Cons.prems(2) [of r'] that by (simp add: apart_def)
    qed
    have run: "reconcile_active E P now_ms (r # rs) w = reconcile_active E P now_ms rs w1"
      using r(2) 2(1) by (simp add: and_then_def)
    have "settles E limit w1" using 2(2) by (simp add: kept_def)
    from Cons.IH [OF this stored] Cons.prems(3-5) run
    consider "nearer E limit w1 (reconcile_active E P now_ms rs w1)"
      | w' where "reconcile_active E P now_ms rs w1 = (Inr Idle, w')" "left_ready E limit rs w1 w'" by auto
    then show ?thesis
    proof cases
      case progress: 1
      then show ?thesis unfolding run using nearer_after [OF 2(2,5)] by blast
    next
      case idle: (2 w')
      then show ?thesis unfolding run using left_ready_Cons [OF 2(2-4) r(1) refl] by blast
    qed
  qed
qed

section \<open>A pass over all claims\<close>

lemma listed_pass:
  assumes S: "settles E limit w"
  obtains rs where "reconcile_once E P w = and_then (reconcile_deletions E P (now_unix_ms (e_clock_ms E (w_count w))) rs)
      (\<lambda>result. if result = Progress then ok result
        else reconcile_active E P (now_unix_ms (e_clock_ms E (w_count w))) rs) (tick (tick w))"
    and "\<And>x. x \<in> set rs \<longleftrightarrow> claim_view (e_codec E) (w_db w) (claim_id_of x) = Some x"
    and "distinct (map claim_id_of rs)" and "length rs \<le> card (dom (v_claims (seen E w)))"
proof -
  note S' = settlingD [OF S]
  have held: "holds E (tick w) (claim_view (e_codec E) (w_db w)) (host_view (e_codec E) (w_db w))" using S'(8) by simp
  obtain rs where rs: "storage_call E (list_claims (e_codec E)) (tick w) = (Inr rs, tick (tick w))"
      "\<And>x. x \<in> set rs \<longleftrightarrow> claim_view (e_codec E) (w_db w) (claim_id_of x) = Some x" "distinct (map claim_id_of rs)"
    by (rule quiet_list_claims [OF S'(1) held]) blast
  have "length rs = card (set (map claim_id_of rs))" using distinct_card [OF rs(3)] by simp
  also have "\<dots> \<le> card (dom (v_claims (seen E w)))"
    by (rule card_mono [OF S'(7)]) (use rs(2) in auto)
  finally show ?thesis
    using that [OF _ rs(2,3)] rs(1) by (simp add: reconcile_once_def read_now_unix_ms_def and_then_def)
qed

lemma pass:
  assumes S: "settles E limit w" and within: "w_count (snd (reconcile_once E P w)) \<le> limit"
  shows "nearer E limit w (reconcile_once E P w)
    \<or> (\<exists>w'. reconcile_once E P w = (Inr Idle, w') \<and> kept E limit w w' \<and> all_ready (seen E w'))"
proof -
  let ?now = "now_unix_ms (e_clock_ms E (w_count w))" and ?w = "tick (tick w)"
  note S' = settlingD [OF S]
  obtain rs where start: "reconcile_once E P w = and_then (reconcile_deletions E P ?now rs)
      (\<lambda>result. if result = Progress then ok result else reconcile_active E P ?now rs) ?w"
    and rs: "\<And>x. x \<in> set rs \<longleftrightarrow> claim_view (e_codec E) (w_db w) (claim_id_of x) = Some x" "distinct (map claim_id_of rs)"
    by (rule listed_pass [OF S]) blast
  have held': "holds E ?w (claim_view (e_codec E) (w_db w)) (host_view (e_codec E) (w_db w))" using S'(8) by simp
  have same: "settles E limit ?w" "seen E ?w = seen E w" "w_notified ?w = w_notified w"
    using settling_later(1) [OF S held'] S'(3) by (simp_all add: view_of_def)
  have at: "nearer E limit ?w passed = nearer E limit w passed" "kept E limit ?w w' = kept E limit w w'" for passed w'
    by (simp_all add: nearer_def kept_def same)
  have stored: "claim_view (e_codec E) (w_db ?w) (claim_id_of r) = Some r" if "r \<in> set rs" for r
    using rs(1) [of r] that by simp
  have bounded: "w_count (snd (reconcile_deletions E P ?now rs ?w)) \<le> limit"
    by (rule le_trans [OF and_then_count within [unfolded start]]) (intro counts_intro)
  consider "nearer E limit ?w (reconcile_deletions E P ?now rs ?w)"
    | "reconcile_deletions E P ?now rs ?w = (Inr Idle, ?w)" "\<forall>r \<in> set rs. claim_deletion r = None"
    using deletions_pass [OF same(1) _ bounded] stored by blast
  then show ?thesis
  proof cases
    case 1
    then have "nearer E limit w (reconcile_deletions E P ?now rs ?w)" by (simp only: at)
    moreover from this obtain w' where "reconcile_deletions E P ?now rs ?w = (Inr Progress, w')"
      unfolding nearer_def by blast
    ultimately show ?thesis using start by (simp add: and_then_def ok_def)
  next
    case 2
    have run: "reconcile_once E P w = reconcile_active E P ?now rs ?w" using start 2(1) by (simp add: and_then_def)
    have ready: "kept E limit w w' \<and> all_ready (seen E w')" if left: "left_ready E limit rs ?w w'" for w'
    proof -
      have "ready_at (seen E w') i" if "i \<in> dom (v_claims (seen E w'))" for i
      proof -
        from that left obtain r where "claim_view (e_codec E) (w_db w) i = Some r"
          by (auto simp: left_ready_def same)
        then have "r \<in> set rs" "claim_id_of r = i" using rs(1) held_claim(1) [OF S'(1,8)] by simp_all
        then show ?thesis using left by (auto simp: left_ready_def)
      qed
      moreover have "kept E limit w w'" using left at(2) by (simp add: left_ready_def)
      ultimately show ?thesis by (simp add: all_ready_def)
    qed
    show ?thesis using active_pass [OF same(1) _ rs(2) 2(2) within [unfolded run]] stored ready at(1) unfolding run by blast
  qed
qed

section \<open>Wakes\<close>

lemma steps:
  assumes "settles E limit w" and "w_count (snd (reconcile_steps E P fuel w)) \<le> limit"
  shows "\<exists>limited w'. reconcile_steps E P fuel w = (limited, w') \<and> kept E limit w w'
    \<and> (if limited then rank (seen E w') + fuel \<le> rank (seen E w) else all_ready (seen E w'))"
  using assms
proof (induction fuel arbitrary: w)
  case 0
  then show ?case by (intro exI [of _ True] exI [of _ w]) (simp add: kept_refl)
next
  case (Suc fuel)
  from pass [OF Suc.prems(1) le_trans [OF steps_count_first Suc.prems(2)]] show ?case
  proof
    assume "nearer E limit w (reconcile_once E P w)"
    then obtain w1 where w1: "reconcile_once E P w = (Inr Progress, w1)" "kept E limit w w1" "rank (seen E w1) < rank (seen E w)"
      by (auto simp: nearer_def)
    then have "settles E limit w1" by (simp add: kept_def)
    from Suc.IH [OF this] Suc.prems(2) w1(1) obtain limited w' where w': "reconcile_steps E P fuel w1 = (limited, w')" "kept E limit w1 w'"
        "if limited then rank (seen E w') + fuel \<le> rank (seen E w1) else all_ready (seen E w')" by auto
    show ?thesis
      by (intro exI [of _ limited] exI [of _ w']) (use w1 w' kept_trans [OF w1(2) w'(2)] in \<open>simp split: if_splits\<close>)
  next
    assume "\<exists>w'. reconcile_once E P w = (Inr Idle, w') \<and> kept E limit w w' \<and> all_ready (seen E w')"
    then obtain w' where "reconcile_once E P w = (Inr Idle, w')" "kept E limit w w'" "all_ready (seen E w')" by blast
    then show ?thesis by (intro exI [of _ False] exI [of _ w']) simp
  qed
qed

text \<open>A wake leaves every claim Ready, or asks for another wake, the claims being 64 steps nearer.\<close>

lemma wake_settles:
  assumes "settles E limit w" and "w_count (reconcile_wake E P w) \<le> limit"
  defines "w' \<equiv> reconcile_wake E P w"
  shows "settles E limit w'" and "wanted (seen E w') = wanted (seen E w)"
    and "dom (v_claims (seen E w')) \<subseteq> dom (v_claims (seen E w))"
    and "all_ready (seen E w') \<or> w_notified w' \<and> rank (seen E w') + MAX_STEPS_PER_WAKE \<le> rank (seen E w)"
proof -
  obtain limited w1 where w1: "reconcile_steps E P MAX_STEPS_PER_WAKE w = (limited, w1)" "kept E limit w w1"
      "if limited then rank (seen E w1) + MAX_STEPS_PER_WAKE \<le> rank (seen E w) else all_ready (seen E w1)"
    using steps [OF assms(1) assms(2) [unfolded reconcile_wake_counts]] by blast
  then have w': "w' = (if limited then w1\<lparr>w_notified := True\<rparr> else w1)" by (simp add: w'_def reconcile_wake_def)
  have S1: "settles E limit w1" using w1(2) by (simp add: kept_def)
  have "settles E limit w'" "seen E w' = seen E w1"
    using S1 by (simp_all add: w' settling_def new_ids_def view_of_def)
  then show "settles E limit w'" "wanted (seen E w') = wanted (seen E w)"
    "dom (v_claims (seen E w')) \<subseteq> dom (v_claims (seen E w))"
    "all_ready (seen E w') \<or> w_notified w' \<and> rank (seen E w') + MAX_STEPS_PER_WAKE \<le> rank (seen E w)"
    using w1(2,3) by (simp_all only: kept_def) (simp add: w' split: if_splits)
qed

lemma wakes_settle:
  assumes "settles E limit w"
  shows "w_count ((reconcile_wake E P ^^ j) w) \<le> limit \<Longrightarrow> settles E limit ((reconcile_wake E P ^^ j) w)
    \<and> wanted (seen E ((reconcile_wake E P ^^ j) w)) = wanted (seen E w)
    \<and> dom (v_claims (seen E ((reconcile_wake E P ^^ j) w))) \<subseteq> dom (v_claims (seen E w))
    \<and> (0 < j \<longrightarrow> all_ready (seen E ((reconcile_wake E P ^^ j) w))
      \<or> rank (seen E ((reconcile_wake E P ^^ j) w)) + MAX_STEPS_PER_WAKE * j \<le> rank (seen E w))"
proof (induction j)
  case 0
  then show ?case using assms by simp
next
  case (Suc j)
  let ?w = "(reconcile_wake E P ^^ j) w"
  have "w_count ?w \<le> limit" using Suc.prems reconcile_wake_count [of ?w E P] by simp
  note IH = Suc.IH [OF this]
  have "settles E limit ?w" using IH by blast
  note wake = wake_settles [OF this Suc.prems [simplified]]
  have dom: "dom (v_claims (seen E (reconcile_wake E P ?w))) \<subseteq> dom (v_claims (seen E w))"
    using wake(3) IH by blast
  have "all_ready (seen E (reconcile_wake E P ?w))
      \<or> rank (seen E (reconcile_wake E P ?w)) + MAX_STEPS_PER_WAKE * Suc j \<le> rank (seen E w)"
    using wake(4) IH all_ready_rank [of "seen E ?w"] by (cases "j = 0") (auto simp: MAX_STEPS_PER_WAKE_def)
  then show ?case using wake(1,2) dom IH by simp
qed

lemma enough_wakes:
  assumes "settles E limit w" and "3 * card (dom (v_claims (seen E w))) < MAX_STEPS_PER_WAKE * j"
    and "w_count ((reconcile_wake E P ^^ j) w) \<le> limit"
  shows "all_ready (seen E ((reconcile_wake E P ^^ j) w))"
proof -
  have "rank (seen E w) < MAX_STEPS_PER_WAKE * j" using rank_le [of "seen E w"] assms(2) by linarith
  moreover from this have "0 < j" by (cases j) simp_all
  ultimately show ?thesis using wakes_settle [OF assms(1,3)] by linarith
qed

section \<open>How many effects it takes\<close>

lemma once_within:
  assumes S: "settles E limit w" and few: "card (dom (v_claims (seen E w))) \<le> n"
  shows "w_count (snd (reconcile_once E P w)) \<le> w_count w + (2 + 9 * n)"
proof -
  let ?now = "now_unix_ms (e_clock_ms E (w_count w))"
  obtain rs where rs: "reconcile_once E P w = and_then (reconcile_deletions E P ?now rs)
      (\<lambda>result. if result = Progress then ok result else reconcile_active E P ?now rs) (tick (tick w))"
      "length rs \<le> n"
    by (rule listed_pass [OF S]) (use few in simp)
  have "uses (4 * length rs + max 0 (5 * length rs)) (and_then (reconcile_deletions E P ?now rs)
      (\<lambda>result. if result = Progress then ok result else reconcile_active E P ?now rs))"
    by (rule uses_intro uses_loops)+
  from usesD [OF this, of "tick (tick w)"] show ?thesis using rs by simp
qed

lemma steps_within:
  assumes "settles E limit w" and "card (dom (v_claims (seen E w))) \<le> n" and "w_count w + fuel * (2 + 9 * n) \<le> limit"
  shows "w_count (snd (reconcile_steps E P fuel w)) \<le> w_count w + fuel * (2 + 9 * n)"
  using assms
proof (induction fuel arbitrary: w)
  case (Suc fuel)
  have one: "w_count (snd (reconcile_once E P w)) \<le> w_count w + (2 + 9 * n)" by (rule once_within [OF Suc.prems(1,2)])
  then have "w_count (snd (reconcile_once E P w)) \<le> limit" using Suc.prems(3) by simp
  from pass [OF Suc.prems(1) this] show ?case
  proof
    assume "nearer E limit w (reconcile_once E P w)"
    then obtain w1 where w1: "reconcile_once E P w = (Inr Progress, w1)" "kept E limit w w1" by (auto simp: nearer_def)
    have "card (dom (v_claims (seen E w1))) \<le> card (dom (v_claims (seen E w)))"
      by (rule card_mono [OF settlingD(7) [OF Suc.prems(1)]]) (use w1(2) in \<open>simp add: kept_def\<close>)
    then have few: "card (dom (v_claims (seen E w1))) \<le> n" using Suc.prems(2) by simp
    have "settles E limit w1" using w1(2) by (simp add: kept_def)
    from Suc.IH [OF this few] show ?thesis using Suc.prems(3) one w1(1) by simp
  next
    assume "\<exists>w'. reconcile_once E P w = (Inr Idle, w') \<and> kept E limit w w' \<and> all_ready (seen E w')"
    then obtain w' where "reconcile_once E P w = (Inr Idle, w')" by blast
    then show ?thesis using one by simp
  qed
qed simp

lemma wake_within:
  assumes "settles E limit w" and "card (dom (v_claims (seen E w))) \<le> n" and "w_count w + wake_effects n \<le> limit"
  shows "w_count (reconcile_wake E P w) \<le> w_count w + wake_effects n"
  using steps_within [OF assms(1,2), of MAX_STEPS_PER_WAKE] assms(3) by (simp add: reconcile_wake_counts wake_effects_def)

lemma wakes_within:
  assumes "settles E limit w" and "card (dom (v_claims (seen E w))) \<le> n" and "w_count w + j * wake_effects n \<le> limit"
  shows "w_count ((reconcile_wake E P ^^ j) w) \<le> w_count w + j * wake_effects n"
  using assms(3)
proof (induction j)
  case (Suc j)
  let ?w = "(reconcile_wake E P ^^ j) w"
  have count: "w_count ?w \<le> w_count w + j * wake_effects n" using Suc by simp
  then have "w_count ?w \<le> limit" using Suc.prems by simp
  note at = wakes_settle [OF assms(1) this]
  have "card (dom (v_claims (seen E ?w))) \<le> card (dom (v_claims (seen E w)))"
    by (rule card_mono [OF settlingD(7) [OF assms(1)]]) (use at in blast)
  then have few: "card (dom (v_claims (seen E ?w))) \<le> n" using assms(2) by simp
  have "settles E limit ?w" using at by blast
  from wake_within [OF this few] show ?case using count Suc.prems by simp
qed simp

end

end
