(* ===== verification/Requests.thy ===== *)
theory Requests
  imports Settled
begin

text \<open>
  Requests between the wakes: each leaves the claims as they are, adds one that asks for what it was
  given, or marks one for deletion; a world that settles stays one.
\<close>

section \<open>What a request does to the claims\<close>

definition new_claim :: "HostClaimId \<Rightarrow> HostClaimSpec \<Rightarrow> Timestamp \<Rightarrow> HostClaimRecord" where
  "new_claim i spec now = \<lparr>cr_resource = initial_claim i spec now, cr_retry = default_retry\<rparr>"

lemma new_claim_sel [simp]:
  "claim_deletion (new_claim i spec now) = None" "claim_host (new_claim i spec now) = None"
  "hc_spec (cr_resource (new_claim i spec now)) = spec" "cr_retry (new_claim i spec now) = default_retry"
  by (simp_all add: new_claim_def initial_claim_def)

lemma deletion_requested_sel' [simp]:
  "claim_deletion (deletion_requested now r) = Some now" "claim_host (deletion_requested now r) = claim_host r"
  "hc_spec (cr_resource (deletion_requested now r)) = hc_spec (cr_resource r)"
  "cr_retry (deletion_requested now r) = default_retry"
  by (simp_all add: deletion_requested_def Let_def claim_edit_defs)

lemma request_claims:
  fixes E :: environment and w :: "'p world" and message :: rpc_message and io :: io
  assumes cd: "codec_ok (e_codec E)" and ok: "db_fine E w"
  defines "w' \<equiv> snd (serve_message E io message w)" and "cs \<equiv> claim_view (e_codec E) (w_db w)"
  obtains (same) "holds E w' cs (host_view (e_codec E) (w_db w))"
    | (create) params req where "message = Call HOST_CLAIM_CREATE params" "parse_create_params (e_params E) params = Inr req"
        "cs (ccp_id req) = None"
        "holds E w' (cs(ccp_id req \<mapsto> new_claim (ccp_id req) (ccp_spec req) (io_now io))) (host_view (e_codec E) (w_db w))"
    | (delete) i r where "cs i = Some r" "claim_deletion r = None"
        "holds E w' (cs(i \<mapsto> deletion_requested (io_now io) r)) (host_view (e_codec E) (w_db w))"
proof -
  have ok': "db_fine E w'" using serve_message_keeps [OF cd ok] by (simp add: w'_def world_keeps_def)
  have st: "world_store E w = \<lparr>s_claims = cs, s_hosts = host_view (e_codec E) (w_db w)\<rparr>"
    by (simp add: cs_def store_of_def)
  show ?thesis
  proof (cases rule: serve_message_db [of E io message w])
    case same': same
    then show ?thesis using same ok ok' st by (simp add: holds_def w'_def)
  next
    case 2: (create params req)
    show ?thesis
    proof (rule tolerant_store [OF fault_tolerant_ops(8) create_claim_refines [OF cd] ok, of io "ccp_id req" "ccp_spec req"], assumption)
      assume "snd (create_claim (e_codec E) io (ccp_id req) (ccp_spec req) (w_db w)) = w_db w"
      then show ?thesis using same ok' 2(3) st by (simp add: holds_def w'_def)
    next
      assume wrote: "store_of (e_codec E) (snd (create_claim (e_codec E) io (ccp_id req) (ccp_spec req) (w_db w))) =
        snd (spec_create_claim (e_codec E) (io_now (healthy io)) (ccp_id req) (ccp_spec req) (world_store E w))"
      have "world_store E w' = snd (spec_create_claim (e_codec E) (io_now io) (ccp_id req) (ccp_spec req)
          \<lparr>s_claims = cs, s_hosts = host_view (e_codec E) (w_db w)\<rparr>)"
        using wrote 2(3) by (simp add: w'_def st)
      then show ?thesis
        using same create [OF 2(1,2)] ok'
        by (auto simp: holds_def spec_create_claim_def new_claim_def split: sum.splits option.splits)
    qed
  next
    case 3: (delete params i)
    show ?thesis
    proof (rule tolerant_store [OF fault_tolerant_ops(9) mark_claim_deleting_refines [OF cd] ok, of io i], assumption)
      assume "snd (mark_claim_deleting (e_codec E) io i (w_db w)) = w_db w"
      then show ?thesis using same ok' 3(3) st by (simp add: holds_def w'_def)
    next
      assume wrote: "store_of (e_codec E) (snd (mark_claim_deleting (e_codec E) io i (w_db w))) =
        snd (spec_mark_claim_deleting (e_codec E) (io_now (healthy io)) i (world_store E w))"
      have "world_store E w' = snd (spec_mark_claim_deleting (e_codec E) (io_now io) i
          \<lparr>s_claims = cs, s_hosts = host_view (e_codec E) (w_db w)\<rparr>)"
        using wrote 3(3) by (simp add: w'_def st)
      then show ?thesis
        using same delete [of i] ok'
        by (auto simp: holds_def spec_mark_claim_deleting_def split: option.splits if_splits)
    qed
  qed
qed

text \<open>The two requests when the database answers.\<close>

lemma create_held:
  assumes E: "quiet E" and held: "holds E w cs hs" and io: "io_fault io = no_fault"
    and req: "parse_create_params (e_params E) params = Inr req" "resources_fit (spec_resources (ccp_spec req))"
    and new: "cs (ccp_id req) = None"
  shows "holds E (snd (serve_message E io (Call HOST_CLAIM_CREATE params) w))
    (cs(ccp_id req \<mapsto> new_claim (ccp_id req) (ccp_spec req) (io_now io))) hs"
proof -
  let ?w' = "snd (serve_message E io (Call HOST_CLAIM_CREATE params) w)"
  have cd: "codec_ok (e_codec E)" using E by (simp add: quiet_def)
  have db: "w_db ?w' = snd (create_claim (e_codec E) io (ccp_id req) (ccp_spec req) (w_db w))"
    using req(1) handler_db(1) [of E io params w]
    by (cases "host_claim_create E io params w") (simp add: serve_message_def rpc_module_registered)
  have "validate_resources (spec_resources (ccp_spec req)) = Inr ()" using req(2) by (simp add: validate_resources_Inr)
  then have "spec_create_claim (e_codec E) (io_now io) (ccp_id req) (ccp_spec req) \<lparr>s_claims = cs, s_hosts = hs\<rparr> =
      (Inr (initial_claim (ccp_id req) (ccp_spec req) (io_now io)),
       \<lparr>s_claims = cs(ccp_id req \<mapsto> new_claim (ccp_id req) (ccp_spec req) (io_now io)), s_hosts = hs\<rparr>)"
    using new by (simp add: spec_create_claim_def new_claim_def)
  then show ?thesis
    using refinesD [OF create_claim_refines [OF cd io] holdsD(1) [OF held], of "ccp_id req" "ccp_spec req"] held db
    by (simp add: holds_def)
qed

lemma delete_held:
  assumes E: "quiet E" and held: "holds E w cs hs" and io: "io_fault io = no_fault"
    and req: "parse_claim_params (e_params E) params = Inr i" and r: "cs i = Some r" "claim_deletion r = None"
  shows "holds E (snd (serve_message E io (Call HOST_CLAIM_DELETE params) w)) (cs(i \<mapsto> deletion_requested (io_now io) r)) hs"
proof -
  let ?w' = "snd (serve_message E io (Call HOST_CLAIM_DELETE params) w)"
  have cd: "codec_ok (e_codec E)" using E by (simp add: quiet_def)
  have db: "w_db ?w' = snd (mark_claim_deleting (e_codec E) io i (w_db w))"
    using req handler_db(2) [of E io params w]
    by (cases "host_claim_delete E io params w") (simp add: serve_message_def rpc_module_registered)
  have "spec_mark_claim_deleting (e_codec E) (io_now io) i \<lparr>s_claims = cs, s_hosts = hs\<rparr> =
      (Inr (cr_resource (deletion_requested (io_now io) r)),
       \<lparr>s_claims = cs(i \<mapsto> deletion_requested (io_now io) r), s_hosts = hs\<rparr>)"
    using r by (simp add: spec_mark_claim_deleting_def)
  then show ?thesis
    using refinesD [OF mark_claim_deleting_refines [OF cd io] holdsD(1) [OF held], of i] held db
    by (simp add: holds_def)
qed

section \<open>A world that settles\<close>

text \<open>A request that creates a claim asks for what some plan offers.\<close>

definition request_fair :: "environment \<Rightarrow> (HostResources \<Rightarrow> bool) \<Rightarrow> rpc_message \<Rightarrow> bool" where
  "request_fair E offers message \<longleftrightarrow> (case message of
     Notification name params \<Rightarrow> True
   | Call name params \<Rightarrow> name = HOST_CLAIM_CREATE \<longrightarrow>
       pred_option (\<lambda>req. offers (spec_resources (ccp_spec req)))
         (case parse_create_params (e_params E) params of Inl _ \<Rightarrow> None | Inr req \<Rightarrow> Some req))"

lemma request_settles:
  assumes S: "settling E limit own live issued offers known w" and fair: "request_fair E offers message"
  shows "settling E limit own live issued offers known (snd (serve_message E io message w))"
proof -
  let ?w' = "snd (serve_message E io message w)" and ?v = "view_of E own issued w"
  note S' = settlingD [OF S]
  have cd: "codec_ok (e_codec E)" using S'(1) by (simp add: quiet_def)
  have frame: "w_provider ?w' = w_provider w" "w_count ?w' = w_count w"
    by (simp_all add: serve_message_provider serve_message_count)
  have settles: "settling E limit own live issued offers known ?w'"
    if held: "holds E ?w' cs (host_view (e_codec E) (w_db w))" and "orderly offers known (?v\<lparr>v_claims := cs\<rparr>)" for cs
  proof (rule settlingI [OF S'(1) held])
    show "new_ids E limit ?w' (host_view (e_codec E) (w_db w))" using S'(5) by (simp add: new_ids_def frame)
  qed (use that S'(3) in \<open>simp_all add: frame view_of_def\<close>)
  show ?thesis
  proof (cases rule: request_claims [OF cd S'(2), of io message])
    case 1
    show ?thesis by (rule settles [OF 1]) (use S'(4) in \<open>simp add: view_of_def\<close>)
  next
    case (2 params req)
    have "offers (spec_resources (ccp_spec req))" using fair 2(1,2) by (simp add: request_fair_def)
    then show ?thesis
      using orderlyD [OF S'(4)]
      by (intro settles [OF 2(4)] orderlyI) (auto simp: claim_open_def default_retry_def resource_placed_def split: if_splits)
  next
    case (3 i r)
    show ?thesis
      using orderlyD [OF S'(4)]
      by (intro settles [OF 3(3)] orderlyI) (auto simp: claim_open_def default_retry_def resource_placed_def split: if_splits)
  qed
qed

text \<open>It adds at most one claim.\<close>

lemma request_card:
  assumes "quiet E" and "db_fine E w"
  shows "card (dom (claim_view (e_codec E) (w_db (snd (serve_message E io message w)))))
    \<le> Suc (card (dom (claim_view (e_codec E) (w_db w))))"
proof -
  have cd: "codec_ok (e_codec E)" using assms(1) by (simp add: quiet_def)
  have fin: "finite (dom (claim_view (e_codec E) (w_db w)))" using held_finite [OF assms] by simp
  let ?cs = "claim_view (e_codec E) (w_db w)" and ?w' = "snd (serve_message E io message w)"
  have card: "card (dom (claim_view (e_codec E) (w_db ?w'))) \<le> Suc (card (dom ?cs))"
    if "claim_view (e_codec E) (w_db ?w') = ?cs(i \<mapsto> r)" for i r
    using that fin by (simp add: card_insert_if)
  show ?thesis
  proof (cases rule: request_claims [OF cd assms(2), of io message])
    case 1
    then show ?thesis by (simp add: holdsD)
  next
    case (2 params req)
    show ?thesis by (rule card [OF holdsD(2) [OF 2(4)]])
  next
    case (3 i r)
    show ?thesis by (rule card [OF holdsD(2) [OF 3(3)]])
  qed
qed

end
