(* ===== verification/Fleet.thy ===== *)
theory Fleet
  imports Lifecycle Requests
begin

text \<open>
  Any number of claims over the fake provider: requests to create and to delete them come between the
  wakes of the controller, and after the last request a few wakes settle everything.
\<close>

section \<open>The fake provider answers\<close>

definition fake_issued :: "fake_env \<Rightarrow> fake_provider \<Rightarrow> string set" where
  "fake_issued F p = {''fake-'' @ fk_uuid F n | n. n < statement_count p}"

text \<open>UUIDs are all different: that is what they are for.\<close>

definition fake_live :: "fake_env \<Rightarrow> fake_provider \<Rightarrow> bool" where
  "fake_live F p \<longleftrightarrow> fake_calm F p \<and> plans p = catalog \<and> inj (fk_uuid F)
     \<and> re_id ` set (provider_resources p) \<subseteq> fake_issued F p"

definition catalog_offers :: "HostResources \<Rightarrow> bool" where
  "catalog_offers req \<longleftrightarrow>
     (\<exists>row \<in> set catalog. plan_suffices (uint (vcpus req)) (uint (memory_bytes req)) (uint (storage_bytes req)) row)"

definition catalog_plan :: "string \<Rightarrow> bool" where
  "catalog_plan plan \<longleftrightarrow> plan \<in> pl_id ` set catalog"

lemma fake_issued_mono: "statement_count p \<le> statement_count p' \<Longrightarrow> fake_issued F p \<subseteq> fake_issued F p'"
  by (fastforce simp: fake_issued_def)

lemma fake_live_count: "fake_live F p \<Longrightarrow> statement_count p \<le> n \<Longrightarrow> fake_live F (p\<lparr>statement_count := n\<rparr>)"
  using fake_issued_mono [of p "p\<lparr>statement_count := n\<rparr>" F] by (auto simp: fake_live_def)

lemma fake_alike_count:
  "fake_live F p \<Longrightarrow> statement_count p \<le> n \<Longrightarrow>
    alike (fake_live F) (fake_owned F) (fake_issued F) (fake_owned F p) p (p\<lparr>statement_count := n\<rparr>)"
  by (simp add: alike_def fake_live_count fake_issued_mono)

lemma fake_creates:
  assumes live: "fake_live F p" and plan: "catalog_plan plan" and none: "fake_owned F p h = None"
  shows "\<exists>res p'. fake_create F h plan p = (Inr (Created res), p') \<and> pr_lifecycle res = LifecycleReady
    \<and> pr_id res \<in> fake_issued F p' - fake_issued F p
    \<and> alike (fake_live F) (fake_owned F) (fake_issued F) ((fake_owned F p)(h \<mapsto> (res, plan))) p p'"
proof -
  let ?n = "statement_count p + 5" and ?id = "''fake-'' @ fk_uuid F (statement_count p + 5)"
  have calm: "fake_calm F p" and plans: "plans p = catalog" and inj: "inj (fk_uuid F)"
      and ids: "re_id ` set (provider_resources p) \<subseteq> fake_issued F p"
    using live by (simp_all add: fake_live_def)
  have sane: "fake_sane F p" using calm by (simp add: fake_calm_def)
  obtain row where "row \<in> set catalog" "plan = pl_id row" using plan by (auto simp: catalog_plan_def)
  then have one: "length (filter (\<lambda>r. pl_id r = plan \<and> pl_enabled r = 1) (plans p)) = 1"
    using catalog_enabled(1) by (simp add: plans)
  have new: "?id \<notin> fake_issued F p" using injD [OF inj] by (fastforce simp: fake_issued_def)
  then have "?id \<notin> re_id ` set (provider_resources p)" using ids by blast
  note run = fake_create_run [OF calm none one this]
  let ?p' = "snd (fake_create F h plan p)" and ?res = "ready_resource ?id h"
  have created: "fake_create F h plan p = (Inr (Created ?res), ?p')" by (simp add: run)
  have count: "statement_count ?p' = statement_count p + 6" by (simp add: run)
  have mono: "fake_issued F p \<subseteq> fake_issued F ?p'" by (rule fake_issued_mono) (simp add: count)
  have issued: "?id \<in> fake_issued F ?p'" by (auto simp: fake_issued_def count)
  have "fake_owned F ?p' = (fake_owned F p)(h \<mapsto> (?res, plan))"
    using fake_create_effect(2) [OF sane created] fake_create_answer [OF sane created] by (auto simp: fun_eq_iff)
  moreover have "fake_live F ?p'"
  proof -
    have "fake_calm F ?p'"
      using fake_create_effect(1) [OF sane created] calm by (simp add: fake_calm_def run)
    moreover have "plans ?p' = catalog" by (simp add: run plans)
    moreover have "re_id ` set (provider_resources ?p') = insert ?id (re_id ` set (provider_resources p))" by (simp add: run)
    ultimately show ?thesis using inj ids mono issued by (auto simp: fake_live_def)
  qed
  ultimately have "alike (fake_live F) (fake_owned F) (fake_issued F) ((fake_owned F p)(h \<mapsto> (?res, plan))) p ?p'"
    using mono by (simp add: alike_def)
  then show ?thesis
    using created new issued by (intro exI [of _ ?res] exI [of _ ?p']) (simp add: ready_resource_def)
qed

lemma fake_deletes:
  assumes live: "fake_live F p"
  shows "\<exists>p'. fake_delete F h p = (Inr Deleted, p')
    \<and> alike (fake_live F) (fake_owned F) (fake_issued F) ((fake_owned F p)(h := None)) p p'"
proof -
  have calm: "fake_calm F p" using live by (simp add: fake_live_def)
  then have sane: "fake_sane F p" by (simp add: fake_calm_def)
  note run = fake_delete_run [OF calm, of h]
  let ?p' = "snd (fake_delete F h p)"
  have deleted: "fake_delete F h p = (Inr Deleted, ?p')" by (simp add: run)
  have mono: "fake_issued F p \<subseteq> fake_issued F ?p'" by (rule fake_issued_mono) (simp add: run)
  have "fake_calm F ?p'" using fake_delete_effect(1) [OF sane deleted] calm by (simp add: fake_calm_def run)
  moreover have "re_id ` set (provider_resources ?p') \<subseteq> re_id ` set (provider_resources p)" by (auto simp: run)
  ultimately have "fake_live F ?p'" using live mono by (auto simp: fake_live_def run)
  moreover have "fake_owned F ?p' = (fake_owned F p)(h := None)"
    using fake_delete_effect(2) [OF sane deleted] removed_tables_effect(2) [OF sane fake_delete_answer [OF deleted]]
    by (auto simp: fun_eq_iff)
  ultimately show ?thesis using deleted mono by (auto simp: alike_def)
qed

interpretation fake_answers: responsive_provider "FakeProvider F" "fake_owned F" "fake_live F" "fake_issued F"
    catalog_offers catalog_plan for F
proof (unfold_locales, unfold FakeProvider_sel)
  fix p :: fake_provider and h plan req
  assume live: "fake_live F p"
  then have calm: "fake_calm F p" and plans: "plans p = catalog" by (simp_all add: fake_live_def)
  show "\<exists>p'. fake_observe F h p = (Inr (case fake_owned F p h of None \<Rightarrow> Absent | Some (res, _) \<Rightarrow> Present res), p')
      \<and> alike (fake_live F) (fake_owned F) (fake_issued F) (fake_owned F p) p p'"
    by (intro exI conjI, rule fake_observe_run [OF calm]) (rule fake_alike_count [OF live], simp)
  show "\<exists>plan p'. fake_select_plan F req p = (Inr (Some plan), p') \<and> resources_fit (plan_resources plan) \<and> plan_id plan \<noteq> []
      \<and> catalog_plan (plan_id plan) \<and> alike (fake_live F) (fake_owned F) (fake_issued F) (fake_owned F p) p p'"
    if offers: "catalog_offers req"
  proof -
    obtain row where row: "row \<in> set (plans p)"
        "plan_suffices (uint (vcpus req)) (uint (memory_bytes req)) (uint (storage_bytes req)) row"
      using offers by (auto simp: catalog_offers_def plans)
    obtain best plan where best: "fake_select_plan F req p = (Inr (Some plan), p\<lparr>statement_count := Suc (statement_count p)\<rparr>)"
        "best \<in> set catalog" "plan_from_row best = Inr plan"
      by (rule fake_select_run [OF fake_calm_up [OF calm] row]) (simp add: plans)
    note fits = catalog_row_fits [OF best(2,3)]
    show ?thesis
      using best fits catalog_enabled(2) [OF best(2)] fake_alike_count [OF live, of "Suc (statement_count p)"]
      by (auto simp: catalog_plan_def)
  qed
  show "\<exists>res p'. fake_create F h plan p = (Inr (Created res), p') \<and> pr_lifecycle res = LifecycleReady
      \<and> pr_id res \<in> fake_issued F p' - fake_issued F p
      \<and> alike (fake_live F) (fake_owned F) (fake_issued F) ((fake_owned F p)(h \<mapsto> (res, plan))) p p'"
    if "catalog_plan plan" "fake_owned F p h = None"
    by (rule fake_creates [OF live that])
  show "\<exists>p'. fake_delete F h p = (Inr Deleted, p')
      \<and> alike (fake_live F) (fake_owned F) (fake_issued F) ((fake_owned F p)(h := None)) p p'"
    by (rule fake_deletes [OF live])
qed

section \<open>Requests and wakes\<close>

text \<open>What happens to the daemon, in any order: a message of a client, or a wake of the controller.\<close>

datatype fleet_event = Asked rpc_message io | Woken

fun happen :: "environment \<Rightarrow> fake_env \<Rightarrow> fleet_event \<Rightarrow> fake_provider world \<Rightarrow> fake_provider world" where
  "happen E F (Asked message io) w = snd (serve_message E io message w)"
| "happen E F Woken w = reconcile_wake E (FakeProvider F) w"

fun fair_event :: "environment \<Rightarrow> fleet_event \<Rightarrow> bool" where
  "fair_event E (Asked message io) = request_fair E catalog_offers message"
| "fair_event E Woken = True"

text \<open>
  The databases answer the controller and no identifier is given out twice: host identifiers among the
  first \<open>limit\<close> effects, identifiers of resources ever.
\<close>

definition fleet_env :: "environment \<Rightarrow> fake_env \<Rightarrow> nat \<Rightarrow> bool" where
  "fleet_env E F limit \<longleftrightarrow> quiet E \<and> inj_on (e_new_host_id E) {..<limit}
     \<and> codec_ok (fk_codec F) \<and> (\<forall>n. fk_fault F n = Healthy) \<and> inj (fk_uuid F)"

abbreviation fleet_settling :: "environment \<Rightarrow> fake_env \<Rightarrow> nat \<Rightarrow> fake_provider world \<Rightarrow> bool" where
  "fleet_settling E F limit \<equiv> settling E limit (fake_owned F) (fake_live F) (fake_issued F) catalog_offers catalog_plan"

lemma first_start_settles:
  assumes env: "fleet_env E F limit"
  shows "fleet_settling E F limit (snd (first_start (seed_catalog empty_fake_provider)))"
proof -
  let ?p = "seed_catalog empty_fake_provider" and ?w = "snd (first_start (seed_catalog empty_fake_provider))"
  have E: "quiet E" and F: "codec_ok (fk_codec F)" "\<forall>n. fk_fault F n = Healthy" and inj: "inj (fk_uuid F)"
    using env by (simp_all add: fleet_env_def)
  have held: "holds E ?w Map.empty Map.empty" using first_start_vacant [of E ?p] by (simp add: vacant_def)
  have none: "fake_owned F ?p h = None" for h
    using seeded_calm(2) [OF F] by (simp add: fake_owned_def find_resource_def)
  have p: "w_provider ?w = ?p" by (simp add: first_start_def)
  show ?thesis
  proof (rule settlingI [OF E held])
    show "fake_live F (w_provider ?w)"
      using seeded_calm [OF F] seeded_plans inj by (simp add: fake_live_def p)
    show "new_ids E limit ?w Map.empty" using env by (simp add: new_ids_def fleet_env_def)
  qed (simp add: orderly_def p none)
qed

lemma happen_settles:
  assumes S: "fleet_settling E F limit w" and fair: "fair_event E event"
    and few: "card (dom (claim_view (e_codec E) (w_db w))) \<le> n" and within: "w_count w + wake_effects n \<le> limit"
  shows "fleet_settling E F limit (happen E F event w)"
    and "card (dom (claim_view (e_codec E) (w_db (happen E F event w)))) \<le> Suc n"
    and "w_count (happen E F event w) \<le> w_count w + wake_effects n"
proof -
  note S' = settlingD [OF S]
  have "fleet_settling E F limit (happen E F event w)
      \<and> card (dom (claim_view (e_codec E) (w_db (happen E F event w)))) \<le> Suc n
      \<and> w_count (happen E F event w) \<le> w_count w + wake_effects n"
  proof (cases event)
    case (Asked message io)
    then show ?thesis
      using request_settles [OF S, of message io] request_card [OF S'(1,2), of io message] fair few
      by (simp add: serve_message_count)
  next
    case Woken
    have count: "w_count (reconcile_wake E (FakeProvider F) w) \<le> w_count w + wake_effects n"
      by (rule fake_answers.wake_within [OF S _ within]) (use few in simp)
    then have "w_count (reconcile_wake E (FakeProvider F) w) \<le> limit" using within by simp
    note wake = fake_answers.wake_settles [OF S this]
    have "card (dom (claim_view (e_codec E) (w_db (reconcile_wake E (FakeProvider F) w))))
        \<le> card (dom (claim_view (e_codec E) (w_db w)))"
      using card_mono [OF S'(7) wake(3)] by simp
    then show ?thesis using wake(1) count few Woken by simp
  qed
  then show "fleet_settling E F limit (happen E F event w)"
    "card (dom (claim_view (e_codec E) (w_db (happen E F event w)))) \<le> Suc n"
    "w_count (happen E F event w) \<le> w_count w + wake_effects n" by blast+
qed

lemma history_settles:
  assumes "fleet_settling E F limit w" and "\<forall>event \<in> set history. fair_event E event"
    and "card (dom (claim_view (e_codec E) (w_db w))) + length history \<le> n"
    and "w_count w + length history * wake_effects n \<le> limit"
  shows "fleet_settling E F limit (fold (happen E F) history w)
    \<and> card (dom (claim_view (e_codec E) (w_db (fold (happen E F) history w)))) \<le> n
    \<and> w_count (fold (happen E F) history w) \<le> w_count w + length history * wake_effects n"
  using assms
proof (induction history arbitrary: w)
  case (Cons event history)
  let ?c = "card (dom (claim_view (e_codec E) (w_db w)))"
  have effects: "wake_effects ?c \<le> wake_effects n" by (rule wake_effects_mono) (use Cons.prems(3) in simp)
  have within: "w_count w + wake_effects ?c \<le> limit" using Cons.prems(4) effects by simp
  have fair: "fair_event E event" using Cons.prems(2) by simp
  note step = happen_settles [OF Cons.prems(1) fair order_refl within]
  have rest: "fleet_settling E F limit (fold (happen E F) history (happen E F event w))
    \<and> card (dom (claim_view (e_codec E) (w_db (fold (happen E F) history (happen E F event w))))) \<le> n
    \<and> w_count (fold (happen E F) history (happen E F event w))
      \<le> w_count (happen E F event w) + length history * wake_effects n"
    by (rule Cons.IH [OF step(1)]) (use Cons.prems(2-4) step(2,3) effects in auto)
  then show ?case using step(3) effects by simp
qed simp

section \<open>Everything settles\<close>

text \<open>
  The world is settled when every stored claim is Ready on a Ready host whose recorded resource is the
  one the provider holds for it, and the provider holds nothing else.
\<close>

definition settled_world :: "environment \<Rightarrow> fake_env \<Rightarrow> fake_provider world \<Rightarrow> bool" where
  "settled_world E F w \<longleftrightarrow>
     (\<forall>i r. claim_view (e_codec E) (w_db w) i = Some r \<longrightarrow> (\<exists>h hr res. claim_host r = Some h
        \<and> map_option c_status (condition_at (claim_conditions r) ''Ready'') = Some StatusTrue
        \<and> host_view (e_codec E) (w_db w) h = Some hr \<and> host_claim_of hr = i \<and> host_phase hr = Ready
        \<and> host_provider_resource hr = Some (pr_id res) \<and> pr_lifecycle res = LifecycleReady
        \<and> fake_owned F (w_provider w) h = Some (res, hr_provider_plan_id hr)))
     \<and> (\<forall>h. fake_owned F (w_provider w) h \<noteq> None \<longrightarrow>
          (\<exists>i r. claim_view (e_codec E) (w_db w) i = Some r \<and> claim_host r = Some h))"

lemma all_ready_settled:
  assumes S: "fleet_settling E F limit w" and ready: "all_ready (view_of E (fake_owned F) (fake_issued F) w)"
  shows "settled_world E F w"
  unfolding settled_world_def
proof (intro conjI allI impI)
  note S' = settlingD [OF S]
  fix i r assume r: "claim_view (e_codec E) (w_db w) i = Some r"
  then have "ready_at (view_of E (fake_owned F) (fake_issued F) w) i" using ready by (auto simp: all_ready_def)
  then obtain h hr res where at: "claim_host r = Some h" "host_phase hr = Ready"
      "map_option c_status (condition_at (claim_conditions r) ''Ready'') = Some StatusTrue"
      "host_view (e_codec E) (w_db w) h = Some hr" "provider_observation_is_stable hr res"
      "fake_owned F (w_provider w) h = Some (res, hr_provider_plan_id hr)"
    using r by (auto simp: ready_at_def)
  moreover have "host_claim_of hr = i" using linkedD [OF S'(6), of i r h] r at(1,4) by simp
  moreover have "pr_lifecycle res = LifecycleReady"
    using orderlyD(3) [OF S'(4), of h res "hr_provider_plan_id hr"] at(6) by (simp add: resource_placed_def)
  ultimately show "\<exists>h hr res. claim_host r = Some h
        \<and> map_option c_status (condition_at (claim_conditions r) ''Ready'') = Some StatusTrue
        \<and> host_view (e_codec E) (w_db w) h = Some hr \<and> host_claim_of hr = i \<and> host_phase hr = Ready
        \<and> host_provider_resource hr = Some (pr_id res) \<and> pr_lifecycle res = LifecycleReady
        \<and> fake_owned F (w_provider w) h = Some (res, hr_provider_plan_id hr)"
    by (auto simp: provider_observation_is_stable_def)
next
  note S' = settlingD [OF S]
  fix h assume "fake_owned F (w_provider w) h \<noteq> None"
  then obtain res plan where "fake_owned F (w_provider w) h = Some (res, plan)" by auto
  then obtain hr where "host_view (e_codec E) (w_db w) h = Some hr"
    using orderlyD(3) [OF S'(4), of h res plan] by (auto simp: resource_placed_def)
  moreover have "codec_ok (e_codec E)" using S'(1) by (simp add: quiet_def)
  ultimately show "\<exists>i r. claim_view (e_codec E) (w_db w) i = Some r \<and> claim_host r = Some h"
    by (blast elim: host_claim_view [OF _ S'(2)])
qed

text \<open>
  C1: Everything settles: after any history of requests and wakes from a first start, in which each
  create request asks for what some plan of the catalog offers, a number of wakes linear in the length
  of the history leaves the stored claims to be exactly those not being deleted, with their specs,
  each Ready on a Ready host of its own whose resource the provider holds, and no other resource held.
\<close>

theorem fleet_settles:
  assumes env: "fleet_env E F ((length history + wakes) * wake_effects (length history))"
    and fair: "\<forall>event \<in> set history. fair_event E event"
    and w: "w = fold (happen E F) history (snd (first_start (seed_catalog empty_fake_provider)))"
    and enough: "3 * length history < MAX_STEPS_PER_WAKE * wakes"
    and w': "w' = (reconcile_wake E (FakeProvider F) ^^ wakes) w"
  shows "settled_world E F w'
    \<and> {(i, hc_spec (cr_resource r)) | i r. claim_view (e_codec E) (w_db w') i = Some r}
      = {(i, hc_spec (cr_resource r)) | i r. claim_view (e_codec E) (w_db w) i = Some r \<and> claim_deletion r = None}"
proof -
  let ?seen = "view_of E (fake_owned F) (fake_issued F)" and ?n = "length history"
  let ?limit = "(?n + wakes) * wake_effects ?n" and ?w0 = "snd (first_start (seed_catalog empty_fake_provider))"
  have "claim_view (e_codec E) (w_db ?w0) = Map.empty" "w_count ?w0 = 0"
    by (simp_all add: first_start_def fun_eq_iff empty_claim_view)
  then have "fleet_settling E F ?limit w \<and> card (dom (claim_view (e_codec E) (w_db w))) \<le> ?n
      \<and> w_count w \<le> w_count ?w0 + ?n * wake_effects ?n"
    unfolding w by (intro history_settles [OF first_start_settles [OF env] fair]) (simp_all add: distrib_right)
  then have S: "fleet_settling E F ?limit w" and few: "card (dom (v_claims (?seen w))) \<le> ?n"
      and count: "w_count w + wakes * wake_effects ?n \<le> ?limit"
    using \<open>w_count ?w0 = 0\<close> by (simp_all add: distrib_right)
  have within: "w_count w' \<le> ?limit"
    unfolding w' by (rule le_trans [OF fake_answers.wakes_within [OF S few count] count])
  note after = fake_answers.wakes_settle [OF S, of wakes, folded w', OF within]
  have ready: "all_ready (?seen w')"
    unfolding w' by (rule fake_answers.enough_wakes [OF S]) (use enough few within w' in simp_all)
  have "settled_world E F w'" by (rule all_ready_settled [OF _ ready]) (use after in blast)
  moreover have "claim_deletion r = None" if "claim_view (e_codec E) (w_db w') i = Some r" for i r
    using all_ready_active [OF ready, of i r] that by simp
  then have "wanted (?seen w') = {(i, hc_spec (cr_resource r)) | i r. claim_view (e_codec E) (w_db w') i = Some r}"
    by (auto simp: wanted_def)
  moreover have "wanted (?seen w') = wanted (?seen w)" using after by blast
  ultimately show ?thesis by (simp add: wanted_def)
qed

text \<open>Two claims created, the first deleted before the controller wakes.\<close>

definition fleet_sample_env :: environment where
  "fleet_sample_env = sample_env\<lparr>e_params :=
     \<lparr>parse_empty_params = (\<lambda>_. Inr ()),
      parse_create_params = (\<lambda>s. Inr \<lparr>ccp_id = HostClaimId (of_nat (length s)), ccp_spec = sample_spec\<rparr>),
      parse_claim_params = (\<lambda>s. Inr (HostClaimId (of_nat (length s)))),
      parse_host_params = (\<lambda>_. Inr sample_host)\<rparr>\<rparr>"

definition fleet_sample_history :: "fleet_event list" where
  "fleet_sample_history = [Asked (Call HOST_CLAIM_CREATE ''a'') sample_io, Asked (Call HOST_CLAIM_CREATE ''bb'') sample_io,
     Asked (Call HOST_CLAIM_DELETE ''a'') sample_io]"

definition fleet_sample_asked :: "fake_provider world" where
  "fleet_sample_asked = fold (happen fleet_sample_env sample_fake_env) fleet_sample_history
     (snd (first_start (seed_catalog empty_fake_provider)))"

definition fleet_sample_world :: "fake_provider world" where
  "fleet_sample_world = (reconcile_wake fleet_sample_env (FakeProvider sample_fake_env) ^^ 1) fleet_sample_asked"

lemma fleet_sample_fair:
  "fleet_env fleet_sample_env sample_fake_env 7424" "\<forall>event \<in> set fleet_sample_history. fair_event fleet_sample_env event"
proof -
  have "inj_on (\<lambda>n. HostId (of_nat n)) {..<7424}"
  proof (rule inj_onI)
    fix n m :: nat
    assume small: "n \<in> {..<7424}" "m \<in> {..<7424}" and same: "HostId (of_nat n) = HostId (of_nat m)"
    have "unat (of_nat n :: Uuid) = n" "unat (of_nat m :: Uuid) = m" using small by (simp_all add: unat_of_nat)
    then show "n = m" using same by (metis HostId.inject)
  qed
  moreover have "inj nat_text" by (metis injI parse_nat_text)
  ultimately show "fleet_env fleet_sample_env sample_fake_env 7424"
    using sample_codec_ok by (simp add: fleet_env_def fleet_sample_env_def sample_env_def sample_fake_env_def quiet_def)
  show "\<forall>event \<in> set fleet_sample_history. fair_event fleet_sample_env event"
    by (simp add: fleet_sample_history_def fleet_sample_env_def request_fair_def catalog_offers_def sample_spec_def catalog_def
        plan_suffices_def push_bit_eq_mult HOST_CLAIM_CREATE_def HOST_CLAIM_DELETE_def)
qed

lemma fleet_sample_claims:
  "{(i, hc_spec (cr_resource r)) | i r. claim_view sample_codec (w_db fleet_sample_asked) i = Some r \<and> claim_deletion r = None}
     = {(HostClaimId 2, sample_spec)}"
proof -
  let ?E = fleet_sample_env and ?w0 = "snd (first_start (seed_catalog empty_fake_provider))"
  have E: "quiet ?E" using fleet_sample_fair(1) by (simp add: fleet_env_def)
  have cd: "e_codec ?E = sample_codec" by (simp add: fleet_sample_env_def)
  have create: "parse_create_params (e_params ?E) s = Inr \<lparr>ccp_id = HostClaimId (of_nat (length s)), ccp_spec = sample_spec\<rparr>"
      "parse_claim_params (e_params ?E) s = Inr (HostClaimId (of_nat (length s)))" for s
    by (simp_all add: fleet_sample_env_def)
  note fit = sample_fit sample_io_healthy
  have held0: "holds ?E ?w0 Map.empty Map.empty" using first_start_vacant [of ?E] by (simp add: vacant_def)
  note held1 = create_held [OF E held0 fit(2) create(1) [of "''a''"], simplified, OF fit(1)]
  note held2 = create_held [OF E held1 fit(2) create(1) [of "''bb''"], simplified, OF fit(1)]
  note held3 = delete_held [OF E held2 fit(2) create(2) [of "''a''"], simplified]
  show ?thesis
    unfolding fleet_sample_asked_def fleet_sample_history_def
    using holdsD(2) [OF held3] by (auto simp: cd split: if_splits)
qed

theorem fleet_settles_witness:
  "settled_world fleet_sample_env sample_fake_env fleet_sample_world
    \<and> {(i, hc_spec (cr_resource r)) | i r. claim_view sample_codec (w_db fleet_sample_world) i = Some r}
      = {(HostClaimId 2, sample_spec)}"
proof -
  have limit: "(length fleet_sample_history + 1) * wake_effects (length fleet_sample_history) = 7424"
    "3 * length fleet_sample_history < MAX_STEPS_PER_WAKE * 1"
    by (simp_all add: fleet_sample_history_def wake_effects_def MAX_STEPS_PER_WAKE_def)
  have env: "fleet_env fleet_sample_env sample_fake_env
      ((length fleet_sample_history + 1) * wake_effects (length fleet_sample_history))"
    using fleet_sample_fair(1) unfolding limit(1) .
  have "e_codec fleet_sample_env = sample_codec" by (simp add: fleet_sample_env_def)
  then show ?thesis
    using fleet_settles [OF env fleet_sample_fair(2) fleet_sample_asked_def limit(2) fleet_sample_world_def]
      fleet_sample_claims by simp
qed

end
