(* ===== verification/Json.thy ===== *)
theory Json
  imports Prelude
begin

text \<open>
  JSON values and what serde derives from a struct or an enum: how fields are written, how they are
  read back, and when reading fails. The types of the protocol crate are built from these in \<open>Wire\<close>.
  The text of JSON is serde_json's, an argument with a law.
\<close>

section \<open>Values\<close>

text \<open>
  Numbers that are not integers of 64 bits appear only in values that are passed on; they are kept as
  their text. An object is the list of its members in the order of the text, duplicates included.
\<close>

datatype json =
    JNull
  | JBool bool
  | JInt int
  | JFloat string
  | JString string
  | JArray "json list"
  | JObject "(string \<times> json) list"

text \<open>Values serde_json writes and reads back: integers of 64 bits, and not more levels than it reads.\<close>

fun plain :: "nat \<Rightarrow> json \<Rightarrow> bool" where
  "plain n (JInt i) \<longleftrightarrow> - (2 ^ 63) \<le> i \<and> i < 2 ^ 64"
| "plain n (JFloat t) \<longleftrightarrow> False"
| "plain (Suc n) (JArray vs) \<longleftrightarrow> (\<forall>v \<in> set vs. plain n v)"
| "plain (Suc n) (JObject es) \<longleftrightarrow> (\<forall>v \<in> snd ` set es. plain n v)"
| "plain 0 (JArray vs) \<longleftrightarrow> False"
| "plain 0 (JObject es) \<longleftrightarrow> False"
| "plain n v \<longleftrightarrow> True"

lemma plain_containers:
  "plain n (JArray vs) \<longleftrightarrow> 0 < n \<and> (\<forall>v \<in> set vs. plain (n - 1) v)"
  "plain n (JObject es) \<longleftrightarrow> 0 < n \<and> (\<forall>v \<in> snd ` set es. plain (n - 1) v)"
  by (cases n; simp)+

lemma plain_scalars [simp]:
  "plain n JNull" "plain n (JBool b)" "plain n (JInt i) \<longleftrightarrow> - (2 ^ 63) \<le> i \<and> i < 2 ^ 64"
  "plain n (JFloat t) \<longleftrightarrow> False" "plain n (JString s)"
  by (cases n; simp)+

lemma plain_Suc: "plain n v \<Longrightarrow> plain (Suc n) v"
  by (induction n v rule: plain.induct) auto

lemma plain_mono: "n \<le> m \<Longrightarrow> plain n v \<Longrightarrow> plain m v"
  by (induction rule: dec_induct) (auto intro: plain_Suc)

section \<open>Errors of reading\<close>

datatype serde_error =
    InvalidType
  | InvalidValue
  | InvalidText
  | InvalidLength nat
  | TrailingElements
  | UnknownField string
  | DuplicateField string
  | MissingField string
  | UnknownVariant string

type_synonym 'a reader = "json \<Rightarrow> serde_error + 'a"

section \<open>Scalars\<close>

definition read_string :: "string reader" where
  "read_string v = (case v of JString s \<Rightarrow> Inr s | _ \<Rightarrow> Inl InvalidType)"

text \<open>An unsigned integer of the type, written as the number it is.\<close>

definition write_uint :: "'a::len word \<Rightarrow> json" where
  "write_uint w = JInt (uint w)"

definition read_uint :: "'a::len word reader" where
  "read_uint v =
     (case v of
        JInt i \<Rightarrow> if 0 \<le> i \<and> i < 2 ^ LENGTH('a) then Inr (word_of_int i) else Inl InvalidValue
      | _ \<Rightarrow> Inl InvalidType)"

definition write_sint :: "'a::len word \<Rightarrow> json" where
  "write_sint w = JInt (sint w)"

definition read_sint :: "'a::len word reader" where
  "read_sint v =
     (case v of
        JInt i \<Rightarrow> if - (2 ^ (LENGTH('a) - 1)) \<le> i \<and> i < 2 ^ (LENGTH('a) - 1) then Inr (word_of_int i) else Inl InvalidValue
      | _ \<Rightarrow> Inl InvalidType)"

text \<open>A type whose form is a text, as identifiers and instants are.\<close>

definition read_text :: "(string \<Rightarrow> 'a option) \<Rightarrow> 'a reader" where
  "read_text parse v = bind_result (read_string v) (\<lambda>s. ok_or InvalidText (parse s))"

definition write_option :: "('a \<Rightarrow> json) \<Rightarrow> 'a option \<Rightarrow> json" where
  "write_option write x = (case x of None \<Rightarrow> JNull | Some y \<Rightarrow> write y)"

definition read_option :: "'a reader \<Rightarrow> 'a option reader" where
  "read_option read v = (if v = JNull then Inr None else bind_result (read v) (\<lambda>x. Inr (Some x)))"

definition write_list :: "('a \<Rightarrow> json) \<Rightarrow> 'a list \<Rightarrow> json" where
  "write_list write xs = JArray (map write xs)"

definition read_list :: "'a reader \<Rightarrow> 'a list reader" where
  "read_list read v = (case v of JArray vs \<Rightarrow> traverse_list read vs | _ \<Rightarrow> Inl InvalidType)"

text \<open>A unit variant: its name, or an object of one member with its name and null.\<close>

definition read_variant :: "(string \<times> 'a) list \<Rightarrow> 'a reader" where
  "read_variant variants v =
     (case v of
        JString s \<Rightarrow> ok_or (UnknownVariant s) (map_of variants s)
      | JObject ((s, u) # more) \<Rightarrow>
          bind_result (ok_or (UnknownVariant s) (map_of variants s)) (\<lambda>x.
            if u = JNull \<and> more = [] then Inr x else Inl InvalidValue)
      | JObject [] \<Rightarrow> Inl InvalidValue
      | _ \<Rightarrow> Inl InvalidType)"

section \<open>Structs\<close>

text \<open>
  A field's name with the check of its type. A struct is read from an object, member by member, where
  unknown and repeated names are refused as they come (\<open>deny_unknown_fields\<close>), or from an array of its
  fields in order; fields after the first \<open>required\<close> ones have a default there.
\<close>

type_synonym fields = "(string \<times> (json \<Rightarrow> serde_error option)) list"

definition checks :: "'a reader \<Rightarrow> json \<Rightarrow> serde_error option" where
  "checks read v = (case read v of Inl e \<Rightarrow> Some e | Inr _ \<Rightarrow> None)"

fun visit_map :: "fields \<Rightarrow> string list \<Rightarrow> (string \<times> json) list \<Rightarrow> serde_error option" where
  "visit_map fds seen [] = None"
| "visit_map fds seen ((name, v) # members) =
     (case map_of fds name of
        None \<Rightarrow> Some (UnknownField name)
      | Some check \<Rightarrow>
          if name \<in> set seen then Some (DuplicateField name)
          else (case check v of Some e \<Rightarrow> Some e | None \<Rightarrow> visit_map fds (name # seen) members))"

fun visit_seq :: "fields \<Rightarrow> json list \<Rightarrow> serde_error option" where
  "visit_seq ((name, check) # fds) (v # vs) = (case check v of Some e \<Rightarrow> Some e | None \<Rightarrow> visit_seq fds vs)"
| "visit_seq fds vs = None"

definition read_struct :: "fields \<Rightarrow> nat \<Rightarrow> (string \<times> json) list reader" where
  "read_struct fds required v =
     (case v of
        JObject members \<Rightarrow> (case visit_map fds [] members of Some e \<Rightarrow> Inl e | None \<Rightarrow> Inr members)
      | JArray vs \<Rightarrow>
          (case visit_seq fds vs of
             Some e \<Rightarrow> Inl e
           | None \<Rightarrow>
               if length vs < required then Inl (InvalidLength (length vs))
               else if length fds < length vs then Inl TrailingElements
               else Inr (zip (map fst fds) vs))
      | _ \<Rightarrow> Inl InvalidType)"

text \<open>A field that must be there, and one of an option type, which is absent when its member is.\<close>

definition field :: "string \<Rightarrow> 'a reader \<Rightarrow> (string \<times> json) list \<Rightarrow> serde_error + 'a" where
  "field name read members = (case map_of members name of None \<Rightarrow> Inl (MissingField name) | Some v \<Rightarrow> read v)"

definition optional_field :: "string \<Rightarrow> 'a reader \<Rightarrow> (string \<times> json) list \<Rightarrow> serde_error + 'a option" where
  "optional_field name read members =
     (case map_of members name of None \<Rightarrow> Inr None | Some v \<Rightarrow> read_option read v)"

section \<open>The text of JSON\<close>

text \<open>
  serde_json's writer, reader and the message of an error. Reading is one pass in serde_json: of a text
  with several errors it reports the first, where the model reports an error of syntax before one of
  types; either way the text is refused.
\<close>

record json_text =
  js_write :: "json \<Rightarrow> string"
  js_read :: "string \<Rightarrow> string + json"
  js_error :: "string \<Rightarrow> serde_error \<Rightarrow> string"

text \<open>What serde_json documents: a value of at most 127 levels is read back as it was written.\<close>

definition json_text_ok :: "json_text \<Rightarrow> bool" where
  "json_text_ok js \<longleftrightarrow> (\<forall>v. plain 127 v \<longrightarrow> js_read js (js_write js v) = Inr v)"

lemma json_text_okD: "json_text_ok js \<Longrightarrow> plain 127 v \<Longrightarrow> js_read js (js_write js v) = Inr v"
  by (simp add: json_text_ok_def)

definition from_text :: "json_text \<Rightarrow> 'a reader \<Rightarrow> string \<Rightarrow> string + 'a" where
  "from_text js read text' = bind_result (js_read js text') (\<lambda>v. map_err (js_error js text') (read v))"

section \<open>Reading back\<close>

text \<open>A type with its writer and reader, and the values that are read back.\<close>

locale wire_type =
  fixes to_json :: "'a \<Rightarrow> json" and from_json :: "'a reader" and fits :: "'a \<Rightarrow> bool" and depth :: nat
  assumes read_back: "fits x \<Longrightarrow> from_json (to_json x) = Inr x"
    and written_plain: "fits x \<Longrightarrow> plain depth (to_json x)"
begin

lemma plain_at: "depth \<le> n \<Longrightarrow> fits x \<Longrightarrow> plain n (to_json x)"
  by (rule plain_mono [OF _ written_plain])

lemma checked: "fits x \<Longrightarrow> checks from_json (to_json x) = None"
  by (simp add: checks_def read_back)

lemma list_read_back: "list_all fits xs \<Longrightarrow> read_list from_json (write_list to_json xs) = Inr xs"
  by (induction xs) (simp_all add: read_list_def write_list_def read_back)

lemma list_plain: "depth < n \<Longrightarrow> list_all fits xs \<Longrightarrow> plain n (write_list to_json xs)"
  by (auto simp: write_list_def list_all_iff plain_containers intro!: plain_at)

lemma option_read_back:
  "pred_option fits x \<Longrightarrow> (\<And>y. x = Some y \<Longrightarrow> to_json y \<noteq> JNull)
     \<Longrightarrow> read_option from_json (write_option to_json x) = Inr x"
  by (cases x) (simp_all add: read_option_def write_option_def read_back)

lemma option_plain: "depth \<le> n \<Longrightarrow> pred_option fits x \<Longrightarrow> plain n (write_option to_json x)"
  by (cases x) (simp_all add: write_option_def plain_at)

lemma text_read_back:
  "json_text_ok js \<Longrightarrow> depth \<le> 127 \<Longrightarrow> fits x \<Longrightarrow> from_text js from_json (js_write js (to_json x)) = Inr x"
  by (simp add: from_text_def json_text_okD plain_mono [OF _ written_plain] read_back map_err_def)

lemma text_injective:
  assumes "json_text_ok js" "depth \<le> 127" "fits x" "fits y"
  shows "js_write js (to_json x) = js_write js (to_json y) \<longleftrightarrow> x = y"
  using text_read_back [OF assms(1,2)] assms(3,4) by (metis sum.inject(2))

end

lemma read_uint_write [simp]: "read_uint (write_uint w) = Inr w"
  using uint_lt2p [of w] by (simp add: read_uint_def write_uint_def)

lemma read_uint_Inr: "read_uint v = Inr w \<longleftrightarrow> v = write_uint w"
  by (auto simp: read_uint_def write_uint_def uint_word_of_int take_bit_int_eq_self uint_lt2p split: json.splits if_splits)

lemma read_sint_write [simp]: "read_sint (write_sint w) = Inr w"
  using sint_range_size [of w] by (simp add: read_sint_def write_sint_def word_size)

lemma read_string_write [simp]: "read_string (JString s) = Inr s"
  by (simp add: read_string_def)

lemma read_text_write [simp]: "parse s = Some x \<Longrightarrow> read_text parse (JString s) = Inr x"
  by (simp add: read_text_def ok_or_def)

lemma read_option_JNull [simp]: "read_option read JNull = Inr None"
  by (simp add: read_option_def)

text \<open>
  An object whose members are known, distinct and readable is accepted, in whatever order they come;
  an object with an unknown or a repeated member is not.
\<close>

lemma visit_map_None:
  "visit_map fds seen members = None \<longleftrightarrow>
     distinct (map fst members) \<and> set seen \<inter> fst ` set members = {}
     \<and> (\<forall>(name, v) \<in> set members. \<exists>check. map_of fds name = Some check \<and> check v = None)"
  by (induction fds seen members rule: visit_map.induct) (auto split: option.split)

lemma read_struct_object:
  "read_struct fds required (JObject members) = Inr members' \<longleftrightarrow>
     members' = members \<and> distinct (map fst members)
     \<and> (\<forall>(name, v) \<in> set members. \<exists>check. map_of fds name = Some check \<and> check v = None)"
  using visit_map_None [of fds "[]" members] by (auto simp: read_struct_def split: option.split)

lemma read_struct_unknown:
  assumes "name \<in> fst ` set members" "name \<notin> fst ` set fds"
  shows "\<exists>e. read_struct fds required (JObject members) = Inl e"
proof (cases "read_struct fds required (JObject members)")
  case (Inr members')
  then have "fst ` set members \<subseteq> fst ` set fds"
    by (force simp: read_struct_object dest: map_of_SomeD)
  with assms show ?thesis by blast
qed simp

lemma field_Inr: "field name read members = Inr x \<longleftrightarrow> (\<exists>v. map_of members name = Some v \<and> read v = Inr x)"
  by (auto simp: field_def split: option.split)

lemma checks_None: "checks read v = None \<longleftrightarrow> (\<exists>x. read v = Inr x)"
  by (auto simp: checks_def split: sum.split)

lemma bind_result_Inr: "bind_result r f = Inr y \<longleftrightarrow> (\<exists>x. r = Inr x \<and> f x = Inr y)"
  by (cases r) (simp_all add: bind_result_def)

lemma bind_struct:
  "bind_result (read_struct fds n (JObject members)) f = Inr x \<longleftrightarrow>
     read_struct fds n (JObject members) = Inr members \<and> f members = Inr x"
  by (auto simp: bind_result_Inr read_struct_object)

text \<open>When every field is there and readable, an object is the struct exactly if it has no other member.\<close>

lemma read_struct_exact:
  assumes "distinct (map fst fds)"
    and "\<forall>(name, check) \<in> set fds. \<exists>v. map_of members name = Some v \<and> check v = None"
  shows "read_struct fds required (JObject members) = Inr members \<longleftrightarrow>
     distinct (map fst members) \<and> fst ` set members = fst ` set fds"
proof -
  have there: "fst ` set fds \<subseteq> fst ` set members"
    using assms(2) by (force dest: map_of_SomeD)
  have "(\<forall>(name, v) \<in> set members. \<exists>check. map_of fds name = Some check \<and> check v = None)
      \<longleftrightarrow> fst ` set members \<subseteq> fst ` set fds" if "distinct (map fst members)"
  proof
    show "fst ` set members \<subseteq> fst ` set fds"
      if "\<forall>(name, v) \<in> set members. \<exists>check. map_of fds name = Some check \<and> check v = None"
      using that by (force dest: map_of_SomeD)
    assume known: "fst ` set members \<subseteq> fst ` set fds"
    show "\<forall>(name, v) \<in> set members. \<exists>check. map_of fds name = Some check \<and> check v = None"
    proof clarify
      fix name v assume member: "(name, v) \<in> set members"
      with known obtain check where check: "(name, check) \<in> set fds" by force
      with assms(2) obtain w where w: "map_of members name = Some w" "check w = None" by blast
      from member that have "map_of members name = Some v" by (rule map_of_is_SomeI [rotated])
      with w check assms(1) show "\<exists>check. map_of fds name = Some check \<and> check v = None" by auto
    qed
  qed
  with there show ?thesis by (auto simp: read_struct_object)
qed

end
