(* ===== verification/Utf8.thy ===== *)
theory Utf8
  imports Prelude
begin

text \<open>
  What the sources use of the standard library on UTF-8: \<open>String::from_utf8\<close>,
  \<open>String::from_utf8_lossy\<close> and \<open>str::trim\<close>. A string of the model is the bytes of its text.
\<close>

section \<open>Characters and ill-formed bytes\<close>

definition continuation :: "char \<Rightarrow> bool" where
  "continuation c = (let n = (of_char c :: nat) in 128 \<le> n \<and> n < 192)"

text \<open>
  The next character of a byte string: whether it is well-formed and how many bytes it has; of an
  ill-formed one, the bytes that could begin a character.
\<close>

definition lead_width :: "nat \<Rightarrow> nat" where
  "lead_width n =
     (if 194 \<le> n \<and> n < 224 then 2 else if 224 \<le> n \<and> n < 240 then 3 else if 240 \<le> n \<and> n < 245 then 4 else 0)"

definition second_ok :: "nat \<Rightarrow> nat \<Rightarrow> bool" where
  "second_ok n m =
     (if n = 224 then 160 \<le> m \<and> m < 192
      else if n = 237 then 128 \<le> m \<and> m < 160
      else if n = 240 then 144 \<le> m \<and> m < 192
      else if n = 244 then 128 \<le> m \<and> m < 144
      else 128 \<le> m \<and> m < 192)"

definition next_utf8 :: "char \<Rightarrow> string \<Rightarrow> bool \<times> nat" where
  "next_utf8 c cs =
     (let n = (of_char c :: nat); width = lead_width n in
      if n < 128 then (True, 1)
      else if width = 0 \<or> cs = [] \<or> \<not> second_ok n (of_char (hd cs)) then (False, 1)
      else (let rest = length (takeWhile continuation (take (width - 2) (tl cs))) in
            (rest = width - 2, 2 + rest)))"

lemma next_utf8_positive: "next_utf8 c cs = (valid, k) \<Longrightarrow> 0 < k"
  by (auto simp: next_utf8_def Let_def split: if_splits)

function from_utf8_lossy :: "string \<Rightarrow> string" where
  "from_utf8_lossy [] = []"
| "from_utf8_lossy (c # cs) =
     (let (valid, k) = next_utf8 c cs in
      (if valid then take k (c # cs) else [CHR 0xEF, CHR 0xBF, CHR 0xBD]) @ from_utf8_lossy (drop k (c # cs)))"
  by pat_completeness auto

termination
proof (relation "measure length")
  fix c :: char and cs :: string and x y valid k
  assume "x = next_utf8 c cs" "(valid, k) = x"
  then have "0 < k" using next_utf8_positive [of c cs valid k] by simp
  then show "(drop k (c # cs), c # cs) \<in> measure length" by simp
qed simp

lemma from_utf8_lossy_ascii: "(\<forall>c \<in> set cs. (of_char c :: nat) < 128) \<Longrightarrow> from_utf8_lossy cs = cs"
  by (induction cs) (simp_all add: next_utf8_def)

text \<open>\<open>String::from_utf8\<close>: the bytes themselves, or nothing when some are ill-formed.\<close>

function utf8_valid :: "string \<Rightarrow> bool" where
  "utf8_valid [] = True"
| "utf8_valid (c # cs) = (let (valid, k) = next_utf8 c cs in valid \<and> utf8_valid (drop k (c # cs)))"
  by pat_completeness auto

termination
proof (relation "measure length")
  fix c :: char and cs :: string and x y valid k
  assume "x = next_utf8 c cs" "(valid, k) = x"
  then have "0 < k" using next_utf8_positive [of c cs valid k] by simp
  then show "(drop k (c # cs), c # cs) \<in> measure length" by simp
qed simp

definition from_utf8 :: "string \<Rightarrow> string option" where
  "from_utf8 bytes = (if utf8_valid bytes then Some bytes else None)"

lemma from_utf8_lossy_valid: "utf8_valid cs \<Longrightarrow> from_utf8_lossy cs = cs"
proof (induction cs rule: utf8_valid.induct)
  case (2 c cs)
  obtain valid k where next_char: "next_utf8 c cs = (valid, k)" by fastforce
  with 2 show ?case by (simp del: drop_Suc_Cons)
qed simp

section \<open>White space\<close>

text \<open>The characters of the Unicode property \<open>White_Space\<close>, each as its bytes.\<close>

definition white_space :: "string list" where
  "white_space =
     map (\<lambda>n. [char_of (n :: nat)]) [9, 10, 11, 12, 13, 32]
     @ map (map (char_of :: nat \<Rightarrow> char)) [[0xC2, 0x85], [0xC2, 0xA0], [0xE1, 0x9A, 0x80]]
     @ map (\<lambda>n. map (char_of :: nat \<Rightarrow> char) [0xE2, 0x80, n])
         [0x80, 0x81, 0x82, 0x83, 0x84, 0x85, 0x86, 0x87, 0x88, 0x89, 0x8A, 0xA8, 0xA9, 0xAF]
     @ map (map (char_of :: nat \<Rightarrow> char)) [[0xE2, 0x81, 0x9F], [0xE3, 0x80, 0x80]]"

definition starts_with :: "string \<Rightarrow> string \<Rightarrow> bool" where
  "starts_with p cs \<longleftrightarrow> take (length p) cs = p"

lemma starts_with_shorter: "p \<noteq> [] \<Longrightarrow> starts_with p cs \<Longrightarrow> length (drop (length p) cs) < length cs"
  by (cases cs) (auto simp: starts_with_def)

function trim_with :: "string list \<Rightarrow> string \<Rightarrow> string" where
  "trim_with ps cs =
     (case find (\<lambda>p. p \<noteq> [] \<and> starts_with p cs) ps of
        None \<Rightarrow> cs
      | Some p \<Rightarrow> trim_with ps (drop (length p) cs))"
  by pat_completeness auto

termination
  by (relation "measure (\<lambda>(ps, cs). length cs)")
    (auto simp: find_Some_iff simp del: length_drop intro!: starts_with_shorter)

definition trim :: "string \<Rightarrow> string" where
  "trim cs = rev (trim_with (map rev white_space) (rev (trim_with white_space cs)))"

lemma trim_with_trimmed: "p \<in> set ps \<Longrightarrow> p \<noteq> [] \<Longrightarrow> \<not> starts_with p (trim_with ps cs)"
proof (induction ps cs rule: trim_with.induct)
  case (1 ps cs)
  show ?case
  proof (cases "find (\<lambda>p. p \<noteq> [] \<and> starts_with p cs) ps")
    case None
    then have "\<not> starts_with p cs" using 1(2,3) by (auto simp: find_None_iff)
    then show ?thesis using None by (subst trim_with.simps) simp
  next
    case (Some q)
    then show ?thesis using 1(1) [OF Some 1(2,3)] by (subst trim_with.simps) simp
  qed
qed

lemma trim_with_drops: "\<exists>n. trim_with ps cs = drop n cs"
proof (induction ps cs rule: trim_with.induct)
  case (1 ps cs)
  show ?case
  proof (cases "find (\<lambda>p. p \<noteq> [] \<and> starts_with p cs) ps")
    case None
    then show ?thesis by (subst trim_with.simps) (auto intro: exI [of _ 0])
  next
    case (Some q)
    then show ?thesis using 1 [OF Some] by (subst trim_with.simps) (auto simp: drop_drop)
  qed
qed

declare trim_with.simps [simp del]

lemma starts_with_prefix: "starts_with p (take n cs) \<Longrightarrow> starts_with p cs"
  unfolding starts_with_def by (metis append_take_drop_id length_take min.absorb_iff1 min.cobounded1 take_all_iff take_append take_take)

lemma trim_trimmed:
  assumes "p \<in> set white_space"
  shows "\<not> starts_with p (trim cs)" and "\<not> starts_with (rev p) (rev (trim cs))"
proof -
  have p: "p \<noteq> []" using assms by (auto simp: white_space_def)
  obtain n where n: "trim_with (map rev white_space) (rev (trim_with white_space cs)) = drop n (rev (trim_with white_space cs))"
    using trim_with_drops by blast
  then have "trim cs = take (length (trim_with white_space cs) - n) (trim_with white_space cs)"
    by (simp add: trim_def rev_drop)
  then show "\<not> starts_with p (trim cs)"
    using trim_with_trimmed [OF assms p, of cs] starts_with_prefix by metis
  have "rev p \<in> set (map rev white_space)" using assms by simp
  then show "\<not> starts_with (rev p) (rev (trim cs))"
    using trim_with_trimmed [of "rev p" "map rev white_space"] p by (simp add: trim_def)
qed

end
