(* ===== verification/Cli.thy ===== *)
theory Cli
  imports Rpc Utf8
begin

text \<open>
  \<open>crates/control-cli/src/main.rs\<close>, the operator client: its commands, the JSON-RPC exchange of
  one of them, the lines it prints and how it reports an error. What clap parses is the input. The
  crates that write and read JSON and HTTP are the fields of \<open>client\<close>; \<open>result\<close> and \<open>error\<close> of a
  response are read by a function for each result type, as the code's \<open>DeserializeOwned\<close> is.
\<close>

section \<open>Commands\<close>

datatype OutputFormat = Human | Json

datatype HostClaimCommand =
    CreateClaim "HostClaimId option" u32 u64 u64
  | GetClaim HostClaimId
  | ListClaims
  | DeleteClaim HostClaimId

datatype SystemCommand = Info

datatype HostCommand =
    Claim HostClaimCommand
  | GetHost HostId
  | ListHosts

datatype Command =
    System SystemCommand
  | HostCommand HostCommand

record Cli =
  cli_socket_path :: string
  cli_output :: OutputFormat
  cli_command :: Command

text \<open>The reader of quantities: the crate parse_size and the text of its error.\<close>

definition parse_byte_quantity :: "(string \<Rightarrow> 'e + u64) \<Rightarrow> ('e \<Rightarrow> string) \<Rightarrow> string \<Rightarrow> string + u64" where
  "parse_byte_quantity parse_size error_text value = map_err error_text (parse_size value)"

section \<open>The JSON-RPC envelope\<close>

datatype request_params =
    EmptyParams
  | CreateParams CreateHostClaimParams
  | GetClaimParams HostClaimId
  | DeleteClaimParams HostClaimId
  | GetHostParams HostId

record JsonRpcRequest =
  rq_jsonrpc :: string
  rq_id :: string
  rq_method :: string
  rq_params :: request_params

record JsonRpcErrorObject =
  je_code :: "32 word"
  je_message :: string
  je_data :: "string option"

record 'r JsonRpcResponse =
  rs_jsonrpc :: string
  rs_id :: string
  rs_result :: "'r option"
  rs_error :: "JsonRpcErrorObject option"

section \<open>Errors\<close>

record RpcCallError =
  rpc_code :: "32 word"
  rpc_message :: string
  rpc_data :: "string option"

text \<open>
  An \<open>anyhow::Error\<close>: its chain of messages, outermost first, and the \<open>RpcCallError\<close> it was made
  from, if any, which \<open>downcast_ref\<close> finds under any context.
\<close>

record cli_error =
  ce_chain :: "string list"
  ce_rpc :: "RpcCallError option"

definition bail :: "string \<Rightarrow> cli_error + 'a" where
  "bail message = Inl \<lparr>ce_chain = [message], ce_rpc = None\<rparr>"

text \<open>\<open>context\<close> on a library's error, and on an error that already is an \<open>anyhow::Error\<close>.\<close>

definition in_context :: "string \<Rightarrow> string + 'a \<Rightarrow> cli_error + 'a" where
  "in_context message = map_err (\<lambda>cause. \<lparr>ce_chain = [message, cause], ce_rpc = None\<rparr>)"

definition add_context :: "string \<Rightarrow> cli_error + 'a \<Rightarrow> cli_error + 'a" where
  "add_context message = map_err (\<lambda>e. e\<lparr>ce_chain := message # ce_chain e\<rparr>)"

text \<open>\<open>{error:#}\<close>: the chain in one line.\<close>

fun error_line :: "string list \<Rightarrow> string" where
  "error_line [] = []"
| "error_line [m] = m"
| "error_line (m # ms) = m @ '': '' @ error_line ms"

definition call_error :: "JsonRpcErrorObject \<Rightarrow> cli_error" where
  "call_error error =
     \<lparr>ce_chain = [''RPC error '' @ int_text (sint (je_code error)) @ '': '' @ je_message error],
      ce_rpc = Some \<lparr>rpc_code = je_code error, rpc_message = je_message error, rpc_data = je_data error\<rparr>\<rparr>"

section \<open>One call\<close>

definition MAX_RESPONSE_BYTES :: nat where "MAX_RESPONSE_BYTES = 4 * 1024 * 1024"

record HttpResponse =
  http_status :: nat
  http_body :: "string + string"

text \<open>
  The libraries one call uses: the generated request identifier, serde's writer, the connection to
  the socket, the HTTP/2 handshake, the request builder, the exchange of a request for a response,
  and the text of a status code.
\<close>

record client =
  cl_request_id :: string
  cl_new_claim_id :: HostClaimId
  cl_to_vec :: "JsonRpcRequest \<Rightarrow> string + string"
  cl_connect :: "string \<Rightarrow> string + unit"
  cl_handshake :: "string + unit"
  cl_build :: "string \<Rightarrow> string + string"
  cl_send :: "string \<Rightarrow> string + HttpResponse"
  cl_status_text :: "nat \<Rightarrow> string"

text \<open>\<open>Limited\<close> around the body of a response.\<close>

definition collect_limited :: "string + string \<Rightarrow> string + string" where
  "collect_limited body =
     bind_result body (\<lambda>bytes. if MAX_RESPONSE_BYTES < length bytes then Inl ''length limit exceeded'' else Inr bytes)"

definition check_response :: "string \<Rightarrow> 'r JsonRpcResponse \<Rightarrow> cli_error + 'r" where
  "check_response request_id response =
     (if rs_jsonrpc response \<noteq> ''2.0'' then
        bail (''unsupported JSON-RPC version '' @ debug_text (rs_jsonrpc response))
      else if rs_id response \<noteq> request_id then
        bail (''JSON-RPC response ID mismatch: expected '' @ request_id @ '', received '' @ rs_id response)
      else (case (rs_result response, rs_error response) of
          (Some result, None) \<Rightarrow> Inr result
        | (None, Some error) \<Rightarrow> Inl (call_error error)
        | (Some _, Some _) \<Rightarrow> bail ''JSON-RPC response contains both result and error''
        | (None, None) \<Rightarrow> bail ''JSON-RPC response contains neither result nor error''))"

definition client_call ::
  "client \<Rightarrow> string \<Rightarrow> (string \<Rightarrow> string + 'r JsonRpcResponse) \<Rightarrow> string \<Rightarrow> request_params \<Rightarrow> cli_error + 'r" where
  "client_call cl path decode method params =
     bind_result (in_context ''serialize JSON-RPC request''
       (cl_to_vec cl \<lparr>rq_jsonrpc = ''2.0'', rq_id = cl_request_id cl, rq_method = method, rq_params = params\<rparr>)) (\<lambda>payload.
     bind_result (in_context (''connect to '' @ path) (cl_connect cl path)) (\<lambda>_.
     bind_result (in_context ''establish HTTP/2 connection over Unix socket'' (cl_handshake cl)) (\<lambda>_.
     bind_result (in_context ''build local RPC HTTP request'' (cl_build cl payload)) (\<lambda>request.
     bind_result (in_context ''send local RPC request'' (cl_send cl request)) (\<lambda>response.
     bind_result (in_context ''read bounded local RPC response'' (collect_limited (http_body response))) (\<lambda>body.
     if \<not> (200 \<le> http_status response \<and> http_status response < 300) then
       bail (''local RPC returned HTTP '' @ cl_status_text cl (http_status response) @ '': '' @ from_utf8_lossy body)
     else
       bind_result (in_context ''decode JSON-RPC response'' (decode body)) (check_response (cl_request_id cl))))))))"

section \<open>Printing\<close>

text \<open>
  \<open>println!\<close> adds a line; a printer is the lines it adds. \<open>{}\<close> of identifiers and instants is the
  text of the codec; the protocol version and counters are written as they are.
\<close>

definition status_debug :: "ConditionStatus \<Rightarrow> string" where
  "status_debug s = (case s of StatusTrue \<Rightarrow> ''True'' | StatusFalse \<Rightarrow> ''False'' | StatusUnknown \<Rightarrow> ''Unknown'')"

definition phase_debug :: "HostPhase \<Rightarrow> string" where
  "phase_debug p =
     (case p of Pending \<Rightarrow> ''Pending'' | Provisioning \<Rightarrow> ''Provisioning'' | Ready \<Rightarrow> ''Ready''
      | Deleting \<Rightarrow> ''Deleting'' | Failed \<Rightarrow> ''Failed'')"

definition word_text :: "'a::len word \<Rightarrow> string" where
  "word_text w = nat_text (unat w)"

definition print_system_info :: "codec \<Rightarrow> SystemInfoResult \<Rightarrow> string list" where
  "print_system_info cd info =
     [''system: '' @ si_system_name info, ''version: '' @ si_binary_version info,
      ''rust: '' @ si_rust_version info, ''protocol: '' @ si_protocol_version info,
      ''started: '' @ timestamp_text cd (si_started_at info)]"

definition print_resources :: "string \<Rightarrow> HostResources \<Rightarrow> string list" where
  "print_resources prefix resources =
     [prefix @ '' vcpus: '' @ word_text (vcpus resources),
      prefix @ '' memory bytes: '' @ word_text (memory_bytes resources),
      prefix @ '' storage bytes: '' @ word_text (storage_bytes resources)]"

definition print_condition :: "Condition \<Rightarrow> string" where
  "print_condition condition =
     ''  condition '' @ c_type condition @ ''='' @ status_debug (c_status condition) @ '' ('' @ c_reason condition
       @ '') '' @ c_message condition"

definition print_host_claim :: "codec \<Rightarrow> HostClaim \<Rightarrow> string list" where
  "print_host_claim cd claim =
     [''HostClaim '' @ claim_id_text cd (hc_id claim),
      ''  generation: '' @ word_text (hc_generation claim),
      ''  created: '' @ timestamp_text cd (hc_created_at claim)]
     @ (case hc_deletion_timestamp claim of None \<Rightarrow> []
        | Some timestamp \<Rightarrow> [''  deletion requested: '' @ timestamp_text cd timestamp])
     @ print_resources ''  requested'' (spec_resources (hc_spec claim))
     @ [''  host: '' @ (case hcs_host_id (hc_status claim) of None \<Rightarrow> ''-'' | Some i \<Rightarrow> host_id_text cd i)]
     @ map print_condition (hcs_conditions (hc_status claim))"

definition print_host :: "codec \<Rightarrow> Host \<Rightarrow> string list" where
  "print_host cd host =
     [''Host '' @ host_id_text cd (h_id host),
      ''  claim: '' @ claim_id_text cd (h_claim_id host),
      ''  created: '' @ timestamp_text cd (h_created_at host),
      ''  phase: '' @ phase_debug (hs_phase (h_status host)),
      ''  provider resource: '' @ (case hs_provider_resource_id (h_status host) of None \<Rightarrow> ''-'' | Some r \<Rightarrow> r)]
     @ print_resources ''  allocatable'' (h_allocatable_resources host)
     @ map print_condition (hs_conditions (h_status host))"

text \<open>\<open>for (index, item) in items.iter().enumerate()\<close>: an empty line before every item but the first.\<close>

fun print_items :: "('a \<Rightarrow> string list) \<Rightarrow> nat \<Rightarrow> 'a list \<Rightarrow> string list" where
  "print_items print index [] = []"
| "print_items print index (x # xs) = (if 0 < index then [[]] else []) @ print x @ print_items print (Suc index) xs"

definition print_host_claim_list :: "codec \<Rightarrow> HostClaim list \<Rightarrow> string list" where
  "print_host_claim_list cd items =
     (if items = [] then [''No HostClaims.''] else print_items (print_host_claim cd) 0 items)"

definition print_host_list :: "codec \<Rightarrow> Host list \<Rightarrow> string list" where
  "print_host_list cd items = (if items = [] then [''No Hosts.''] else print_items (print_host cd) 0 items)"

definition print_value ::
  "OutputFormat \<Rightarrow> ('a \<Rightarrow> string + string) \<Rightarrow> 'a \<Rightarrow> ('a \<Rightarrow> string list) \<Rightarrow> cli_error + string list" where
  "print_value format to_string_pretty value human =
     (case format of
        Human \<Rightarrow> Inr (human value)
      | Json \<Rightarrow> map_err (\<lambda>cause. \<lparr>ce_chain = [cause], ce_rpc = None\<rparr>)
                  (bind_result (to_string_pretty value) (\<lambda>line. Inr [line])))"

section \<open>Running a command\<close>

text \<open>serde's readers and writers of the result types.\<close>

record 'r wire =
  wr_decode :: "string \<Rightarrow> string + 'r JsonRpcResponse"
  wr_pretty :: "'r \<Rightarrow> string + string"

record wires =
  wires_info :: "SystemInfoResult wire"
  wires_claim :: "HostClaim wire"
  wires_claims :: "HostClaim list wire"
  wires_host :: "Host wire"
  wires_hosts :: "Host list wire"

definition call_and_print ::
  "client \<Rightarrow> Cli \<Rightarrow> 'r wire \<Rightarrow> ('r \<Rightarrow> string list) \<Rightarrow> string \<Rightarrow> request_params \<Rightarrow> cli_error + string list" where
  "call_and_print cl cli wr human method params =
     bind_result (client_call cl (cli_socket_path cli) (wr_decode wr) method params) (\<lambda>result.
       print_value (cli_output cli) (wr_pretty wr) result human)"

definition create_context :: "codec \<Rightarrow> HostClaimId \<Rightarrow> string" where
  "create_context cd claim_id =
     ''create HostClaim '' @ claim_id_text cd claim_id @ ''; retry safely with --id '' @ claim_id_text cd claim_id"

definition run_create ::
  "client \<Rightarrow> codec \<Rightarrow> HostClaim wire \<Rightarrow> Cli \<Rightarrow> HostClaimId option \<Rightarrow> u32 \<Rightarrow> u64 \<Rightarrow> u64 \<Rightarrow> cli_error + string list" where
  "run_create cl cd wr cli claim cpus memory storage =
     (let claim_id = (case claim of None \<Rightarrow> cl_new_claim_id cl | Some i \<Rightarrow> i) in
      bind_result (add_context (create_context cd claim_id)
        (client_call cl (cli_socket_path cli) (wr_decode wr) HOST_CLAIM_CREATE
          (CreateParams \<lparr>ccp_id = claim_id,
             ccp_spec = \<lparr>spec_resources = \<lparr>vcpus = cpus, memory_bytes = memory, storage_bytes = storage\<rparr>\<rparr>\<rparr>)))
      (\<lambda>result. print_value (cli_output cli) (wr_pretty wr) result (print_host_claim cd)))"

definition run :: "client \<Rightarrow> codec \<Rightarrow> wires \<Rightarrow> Cli \<Rightarrow> cli_error + string list" where
  "run cl cd ws cli =
     (case cli_command cli of
        System Info \<Rightarrow> call_and_print cl cli (wires_info ws) (print_system_info cd) SYSTEM_INFO EmptyParams
      | HostCommand (Claim (CreateClaim claim cpus memory storage)) \<Rightarrow>
          run_create cl cd (wires_claim ws) cli claim cpus memory storage
      | HostCommand (Claim (GetClaim i)) \<Rightarrow>
          call_and_print cl cli (wires_claim ws) (print_host_claim cd) HOST_CLAIM_GET (GetClaimParams i)
      | HostCommand (Claim ListClaims) \<Rightarrow>
          call_and_print cl cli (wires_claims ws) (print_host_claim_list cd) HOST_CLAIM_LIST EmptyParams
      | HostCommand (Claim (DeleteClaim i)) \<Rightarrow>
          call_and_print cl cli (wires_claim ws) (print_host_claim cd) HOST_CLAIM_DELETE (DeleteClaimParams i)
      | HostCommand (GetHost i) \<Rightarrow> call_and_print cl cli (wires_host ws) (print_host cd) HOST_GET (GetHostParams i)
      | HostCommand ListHosts \<Rightarrow>
          call_and_print cl cli (wires_hosts ws) (print_host_list cd) HOST_LIST EmptyParams)"

section \<open>Reporting an error\<close>

text \<open>The JSON object of an error: with the code and data of an RPC error, or of the client itself.\<close>

datatype error_payload =
    RpcSource (ep_code: "32 word") (ep_message: string) (ep_context: string) (ep_data: "string option")
  | ClientSource (ep_message: string)

definition error_payload_of :: "cli_error \<Rightarrow> error_payload" where
  "error_payload_of error =
     (case ce_rpc error of
        Some rpc \<Rightarrow> RpcSource (rpc_code rpc) (rpc_message rpc) (error_line (ce_chain error)) (rpc_data rpc)
      | None \<Rightarrow> ClientSource (error_line (ce_chain error)))"

definition unserialized_error :: string where
  "unserialized_error =
     (let q = [CHR 0x22] in
      ''{'' @ q @ ''error'' @ q @ '':{'' @ q @ ''source'' @ q @ '':'' @ q @ ''client'' @ q @ '','' @ q @ ''message'' @ q
        @ '':'' @ q @ ''failed to serialize error'' @ q @ ''}}'')"

definition report_error :: "(error_payload \<Rightarrow> string + string) \<Rightarrow> OutputFormat \<Rightarrow> cli_error \<Rightarrow> string" where
  "report_error to_string_pretty output error =
     (case output of
        Human \<Rightarrow> ''error: '' @ error_line (ce_chain error)
      | Json \<Rightarrow> (case to_string_pretty (error_payload_of error) of Inl _ \<Rightarrow> unserialized_error | Inr line \<Rightarrow> line))"

text \<open>What the process prints on its two streams, and its exit code.\<close>

record outcome =
  stdout :: "string list"
  stderr :: "string list"
  exit_code :: int

definition cli_main :: "client \<Rightarrow> codec \<Rightarrow> wires \<Rightarrow> (error_payload \<Rightarrow> string + string) \<Rightarrow> Cli \<Rightarrow> outcome" where
  "cli_main cl cd ws to_string_pretty cli =
     (case run cl cd ws cli of
        Inr lines \<Rightarrow> \<lparr>stdout = lines, stderr = [], exit_code = 0\<rparr>
      | Inl error \<Rightarrow> \<lparr>stdout = [], stderr = [report_error to_string_pretty (cli_output cli) error], exit_code = 1\<rparr>)"

end
