(* ===== verification/Wire.thy ===== *)
theory Wire
  imports Json Cli
begin

text \<open>
  The JSON form of the protocol: what serde derives for the types of \<open>crates/control-plane-protocol\<close>
  (\<open>ids.rs\<close>, \<open>resources.rs\<close>, \<open>rpc.rs\<close>) from their attributes, as a writer and a reader for each type.
  Every struct denies unknown fields; enums are written in snake case; identifiers are transparent.
  The texts of identifiers and instants are those of the \<open>codec\<close>.
\<close>

named_theorems wire \<open>definitions of writers and readers\<close>

lemmas [wire] = read_struct_def field_def optional_field_def checks_def

section \<open>Identifiers and instants\<close>

definition claim_id_json :: "codec \<Rightarrow> HostClaimId \<Rightarrow> json" where
  "claim_id_json cd i = JString (claim_id_text cd i)"

definition claim_id_from_json :: "codec \<Rightarrow> HostClaimId reader" where
  "claim_id_from_json cd = read_text (parse_claim_id cd)"

definition host_id_json :: "codec \<Rightarrow> HostId \<Rightarrow> json" where
  "host_id_json cd i = JString (host_id_text cd i)"

definition host_id_from_json :: "codec \<Rightarrow> HostId reader" where
  "host_id_from_json cd = read_text (parse_host_id cd)"

definition timestamp_json :: "codec \<Rightarrow> Timestamp \<Rightarrow> json" where
  "timestamp_json cd t = JString (timestamp_text cd t)"

definition timestamp_from_json :: "codec \<Rightarrow> Timestamp reader" where
  "timestamp_from_json cd = read_text (parse_timestamp_text cd)"

section \<open>Resources\<close>

definition resources_json :: "HostResources \<Rightarrow> json" where
  "resources_json r =
     JObject [(''vcpus'', write_uint (vcpus r)), (''memory_bytes'', write_uint (memory_bytes r)),
       (''storage_bytes'', write_uint (storage_bytes r))]"

definition resources_from_json :: "HostResources reader" where
  "resources_from_json v =
     bind_result (read_struct
       [(''vcpus'', checks (read_uint :: u32 reader)), (''memory_bytes'', checks (read_uint :: u64 reader)),
        (''storage_bytes'', checks (read_uint :: u64 reader))] 3 v) (\<lambda>members.
     bind_result (field ''vcpus'' read_uint members) (\<lambda>vcpus'.
     bind_result (field ''memory_bytes'' read_uint members) (\<lambda>memory_bytes'.
     bind_result (field ''storage_bytes'' read_uint members) (\<lambda>storage_bytes'.
     Inr \<lparr>vcpus = vcpus', memory_bytes = memory_bytes', storage_bytes = storage_bytes'\<rparr>))))"

definition claim_spec_json :: "HostClaimSpec \<Rightarrow> json" where
  "claim_spec_json s = JObject [(''resources'', resources_json (spec_resources s))]"

definition claim_spec_from_json :: "HostClaimSpec reader" where
  "claim_spec_from_json v =
     bind_result (read_struct [(''resources'', checks resources_from_json)] 1 v) (\<lambda>members.
     bind_result (field ''resources'' resources_from_json members) (\<lambda>resources.
     Inr \<lparr>spec_resources = resources\<rparr>))"

section \<open>Conditions\<close>

definition condition_status_json :: "ConditionStatus \<Rightarrow> json" where
  "condition_status_json s =
     JString (case s of StatusTrue \<Rightarrow> ''true'' | StatusFalse \<Rightarrow> ''false'' | StatusUnknown \<Rightarrow> ''unknown'')"

definition condition_status_from_json :: "ConditionStatus reader" where
  "condition_status_from_json =
     read_variant [(''true'', StatusTrue), (''false'', StatusFalse), (''unknown'', StatusUnknown)]"

definition condition_json :: "codec \<Rightarrow> Condition \<Rightarrow> json" where
  "condition_json cd c =
     JObject [(''type'', JString (c_type c)), (''status'', condition_status_json (c_status c)),
       (''reason'', JString (c_reason c)), (''message'', JString (c_message c)),
       (''observed_generation'', write_uint (c_observed_generation c)),
       (''last_transition_at'', timestamp_json cd (c_last_transition_at c))]"

definition condition_from_json :: "codec \<Rightarrow> Condition reader" where
  "condition_from_json cd v =
     bind_result (read_struct
       [(''type'', checks read_string), (''status'', checks condition_status_from_json),
        (''reason'', checks read_string), (''message'', checks read_string),
        (''observed_generation'', checks (read_uint :: u64 reader)),
        (''last_transition_at'', checks (timestamp_from_json cd))] 6 v) (\<lambda>members.
     bind_result (field ''type'' read_string members) (\<lambda>condition_type.
     bind_result (field ''status'' condition_status_from_json members) (\<lambda>status.
     bind_result (field ''reason'' read_string members) (\<lambda>reason.
     bind_result (field ''message'' read_string members) (\<lambda>message.
     bind_result (field ''observed_generation'' read_uint members) (\<lambda>observed_generation.
     bind_result (field ''last_transition_at'' (timestamp_from_json cd) members) (\<lambda>last_transition_at.
     Inr \<lparr>c_type = condition_type, c_status = status, c_reason = reason, c_message = message,
       c_observed_generation = observed_generation, c_last_transition_at = last_transition_at\<rparr>)))))))"

section \<open>Claims\<close>

definition claim_status_json :: "codec \<Rightarrow> HostClaimStatus \<Rightarrow> json" where
  "claim_status_json cd s =
     JObject [(''observed_generation'', write_uint (hcs_observed_generation s)),
       (''host_id'', write_option (host_id_json cd) (hcs_host_id s)),
       (''conditions'', write_list (condition_json cd) (hcs_conditions s))]"

definition claim_status_from_json :: "codec \<Rightarrow> HostClaimStatus reader" where
  "claim_status_from_json cd v =
     bind_result (read_struct
       [(''observed_generation'', checks (read_uint :: u64 reader)),
        (''host_id'', checks (read_option (host_id_from_json cd))),
        (''conditions'', checks (read_list (condition_from_json cd)))] 3 v) (\<lambda>members.
     bind_result (field ''observed_generation'' read_uint members) (\<lambda>observed_generation.
     bind_result (optional_field ''host_id'' (host_id_from_json cd) members) (\<lambda>host_id.
     bind_result (field ''conditions'' (read_list (condition_from_json cd)) members) (\<lambda>conditions.
     Inr \<lparr>hcs_observed_generation = observed_generation, hcs_host_id = host_id, hcs_conditions = conditions\<rparr>))))"

definition claim_json :: "codec \<Rightarrow> HostClaim \<Rightarrow> json" where
  "claim_json cd c =
     JObject [(''id'', claim_id_json cd (hc_id c)), (''generation'', write_uint (hc_generation c)),
       (''created_at'', timestamp_json cd (hc_created_at c)),
       (''deletion_timestamp'', write_option (timestamp_json cd) (hc_deletion_timestamp c)),
       (''spec'', claim_spec_json (hc_spec c)), (''status'', claim_status_json cd (hc_status c))]"

definition claim_from_json :: "codec \<Rightarrow> HostClaim reader" where
  "claim_from_json cd v =
     bind_result (read_struct
       [(''id'', checks (claim_id_from_json cd)), (''generation'', checks (read_uint :: u64 reader)),
        (''created_at'', checks (timestamp_from_json cd)),
        (''deletion_timestamp'', checks (read_option (timestamp_from_json cd))),
        (''spec'', checks claim_spec_from_json), (''status'', checks (claim_status_from_json cd))] 6 v) (\<lambda>members.
     bind_result (field ''id'' (claim_id_from_json cd) members) (\<lambda>claim_id.
     bind_result (field ''generation'' read_uint members) (\<lambda>generation.
     bind_result (field ''created_at'' (timestamp_from_json cd) members) (\<lambda>created_at.
     bind_result (optional_field ''deletion_timestamp'' (timestamp_from_json cd) members) (\<lambda>deletion_timestamp.
     bind_result (field ''spec'' claim_spec_from_json members) (\<lambda>spec.
     bind_result (field ''status'' (claim_status_from_json cd) members) (\<lambda>status.
     Inr \<lparr>hc_id = claim_id, hc_generation = generation, hc_created_at = created_at,
       hc_deletion_timestamp = deletion_timestamp, hc_spec = spec, hc_status = status\<rparr>)))))))"

section \<open>Hosts\<close>

definition host_phase_json :: "HostPhase \<Rightarrow> json" where
  "host_phase_json p =
     JString (case p of Pending \<Rightarrow> ''pending'' | Provisioning \<Rightarrow> ''provisioning'' | Ready \<Rightarrow> ''ready''
       | Deleting \<Rightarrow> ''deleting'' | Failed \<Rightarrow> ''failed'')"

definition host_phase_from_json :: "HostPhase reader" where
  "host_phase_from_json =
     read_variant [(''pending'', Pending), (''provisioning'', Provisioning), (''ready'', Ready),
       (''deleting'', Deleting), (''failed'', Failed)]"

definition host_status_json :: "codec \<Rightarrow> HostStatus \<Rightarrow> json" where
  "host_status_json cd s =
     JObject [(''phase'', host_phase_json (hs_phase s)),
       (''provider_resource_id'', write_option JString (hs_provider_resource_id s)),
       (''observed_at'', write_option (timestamp_json cd) (hs_observed_at s)),
       (''conditions'', write_list (condition_json cd) (hs_conditions s))]"

definition host_status_from_json :: "codec \<Rightarrow> HostStatus reader" where
  "host_status_from_json cd v =
     bind_result (read_struct
       [(''phase'', checks host_phase_from_json), (''provider_resource_id'', checks (read_option read_string)),
        (''observed_at'', checks (read_option (timestamp_from_json cd))),
        (''conditions'', checks (read_list (condition_from_json cd)))] 4 v) (\<lambda>members.
     bind_result (field ''phase'' host_phase_from_json members) (\<lambda>phase.
     bind_result (optional_field ''provider_resource_id'' read_string members) (\<lambda>provider_resource_id.
     bind_result (optional_field ''observed_at'' (timestamp_from_json cd) members) (\<lambda>observed_at.
     bind_result (field ''conditions'' (read_list (condition_from_json cd)) members) (\<lambda>conditions.
     Inr \<lparr>hs_phase = phase, hs_provider_resource_id = provider_resource_id, hs_observed_at = observed_at,
       hs_conditions = conditions\<rparr>)))))"

definition host_json :: "codec \<Rightarrow> Host \<Rightarrow> json" where
  "host_json cd h =
     JObject [(''id'', host_id_json cd (h_id h)), (''claim_id'', claim_id_json cd (h_claim_id h)),
       (''created_at'', timestamp_json cd (h_created_at h)),
       (''allocatable_resources'', resources_json (h_allocatable_resources h)),
       (''status'', host_status_json cd (h_status h))]"

definition host_from_json :: "codec \<Rightarrow> Host reader" where
  "host_from_json cd v =
     bind_result (read_struct
       [(''id'', checks (host_id_from_json cd)), (''claim_id'', checks (claim_id_from_json cd)),
        (''created_at'', checks (timestamp_from_json cd)), (''allocatable_resources'', checks resources_from_json),
        (''status'', checks (host_status_from_json cd))] 5 v) (\<lambda>members.
     bind_result (field ''id'' (host_id_from_json cd) members) (\<lambda>host_id.
     bind_result (field ''claim_id'' (claim_id_from_json cd) members) (\<lambda>claim_id.
     bind_result (field ''created_at'' (timestamp_from_json cd) members) (\<lambda>created_at.
     bind_result (field ''allocatable_resources'' resources_from_json members) (\<lambda>allocatable_resources.
     bind_result (field ''status'' (host_status_from_json cd) members) (\<lambda>status.
     Inr \<lparr>h_id = host_id, h_claim_id = claim_id, h_created_at = created_at,
       h_allocatable_resources = allocatable_resources, h_status = status\<rparr>))))))"

section \<open>Parameters\<close>

definition empty_params_json :: json where
  "empty_params_json = JObject []"

definition empty_params_from_json :: "unit reader" where
  "empty_params_from_json v = bind_result (read_struct [] 0 v) (\<lambda>_. Inr ())"

definition create_params_json :: "codec \<Rightarrow> CreateHostClaimParams \<Rightarrow> json" where
  "create_params_json cd p =
     JObject [(''id'', claim_id_json cd (ccp_id p)), (''spec'', claim_spec_json (ccp_spec p))]"

definition create_params_from_json :: "codec \<Rightarrow> CreateHostClaimParams reader" where
  "create_params_from_json cd v =
     bind_result (read_struct [(''id'', checks (claim_id_from_json cd)), (''spec'', checks claim_spec_from_json)] 2 v) (\<lambda>members.
     bind_result (field ''id'' (claim_id_from_json cd) members) (\<lambda>claim_id.
     bind_result (field ''spec'' claim_spec_from_json members) (\<lambda>spec.
     Inr \<lparr>ccp_id = claim_id, ccp_spec = spec\<rparr>)))"

definition get_claim_params_json :: "codec \<Rightarrow> HostClaimId \<Rightarrow> json" where
  "get_claim_params_json cd i = JObject [(''id'', claim_id_json cd i)]"

definition get_claim_params_from_json :: "codec \<Rightarrow> HostClaimId reader" where
  "get_claim_params_from_json cd v =
     bind_result (read_struct [(''id'', checks (claim_id_from_json cd))] 1 v) (field ''id'' (claim_id_from_json cd))"

definition delete_claim_params_json :: "codec \<Rightarrow> HostClaimId \<Rightarrow> json" where
  "delete_claim_params_json cd i = JObject [(''id'', claim_id_json cd i)]"

definition delete_claim_params_from_json :: "codec \<Rightarrow> HostClaimId reader" where
  "delete_claim_params_from_json cd v =
     bind_result (read_struct [(''id'', checks (claim_id_from_json cd))] 1 v) (field ''id'' (claim_id_from_json cd))"

definition get_host_params_json :: "codec \<Rightarrow> HostId \<Rightarrow> json" where
  "get_host_params_json cd i = JObject [(''id'', host_id_json cd i)]"

definition get_host_params_from_json :: "codec \<Rightarrow> HostId reader" where
  "get_host_params_from_json cd v =
     bind_result (read_struct [(''id'', checks (host_id_from_json cd))] 1 v) (field ''id'' (host_id_from_json cd))"

section \<open>Results\<close>

definition system_info_json :: "codec \<Rightarrow> SystemInfoResult \<Rightarrow> json" where
  "system_info_json cd r =
     JObject [(''system_name'', JString (si_system_name r)), (''binary_version'', JString (si_binary_version r)),
       (''rust_version'', JString (si_rust_version r)), (''protocol_version'', JString (si_protocol_version r)),
       (''started_at'', timestamp_json cd (si_started_at r))]"

definition system_info_from_json :: "codec \<Rightarrow> SystemInfoResult reader" where
  "system_info_from_json cd v =
     bind_result (read_struct
       [(''system_name'', checks read_string), (''binary_version'', checks read_string),
        (''rust_version'', checks read_string), (''protocol_version'', checks read_string),
        (''started_at'', checks (timestamp_from_json cd))] 5 v) (\<lambda>members.
     bind_result (field ''system_name'' read_string members) (\<lambda>system_name.
     bind_result (field ''binary_version'' read_string members) (\<lambda>binary_version.
     bind_result (field ''rust_version'' read_string members) (\<lambda>rust_version.
     bind_result (field ''protocol_version'' read_string members) (\<lambda>protocol_version.
     bind_result (field ''started_at'' (timestamp_from_json cd) members) (\<lambda>started_at.
     Inr \<lparr>si_system_name = system_name, si_binary_version = binary_version, si_rust_version = rust_version,
       si_protocol_version = protocol_version, si_started_at = started_at\<rparr>))))))"

definition claim_list_json :: "codec \<Rightarrow> HostClaim list \<Rightarrow> json" where
  "claim_list_json cd items = JObject [(''items'', write_list (claim_json cd) items)]"

definition claim_list_from_json :: "codec \<Rightarrow> HostClaim list reader" where
  "claim_list_from_json cd v =
     bind_result (read_struct [(''items'', checks (read_list (claim_from_json cd)))] 1 v)
       (field ''items'' (read_list (claim_from_json cd)))"

definition host_list_json :: "codec \<Rightarrow> Host list \<Rightarrow> json" where
  "host_list_json cd items = JObject [(''items'', write_list (host_json cd) items)]"

definition host_list_from_json :: "codec \<Rightarrow> Host list reader" where
  "host_list_from_json cd v =
     bind_result (read_struct [(''items'', checks (read_list (host_from_json cd)))] 1 v)
       (field ''items'' (read_list (host_from_json cd)))"

section \<open>Errors\<close>

definition error_kind_json :: "RpcErrorKind \<Rightarrow> json" where
  "error_kind_json k =
     JString (case k of InvalidArgumentKind \<Rightarrow> ''invalid_argument'' | NotFoundKind \<Rightarrow> ''not_found''
       | ConflictKind \<Rightarrow> ''conflict'' | UnavailableKind \<Rightarrow> ''unavailable'' | InternalKind \<Rightarrow> ''internal'')"

definition error_kind_from_json :: "RpcErrorKind reader" where
  "error_kind_from_json =
     read_variant [(''invalid_argument'', InvalidArgumentKind), (''not_found'', NotFoundKind),
       (''conflict'', ConflictKind), (''unavailable'', UnavailableKind), (''internal'', InternalKind)]"

text \<open>A \<open>serde_json::Value\<close> is kept as its text.\<close>

definition value_json :: "json_text \<Rightarrow> string \<Rightarrow> json" where
  "value_json js t = (case js_read js t of Inr v \<Rightarrow> v | Inl _ \<Rightarrow> JNull)"

definition value_from_json :: "json_text \<Rightarrow> string reader" where
  "value_from_json js v = Inr (js_write js v)"

definition error_data_json :: "json_text \<Rightarrow> RpcErrorData \<Rightarrow> json" where
  "error_data_json js d =
     JObject [(''kind'', error_kind_json (ed_kind d)), (''resource_id'', write_option JString (ed_resource_id d)),
       (''details'', write_option (value_json js) (ed_details d))]"

definition error_data_from_json :: "json_text \<Rightarrow> RpcErrorData reader" where
  "error_data_from_json js v =
     bind_result (read_struct
       [(''kind'', checks error_kind_from_json), (''resource_id'', checks (read_option read_string)),
        (''details'', checks (read_option (value_from_json js)))] 3 v) (\<lambda>members.
     bind_result (field ''kind'' error_kind_from_json members) (\<lambda>kind.
     bind_result (optional_field ''resource_id'' read_string members) (\<lambda>resource_id.
     bind_result (optional_field ''details'' (value_from_json js) members) (\<lambda>details.
     Inr \<lparr>ed_kind = kind, ed_resource_id = resource_id, ed_details = details\<rparr>))))"

section \<open>The envelope\<close>

definition request_params_json :: "codec \<Rightarrow> request_params \<Rightarrow> json" where
  "request_params_json cd params =
     (case params of
        EmptyParams \<Rightarrow> empty_params_json
      | CreateParams p \<Rightarrow> create_params_json cd p
      | GetClaimParams i \<Rightarrow> get_claim_params_json cd i
      | DeleteClaimParams i \<Rightarrow> delete_claim_params_json cd i
      | GetHostParams i \<Rightarrow> get_host_params_json cd i)"

definition request_json :: "codec \<Rightarrow> JsonRpcRequest \<Rightarrow> json" where
  "request_json cd rq =
     JObject [(''jsonrpc'', JString (rq_jsonrpc rq)), (''id'', JString (rq_id rq)), (''method'', JString (rq_method rq)),
       (''params'', request_params_json cd (rq_params rq))]"

definition error_object_from_json :: "json_text \<Rightarrow> JsonRpcErrorObject reader" where
  "error_object_from_json js v =
     bind_result (read_struct
       [(''code'', checks (read_sint :: 32 word reader)), (''message'', checks read_string),
        (''data'', checks (read_option (value_from_json js)))] 2 v) (\<lambda>members.
     bind_result (field ''code'' read_sint members) (\<lambda>code.
     bind_result (field ''message'' read_string members) (\<lambda>message.
     bind_result (optional_field ''data'' (value_from_json js) members) (\<lambda>data.
     Inr \<lparr>je_code = code, je_message = message, je_data = data\<rparr>))))"

definition response_from_json :: "json_text \<Rightarrow> 'r reader \<Rightarrow> 'r JsonRpcResponse reader" where
  "response_from_json js read v =
     bind_result (read_struct
       [(''jsonrpc'', checks read_string), (''id'', checks read_string), (''result'', checks (read_option read)),
        (''error'', checks (read_option (error_object_from_json js)))] 4 v) (\<lambda>members.
     bind_result (field ''jsonrpc'' read_string members) (\<lambda>jsonrpc.
     bind_result (field ''id'' read_string members) (\<lambda>response_id.
     bind_result (optional_field ''result'' read members) (\<lambda>result.
     bind_result (optional_field ''error'' (error_object_from_json js) members) (\<lambda>error.
     Inr \<lparr>rs_jsonrpc = jsonrpc, rs_id = response_id, rs_result = result, rs_error = error\<rparr>)))))"

section \<open>Where the program reads and writes JSON\<close>

text \<open>The conditions column of both tables, \<open>serde_json::to_string\<close> and \<open>from_str\<close> in \<open>storage.rs\<close>.\<close>

definition wire_codec :: "json_text \<Rightarrow> codec \<Rightarrow> codec" where
  "wire_codec js cd = cd
     \<lparr>conditions_to_json := (\<lambda>cs. Some (js_write js (write_list (condition_json cd) cs))),
      conditions_from_json := (\<lambda>s. case from_text js (read_list (condition_from_json cd)) s of Inl _ \<Rightarrow> None | Inr cs \<Rightarrow> Some cs)\<rparr>"

text \<open>The parameters of the server's methods, \<open>Params::parse\<close> in \<open>rpc.rs\<close>.\<close>

definition wire_params :: "json_text \<Rightarrow> codec \<Rightarrow> params_codec" where
  "wire_params js cd =
     \<lparr>parse_empty_params = from_text js empty_params_from_json,
      parse_create_params = from_text js (create_params_from_json cd),
      parse_claim_params = from_text js (get_claim_params_from_json cd),
      parse_host_params = from_text js (get_host_params_from_json cd)\<rparr>"

text \<open>The responses the client reads and the results it prints as JSON; \<open>pretty\<close> is serde_json's.\<close>

definition wire_result :: "json_text \<Rightarrow> (json \<Rightarrow> string) \<Rightarrow> ('r \<Rightarrow> json) \<Rightarrow> 'r reader \<Rightarrow> 'r wire" where
  "wire_result js pretty to_json from_json =
     \<lparr>wr_decode = from_text js (response_from_json js from_json), wr_pretty = (\<lambda>r. Inr (pretty (to_json r)))\<rparr>"

definition wire_results :: "json_text \<Rightarrow> (json \<Rightarrow> string) \<Rightarrow> codec \<Rightarrow> wires" where
  "wire_results js pretty cd =
     \<lparr>wires_info = wire_result js pretty (system_info_json cd) (system_info_from_json cd),
      wires_claim = wire_result js pretty (claim_json cd) (claim_from_json cd),
      wires_claims = wire_result js pretty (claim_list_json cd) (claim_list_from_json cd),
      wires_host = wire_result js pretty (host_json cd) (host_from_json cd),
      wires_hosts = wire_result js pretty (host_list_json cd) (host_list_from_json cd)\<rparr>"

end
