(* ===== verification/Wire_Facts.thy ===== *)
theory Wire_Facts
  imports Wire
begin

text \<open>
  What is read back of the protocol's types: an interpretation of \<open>wire_type\<close> for each of them.
\<close>

section \<open>Reading back\<close>

text \<open>What the crates uuid and jiff document of their texts.\<close>

definition texts_ok :: "codec \<Rightarrow> bool" where
  "texts_ok cd \<longleftrightarrow>
     (\<forall>i. parse_claim_id cd (claim_id_text cd i) = Some i)
     \<and> (\<forall>i. parse_host_id cd (host_id_text cd i) = Some i)
     \<and> (\<forall>t. parse_timestamp_text cd (timestamp_text cd t) = Some t)"

lemma texts_okD:
  assumes "texts_ok cd"
  shows "parse_claim_id cd (claim_id_text cd i) = Some i" "parse_host_id cd (host_id_text cd h) = Some h"
    "parse_timestamp_text cd (timestamp_text cd t) = Some t"
  using assms by (simp_all add: texts_ok_def)

lemma codec_texts_ok: "codec_ok cd \<Longrightarrow> texts_ok cd"
  by (simp add: codec_ok_def texts_ok_def)

lemma uint_above: "- (2 ^ 63) \<le> uint w"
  by (rule order_trans [OF _ uint_ge_0]) simp

lemma plain_u32 [simp]: "plain n (write_uint (w :: u32))"
  using uint_lt2p [of w] uint_above [of w] by (simp add: write_uint_def)

lemma plain_u64 [simp]: "plain n (write_uint (w :: u64))"
  using uint_lt2p [of w] uint_above [of w] by (simp add: write_uint_def)

interpretation claim_id_wire: wire_type "claim_id_json cd" "claim_id_from_json cd" "\<lambda>_. texts_ok cd" 0 for cd
  by unfold_locales (simp_all add: claim_id_json_def claim_id_from_json_def texts_okD)

interpretation host_id_wire: wire_type "host_id_json cd" "host_id_from_json cd" "\<lambda>_. texts_ok cd" 0 for cd
  by unfold_locales (simp_all add: host_id_json_def host_id_from_json_def texts_okD)

interpretation timestamp_wire: wire_type "timestamp_json cd" "timestamp_from_json cd" "\<lambda>_. texts_ok cd" 0 for cd
  by unfold_locales (simp_all add: timestamp_json_def timestamp_from_json_def texts_okD)

interpretation string_wire: wire_type JString read_string "\<lambda>_. True" 0
  by unfold_locales simp_all

text \<open>Identifiers and instants are texts, so an option of one is null only when it is none.\<close>

lemma id_texts [simp]:
  "claim_id_json cd i \<noteq> JNull" "host_id_json cd h \<noteq> JNull" "timestamp_json cd t \<noteq> JNull"
  "plain n (claim_id_json cd i)" "plain n (host_id_json cd h)" "plain n (timestamp_json cd t)"
  by (simp_all add: claim_id_json_def host_id_json_def timestamp_json_def)

lemma text_options [simp]:
  "plain n (write_option (host_id_json cd) a)" "plain n (write_option (timestamp_json cd) b)"
  "plain n (write_option JString c)"
  by (simp_all add: write_option_def split: option.split)

lemma string_option_read_back [simp]: "read_option read_string (write_option JString c) = Inr c"
  using string_wire.option_read_back [of c] by (simp add: option.pred_set)

lemma texts_read_back:
  assumes "texts_ok cd"
  shows "claim_id_from_json cd (claim_id_json cd i) = Inr i" "host_id_from_json cd (host_id_json cd h) = Inr h"
    "timestamp_from_json cd (timestamp_json cd t) = Inr t"
    "read_option (host_id_from_json cd) (write_option (host_id_json cd) a) = Inr a"
    "read_option (timestamp_from_json cd) (write_option (timestamp_json cd) b) = Inr b"
  using assms host_id_wire.option_read_back [of cd a] timestamp_wire.option_read_back [of cd b]
  by (simp_all add: claim_id_wire.read_back host_id_wire.read_back timestamp_wire.read_back option.pred_set)

section \<open>Structs and enums\<close>

interpretation resources_wire: wire_type resources_json resources_from_json "\<lambda>_. True" 1
  by unfold_locales (simp_all add: resources_json_def resources_from_json_def wire plain_containers)

interpretation claim_spec_wire: wire_type claim_spec_json claim_spec_from_json "\<lambda>_. True" 2
  by unfold_locales
    (simp_all add: claim_spec_json_def claim_spec_from_json_def wire plain_containers
      resources_wire.read_back resources_wire.plain_at)

interpretation condition_status_wire: wire_type condition_status_json condition_status_from_json "\<lambda>_. True" 0
  by unfold_locales
    (simp_all add: condition_status_json_def condition_status_from_json_def read_variant_def ok_or_def split: ConditionStatus.split)

interpretation host_phase_wire: wire_type host_phase_json host_phase_from_json "\<lambda>_. True" 0
  by unfold_locales
    (simp_all add: host_phase_json_def host_phase_from_json_def read_variant_def ok_or_def split: HostPhase.split)

interpretation error_kind_wire: wire_type error_kind_json error_kind_from_json "\<lambda>_. True" 0
  by unfold_locales
    (simp_all add: error_kind_json_def error_kind_from_json_def read_variant_def ok_or_def split: RpcErrorKind.split)

interpretation condition_wire: wire_type "condition_json cd" "condition_from_json cd" "\<lambda>_. texts_ok cd" 1 for cd
  by unfold_locales
    (simp_all add: condition_json_def condition_from_json_def wire plain_containers texts_read_back
      condition_status_wire.read_back condition_status_wire.plain_at)

lemma conditions_wire:
  assumes "texts_ok cd"
  shows "read_list (condition_from_json cd) (write_list (condition_json cd) cs) = Inr cs"
    and "1 < n \<Longrightarrow> plain n (write_list (condition_json cd) cs)"
  using assms condition_wire.list_read_back [of cd cs] condition_wire.list_plain [of n cd cs] by (simp_all add: list_all_iff)

interpretation claim_status_wire: wire_type "claim_status_json cd" "claim_status_from_json cd" "\<lambda>_. texts_ok cd" 3 for cd
  by unfold_locales
    (simp_all add: claim_status_json_def claim_status_from_json_def wire plain_containers texts_read_back conditions_wire)

interpretation claim_wire: wire_type "claim_json cd" "claim_from_json cd" "\<lambda>_. texts_ok cd" 4 for cd
  by unfold_locales
    (simp_all add: claim_json_def claim_from_json_def wire plain_containers texts_read_back claim_spec_wire.read_back
      claim_spec_wire.plain_at claim_status_wire.read_back claim_status_wire.plain_at)

interpretation host_status_wire: wire_type "host_status_json cd" "host_status_from_json cd" "\<lambda>_. texts_ok cd" 3 for cd
  by unfold_locales
    (simp_all add: host_status_json_def host_status_from_json_def wire plain_containers texts_read_back conditions_wire
      host_phase_wire.read_back host_phase_wire.plain_at)

interpretation host_wire: wire_type "host_json cd" "host_from_json cd" "\<lambda>_. texts_ok cd" 4 for cd
  by unfold_locales
    (simp_all add: host_json_def host_from_json_def wire plain_containers texts_read_back resources_wire.read_back
      resources_wire.plain_at host_status_wire.read_back host_status_wire.plain_at)

section \<open>Parameters and results\<close>

interpretation empty_params_wire: wire_type "\<lambda>_. empty_params_json" empty_params_from_json "\<lambda>_. True" 1
  by unfold_locales (simp_all add: empty_params_json_def empty_params_from_json_def wire plain_containers)

interpretation create_params_wire: wire_type "create_params_json cd" "create_params_from_json cd" "\<lambda>_. texts_ok cd" 3 for cd
  by unfold_locales
    (simp_all add: create_params_json_def create_params_from_json_def wire plain_containers texts_read_back
      claim_spec_wire.read_back claim_spec_wire.plain_at)

interpretation get_claim_params_wire: wire_type "get_claim_params_json cd" "get_claim_params_from_json cd" "\<lambda>_. texts_ok cd" 1 for cd
  by unfold_locales
    (simp_all add: get_claim_params_json_def get_claim_params_from_json_def wire plain_containers texts_read_back)

interpretation delete_claim_params_wire:
  wire_type "delete_claim_params_json cd" "delete_claim_params_from_json cd" "\<lambda>_. texts_ok cd" 1 for cd
  by unfold_locales
    (simp_all add: delete_claim_params_json_def delete_claim_params_from_json_def wire plain_containers texts_read_back)

interpretation get_host_params_wire: wire_type "get_host_params_json cd" "get_host_params_from_json cd" "\<lambda>_. texts_ok cd" 1 for cd
  by unfold_locales
    (simp_all add: get_host_params_json_def get_host_params_from_json_def wire plain_containers texts_read_back)

interpretation system_info_wire: wire_type "system_info_json cd" "system_info_from_json cd" "\<lambda>_. texts_ok cd" 1 for cd
  by unfold_locales
    (simp_all add: system_info_json_def system_info_from_json_def wire plain_containers texts_read_back)

lemma claims_wire:
  assumes "texts_ok cd"
  shows "read_list (claim_from_json cd) (write_list (claim_json cd) cs) = Inr cs"
    and "4 < n \<Longrightarrow> plain n (write_list (claim_json cd) cs)"
  using assms claim_wire.list_read_back [of cd cs] claim_wire.list_plain [of n cd cs] by (simp_all add: list_all_iff)

lemma hosts_wire:
  assumes "texts_ok cd"
  shows "read_list (host_from_json cd) (write_list (host_json cd) hs) = Inr hs"
    and "4 < n \<Longrightarrow> plain n (write_list (host_json cd) hs)"
  using assms host_wire.list_read_back [of cd hs] host_wire.list_plain [of n cd hs] by (simp_all add: list_all_iff)

interpretation claim_list_wire: wire_type "claim_list_json cd" "claim_list_from_json cd" "\<lambda>_. texts_ok cd" 6 for cd
  by unfold_locales
    (simp_all add: claim_list_json_def claim_list_from_json_def wire plain_containers claims_wire)

interpretation host_list_wire: wire_type "host_list_json cd" "host_list_from_json cd" "\<lambda>_. texts_ok cd" 6 for cd
  by unfold_locales
    (simp_all add: host_list_json_def host_list_from_json_def wire plain_containers hosts_wire)

text \<open>The server's errors carry no details; with details, their text must be one a value was written as.\<close>

interpretation error_data_wire: wire_type "error_data_json js" "error_data_from_json js" "\<lambda>d. ed_details d = None" 1 for js
  by unfold_locales
    (simp_all add: error_data_json_def error_data_from_json_def wire plain_containers texts_read_back error_kind_wire.read_back
      error_kind_wire.plain_at write_option_def [of "value_json js"])

end
