(* ===== verification/Rpc_Properties.thy ===== *)
theory Rpc_Properties
  imports Lifecycle
begin

text \<open>
  The properties of the RPC methods: what an answer promises its caller, which messages can change
  anything, and what errors reveal.
\<close>

section \<open>Errors\<close>

text \<open>An effect whose errors all come from \<open>into_rpc_error\<close>.\<close>

definition rpc_errors :: "('p, ErrorObject, 'a) effect \<Rightarrow> bool" where
  "rpc_errors m \<longleftrightarrow> (\<forall>w e w'. m w = (Inl e, w') \<longrightarrow> e \<in> range into_rpc_error)"

named_theorems rpc_errors_intro \<open>effects whose errors come from into_rpc_error\<close>

lemma rpc_errors_and_then [rpc_errors_intro]:
  assumes "rpc_errors m" and "\<And>x. rpc_errors (f x)"
  shows "rpc_errors (and_then m f)"
  using assms by (auto simp: rpc_errors_def and_then_def split: prod.splits sum.splits)

lemma rpc_errors_basic [rpc_errors_intro]:
  "rpc_errors (ok x)" "rpc_errors wake" "rpc_errors (parse_params parser params)"
  "rpc_errors (map_oper_err into_rpc_error m)"
  by (auto simp: rpc_errors_def wake_def ok_def parse_params_def lift_result_def map_err_def map_oper_err_def
      split: sum.splits prod.splits)

lemma handler_rpc_errors:
  assumes "rpc_module name = Some handler"
  shows "rpc_errors (handler E io params)"
proof -
  consider "handler = system_info" | "handler = host_claim_create" | "handler = host_claim_get"
    | "handler = host_claim_list" | "handler = host_claim_delete" | "handler = host_get" | "handler = host_list"
    using assms by (auto simp: rpc_module_def split: if_splits)
  then show ?thesis
    by cases
      (simp_all add: system_info_def host_claim_create_def host_claim_get_def host_claim_list_def
        host_claim_delete_def host_get_def host_list_def rpc_errors_intro)
qed

lemma serve_message_error:
  assumes "serve_message E io message w = (Some (Inl e), w')"
  obtains err where "e = into_rpc_error err"
proof -
  obtain name params handler where "rpc_module name = Some handler" "handler E io params w = (Inl e, w')"
    using assms by (auto simp: serve_message_def split: rpc_message.splits option.splits prod.splits)
  then have "e \<in> range into_rpc_error" using handler_rpc_errors by (fastforce simp: rpc_errors_def)
  then show ?thesis using that by blast
qed

text \<open>
  C32: Every error a method answers with is one of the protocol's four, its code and its kind agree,
  only a missing or conflicting resource is named, and an internal failure is answered with one
  fixed text: no detail of the database or of a library reaches a client.
\<close>

theorem rpc_errors_classified:
  assumes "serve_message E io message w = (Some (Inl e), w')"
  shows "(\<exists>kind id. eo_data e = Some \<lparr>ed_kind = kind, ed_resource_id = id, ed_details = None\<rparr>
      \<and> (eo_code e, kind) \<in> {(-32100, InvalidArgumentKind), (-32101, NotFoundKind), (-32102, ConflictKind), (-32603, InternalKind)}
      \<and> (id \<noteq> None \<longleftrightarrow> kind \<in> {NotFoundKind, ConflictKind})
      \<and> (kind = InternalKind \<longrightarrow> eo_message e = ''Internal error''))"
proof -
  obtain err where "e = into_rpc_error err" by (rule serve_message_error [OF assms])
  then show ?thesis
    by (cases err) (simp_all add: into_rpc_error_def INVALID_ARGUMENT_CODE_def NOT_FOUND_CODE_def CONFLICT_CODE_def
        INTERNAL_ERROR_CODE_def)
qed

text \<open>A get of the sample claim while the database fails.\<close>

definition sample_failing_io :: io where
  "sample_failing_io = sample_io\<lparr>io_fault := (\<lambda>_. RolledBack)\<rparr>"

theorem rpc_errors_classified_witness:
  "\<exists>e w'. serve_message sample_env sample_failing_io (Call HOST_CLAIM_GET ''{}'') sample_ready_world = (Some (Inl e), w')
     \<and> eo_message e = ''Internal error''"
proof -
  let ?w = sample_ready_world
  have run: "serve_message sample_env sample_failing_io (Call HOST_CLAIM_GET ''{}'') ?w
      = (Some (Inl (into_rpc_error (internal ''sqlx''))), ?w)"
    by (simp add: serve_message_def rpc_module_registered host_claim_get_def parse_params_def lift_result_def and_then_def
        map_oper_err_def on_db_def get_claim_def on_pool_def query_pool_def database_call_def sample_failing_io_def sample_env_def sample_params_def)
  have "eo_code (into_rpc_error (internal ''sqlx'')) = -32603"
    by (simp add: into_rpc_error_def internal_def INTERNAL_ERROR_CODE_def)
  with rpc_errors_classified [OF run] run show ?thesis by fastforce
qed

section \<open>Effects\<close>

text \<open>An effect that leaves the whole world as it is.\<close>

definition reads_only :: "('p, 'e, 'a) effect \<Rightarrow> bool" where
  "reads_only m \<longleftrightarrow> (\<forall>w. snd (m w) = w)"

named_theorems reads_only_intro \<open>effects that leave the world as it is\<close>

lemma reads_only_and_then [reads_only_intro]:
  assumes "reads_only m" and "\<And>x. reads_only (f x)"
  shows "reads_only (and_then m f)"
  unfolding reads_only_def
proof
  fix w
  obtain r w' where run: "m w = (r, w')" by (rule prod.exhaust)
  then have "w' = w" using assms(1) unfolding reads_only_def by (metis snd_conv)
  with run assms(2) show "snd (and_then m f w) = w" by (cases r) (simp_all add: and_then_def reads_only_def)
qed

lemma reads_only_basic [reads_only_intro]:
  "reads_only (ok x)" "reads_only (parse_params parser params)"
  by (auto simp: reads_only_def ok_def parse_params_def lift_result_def split: sum.splits)

lemma reads_only_storage [reads_only_intro]:
  "reads_only (map_oper_err f (on_db (get_claim cd io i)))" "reads_only (map_oper_err f (on_db (list_claims cd io)))"
  "reads_only (map_oper_err f (on_db (get_host cd io h)))" "reads_only (map_oper_err f (on_db (list_hosts cd io)))"
  by (auto simp: reads_only_def map_oper_err_def on_db_def case_prod_beta reads_keep_database)

lemma reading_methods:
  assumes "rpc_module name = Some handler" and "name \<notin> {HOST_CLAIM_CREATE, HOST_CLAIM_DELETE}"
  shows "snd (handler E io params w) = w"
proof -
  consider "handler = system_info" | "handler = host_claim_get"
    | "handler = host_claim_list" | "handler = host_get" | "handler = host_list"
    using assms by (auto simp: rpc_module_def split: if_splits)
  then have "reads_only (handler E io params)"
    by cases
      (simp_all add: system_info_def host_claim_get_def host_claim_list_def host_get_def host_list_def reads_only_intro)
  then show ?thesis by (simp add: reads_only_def)
qed

lemma error_keeps_notified:
  assumes "rpc_module name = Some handler" and "handler E io params w = (Inl e, w')"
  shows "w_notified w' = w_notified w"
proof (cases "name \<in> {HOST_CLAIM_CREATE, HOST_CLAIM_DELETE}")
  case False
  then show ?thesis using reading_methods [OF assms(1) False, of E io params w] assms(2) by simp
next
  case True
  then have "handler = host_claim_create \<or> handler = host_claim_delete"
    using assms(1) by (auto simp: rpc_module_registered)
  with assms(2) show ?thesis
    by (auto simp: host_claim_create_def host_claim_delete_def parse_params_def lift_result_def and_then_def
        map_oper_err_def map_err_def on_db_def ok_def wake_def split: sum.splits prod.splits)
qed

text \<open>
  A notification is not executed and a reading method changes nothing; no message touches the
  provider, and one answered with an error never wakes the controller.
\<close>

theorem rpc_effects:
  assumes "serve_message E io message w = (answer, w')"
  shows "(\<forall>name params. message = Notification name params \<longrightarrow> answer = None \<and> w' = w)
    \<and> (\<forall>name params. message = Call name params \<and> name \<notin> {HOST_CLAIM_CREATE, HOST_CLAIM_DELETE} \<longrightarrow> w' = w)
    \<and> w_provider w' = w_provider w
    \<and> (\<forall>e. answer = Some (Inl e) \<longrightarrow> w_notified w' = w_notified w)"
proof (intro conjI allI impI)
  show "w_provider w' = w_provider w"
    using serve_message_provider [of E io message w] assms by simp
  fix name params
  show "answer = None" if "message = Notification name params" using that assms by (simp add: serve_message_def)
  show "w' = w" if "message = Notification name params" using that assms by (simp add: serve_message_def)
  show "w' = w" if "message = Call name params \<and> name \<notin> {HOST_CLAIM_CREATE, HOST_CLAIM_DELETE}"
  proof (cases "rpc_module name :: 'a handler option")
    case None
    with that assms show ?thesis by (simp add: serve_message_def)
  next
    case (Some handler)
    then have "snd (handler E io params w) = w" using that by (intro reading_methods) auto
    with Some that assms show ?thesis by (simp add: serve_message_def split: prod.splits)
  qed
next
  fix e
  assume "answer = Some (Inl e)"
  then obtain name params handler where handler: "rpc_module name = Some handler" "handler E io params w = (Inl e, w')"
    using assms by (auto simp: serve_message_def split: rpc_message.splits option.splits prod.splits)
  show "w_notified w' = w_notified w" by (rule error_keeps_notified [OF handler])
qed

theorem rpc_effects_witness:
  "serve_message sample_env sample_io (Notification HOST_CLAIM_DELETE ''{}'') sample_ready_world = (None, sample_ready_world)"
proof -
  obtain answer w' where run: "serve_message sample_env sample_io (Notification HOST_CLAIM_DELETE ''{}'') sample_ready_world = (answer, w')"
    by (rule prod.exhaust)
  from rpc_effects [OF run] run show ?thesis by blast
qed

lemma spec_mutations_stored:
  "spec_create_claim cd now i spec st = (Inr claim, st') \<Longrightarrow> \<exists>r. s_claims st' i = Some r \<and> cr_resource r = claim"
  "spec_mark_claim_deleting cd now i st = (Inr claim, st') \<Longrightarrow>
     \<exists>r. s_claims st' i = Some r \<and> cr_resource r = claim \<and> claim_deletion r \<noteq> None"
  by (auto simp: spec_create_claim_def spec_mark_claim_deleting_def deletion_requested_sel
      split: sum.splits option.splits if_splits)

lemma create_claim_stored:
  assumes cd: "codec_ok cd" and db: "database_ok cd db" and run: "create_claim cd io i spec db = (Inr claim, db')"
  shows "\<exists>r. claim_view cd db' i = Some r \<and> cr_resource r = claim"
proof -
  let ?now = "io_now (healthy io)"
  have "spec_create_claim cd ?now i spec (store_of cd db) = (Inr claim, store_of cd db')"
    by (rule successful_call [OF fault_tolerant_ops(8) create_claim_refines [OF cd] db run])
  from spec_mutations_stored(1) [OF this] show ?thesis by simp
qed

lemma mark_claim_deleting_stored:
  assumes cd: "codec_ok cd" and db: "database_ok cd db" and run: "mark_claim_deleting cd io i db = (Inr claim, db')"
  shows "\<exists>r. claim_view cd db' i = Some r \<and> cr_resource r = claim \<and> claim_deletion r \<noteq> None"
proof -
  let ?now = "io_now (healthy io)"
  have "spec_mark_claim_deleting cd ?now i (store_of cd db) = (Inr claim, store_of cd db')"
    by (rule successful_call [OF fault_tolerant_ops(9) mark_claim_deleting_refines [OF cd] db run])
  from spec_mutations_stored(2) [OF this] show ?thesis by simp
qed

text \<open>
  C13: An acknowledged mutation is durable and noticed: when a create or a delete is answered with
  a claim, that claim, as answered, is what the database holds, for a delete with its deletion
  request, and the controller has been woken.
\<close>

theorem acknowledged_mutation_stored:
  assumes "codec_ok (e_codec E)" and "database_ok (e_codec E) (w_db w)"
    and "serve_message E io (Call name params) w = (Some (Inr (ClaimResult claim)), w')"
    and "name \<in> {HOST_CLAIM_CREATE, HOST_CLAIM_DELETE}"
  shows "w_notified w' \<and> (\<exists>i r. claim_view (e_codec E) (w_db w') i = Some r \<and> cr_resource r = claim
    \<and> (name = HOST_CLAIM_DELETE \<longrightarrow> claim_deletion r \<noteq> None))"
proof (cases "name = HOST_CLAIM_CREATE")
  case True
  with assms(3) have "\<exists>(req :: CreateHostClaimParams) db. create_claim (e_codec E) io (ccp_id req) (ccp_spec req) (w_db w) = (Inr claim, db)
      \<and> w' = w\<lparr>w_db := db, w_notified := True\<rparr>"
    by (auto simp: serve_message_def rpc_module_registered host_claim_create_def parse_params_def lift_result_def and_then_def
        map_oper_err_def map_err_def on_db_def ok_def wake_def split: sum.splits prod.splits)
  then obtain req :: CreateHostClaimParams and db where run: "create_claim (e_codec E) io (ccp_id req) (ccp_spec req) (w_db w) = (Inr claim, db)"
      and w': "w' = w\<lparr>w_db := db, w_notified := True\<rparr>"
    by blast
  have "name \<noteq> HOST_CLAIM_DELETE" using True by (simp add: HOST_CLAIM_CREATE_def HOST_CLAIM_DELETE_def)
  with create_claim_stored [OF assms(1,2) run] w' show ?thesis by auto
next
  case False
  then have name: "name = HOST_CLAIM_DELETE" using assms(4) by simp
  with assms(3) have "\<exists>i db. mark_claim_deleting (e_codec E) io i (w_db w) = (Inr claim, db)
      \<and> w' = w\<lparr>w_db := db, w_notified := True\<rparr>"
    by (fastforce simp: serve_message_def rpc_module_registered host_claim_delete_def parse_params_def lift_result_def and_then_def
        map_oper_err_def map_err_def on_db_def ok_def wake_def split: sum.splits prod.splits)
  then obtain i db where run: "mark_claim_deleting (e_codec E) io i (w_db w) = (Inr claim, db)"
      and w': "w' = w\<lparr>w_db := db, w_notified := True\<rparr>"
    by blast
  obtain r where "claim_view (e_codec E) db i = Some r" "cr_resource r = claim" "claim_deletion r \<noteq> None"
    using mark_claim_deleting_stored [OF assms(1,2) run] by blast
  then show ?thesis using w' by (intro conjI exI [of _ i] exI [of _ r]) simp_all
qed

theorem acknowledged_mutation_stored_witness:
  "w_notified (snd (serve_message sample_env sample_io (Call HOST_CLAIM_CREATE ''{}'')
     (snd (first_start (seed_catalog empty_fake_provider)))))"
proof -
  let ?start = "snd (first_start (seed_catalog empty_fake_provider))"
  obtain claim w' where run: "serve_message sample_env sample_io (Call HOST_CLAIM_CREATE ''{}'') ?start
      = (Some (Inr (ClaimResult claim)), w')"
    using ready_reached [OF sample_serves_create] by metis
  have "codec_ok (e_codec sample_env)" "database_ok (e_codec sample_env) (w_db ?start)"
    using sample_codec_ok database_ok_empty by (simp_all add: first_start_def)
  from acknowledged_mutation_stored [OF this run] run show ?thesis by simp
qed

end
