(* ===== verification/Cli_Properties.thy ===== *)
theory Cli_Properties
  imports Cli Rpc_Properties
begin

text \<open>
  The operator client: which response it takes for an answer, that what it prints is what the server
  answered for every command, and that the retry its error message suggests is safe.
\<close>

section \<open>The response of a call\<close>

text \<open>The decoded response a call got, before it is checked.\<close>

definition received ::
  "client \<Rightarrow> string \<Rightarrow> (string \<Rightarrow> string + 'r JsonRpcResponse) \<Rightarrow> string \<Rightarrow> request_params \<Rightarrow> 'r JsonRpcResponse \<Rightarrow> bool" where
  "received cl path decode name params reply \<longleftrightarrow> (\<exists>payload request response body.
     cl_to_vec cl \<lparr>rq_jsonrpc = ''2.0'', rq_id = cl_request_id cl, rq_method = name, rq_params = params\<rparr> = Inr payload
     \<and> cl_connect cl path = Inr () \<and> cl_handshake cl = Inr () \<and> cl_build cl payload = Inr request
     \<and> cl_send cl request = Inr response
     \<and> http_body response = Inr body \<and> length body \<le> 4194304
     \<and> 200 \<le> http_status response \<and> http_status response < 300
     \<and> decode body = Inr reply)"

lemma in_context_simps [simp]:
  "in_context message (Inr x) = Inr x"
  "in_context message (Inl cause) = Inl \<lparr>ce_chain = [message, cause], ce_rpc = None\<rparr>"
  "add_context message (Inr x) = Inr x"
  "add_context message (Inl e) = Inl (e\<lparr>ce_chain := message # ce_chain e\<rparr>)"
  by (simp_all add: in_context_def add_context_def)

lemma in_context_Inr: "in_context message r = Inr x \<longleftrightarrow> r = Inr x"
  by (cases r) simp_all

lemma in_context_no_rpc: "in_context message r = Inl e \<Longrightarrow> ce_rpc e = None"
  by (cases r) auto

lemma bail_no_rpc: "bail message = Inl e \<Longrightarrow> ce_rpc e = None"
  by (auto simp: bail_def)

lemma collect_limited_Inr: "collect_limited body = Inr bytes \<longleftrightarrow> body = Inr bytes \<and> length bytes \<le> 4194304"
  by (auto simp: collect_limited_def MAX_RESPONSE_BYTES_def bind_result_def split: sum.splits)

lemma client_call_received:
  assumes "received cl path decode name params reply"
  shows "client_call cl path decode name params = check_response (cl_request_id cl) reply"
proof -
  obtain payload request response body where
    "cl_to_vec cl \<lparr>rq_jsonrpc = ''2.0'', rq_id = cl_request_id cl, rq_method = name, rq_params = params\<rparr> = Inr payload"
    "cl_connect cl path = Inr ()" "cl_handshake cl = Inr ()" "cl_build cl payload = Inr request"
    "cl_send cl request = Inr response" "collect_limited (http_body response) = Inr body"
    "200 \<le> http_status response" "http_status response < 300" "decode body = Inr reply"
    using assms by (auto simp: received_def collect_limited_Inr)
  then show ?thesis by (simp add: client_call_def)
qed

lemma received_unique:
  assumes "received cl path decode name params reply"
  shows "(\<exists>r. received cl path decode name params r \<and> Q r) \<longleftrightarrow> Q reply"
  using assms by (auto simp: received_def)

lemma check_response_Inr:
  "check_response i reply = Inr result \<longleftrightarrow>
     rs_jsonrpc reply = ''2.0'' \<and> rs_id reply = i \<and> rs_result reply = Some result \<and> rs_error reply = None"
  by (auto simp: check_response_def bail_def split: option.splits)

lemma check_response_rpc:
  "(\<exists>e. check_response i reply = Inl e \<and> ce_rpc e = Some \<lparr>rpc_code = code, rpc_message = message, rpc_data = data\<rparr>) \<longleftrightarrow>
     rs_jsonrpc reply = ''2.0'' \<and> rs_id reply = i \<and> rs_result reply = None
     \<and> rs_error reply = Some \<lparr>je_code = code, je_message = message, je_data = data\<rparr>"
  by (cases "rs_error reply") (auto simp: check_response_def bail_def call_error_def split: option.splits)

lemma client_call_cases:
  obtains (received) reply where "received cl path decode name params reply"
  | (lost) e where "client_call cl path decode name params = Inl e" "ce_rpc e = None"
proof (cases "\<exists>reply. received cl path decode name params reply")
  case True
  then show thesis using received by blast
next
  case False
  then have "\<exists>e. client_call cl path decode name params = Inl e \<and> ce_rpc e = None"
    by (fastforce simp: client_call_def received_def bind_result_def collect_limited_Inr in_context_Inr bail_def
        split: sum.splits dest: in_context_no_rpc)
  then show thesis using lost by blast
qed

text \<open>
  C33: The client takes a response for an answer only if it is one: a call returns a result exactly
  when a response of success within the size limit was decoded, of version 2.0, with the identifier of
  the request, and with that result and no error; it reports an RPC error exactly when the same holds
  with that error and no result. In every other case its error is the client's own.
\<close>

theorem client_accepts_answer:
  "(client_call cl path decode name params = Inr result \<longleftrightarrow>
     (\<exists>reply. received cl path decode name params reply \<and> rs_jsonrpc reply = ''2.0''
        \<and> rs_id reply = cl_request_id cl \<and> rs_result reply = Some result \<and> rs_error reply = None))
   \<and> ((\<exists>e. client_call cl path decode name params = Inl e \<and> ce_rpc e = Some \<lparr>rpc_code = code, rpc_message = message, rpc_data = data\<rparr>) \<longleftrightarrow>
     (\<exists>reply. received cl path decode name params reply \<and> rs_jsonrpc reply = ''2.0''
        \<and> rs_id reply = cl_request_id cl \<and> rs_result reply = None
        \<and> rs_error reply = Some \<lparr>je_code = code, je_message = message, je_data = data\<rparr>))"
proof (cases rule: client_call_cases [of cl path decode name params])
  case (received reply)
  show ?thesis
    unfolding client_call_received [OF received] received_unique [OF received] check_response_Inr check_response_rpc
    by simp
next
  case (lost e)
  have "\<not> (received cl path decode name params reply \<and> rs_jsonrpc reply = ''2.0'' \<and> rs_id reply = cl_request_id cl
      \<and> rs_result reply = Some result \<and> rs_error reply = None)" for reply
    using lost client_call_received check_response_Inr by (metis Inl_Inr_False)
  moreover have "\<not> (received cl path decode name params reply \<and> rs_jsonrpc reply = ''2.0'' \<and> rs_id reply = cl_request_id cl
      \<and> rs_result reply = None \<and> rs_error reply = Some \<lparr>je_code = code, je_message = message, je_data = data\<rparr>)" for reply
    using lost client_call_received [of cl path decode name params reply]
      check_response_rpc [of "cl_request_id cl" reply code message data] by auto
  ultimately show ?thesis using lost by auto
qed

section \<open>Client and server\<close>

text \<open>
  What the libraries between client and server owe one call: the response received is of version 2.0,
  has the identifier of the request, and holds the method's answer, its result or its error.
\<close>

definition delivered ::
  "client \<Rightarrow> 'r wire \<Rightarrow> ('r \<Rightarrow> rpc_result) \<Rightarrow> (ErrorObject + rpc_result) option \<Rightarrow> string \<Rightarrow> string \<Rightarrow> request_params \<Rightarrow> bool" where
  "delivered cl wr wrap answer path name params \<longleftrightarrow> (\<exists>reply.
     received cl path (wr_decode wr) name params reply
     \<and> rs_jsonrpc reply = ''2.0'' \<and> rs_id reply = cl_request_id cl
     \<and> (\<forall>r. answer = Some (Inr (wrap r)) \<longrightarrow> rs_result reply = Some r \<and> rs_error reply = None)
     \<and> (\<forall>e. answer = Some (Inl e) \<longrightarrow> rs_result reply = None
          \<and> (\<exists>data. rs_error reply = Some \<lparr>je_code = word_of_int (eo_code e), je_message = eo_message e, je_data = data\<rparr>)))"

text \<open>The request of each command, and the lines that show each result.\<close>

definition command_request :: "HostClaimId \<Rightarrow> Command \<Rightarrow> string \<times> request_params" where
  "command_request fresh command =
     (case command of
        System Info \<Rightarrow> (''system.info'', EmptyParams)
      | HostCommand (Claim (CreateClaim claim cpus memory storage)) \<Rightarrow>
          (''host.claim.create'', CreateParams \<lparr>ccp_id = (case claim of None \<Rightarrow> fresh | Some i \<Rightarrow> i),
             ccp_spec = \<lparr>spec_resources = \<lparr>vcpus = cpus, memory_bytes = memory, storage_bytes = storage\<rparr>\<rparr>\<rparr>)
      | HostCommand (Claim (GetClaim i)) \<Rightarrow> (''host.claim.get'', GetClaimParams i)
      | HostCommand (Claim ListClaims) \<Rightarrow> (''host.claim.list'', EmptyParams)
      | HostCommand (Claim (DeleteClaim i)) \<Rightarrow> (''host.claim.delete'', DeleteClaimParams i)
      | HostCommand (GetHost i) \<Rightarrow> (''host.get'', GetHostParams i)
      | HostCommand ListHosts \<Rightarrow> (''host.list'', EmptyParams))"

definition result_lines :: "codec \<Rightarrow> rpc_result \<Rightarrow> string list" where
  "result_lines cd result =
     (case result of
        SystemInfo info \<Rightarrow> print_system_info cd info
      | ClaimResult claim \<Rightarrow> print_host_claim cd claim
      | HostClaimList items \<Rightarrow> print_host_claim_list cd items
      | HostResult host \<Rightarrow> print_host cd host
      | HostList items \<Rightarrow> print_host_list cd items)"

text \<open>An error, after the context a failed create is given.\<close>

definition error_text :: "codec \<Rightarrow> request_params \<Rightarrow> ErrorObject \<Rightarrow> string" where
  "error_text cd params e =
     ''error: ''
     @ (case params of CreateParams p \<Rightarrow> create_context cd (ccp_id p) @ '': '' | _ \<Rightarrow> [])
     @ ''RPC error '' @ int_text (eo_code e) @ '': '' @ eo_message e"

definition carried :: "client \<Rightarrow> wires \<Rightarrow> Cli \<Rightarrow> (ErrorObject + rpc_result) option \<Rightarrow> bool" where
  "carried cl ws cli answer \<longleftrightarrow>
     (case command_request (cl_new_claim_id cl) (cli_command cli) of (name, params) \<Rightarrow>
        (case cli_command cli of
           System Info \<Rightarrow> delivered cl (wires_info ws) SystemInfo answer (cli_socket_path cli) name params
         | HostCommand (Claim ListClaims) \<Rightarrow> delivered cl (wires_claims ws) HostClaimList answer (cli_socket_path cli) name params
         | HostCommand (Claim _) \<Rightarrow> delivered cl (wires_claim ws) ClaimResult answer (cli_socket_path cli) name params
         | HostCommand (GetHost _) \<Rightarrow> delivered cl (wires_host ws) HostResult answer (cli_socket_path cli) name params
         | HostCommand ListHosts \<Rightarrow> delivered cl (wires_hosts ws) HostList answer (cli_socket_path cli) name params))"

lemma delivered_result:
  assumes "delivered cl wr wrap (Some (Inr (wrap r))) path name params"
  shows "client_call cl path (wr_decode wr) name params = Inr r"
  using assms by (auto simp: delivered_def client_call_received check_response_Inr)

lemma delivered_error:
  assumes "delivered cl wr wrap (Some (Inl (into_rpc_error err))) path name params"
  obtains e where "client_call cl path (wr_decode wr) name params = Inl e"
    "ce_chain e = [''RPC error '' @ int_text (eo_code (into_rpc_error err)) @ '': '' @ eo_message (into_rpc_error err)]"
proof -
  let ?e = "into_rpc_error err"
  have code: "sint (word_of_int (eo_code ?e) :: 32 word) = eo_code ?e"
    by (cases err) (simp_all add: into_rpc_error_def INVALID_ARGUMENT_CODE_def NOT_FOUND_CODE_def CONFLICT_CODE_def
        INTERNAL_ERROR_CODE_def)
  obtain reply data where reply: "received cl path (wr_decode wr) name params reply"
      "rs_jsonrpc reply = ''2.0''" "rs_id reply = cl_request_id cl" "rs_result reply = None"
      "rs_error reply = Some \<lparr>je_code = word_of_int (eo_code ?e), je_message = eo_message ?e, je_data = data\<rparr>"
    using assms by (auto simp: delivered_def)
  then have "client_call cl path (wr_decode wr) name params
      = Inl (call_error \<lparr>je_code = word_of_int (eo_code ?e), je_message = eo_message ?e, je_data = data\<rparr>)"
    by (simp add: client_call_received check_response_def)
  then show thesis using that code by (simp add: call_error_def)
qed

text \<open>Every method answers a call with an error of the protocol or with a result of its type.\<close>

lemmas handler_defs = system_info_def host_claim_create_def host_claim_get_def host_claim_list_def
  host_claim_delete_def host_get_def host_list_def

definition answers :: "('r \<Rightarrow> rpc_result) \<Rightarrow> ('p, ErrorObject, rpc_result) effect \<Rightarrow> bool" where
  "answers wrap m \<longleftrightarrow> (\<forall>w r w'. m w = (Inr r, w') \<longrightarrow> r \<in> range wrap)"

named_theorems answers_intro \<open>handlers that end with a result of one type\<close>

lemma answers_intros [answers_intro]:
  "(\<And>x. answers wrap (f x)) \<Longrightarrow> answers wrap (and_then m f)"
  "answers wrap (ok (wrap r))"
  by (auto simp: answers_def and_then_def split: prod.splits sum.splits)

lemma method_answers:
  "answers SystemInfo (system_info E io params)"
  "answers ClaimResult (host_claim_create E io params)"
  "answers ClaimResult (host_claim_get E io params)"
  "answers HostClaimList (host_claim_list E io params)"
  "answers ClaimResult (host_claim_delete E io params)"
  "answers HostResult (host_get E io params)"
  "answers HostList (host_list E io params)"
  unfolding handler_defs by (intro answers_intro)+

lemma answer_cases:
  fixes handler :: "'p handler" and w :: "'p world"
  assumes "rpc_module name = Some handler" "answers wrap (handler E io params)"
    and "serve_message E io (Call name params) w = (answer, w')"
  obtains (result) r where "answer = Some (Inr (wrap r))"
  | (error) err where "answer = Some (Inl (into_rpc_error err))"
proof -
  obtain r where r: "handler E io params w = (r, w')" "answer = Some r"
    using assms(1,3) by (auto simp: serve_message_def split: prod.splits)
  show thesis
  proof (cases r)
    case (Inl e)
    with assms(3) r obtain err where "e = into_rpc_error err" by (blast elim: serve_message_error)
    with Inl r error show thesis by simp
  next
    case (Inr x)
    with assms(2) r have "x \<in> range wrap" unfolding answers_def by blast
    with Inr r result show thesis by auto
  qed
qed

text \<open>A command that makes one call and prints its result.\<close>

lemma call_and_print_shows:
  fixes handler :: "'p handler" and w :: "'p world"
  assumes "rpc_module name = Some handler" "answers wrap (handler E io params_text)"
    and run: "serve_message E io (Call name params_text) w = (answer, w')"
    and carry: "delivered cl wr wrap answer (cli_socket_path cli) name params"
    and plain: "\<And>p. params \<noteq> CreateParams p" and human: "cli_output cli = Human"
    and lines: "\<And>r. result_lines cd (wrap r) = show r"
    and command: "run cl cd ws cli = call_and_print cl cli wr show name params"
  shows "answer \<noteq> None
    \<and> cli_main cl cd ws pretty cli =
      (case answer of
         Some (Inr result) \<Rightarrow> \<lparr>stdout = result_lines cd result, stderr = [], exit_code = 0\<rparr>
       | Some (Inl e) \<Rightarrow> \<lparr>stdout = [], stderr = [error_text cd params e], exit_code = 1\<rparr>)"
proof (cases rule: answer_cases [OF assms(1,2) run])
  case (1 r)
  with carry have "client_call cl (cli_socket_path cli) (wr_decode wr) name params = Inr r"
    by (simp add: delivered_result)
  with 1 show ?thesis
    by (simp add: cli_main_def command call_and_print_def print_value_def human lines)
next
  case (2 err)
  with carry obtain e where "client_call cl (cli_socket_path cli) (wr_decode wr) name params = Inl e"
      "ce_chain e = [''RPC error '' @ int_text (eo_code (into_rpc_error err)) @ '': '' @ eo_message (into_rpc_error err)]"
    by (auto elim: delivered_error)
  with 2 plain show ?thesis
    by (simp add: cli_main_def command call_and_print_def report_error_def human error_text_def split: request_params.split)
qed

lemma run_create_shows:
  assumes run: "serve_message E io (Call HOST_CLAIM_CREATE params_text) w = (answer, w')"
    and carry: "delivered cl (wires_claim ws) ClaimResult answer (cli_socket_path cli) HOST_CLAIM_CREATE (CreateParams p)"
    and p: "p = \<lparr>ccp_id = (case claim of None \<Rightarrow> cl_new_claim_id cl | Some i \<Rightarrow> i),
      ccp_spec = \<lparr>spec_resources = \<lparr>vcpus = cpus, memory_bytes = memory, storage_bytes = storage\<rparr>\<rparr>\<rparr>"
    and human: "cli_output cli = Human"
    and command: "cli_command cli = HostCommand (Claim (CreateClaim claim cpus memory storage))"
  shows "answer \<noteq> None
    \<and> cli_main cl cd ws pretty cli =
      (case answer of
         Some (Inr result) \<Rightarrow> \<lparr>stdout = result_lines cd result, stderr = [], exit_code = 0\<rparr>
       | Some (Inl e) \<Rightarrow> \<lparr>stdout = [], stderr = [error_text cd (CreateParams p) e], exit_code = 1\<rparr>)"
proof (cases rule: answer_cases [OF rpc_module_registered(2) method_answers(2) run])
  case (1 r)
  with carry p have "client_call cl (cli_socket_path cli) (wr_decode (wires_claim ws)) HOST_CLAIM_CREATE (CreateParams p) = Inr r"
    by (simp add: delivered_result)
  with 1 p show ?thesis
    by (simp add: cli_main_def run_def command run_create_def Let_def print_value_def human result_lines_def)
next
  case (2 err)
  with carry obtain e where
      "client_call cl (cli_socket_path cli) (wr_decode (wires_claim ws)) HOST_CLAIM_CREATE (CreateParams p) = Inl e"
      "ce_chain e = [''RPC error '' @ int_text (eo_code (into_rpc_error err)) @ '': '' @ eo_message (into_rpc_error err)]"
    by (auto elim: delivered_error)
  with 2 p show ?thesis
    by (simp add: cli_main_def run_def command run_create_def Let_def report_error_def human error_text_def)
qed

lemma command_cases:
  obtains (info) "command = System Info"
  | (create) claim cpus memory storage where "command = HostCommand (Claim (CreateClaim claim cpus memory storage))"
  | (get) i where "command = HostCommand (Claim (GetClaim i))"
  | (list) "command = HostCommand (Claim ListClaims)"
  | (delete) i where "command = HostCommand (Claim (DeleteClaim i))"
  | (get_host) h where "command = HostCommand (GetHost h)"
  | (list_hosts) "command = HostCommand ListHosts"
  by (metis Command.exhaust HostClaimCommand.exhaust HostCommand.exhaust SystemCommand.exhaust)

lemmas method_names = SYSTEM_INFO_def HOST_CLAIM_CREATE_def HOST_CLAIM_GET_def HOST_CLAIM_LIST_def
  HOST_CLAIM_DELETE_def HOST_GET_def HOST_LIST_def

lemmas shows_simps = run_def result_lines_def carried_def command_request_def method_names

text \<open>
  Client and server agree on every command: its method is one the server has, and when the
  libraries between them carry the method's answer back, the client prints the lines of exactly that
  result and exits with 0, or prints the code and message of exactly that error, after the identifier
  to retry with for a create, and exits with 1.
\<close>

theorem client_shows_answer:
  assumes "command_request (cl_new_claim_id cl) (cli_command cli) = (name, params)"
    and "serve_message E io (Call name params_text) w = (answer, w')"
    and "carried cl ws cli answer" and "cli_output cli = Human"
  shows "answer \<noteq> None
    \<and> cli_main cl cd ws pretty cli =
      (case answer of
         Some (Inr result) \<Rightarrow> \<lparr>stdout = result_lines cd result, stderr = [], exit_code = 0\<rparr>
       | Some (Inl e) \<Rightarrow> \<lparr>stdout = [], stderr = [error_text cd params e], exit_code = 1\<rparr>)"
proof (cases rule: command_cases [of "cli_command cli"])
  case info
  with assms(1,3) show ?thesis
    by (intro call_and_print_shows [OF rpc_module_registered(1) method_answers(1), of E io params_text w answer w' cl "wires_info ws"])
      (auto simp: shows_simps assms(2,4))
next
  case (create claim cpus memory storage)
  then have call: "name = HOST_CLAIM_CREATE" "params = CreateParams \<lparr>ccp_id = (case claim of None \<Rightarrow> cl_new_claim_id cl | Some i \<Rightarrow> i),
      ccp_spec = \<lparr>spec_resources = \<lparr>vcpus = cpus, memory_bytes = memory, storage_bytes = storage\<rparr>\<rparr>\<rparr>"
    using assms(1) by (simp_all add: command_request_def method_names)
  show ?thesis
    unfolding call(2)
    by (rule run_create_shows [OF assms(2) [unfolded call(1)] _ refl assms(4) create]) (use assms(1,3) create call in \<open>simp add: carried_def\<close>)
next
  case get
  with assms(1,3) show ?thesis
    by (intro call_and_print_shows [OF rpc_module_registered(3) method_answers(3), of E io params_text w answer w' cl "wires_claim ws"])
      (auto simp: shows_simps assms(2,4))
next
  case list
  with assms(1,3) show ?thesis
    by (intro call_and_print_shows [OF rpc_module_registered(4) method_answers(4), of E io params_text w answer w' cl "wires_claims ws"])
      (auto simp: shows_simps assms(2,4))
next
  case delete
  with assms(1,3) show ?thesis
    by (intro call_and_print_shows [OF rpc_module_registered(5) method_answers(5), of E io params_text w answer w' cl "wires_claim ws"])
      (auto simp: shows_simps assms(2,4))
next
  case get_host
  with assms(1,3) show ?thesis
    by (intro call_and_print_shows [OF rpc_module_registered(6) method_answers(6), of E io params_text w answer w' cl "wires_host ws"])
      (auto simp: shows_simps assms(2,4))
next
  case list_hosts
  with assms(1,3) show ?thesis
    by (intro call_and_print_shows [OF rpc_module_registered(7) method_answers(7), of E io params_text w answer w' cl "wires_hosts ws"])
      (auto simp: shows_simps assms(2,4))
qed

text \<open>A client whose libraries hand every request over and bring the given reply back.\<close>

definition sample_client :: client where
  "sample_client = \<lparr>cl_request_id = ''1'', cl_new_claim_id = HostClaimId 9,
     cl_to_vec = (\<lambda>rq. Inr (rq_method rq)), cl_connect = (\<lambda>_. Inr ()), cl_handshake = Inr (), cl_build = Inr,
     cl_send = (\<lambda>_. Inr \<lparr>http_status = 200, http_body = Inr ''{}''\<rparr>), cl_status_text = word_text \<circ> (of_nat :: nat \<Rightarrow> u32)\<rparr>"

definition sample_wire :: "'r \<Rightarrow> 'r wire" where
  "sample_wire r = \<lparr>wr_decode = (\<lambda>_. Inr \<lparr>rs_jsonrpc = ''2.0'', rs_id = ''1'', rs_result = Some r, rs_error = None\<rparr>),
     wr_pretty = (\<lambda>_. Inr ''{}'')\<rparr>"

lemma sample_received:
  "received sample_client path (wr_decode (sample_wire r)) name params
     \<lparr>rs_jsonrpc = ''2.0'', rs_id = ''1'', rs_result = Some r, rs_error = None\<rparr>"
  by (simp add: received_def sample_client_def sample_wire_def)

lemma sample_delivered:
  "inj wrap \<Longrightarrow> delivered sample_client (sample_wire r) wrap (Some (Inr (wrap r))) path name params"
  unfolding delivered_def
  using sample_received [of path r name params]
  by (intro exI [of _ "\<lparr>rs_jsonrpc = ''2.0'', rs_id = ''1'', rs_result = Some r, rs_error = None\<rparr>"])
    (auto simp: sample_client_def dest: injD)

definition sample_info :: SystemInfoResult where
  "sample_info = \<lparr>si_system_name = ''Control Plane'', si_binary_version = ''0.1.0'', si_rust_version = ''unknown'',
     si_protocol_version = ''1'', si_started_at = unix_epoch\<rparr>"

definition sample_wires :: wires where
  "sample_wires = \<lparr>wires_info = sample_wire sample_info, wires_claim = sample_wire (cr_resource sample_claim),
     wires_claims = sample_wire [], wires_host = sample_wire undefined, wires_hosts = sample_wire []\<rparr>"

theorem client_shows_answer_witness:
  "stdout (cli_main sample_client sample_codec sample_wires (\<lambda>_. Inl ''error'')
      \<lparr>cli_socket_path = ''cp.sock'', cli_output = Human, cli_command = System Info\<rparr>)
    = [''system: Control Plane'', ''version: 0.1.0'', ''rust: unknown'', ''protocol: 1'',
       ''started: '' @ timestamp_text sample_codec unix_epoch]"
proof -
  let ?cli = "\<lparr>cli_socket_path = ''cp.sock'', cli_output = Human, cli_command = System Info\<rparr>"
  have run: "serve_message sample_env sample_io (Call ''system.info'' ''{}'') (undefined :: nat world)
      = (Some (Inr (SystemInfo sample_info)), undefined)"
    by (simp add: rpc_module_registered(1) [unfolded SYSTEM_INFO_def] serve_message_def system_info_def parse_params_def sample_env_def sample_params_def
        sample_info_def PROTOCOL_VERSION_def lift_result_def)
  have carry: "carried sample_client sample_wires ?cli (Some (Inr (SystemInfo sample_info)))"
    by (simp add: carried_def command_request_def sample_wires_def sample_delivered inj_def)
  have "command_request (cl_new_claim_id sample_client) (cli_command ?cli) = (''system.info'', EmptyParams)"
    by (simp add: command_request_def)
  from client_shows_answer [OF this run carry, of sample_codec "\<lambda>_. Inl ''error''"] show ?thesis
    by (simp add: result_lines_def print_system_info_def sample_info_def)
qed

lemma create_errors_name_request:
  "\<forall>cl cli claim vs ms ss e.
        cli_command cli = HostCommand (Claim (CreateClaim claim vs ms ss)) \<longrightarrow> run cl cd ws cli = Inl e \<longrightarrow>
        (let request_id = (case claim of None \<Rightarrow> cl_new_claim_id cl | Some given \<Rightarrow> given);
             call = client_call cl (cli_socket_path cli) (wr_decode (wires_claim ws)) ''host.claim.create''
               (CreateParams \<lparr>ccp_id = request_id,
                  ccp_spec = \<lparr>spec_resources = \<lparr>vcpus = vs, memory_bytes = ms, storage_bytes = ss\<rparr>\<rparr>\<rparr>) in
         (\<exists>e0. call = Inl e0 \<and> e = e0\<lparr>ce_chain :=
             (''create HostClaim '' @ claim_id_text cd request_id @ ''; retry safely with --id '' @ claim_id_text cd request_id)
             # ce_chain e0\<rparr>)
         \<or> (\<exists>claim message. call = Inr claim \<and> cli_output cli = Json \<and> wr_pretty (wires_claim ws) claim = Inl message))"
proof (intro allI impI)
  fix cl cli claim vs ms ss e
  assume "cli_command cli = HostCommand (Claim (CreateClaim claim vs ms ss))" and "run cl cd ws cli = Inl e"
  then have "run_create cl cd (wires_claim ws) cli claim vs ms ss = Inl e" by (simp add: run_def)
  then show "let request_id = (case claim of None \<Rightarrow> cl_new_claim_id cl | Some given \<Rightarrow> given);
      call = client_call cl (cli_socket_path cli) (wr_decode (wires_claim ws)) ''host.claim.create''
        (CreateParams \<lparr>ccp_id = request_id,
           ccp_spec = \<lparr>spec_resources = \<lparr>vcpus = vs, memory_bytes = ms, storage_bytes = ss\<rparr>\<rparr>\<rparr>) in
      (\<exists>e0. call = Inl e0 \<and> e = e0\<lparr>ce_chain :=
             (''create HostClaim '' @ claim_id_text cd request_id @ ''; retry safely with --id '' @ claim_id_text cd request_id)
             # ce_chain e0\<rparr>)
      \<or> (\<exists>claim message. call = Inr claim \<and> cli_output cli = Json \<and> wr_pretty (wires_claim ws) claim = Inl message)"
    unfolding run_create_def Let_def HOST_CLAIM_CREATE_def
    by (cases "client_call cl (cli_socket_path cli) (wr_decode (wires_claim ws)) ''host.claim.create''
          (CreateParams \<lparr>ccp_id = (case claim of None \<Rightarrow> cl_new_claim_id cl | Some given \<Rightarrow> given),
             ccp_spec = \<lparr>spec_resources = \<lparr>vcpus = vs, memory_bytes = ms, storage_bytes = ss\<rparr>\<rparr>\<rparr>)")
      (auto simp: print_value_def add_context_def create_context_def map_err_def bind_result_def
        split: OutputFormat.splits sum.splits)
qed

text \<open>
  C27: The retry a failed create suggests is safe. When the lost create was stored, running the command
  again with its identifier and the same quantities changes no row, prints the stored claim and exits with
  0. And whatever the output format, whether an identifier was given or drawn by the client: every error of
  a create is that of the call that was sent, behind a first message that names the identifier that very
  request bore; the one exception is an answer that arrived and cannot be written as JSON.
\<close>

theorem create_retry_safe:
  assumes "codec_ok cd" and "database_ok cd (w_db w)" and "io_fault io = no_fault" and "e_codec E = cd"
    and "claim_view cd (w_db w) i = Some r"
    and "spec_resources (hc_spec (cr_resource r)) = \<lparr>vcpus = cpus, memory_bytes = memory, storage_bytes = storage\<rparr>"
    and "parse_create_params (e_params E) params_text = Inr \<lparr>ccp_id = i, ccp_spec = hc_spec (cr_resource r)\<rparr>"
    and "serve_message E io (Call HOST_CLAIM_CREATE params_text) w = (answer, w')"
    and "carried cl ws \<lparr>cli_socket_path = path, cli_output = Human,
           cli_command = HostCommand (Claim (CreateClaim (Some i) cpus memory storage))\<rparr> answer"
  shows "w_db w' = w_db w
    \<and> cli_main cl cd ws pretty \<lparr>cli_socket_path = path, cli_output = Human,
         cli_command = HostCommand (Claim (CreateClaim (Some i) cpus memory storage))\<rparr>
      = \<lparr>stdout = print_host_claim cd (cr_resource r), stderr = [], exit_code = 0\<rparr>
    \<and> (\<forall>cl cli claim vs ms ss e.
        cli_command cli = HostCommand (Claim (CreateClaim claim vs ms ss)) \<longrightarrow> run cl cd ws cli = Inl e \<longrightarrow>
        (let request_id = (case claim of None \<Rightarrow> cl_new_claim_id cl | Some given \<Rightarrow> given);
             call = client_call cl (cli_socket_path cli) (wr_decode (wires_claim ws)) ''host.claim.create''
               (CreateParams \<lparr>ccp_id = request_id,
                  ccp_spec = \<lparr>spec_resources = \<lparr>vcpus = vs, memory_bytes = ms, storage_bytes = ss\<rparr>\<rparr>\<rparr>) in
         (\<exists>e0. call = Inl e0 \<and> e = e0\<lparr>ce_chain :=
             (''create HostClaim '' @ claim_id_text cd request_id @ ''; retry safely with --id '' @ claim_id_text cd request_id)
             # ce_chain e0\<rparr>)
         \<or> (\<exists>claim message. call = Inr claim \<and> cli_output cli = Json \<and> wr_pretty (wires_claim ws) claim = Inl message)))"
proof (intro conjI)
  let ?spec = "hc_spec (cr_resource r)"
  let ?cli = "\<lparr>cli_socket_path = path, cli_output = Human,
     cli_command = HostCommand (Claim (CreateClaim (Some i) cpus memory storage))\<rparr>"
  have "claim_fits r" by (rule claim_view_SomeE [OF assms(1,2,5)])
  then have "validate_resources (spec_resources ?spec) = Inr ()" by (simp add: validate_resources_Inr claim_fits_def)
  with fetch_claim_by_view(2) [OF assms(1,2,5)] assms(3)
  have "create_claim cd io i ?spec (w_db w) = (Inr (cr_resource r), w_db w)"
    by (auto simp: create_claim_def on_pool_def healthy_calls)
  then have run: "answer = Some (Inr (ClaimResult (cr_resource r)))" "w' = w\<lparr>w_notified := True\<rparr>"
    using assms(4,7,8)
    by (simp_all add: serve_message_def rpc_module_registered host_claim_create_def parse_params_def lift_result_def
        and_then_def map_oper_err_def on_db_def wake_def)
  show "w_db w' = w_db w" using run by simp
  have spec: "?spec = \<lparr>spec_resources = \<lparr>vcpus = cpus, memory_bytes = memory, storage_bytes = storage\<rparr>\<rparr>"
    using assms(6) by (cases ?spec) simp
  show "cli_main cl cd ws pretty ?cli = \<lparr>stdout = print_host_claim cd (cr_resource r), stderr = [], exit_code = 0\<rparr>"
    using run_create_shows [OF assms(8), where cl = cl and ws = ws and cli = ?cli and cd = cd and pretty = pretty
          and p = "\<lparr>ccp_id = i, ccp_spec = ?spec\<rparr>" and claim = "Some i" and cpus = cpus and memory = memory and storage = storage]
      assms(9) run spec
    by (simp add: carried_def command_request_def HOST_CLAIM_CREATE_def result_lines_def)
qed (rule create_errors_name_request)

theorem create_retry_safe_witness:
  "exit_code (cli_main sample_client sample_codec sample_wires (\<lambda>_. Inl ''error'')
      \<lparr>cli_socket_path = ''cp.sock'', cli_output = Human,
        cli_command = HostCommand (Claim (CreateClaim (Some sample_claim_id) 2 1024 1024))\<rparr>) = 0"
proof -
  let ?w = "\<lparr>w_db = sample_db, w_provider = (0 :: nat), w_notified = False, w_count = 0\<rparr>"
  let ?cli = "\<lparr>cli_socket_path = ''cp.sock'', cli_output = Human,
    cli_command = HostCommand (Claim (CreateClaim (Some sample_claim_id) 2 1024 1024))\<rparr>"
  have db: "database_ok sample_codec (w_db ?w)" "claim_view sample_codec (w_db ?w) sample_claim_id = Some sample_claim"
    using sample_db_ok sample_db_view by simp_all
  have spec: "spec_resources (hc_spec (cr_resource sample_claim)) = \<lparr>vcpus = 2, memory_bytes = 1024, storage_bytes = 1024\<rparr>"
    by (simp add: sample_claim_sel sample_spec_def)
  have params: "parse_create_params (e_params sample_env) ''{}''
      = Inr \<lparr>ccp_id = sample_claim_id, ccp_spec = hc_spec (cr_resource sample_claim)\<rparr>"
    by (simp add: sample_env_def sample_params_def sample_claim_sel)
  have "create_claim sample_codec sample_io sample_claim_id sample_spec sample_db = (Inr (cr_resource sample_claim), sample_db)"
    using fetch_claim_by_view(2) [OF sample_codec_ok sample_db_ok sample_db_view] sample_io_healthy sample_fit
    by (auto simp: create_claim_def on_pool_def healthy_calls validate_resources_Inr [THEN iffD2] sample_claim_sel)
  then have run: "serve_message sample_env sample_io (Call HOST_CLAIM_CREATE ''{}'') ?w
      = (Some (Inr (ClaimResult (cr_resource sample_claim))), ?w\<lparr>w_notified := True\<rparr>)"
    using params
    by (simp add: serve_message_def rpc_module_registered host_claim_create_def parse_params_def lift_result_def
        and_then_def map_oper_err_def on_db_def wake_def sample_claim_sel)
  have carry: "carried sample_client sample_wires ?cli (Some (Inr (ClaimResult (cr_resource sample_claim))))"
    by (simp add: carried_def command_request_def sample_wires_def sample_delivered inj_def)
  from create_retry_safe [OF sample_codec_ok db(1) sample_io_healthy sample_env_codec db(2) spec params run carry,
      of "\<lambda>_. Inl ''error''"]
  show ?thesis by simp
qed

end
