(* ===== verification/Json_Samples.thy ===== *)
theory Json_Samples
  imports Samples Json
begin

text \<open>
  A writer and a reader of JSON values that keep \<open>json_text_ok\<close>, to show that the assumption can hold: a
  value is the sequence of its parts, arrays and objects after their length. Nothing of the program is
  modelled here.
\<close>

fun tokens :: "json \<Rightarrow> string list" where
  "tokens JNull = [''n'']"
| "tokens (JBool b) = [''b'', if b then ''t'' else ''f'']"
| "tokens (JInt i) = [''i'', int_text i]"
| "tokens (JFloat t) = [''f'', t]"
| "tokens (JString s) = [''s'', s]"
| "tokens (JArray vs) = ''a'' # nat_text (length vs) # concat (map tokens vs)"
| "tokens (JObject es) = ''o'' # nat_text (length es) # concat (map (\<lambda>(k, v). k # tokens v) es)"

primrec parse_many :: "('t \<Rightarrow> 'a \<times> 't) \<Rightarrow> nat \<Rightarrow> 't \<Rightarrow> 'a list \<times> 't" where
  "parse_many parse 0 ts = ([], ts)"
| "parse_many parse (Suc n) ts =
     (case parse ts of (x, ts) \<Rightarrow> case parse_many parse n ts of (xs, ts) \<Rightarrow> (x # xs, ts))"

primrec parse_tokens :: "nat \<Rightarrow> string list \<Rightarrow> json \<times> string list" where
  "parse_tokens 0 ts = (JNull, ts)"
| "parse_tokens (Suc n) ts =
     (if hd ts = ''n'' then (JNull, tl ts)
      else if hd ts = ''b'' then (JBool (hd (tl ts) = ''t''), tl (tl ts))
      else if hd ts = ''i'' then (JInt (parse_int (hd (tl ts))), tl (tl ts))
      else if hd ts = ''f'' then (JFloat (hd (tl ts)), tl (tl ts))
      else if hd ts = ''s'' then (JString (hd (tl ts)), tl (tl ts))
      else if hd ts = ''a'' then
        (case parse_many (parse_tokens n) (parse_nat (hd (tl ts))) (tl (tl ts)) of (vs, ts) \<Rightarrow> (JArray vs, ts))
      else
        (case parse_many (\<lambda>ts. case parse_tokens n (tl ts) of (v, rest) \<Rightarrow> ((hd ts, v), rest))
            (parse_nat (hd (tl ts))) (tl (tl ts)) of (es, ts) \<Rightarrow> (JObject es, ts)))"

lemma parse_many_written:
  assumes "\<And>x rest. x \<in> set xs \<Longrightarrow> parse (write x @ rest) = (x, rest)"
  shows "parse_many parse (length xs) (concat (map write xs) @ rest) = (xs, rest)"
  using assms by (induction xs) simp_all

lemma parse_tokens_written: "plain n v \<Longrightarrow> parse_tokens (Suc n) (tokens v @ rest) = (v, rest)"
proof (induction n arbitrary: v rest)
  case 0
  then show ?case by (cases v) (simp_all add: parse_int_text)
next
  case (Suc n)
  show ?case
  proof (cases v)
    case (JArray vs)
    with Suc have "parse_many (parse_tokens (Suc n)) (length vs) (concat (map tokens vs) @ rest) = (vs, rest)"
      by (intro parse_many_written) simp
    with JArray show ?thesis by (simp add: parse_nat_text del: parse_tokens.simps(2) add: parse_tokens.simps(2) [of "Suc n"])
  next
    case (JObject es)
    let ?member = "\<lambda>ts. case parse_tokens (Suc n) (tl ts) of (v, rest) \<Rightarrow> ((hd ts, v), rest)"
    have "parse_many ?member (length es) (concat (map (\<lambda>(k, v). k # tokens v) es) @ rest) = (es, rest)"
      using Suc JObject by (intro parse_many_written) (auto simp del: parse_tokens.simps(2))
    with JObject show ?thesis by (simp add: parse_nat_text del: parse_tokens.simps(2) add: parse_tokens.simps(2) [of "Suc n"])
  qed (use Suc in \<open>simp_all add: parse_int_text\<close>)
qed

definition sample_json_text :: json_text where
  "sample_json_text =
     \<lparr>js_write = (\<lambda>v. concat (map frame_text (tokens v))),
      js_read = (\<lambda>s. Inr (fst (parse_tokens 128 (unframe [] s)))), js_error = (\<lambda>_ _. ''error'')\<rparr>"

lemma sample_json_text_ok: "json_text_ok sample_json_text"
  using parse_tokens_written [of 127 _ "[]"]
  by (simp add: json_text_ok_def sample_json_text_def unframe_concat del: parse_tokens.simps)

end
