(* ===== verification/Wire_Properties.thy ===== *)
theory Wire_Properties
  imports Wire_Facts Cli_Properties Json_Samples
begin

text \<open>
  What the JSON forms give the program: the conditions column keeps the law the storage model asks of
  it, a create request is accepted for exactly what it says, and a command of the client reaches the
  server's operation with its own parameters and shows what that answered.
\<close>

section \<open>The conditions column\<close>

lemma texts_ok_wire_codec: "texts_ok cd \<Longrightarrow> texts_ok (wire_codec js cd)"
  by (simp add: texts_ok_def wire_codec_def)

lemma conditions_text_read_back:
  assumes "json_text_ok js" and "texts_ok cd"
  shows "from_text js (read_list (condition_from_json cd)) (js_write js (write_list (condition_json cd) cs)) = Inr cs"
  using json_text_okD [OF assms(1) conditions_wire(2) [OF assms(2), of 127 cs]] conditions_wire(1) [OF assms(2)]
  by (simp add: from_text_def map_err_def)

text \<open>
  C36: The law the storage model assumes of its texts follows from what the libraries document: when uuid
  and jiff read back the texts they write and serde_json the values it writes, the derived readers and
  writers of conditions make a codec that reads back every list of conditions.
\<close>

theorem wire_codec_keeps_law:
  assumes "json_text_ok js" and "texts_ok cd"
  shows "codec_ok (wire_codec js cd)"
  using assms(2) conditions_text_read_back [OF assms]
  by (simp add: codec_ok_def texts_ok_def wire_codec_def)

theorem wire_codec_keeps_law_witness:
  "codec_ok (wire_codec sample_json_text sample_codec)"
  by (rule wire_codec_keeps_law [OF sample_json_text_ok codec_texts_ok [OF sample_codec_ok]])

section \<open>Parameters\<close>

lemma params_read_back:
  assumes "json_text_ok js" and "texts_ok cd"
  shows "parse_empty_params (wire_params js cd) (js_write js (request_params_json cd EmptyParams)) = Inr ()"
    and "parse_create_params (wire_params js cd) (js_write js (request_params_json cd (CreateParams p))) = Inr p"
    and "parse_claim_params (wire_params js cd) (js_write js (request_params_json cd (GetClaimParams i))) = Inr i"
    and "parse_claim_params (wire_params js cd) (js_write js (request_params_json cd (DeleteClaimParams i))) = Inr i"
    and "parse_host_params (wire_params js cd) (js_write js (request_params_json cd (GetHostParams h))) = Inr h"
  using empty_params_wire.text_read_back [OF assms(1)] create_params_wire.text_read_back [OF assms(1) _ assms(2)]
    get_claim_params_wire.text_read_back [OF assms(1) _ assms(2)] get_host_params_wire.text_read_back [OF assms(1) _ assms(2)]
  by (simp_all add: wire_params_def request_params_json_def delete_claim_params_json_def [folded get_claim_params_json_def])

text \<open>
  C37: A create request is accepted for exactly what it says: an object is read as the parameters of a
  create if and only if its members are an identifier and a spec, each once and no other, and the
  identifier and the spec read from them; the resources of a spec likewise are three members, each a
  number of its width, and are those numbers.
\<close>

theorem create_request_exact:
  "(create_params_from_json cd (JObject members) = Inr p \<longleftrightarrow>
     distinct (map fst members) \<and> fst ` set members = {''id'', ''spec''}
     \<and> (\<exists>v. map_of members ''id'' = Some v \<and> claim_id_from_json cd v = Inr (ccp_id p))
     \<and> (\<exists>v. map_of members ''spec'' = Some v \<and> claim_spec_from_json v = Inr (ccp_spec p)))
   \<and> (resources_from_json (JObject quantities) = Inr r \<longleftrightarrow>
     distinct (map fst quantities) \<and> fst ` set quantities = {''vcpus'', ''memory_bytes'', ''storage_bytes''}
     \<and> map_of quantities ''vcpus'' = Some (JInt (uint (vcpus r)))
     \<and> map_of quantities ''memory_bytes'' = Some (JInt (uint (memory_bytes r)))
     \<and> map_of quantities ''storage_bytes'' = Some (JInt (uint (storage_bytes r))))"
proof
  show "create_params_from_json cd (JObject members) = Inr p \<longleftrightarrow>
     distinct (map fst members) \<and> fst ` set members = {''id'', ''spec''}
     \<and> (\<exists>v. map_of members ''id'' = Some v \<and> claim_id_from_json cd v = Inr (ccp_id p))
     \<and> (\<exists>v. map_of members ''spec'' = Some v \<and> claim_spec_from_json v = Inr (ccp_spec p))"
  proof -
    let ?fds = "[(''id'', checks (claim_id_from_json cd)), (''spec'', checks claim_spec_from_json)]"
    have "create_params_from_json cd (JObject members) = Inr p \<longleftrightarrow>
        read_struct ?fds 2 (JObject members) = Inr members
        \<and> (\<exists>v. map_of members ''id'' = Some v \<and> claim_id_from_json cd v = Inr (ccp_id p))
        \<and> (\<exists>v. map_of members ''spec'' = Some v \<and> claim_spec_from_json v = Inr (ccp_spec p))"
      unfolding create_params_from_json_def bind_struct by (cases p) (auto simp: bind_result_Inr field_Inr)
    then show ?thesis using read_struct_exact [of ?fds members 2] by (auto simp: checks_None)
  qed
  show "resources_from_json (JObject quantities) = Inr r \<longleftrightarrow>
     distinct (map fst quantities) \<and> fst ` set quantities = {''vcpus'', ''memory_bytes'', ''storage_bytes''}
     \<and> map_of quantities ''vcpus'' = Some (JInt (uint (vcpus r)))
     \<and> map_of quantities ''memory_bytes'' = Some (JInt (uint (memory_bytes r)))
     \<and> map_of quantities ''storage_bytes'' = Some (JInt (uint (storage_bytes r)))"
  proof -
    let ?fds = "[(''vcpus'', checks (read_uint :: u32 reader)), (''memory_bytes'', checks (read_uint :: u64 reader)),
      (''storage_bytes'', checks (read_uint :: u64 reader))]"
    have "resources_from_json (JObject quantities) = Inr r \<longleftrightarrow>
        read_struct ?fds 3 (JObject quantities) = Inr quantities
        \<and> map_of quantities ''vcpus'' = Some (write_uint (vcpus r))
        \<and> map_of quantities ''memory_bytes'' = Some (write_uint (memory_bytes r))
        \<and> map_of quantities ''storage_bytes'' = Some (write_uint (storage_bytes r))"
      unfolding resources_from_json_def bind_struct by (cases r) (auto simp: bind_result_Inr field_Inr read_uint_Inr)
    moreover have "read_struct ?fds 3 (JObject quantities) = Inr quantities \<longleftrightarrow>
        distinct (map fst quantities) \<and> fst ` set quantities = {''vcpus'', ''memory_bytes'', ''storage_bytes''}"
      if "map_of quantities ''vcpus'' = Some (write_uint (vcpus r))"
        "map_of quantities ''memory_bytes'' = Some (write_uint (memory_bytes r))"
        "map_of quantities ''storage_bytes'' = Some (write_uint (storage_bytes r))"
      using read_struct_exact [of ?fds quantities 3] that by (simp add: checks_def)
    ultimately show ?thesis unfolding write_uint_def by blast
  qed
qed

section \<open>Responses\<close>

text \<open>
  The response jsonrpsee sends for the answer of a method, as JSON-RPC 2.0 has it: version, identifier,
  and the result or the error. \<open>data\<close> is left out of an error that has none.
\<close>

definition result_json :: "codec \<Rightarrow> rpc_result \<Rightarrow> json" where
  "result_json cd result =
     (case result of
        SystemInfo info \<Rightarrow> system_info_json cd info
      | ClaimResult claim \<Rightarrow> claim_json cd claim
      | HostClaimList items \<Rightarrow> claim_list_json cd items
      | HostResult host \<Rightarrow> host_json cd host
      | HostList items \<Rightarrow> host_list_json cd items)"

definition error_json :: "json_text \<Rightarrow> ErrorObject \<Rightarrow> json" where
  "error_json js e =
     JObject ([(''code'', JInt (eo_code e)), (''message'', JString (eo_message e))]
       @ (case eo_data e of None \<Rightarrow> [] | Some d \<Rightarrow> [(''data'', error_data_json js d)]))"

definition reply_members :: "json_text \<Rightarrow> codec \<Rightarrow> string \<Rightarrow> ErrorObject + rpc_result \<Rightarrow> (string \<times> json) list" where
  "reply_members js cd i answer =
     [(''jsonrpc'', JString ''2.0''), (''id'', JString i),
      (case answer of Inr result \<Rightarrow> (''result'', result_json cd result) | Inl e \<Rightarrow> (''error'', error_json js e))]"

text \<open>Members may come in any order: what is read is a matter of the set of members.\<close>

lemma read_struct_reordered:
  assumes "distinct (map fst members)" "distinct (map fst members')" "set members = set members'"
  shows "read_struct fds n (JObject members') = Inr members' \<Longrightarrow> read_struct fds n (JObject members) = Inr members"
    and "map_of members = map_of members'"
  using assms map_of_inject_set [of members members'] by (auto simp: read_struct_object)

lemma response_reordered:
  assumes "distinct (map fst members)" "distinct (map fst members')" "set members = set members'"
    and "response_from_json js read (JObject members') = Inr reply"
  shows "response_from_json js read (JObject members) = Inr reply"
  using assms(4) read_struct_reordered [OF assms(1-3)]
  unfolding response_from_json_def bind_struct field_def optional_field_def by auto

lemma result_response:
  assumes "read v = Inr r" "v \<noteq> JNull"
  shows "response_from_json js read (JObject [(''jsonrpc'', JString ''2.0''), (''id'', JString i), (''result'', v)])
    = Inr \<lparr>rs_jsonrpc = ''2.0'', rs_id = i, rs_result = Some r, rs_error = None\<rparr>"
  using assms by (simp add: response_from_json_def wire read_option_def)

lemma error_response:
  assumes "error_object_from_json js v = Inr e" "v \<noteq> JNull"
  shows "response_from_json js read (JObject [(''jsonrpc'', JString ''2.0''), (''id'', JString i), (''error'', v)])
    = Inr \<lparr>rs_jsonrpc = ''2.0'', rs_id = i, rs_result = None, rs_error = Some e\<rparr>"
  using assms by (simp add: response_from_json_def wire read_option_def)

lemma error_object_read:
  assumes "- (2 ^ 31) \<le> eo_code e" "eo_code e < 2 ^ 31"
  shows "\<exists>data. error_object_from_json js (error_json js e)
    = Inr \<lparr>je_code = word_of_int (eo_code e), je_message = eo_message e, je_data = data\<rparr>"
proof (cases "eo_data e")
  case None
  with assms show ?thesis by (simp add: error_object_from_json_def error_json_def wire read_sint_def)
next
  case (Some d)
  then have "error_data_json js d \<noteq> JNull" by (simp add: error_data_json_def)
  with Some assms show ?thesis
    by (simp add: error_object_from_json_def error_json_def wire read_sint_def value_from_json_def read_option_def)
qed

section \<open>A command from the terminal to the database and back\<close>

text \<open>What the server does for a command, given its parameters.\<close>

definition command_effect :: "environment \<Rightarrow> io \<Rightarrow> HostClaimId \<Rightarrow> Command \<Rightarrow> ('p, ErrorObject, rpc_result) effect" where
  "command_effect E io fresh command =
     (case command of
        System Info \<Rightarrow>
          ok (SystemInfo \<lparr>si_system_name = ''Control Plane'', si_binary_version = e_binary_version E,
            si_rust_version = e_rust_version E, si_protocol_version = ''1'', si_started_at = e_started_at E\<rparr>)
      | HostCommand (Claim (CreateClaim claim cpus memory storage)) \<Rightarrow>
          and_then (map_oper_err into_rpc_error (on_db (create_claim (e_codec E) io (case claim of None \<Rightarrow> fresh | Some i \<Rightarrow> i)
              \<lparr>spec_resources = \<lparr>vcpus = cpus, memory_bytes = memory, storage_bytes = storage\<rparr>\<rparr>))) (\<lambda>stored.
          and_then wake (\<lambda>_. ok (ClaimResult stored)))
      | HostCommand (Claim (GetClaim i)) \<Rightarrow>
          and_then (map_oper_err into_rpc_error (on_db (get_claim (e_codec E) io i))) (\<lambda>r. ok (ClaimResult (cr_resource r)))
      | HostCommand (Claim ListClaims) \<Rightarrow>
          and_then (map_oper_err into_rpc_error (on_db (list_claims (e_codec E) io))) (\<lambda>rs. ok (HostClaimList (map cr_resource rs)))
      | HostCommand (Claim (DeleteClaim i)) \<Rightarrow>
          and_then (map_oper_err into_rpc_error (on_db (mark_claim_deleting (e_codec E) io i))) (\<lambda>stored.
          and_then wake (\<lambda>_. ok (ClaimResult stored)))
      | HostCommand (GetHost h) \<Rightarrow>
          and_then (map_oper_err into_rpc_error (on_db (get_host (e_codec E) io h))) (\<lambda>r. ok (HostResult (hr_resource r)))
      | HostCommand ListHosts \<Rightarrow>
          and_then (map_oper_err into_rpc_error (on_db (list_hosts (e_codec E) io))) (\<lambda>rs. ok (HostList (map hr_resource rs))))"

text \<open>
  What the transport owes one call: the request is built and sent, and the response is of success, within
  the limit and holds the members of the answer in some order.
\<close>

definition exchanged ::
  "client \<Rightarrow> json_text \<Rightarrow> codec \<Rightarrow> string \<Rightarrow> string \<Rightarrow> request_params \<Rightarrow> (ErrorObject + rpc_result) option \<Rightarrow> bool" where
  "exchanged cl js cd path name params answer \<longleftrightarrow> (\<exists>request members.
     cl_to_vec cl = (\<lambda>rq. Inr (js_write js (request_json cd rq))) \<and> cl_connect cl path = Inr () \<and> cl_handshake cl = Inr ()
     \<and> cl_build cl (js_write js (request_json cd
          \<lparr>rq_jsonrpc = ''2.0'', rq_id = cl_request_id cl, rq_method = name, rq_params = params\<rparr>)) = Inr request
     \<and> cl_send cl request = Inr \<lparr>http_status = 200, http_body = Inr (js_write js (JObject members))\<rparr>
     \<and> length (js_write js (JObject members)) \<le> 4194304
     \<and> distinct (map fst members)
     \<and> (\<forall>a. answer = Some a \<longrightarrow> set members = set (reply_members js cd (cl_request_id cl) a)))"

lemma reply_distinct: "distinct (map fst (reply_members js cd i answer))"
  by (simp add: reply_members_def split: sum.split)

lemma into_rpc_error_code: "- (2 ^ 31) \<le> eo_code (into_rpc_error err)" "eo_code (into_rpc_error err) < 2 ^ 31"
  by (cases err; simp add: into_rpc_error_def INVALID_ARGUMENT_CODE_def NOT_FOUND_CODE_def CONFLICT_CODE_def
      INTERNAL_ERROR_CODE_def)+

lemma into_rpc_error_plain: "plain 3 (error_json js (into_rpc_error err))"
  using into_rpc_error_code [of err] error_data_wire.plain_at [of 2 "the (eo_data (into_rpc_error err))" js]
  by (auto simp: error_json_def plain_containers into_rpc_error_def Let_def split: AppError.splits)

lemma exchanged_received:
  assumes "exchanged cl js cd path name params (Some answer)" and "json_text_ok js"
    and "\<forall>v \<in> snd ` set (reply_members js cd (cl_request_id cl) answer). plain 126 v"
    and "response_from_json js read (JObject (reply_members js cd (cl_request_id cl) answer)) = Inr reply"
  shows "received cl path (from_text js (response_from_json js read)) name params reply"
proof -
  obtain request members where sent: "cl_to_vec cl = (\<lambda>rq. Inr (js_write js (request_json cd rq)))"
      "cl_connect cl path = Inr ()" "cl_handshake cl = Inr ()"
      "cl_build cl (js_write js (request_json cd
          \<lparr>rq_jsonrpc = ''2.0'', rq_id = cl_request_id cl, rq_method = name, rq_params = params\<rparr>)) = Inr request"
      "cl_send cl request = Inr \<lparr>http_status = 200, http_body = Inr (js_write js (JObject members))\<rparr>"
      "length (js_write js (JObject members)) \<le> 4194304"
    and members: "distinct (map fst members)" "set members = set (reply_members js cd (cl_request_id cl) answer)"
    using assms(1) by (auto simp: exchanged_def)
  have "plain 127 (JObject members)" using assms(3) members(2) by (simp add: plain_containers)
  moreover have "response_from_json js read (JObject members) = Inr reply"
    by (rule response_reordered [OF members(1) reply_distinct members(2) assms(4)])
  ultimately have "from_text js (response_from_json js read) (js_write js (JObject members)) = Inr reply"
    using assms(2) by (simp add: from_text_def json_text_okD map_err_def)
  with sent show ?thesis by (auto simp: received_def)
qed

lemma exchanged_delivered:
  assumes "exchanged cl js cd path name params answer" and "json_text_ok js"
    and "answer = Some (Inr (wrap r)) \<or> answer = Some (Inl (into_rpc_error err))"
    and "\<And>r. from_json (to_json r) = Inr r" "\<And>r. to_json r \<noteq> JNull" "\<And>r. plain 126 (to_json r)"
      "\<And>r. result_json cd (wrap r) = to_json r" "inj wrap"
  shows "delivered cl (wire_result js pretty to_json from_json) wrap answer path name params"
  using assms(3)
proof
  assume result: "answer = Some (Inr (wrap r))"
  have "received cl path (from_text js (response_from_json js from_json)) name params
      \<lparr>rs_jsonrpc = ''2.0'', rs_id = cl_request_id cl, rs_result = Some r, rs_error = None\<rparr>"
    by (rule exchanged_received [OF assms(1) [unfolded result] assms(2)])
      (simp_all add: reply_members_def result_response assms(4-7))
  with result show ?thesis by (force simp: delivered_def wire_result_def inj_eq [OF assms(8)])
next
  assume error: "answer = Some (Inl (into_rpc_error err))"
  obtain data where read: "error_object_from_json js (error_json js (into_rpc_error err))
      = Inr \<lparr>je_code = word_of_int (eo_code (into_rpc_error err)), je_message = eo_message (into_rpc_error err), je_data = data\<rparr>"
    using error_object_read [OF into_rpc_error_code] by blast
  have "error_json js (into_rpc_error err) \<noteq> JNull" by (simp add: error_json_def)
  with read have "received cl path (from_text js (response_from_json js from_json)) name params
      \<lparr>rs_jsonrpc = ''2.0'', rs_id = cl_request_id cl, rs_result = None, rs_error =
        Some \<lparr>je_code = word_of_int (eo_code (into_rpc_error err)), je_message = eo_message (into_rpc_error err), je_data = data\<rparr>\<rparr>"
    using plain_mono [OF _ into_rpc_error_plain, of 126 js err]
    by (intro exchanged_received [OF assms(1) [unfolded error] assms(2)]) (simp_all add: reply_members_def error_response)
  with error show ?thesis by (auto simp: delivered_def wire_result_def)
qed

lemma claim_result_inj: "inj SystemInfo" "inj ClaimResult" "inj HostClaimList" "inj HostResult" "inj HostList"
  by (simp_all add: inj_def)

lemma result_json_simps [simp]:
  "result_json cd (SystemInfo info) = system_info_json cd info" "result_json cd (ClaimResult c) = claim_json cd c"
  "result_json cd (HostClaimList cs) = claim_list_json cd cs" "result_json cd (HostResult h) = host_json cd h"
  "result_json cd (HostList hs) = host_list_json cd hs"
  by (simp_all add: result_json_def)

lemma results_not_null [simp]:
  "system_info_json cd info \<noteq> JNull" "claim_json cd c \<noteq> JNull" "claim_list_json cd cs \<noteq> JNull"
  "host_json cd h \<noteq> JNull" "host_list_json cd hs \<noteq> JNull"
  by (simp_all add: system_info_json_def claim_json_def claim_list_json_def host_json_def host_list_json_def)

lemmas results_read_back = system_info_wire.read_back claim_wire.read_back claim_list_wire.read_back host_wire.read_back
  host_list_wire.read_back system_info_wire.plain_at claim_wire.plain_at claim_list_wire.plain_at host_wire.plain_at
  host_list_wire.plain_at claim_result_inj

text \<open>The answer of a method is of its type of result or a protocol error, so it is delivered to the client.\<close>

lemma method_delivered:
  fixes handler :: "'p handler" and w :: "'p world"
  assumes "rpc_module name = Some handler" "answers wrap (handler E io payload)"
    and "serve_message E io (Call name payload) w = (answer, w')"
    and "exchanged cl js cd path name params answer" and "json_text_ok js"
    and "\<And>r. from_json (to_json r) = Inr r" "\<And>r. to_json r \<noteq> JNull" "\<And>r. plain 126 (to_json r)"
      "\<And>r. result_json cd (wrap r) = to_json r" "inj wrap"
  shows "delivered cl (wire_result js pretty to_json from_json) wrap answer path name params"
proof (cases rule: answer_cases [OF assms(1-3)])
  case (1 r)
  then show ?thesis by (intro exchanged_delivered [OF assms(4,5) _ assms(6-10)]) simp
next
  case (2 err)
  then show ?thesis by (intro exchanged_delivered [OF assms(4,5) _ assms(6-10)]) simp
qed

lemmas methods_delivered =
  method_delivered [OF rpc_module_registered(1) method_answers(1)] method_delivered [OF rpc_module_registered(2) method_answers(2)]
  method_delivered [OF rpc_module_registered(3) method_answers(3)] method_delivered [OF rpc_module_registered(4) method_answers(4)]
  method_delivered [OF rpc_module_registered(5) method_answers(5)] method_delivered [OF rpc_module_registered(6) method_answers(6)]
  method_delivered [OF rpc_module_registered(7) method_answers(7)]

lemma exchanged_carried:
  assumes "command_request (cl_new_claim_id cl) (cli_command cli) = (name, params)"
    and run: "serve_message E io (Call name payload) w = (answer, w')"
    and sent: "exchanged cl js cd (cli_socket_path cli) name params answer" and "json_text_ok js" and "texts_ok cd"
  shows "carried cl (wire_results js pretty cd) cli answer"
proof -
  note deliver = methods_delivered [unfolded method_names]
  note facts = carried_def command_request_def wire_results_def
  show ?thesis
  proof (cases rule: command_cases [of "cli_command cli"])
    case info
    with assms show ?thesis by (auto simp: facts results_read_back intro!: deliver(1) [where E = E and io = io])
  next
    case create
    with assms show ?thesis by (auto simp: facts results_read_back intro!: deliver(2) [where E = E and io = io])
  next
    case get
    with assms show ?thesis by (auto simp: facts results_read_back intro!: deliver(3) [where E = E and io = io])
  next
    case list
    with assms show ?thesis by (auto simp: facts results_read_back intro!: deliver(4) [where E = E and io = io])
  next
    case delete
    with assms show ?thesis by (auto simp: facts results_read_back intro!: deliver(5) [where E = E and io = io])
  next
    case get_host
    with assms show ?thesis by (auto simp: facts results_read_back intro!: deliver(6) [where E = E and io = io])
  next
    case list_hosts
    with assms show ?thesis by (auto simp: facts results_read_back intro!: deliver(7) [where E = E and io = io])
  qed
qed

text \<open>The handler of a command's method does what the command asks, with the command's own parameters.\<close>

lemma message_effect:
  assumes "command_request fresh command = (name, params)" and "e_params E = wire_params js cd"
    and "json_text_ok js" and "texts_ok cd"
  shows "serve_message E io (Call name (js_write js (request_params_json cd params))) w
    = (case command_effect E io fresh command w of (r, w') \<Rightarrow> (Some r, w'))"
proof -
  note parsed = params_read_back [OF assms(3,4)]
  note registered = rpc_module_registered [unfolded method_names]
  show ?thesis
    by (cases command rule: command_cases)
      (use assms(1) in \<open>auto simp: command_request_def serve_message_def registered handler_defs command_effect_def
        parse_params_def assms(2) parsed PROTOCOL_VERSION_def map_err_def and_then_def\<close>)
qed

text \<open>
  C20: A command does what it says and shows what came of it, over the whole path: its parameters written
  as JSON, read by the server's method, the operation on the database, the answer written and read back.
  The server does exactly the operation of the command with the command's own parameters, and the client
  prints the lines of its result and exits with 0, or prints the code and message of its error and
  exits with 1, whatever the order of the members of the response.
\<close>

theorem command_end_to_end:
  assumes "json_text_ok js" and "texts_ok cd" and "e_params E = wire_params js cd"
    and "command_request (cl_new_claim_id cl) (cli_command cli) = (name, params)"
    and "serve_message E io (Call name (js_write js (request_params_json cd params))) w = (reply, w')"
    and "exchanged cl js cd (cli_socket_path cli) name params reply" and "cli_output cli = Human"
  shows "\<exists>answer. command_effect E io (cl_new_claim_id cl) (cli_command cli) w = (answer, w')
    \<and> cli_main cl cd (wire_results js pretty cd) to_string_pretty cli =
      (case answer of
         Inr result \<Rightarrow> \<lparr>stdout = result_lines cd result, stderr = [], exit_code = 0\<rparr>
       | Inl e \<Rightarrow> \<lparr>stdout = [], stderr = [error_text cd params e], exit_code = 1\<rparr>)"
proof -
  obtain answer where answer: "command_effect E io (cl_new_claim_id cl) (cli_command cli) w = (answer, w')" "reply = Some answer"
    using message_effect [OF assms(4,3,1,2), of io w] assms(5) by (auto split: prod.splits)
  have "carried cl (wire_results js pretty cd) cli reply"
    by (rule exchanged_carried [OF assms(4,5,6,1,2)])
  from client_shows_answer [OF assms(4,5) this assms(7), of cd to_string_pretty] answer show ?thesis by simp
qed

text \<open>A client on a transport that brings the answer of an unused server back.\<close>

definition sample_reply :: "ErrorObject + rpc_result" where
  "sample_reply = Inl (into_rpc_error (NotFound ''HostClaim'' (claim_id_text sample_codec sample_claim_id)))"

definition wire_client :: client where
  "wire_client = \<lparr>cl_request_id = ''1'', cl_new_claim_id = HostClaimId 9,
     cl_to_vec = (\<lambda>rq. Inr (js_write sample_json_text (request_json sample_codec rq))),
     cl_connect = (\<lambda>_. Inr ()), cl_handshake = Inr (), cl_build = Inr,
     cl_send = (\<lambda>_. Inr \<lparr>http_status = 200,
       http_body = Inr (js_write sample_json_text (JObject (reply_members sample_json_text sample_codec ''1'' sample_reply)))\<rparr>),
     cl_status_text = word_text \<circ> (of_nat :: nat \<Rightarrow> u32)\<rparr>"

lemma length_frame_text: "length (frame_text s) = 2 * length s + 1"
  by (induction s) (simp_all add: frame_text_def)

lemma sample_reply_bounded:
  "length (js_write sample_json_text (JObject (reply_members sample_json_text sample_codec ''1'' sample_reply))) \<le> 4194304"
  by (simp add: sample_json_text_def reply_members_def sample_reply_def error_json_def error_data_json_def error_kind_json_def
      write_option_def into_rpc_error_def NOT_FOUND_CODE_def length_frame_text sample_codec_def sample_claim_id_def
      int_text_def nat_text.simps)

theorem command_end_to_end_witness:
  "exit_code (cli_main wire_client sample_codec (wire_results sample_json_text (\<lambda>_. []) sample_codec) (\<lambda>_. Inl ''error'')
      \<lparr>cli_socket_path = ''cp.sock'', cli_output = Human, cli_command = HostCommand (Claim (GetClaim sample_claim_id))\<rparr>) = 1"
proof -
  let ?E = "sample_env\<lparr>e_params := wire_params sample_json_text sample_codec\<rparr>"
  let ?w = "\<lparr>w_db = empty_database, w_provider = (0 :: nat), w_notified = False, w_count = 0\<rparr>"
  let ?cli = "\<lparr>cli_socket_path = ''cp.sock'', cli_output = Human, cli_command = HostCommand (Claim (GetClaim sample_claim_id))\<rparr>"
  note texts = codec_texts_ok [OF sample_codec_ok]
  have request: "command_request (cl_new_claim_id wire_client) (cli_command ?cli) = (''host.claim.get'', GetClaimParams sample_claim_id)"
    by (simp add: command_request_def)
  have "get_claim sample_codec sample_io sample_claim_id empty_database
      = (Inl (NotFound ''HostClaim'' (claim_id_text sample_codec sample_claim_id)), empty_database)"
    using sample_io_healthy by (simp add: get_claim_def fetch_claim_row_def joined_claims_def empty_database_def on_pool_def healthy_calls
        and_then_def ok_or_def)
  then have effect: "command_effect ?E sample_io (cl_new_claim_id wire_client) (cli_command ?cli) ?w = (sample_reply, ?w)"
    by (simp add: command_effect_def sample_env_codec sample_reply_def map_oper_err_def on_db_def and_then_def)
  from this message_effect [OF request _ sample_json_text_ok texts, of ?E sample_io ?w]
  have run: "serve_message ?E sample_io (Call ''host.claim.get''
        (js_write sample_json_text (request_params_json sample_codec (GetClaimParams sample_claim_id)))) ?w = (Some sample_reply, ?w)"
    by simp
  have "exchanged wire_client sample_json_text sample_codec (cli_socket_path ?cli) ''host.claim.get''
      (GetClaimParams sample_claim_id) (Some sample_reply)"
    using sample_reply_bounded reply_distinct by (fastforce simp: exchanged_def wire_client_def)
  from command_end_to_end [OF sample_json_text_ok texts _ request run this, of "\<lambda>_. []" "\<lambda>_. Inl ''error''"]
  show ?thesis unfolding effect by (simp add: sample_reply_def)
qed

end
