(* ===== verification/Socket.thy ===== *)
theory Socket
  imports Prelude
begin

text \<open>
  \<open>crates/control-plane/src/rpc.rs\<close>: the local RPC socket, from \<open>prepare_socket_path\<close> and
  \<open>bind\<close> to the \<open>Drop\<close> of \<open>SocketPathGuard\<close>. The file system is what one path holds. Between
  two system calls of the program other processes may replace the entry, and every call may fail.
\<close>

section \<open>The file system at one path\<close>

datatype IoErrorKind = IoNotFound | IoConnectionRefused | IoOther

record io_error =
  io_kind :: IoErrorKind
  io_text :: string

text \<open>\<open>anyhow::Error\<close>: the chain of messages, outermost first.\<close>

type_synonym anyhow = "string list"

record SocketIdentity =
  device :: u64
  inode :: u64

record path_entry =
  is_socket :: bool
  identity :: SocketIdentity
  listening :: bool
  permissions :: u32

datatype call_fault = Fails io_error | TimesOut

text \<open>
  What happens around one system call: \<open>taken = Some e\<close> when another process left \<open>e\<close> at the path
  before the call, and the fault of the call. A call beyond the end of the list is undisturbed.
\<close>

record path_move =
  taken :: "path_entry option option"
  fault :: "call_fault option"

text \<open>\<open>unlinked\<close> keeps the entries this process removed, the latest first.\<close>

record path_world =
  entry :: "path_entry option"
  moves :: "path_move list"
  unlinked :: "path_entry list"

type_synonym 'a path_call = "(path_world, io_error, 'a) oper"

definition untouched :: path_move where
  "untouched = \<lparr>taken = None, fault = None\<rparr>"

definition next_move :: "path_world \<Rightarrow> path_move" where
  "next_move w = (case moves w of [] \<Rightarrow> untouched | m # ms \<Rightarrow> m)"

text \<open>The world as the next call finds it.\<close>

definition arrive :: "path_world \<Rightarrow> path_world" where
  "arrive w = w\<lparr>entry := (case taken (next_move w) of None \<Rightarrow> entry w | Some e \<Rightarrow> e), moves := tl (moves w)\<rparr>"

definition other_error :: "string \<Rightarrow> io_error" where
  "other_error text = \<lparr>io_kind = IoOther, io_text = text\<rparr>"

definition not_found_error :: io_error where
  "not_found_error = \<lparr>io_kind = IoNotFound, io_text = ''No such file or directory (os error 2)''\<rparr>"

definition refused_error :: io_error where
  "refused_error = \<lparr>io_kind = IoConnectionRefused, io_text = ''Connection refused (os error 111)''\<rparr>"

definition system_call :: "'a path_call \<Rightarrow> 'a path_call" where
  "system_call f w =
     (case fault (next_move w) of
        None \<Rightarrow> f (arrive w)
      | Some (Fails e) \<Rightarrow> (Inl e, arrive w)
      | Some TimesOut \<Rightarrow> (Inl (other_error ''operation timed out''), arrive w))"

definition create_dir_all :: "unit path_call" where
  "create_dir_all = system_call (ok ())"

definition symlink_metadata :: "path_entry path_call" where
  "symlink_metadata = system_call (\<lambda>w. (case entry w of None \<Rightarrow> Inl not_found_error | Some e \<Rightarrow> Inr e, w))"

definition remove_file :: "unit path_call" where
  "remove_file = system_call (\<lambda>w.
     (case entry w of
        None \<Rightarrow> (Inl not_found_error, w)
      | Some e \<Rightarrow> (Inr (), w\<lparr>entry := None, unlinked := e # unlinked w\<rparr>)))"

text \<open>\<open>timeout(connect)\<close>: \<open>None\<close> when the time is up.\<close>

definition connect_result :: "call_fault option \<Rightarrow> path_entry option \<Rightarrow> (io_error + unit) option" where
  "connect_result f e =
     (case f of
        Some TimesOut \<Rightarrow> None
      | Some (Fails error) \<Rightarrow> Some (Inl error)
      | None \<Rightarrow> Some (case e of
            None \<Rightarrow> Inl not_found_error
          | Some s \<Rightarrow> if is_socket s \<and> listening s then Inr () else Inl refused_error))"

definition connect_timeout :: "path_world \<Rightarrow> (io_error + unit) option \<times> path_world" where
  "connect_timeout w = (connect_result (fault (next_move w)) (entry (arrive w)), arrive w)"

definition bind_listener :: "SocketIdentity \<Rightarrow> u32 \<Rightarrow> unit path_call" where
  "bind_listener fresh mode = system_call (\<lambda>w.
     (case entry w of
        Some e \<Rightarrow> (Inl (other_error ''Address already in use (os error 98)''), w)
      | None \<Rightarrow> (Inr (), w\<lparr>entry := Some \<lparr>is_socket = True, identity = fresh, listening = True, permissions = mode\<rparr>\<rparr>)))"

text \<open>Closing the listener that was bound with the identity \<open>fresh\<close>.\<close>

definition close_listener :: "SocketIdentity \<Rightarrow> path_world \<Rightarrow> path_world" where
  "close_listener fresh w =
     w\<lparr>entry := map_option (\<lambda>e. if is_socket e \<and> identity e = fresh then e\<lparr>listening := False\<rparr> else e) (entry w)\<rparr>"

definition set_permissions :: "u32 \<Rightarrow> unit path_call" where
  "set_permissions mode = system_call (\<lambda>w.
     (case entry w of
        None \<Rightarrow> (Inl not_found_error, w)
      | Some e \<Rightarrow> (Inr (), w\<lparr>entry := Some (e\<lparr>permissions := mode\<rparr>)\<rparr>)))"

definition with_context :: "string \<Rightarrow> 'a path_call \<Rightarrow> (path_world, anyhow, 'a) oper" where
  "with_context message m w = map_prod (map_err (\<lambda>e. [message, io_text e])) id (m w)"

section \<open>The parent of a path\<close>

text \<open>
  \<open>Path::parent\<close> on a Unix path, its bytes from the last: trailing slashes and \<open>.\<close> components do
  not count, and the root keeps its slash.
\<close>

fun trim_path :: "string \<Rightarrow> string" where
  "trim_path [] = []"
| "trim_path [c] = [c]"
| "trim_path (c # d # cs) =
     (if c = CHR ''/'' then trim_path (d # cs)
      else if c = CHR ''.'' \<and> d = CHR ''/'' then trim_path (d # cs)
      else c # d # cs)"

definition path_parent :: "string \<Rightarrow> string option" where
  "path_parent path =
     (let trimmed = trim_path (rev path) in
      if trimmed = [] \<or> trimmed = ''/'' then None
      else Some (rev (trim_path (dropWhile (\<lambda>c. c \<noteq> CHR ''/'') trimmed))))"

definition parent_directory :: "string \<Rightarrow> string option" where
  "parent_directory path = (case path_parent path of None \<Rightarrow> None | Some d \<Rightarrow> if d = [] then None else Some d)"

section \<open>Preparing the path\<close>

definition remove_socket_if_owned :: "string \<Rightarrow> SocketIdentity \<Rightarrow> (path_world, anyhow, unit) oper" where
  "remove_socket_if_owned path expected w =
     (case symlink_metadata w of
        (Inl error, w1) \<Rightarrow>
          if io_kind error = IoNotFound then (Inr (), w1)
          else (Inl [''reinspect stale local RPC socket '' @ path, io_text error], w1)
      | (Inr metadata, w1) \<Rightarrow>
          if \<not> is_socket metadata \<or> identity metadata \<noteq> expected then
            (Inl [''local RPC socket '' @ path @ '' changed while it was being probed; refusing to remove it''], w1)
          else with_context (''remove stale local RPC socket '' @ path) remove_file w1)"

definition probe_existing :: "string \<Rightarrow> SocketIdentity \<Rightarrow> (path_world, anyhow, unit) oper" where
  "probe_existing path existing_identity w =
     (case connect_timeout w of
        (Some (Inr stream), w1) \<Rightarrow> (Inl [''local RPC socket '' @ path @ '' is already served by another process''], w1)
      | (None, w1) \<Rightarrow>
          (Inl [''timed out while probing existing local RPC socket '' @ path @ ''; refusing to remove it''], w1)
      | (Some (Inl error), w1) \<Rightarrow>
          (case io_kind error of
             IoConnectionRefused \<Rightarrow> remove_socket_if_owned path existing_identity w1
           | IoNotFound \<Rightarrow> (Inr (), w1)
           | IoOther \<Rightarrow>
               (Inl [''probe existing local RPC socket '' @ path @ ''; refusing to remove it'', io_text error], w1)))"

definition create_parent :: "string \<Rightarrow> (path_world, anyhow, unit) oper" where
  "create_parent path =
     (case parent_directory path of
        None \<Rightarrow> ok ()
      | Some parent \<Rightarrow> with_context (''create socket directory '' @ parent) create_dir_all)"

definition inspect_existing :: "string \<Rightarrow> (path_world, anyhow, unit) oper" where
  "inspect_existing path w =
     (case symlink_metadata w of
        (Inl error, w1) \<Rightarrow>
          if io_kind error = IoNotFound then (Inr (), w1)
          else (Inl [''inspect local RPC socket '' @ path, io_text error], w1)
      | (Inr metadata, w1) \<Rightarrow>
          if \<not> is_socket metadata then (Inl [''refusing to replace non-socket path '' @ path], w1)
          else probe_existing path (identity metadata) w1)"

definition prepare_socket_path :: "string \<Rightarrow> (path_world, anyhow, unit) oper" where
  "prepare_socket_path path = and_then (create_parent path) (\<lambda>_. inspect_existing path)"

section \<open>The guard of the bound socket\<close>

definition socket_identity :: "string \<Rightarrow> (path_world, anyhow, SocketIdentity) oper" where
  "socket_identity path =
     and_then (with_context (''inspect local RPC socket '' @ path) symlink_metadata) (\<lambda>metadata.
       if \<not> is_socket metadata then fail_with [''path '' @ path @ '' is not a Unix socket'']
       else ok (identity metadata))"

record SocketPathGuard =
  guard_path :: string
  guard_identity :: SocketIdentity

definition new_guard :: "string \<Rightarrow> (path_world, anyhow, SocketPathGuard) oper" where
  "new_guard path = and_then (socket_identity path) (\<lambda>i. ok \<lparr>guard_path = path, guard_identity = i\<rparr>)"

text \<open>A removal that fails is logged when the entry was still there, and is otherwise ignored.\<close>

definition drop_guard :: "SocketPathGuard \<Rightarrow> path_world \<Rightarrow> path_world" where
  "drop_guard guard w =
     (case socket_identity (guard_path guard) w of
        (Inl _, w1) \<Rightarrow> w1
      | (Inr i, w1) \<Rightarrow> if i \<noteq> guard_identity guard then w1 else snd (remove_file w1))"

section \<open>Binding and serving\<close>

record BoundRpcSocket =
  listener :: SocketIdentity
  socket_guard :: SocketPathGuard
  socket_path :: string
  socket_mode :: u32

text \<open>
  The identity and the mode of a socket the kernel makes are arguments. An error drops what was made
  so far, the guard before the listener.
\<close>

definition bind_socket :: "SocketIdentity \<Rightarrow> u32 \<Rightarrow> string \<Rightarrow> u32 \<Rightarrow> (path_world, anyhow, BoundRpcSocket) oper" where
  "bind_socket fresh made_mode path mode =
     and_then (prepare_socket_path path) (\<lambda>_.
     and_then (with_context (''bind local RPC socket '' @ path) (bind_listener fresh made_mode)) (\<lambda>_ w.
     case new_guard path w of
       (Inl error, w1) \<Rightarrow> (Inl error, close_listener fresh w1)
     | (Inr guard, w1) \<Rightarrow>
         (case with_context (''set mode on local RPC socket '' @ path) (set_permissions mode) w1 of
            (Inl error, w2) \<Rightarrow> (Inl error, close_listener fresh (drop_guard guard w2))
          | (Inr _, w2) \<Rightarrow>
              (Inr \<lparr>listener = fresh, socket_guard = guard, socket_path = path, socket_mode = mode\<rparr>, w2))))"

text \<open>
  \<open>serve_bound\<close> owns the listener and drops it whatever it returns; then the guard is dropped, on
  the error path by leaving the scope.
\<close>

definition serve_socket :: "anyhow + unit \<Rightarrow> BoundRpcSocket \<Rightarrow> (path_world, anyhow, unit) oper" where
  "serve_socket served bound w = (served, drop_guard (socket_guard bound) (close_listener (listener bound) w))"

end
