(* ===== verification/Config.thy ===== *)
theory Config
  imports Prelude
begin

text \<open>
  \<open>crates/control-plane/src/config.rs\<close>: the readers of the socket mode and of the scan interval,
  with the integer parsers of Rust's standard library they use. The command line itself is clap's.
\<close>

section \<open>The standard library's integer parser\<close>

datatype IntErrorKind = EmptyText | InvalidDigit | PosOverflow

definition int_error_text :: "IntErrorKind \<Rightarrow> string" where
  "int_error_text kind =
     (case kind of
        EmptyText \<Rightarrow> ''cannot parse integer from empty string''
      | InvalidDigit \<Rightarrow> ''invalid digit found in string''
      | PosOverflow \<Rightarrow> ''number too large to fit in target type'')"

text \<open>\<open>char::to_digit\<close> for a radix of at most ten.\<close>

definition to_digit :: "nat \<Rightarrow> char \<Rightarrow> nat option" where
  "to_digit radix c =
     (let n = of_char c in if 48 \<le> n \<and> n < 48 + radix then Some (n - 48) else None)"

fun parse_digits :: "nat \<Rightarrow> nat \<Rightarrow> nat \<Rightarrow> string \<Rightarrow> IntErrorKind + nat" where
  "parse_digits radix limit result [] = Inr result"
| "parse_digits radix limit result (c # cs) =
     (case to_digit radix c of
        None \<Rightarrow> Inl InvalidDigit
      | Some d \<Rightarrow>
          if limit < result * radix + d then Inl PosOverflow
          else parse_digits radix limit (result * radix + d) cs)"

text \<open>\<open>from_str_radix\<close> of an unsigned type whose largest value is \<open>limit\<close>: a plus sign may lead.\<close>

definition from_str_radix :: "nat \<Rightarrow> nat \<Rightarrow> string \<Rightarrow> IntErrorKind + nat" where
  "from_str_radix radix limit text =
     (case text of
        [] \<Rightarrow> Inl EmptyText
      | c # cs \<Rightarrow>
          if cs = [] \<and> c \<in> {CHR ''+'', CHR ''-''} then Inl InvalidDigit
          else parse_digits radix limit 0 (if c = CHR ''+'' then cs else text))"

text \<open>\<open>str::trim_start_matches\<close> for the prefix of an octal literal.\<close>

fun trim_octal_prefix :: "string \<Rightarrow> string" where
  "trim_octal_prefix (a # b # rest) =
     (if a = CHR ''0'' \<and> b = CHR ''o'' then trim_octal_prefix rest else a # b # rest)"
| "trim_octal_prefix text = text"

section \<open>The readers\<close>

definition parse_mode :: "string \<Rightarrow> string + u32" where
  "parse_mode value =
     (case from_str_radix 8 (2 ^ 32 - 1) (trim_octal_prefix value) of
        Inl error \<Rightarrow> Inl (''invalid octal mode '' @ debug_text value @ '': '' @ int_error_text error)
      | Inr mode \<Rightarrow>
          if mode \<le> 4095 then Inr (of_nat mode)
          else Inl (''socket mode '' @ debug_text value @ '' is outside 0000..7777''))"

definition parse_positive_u64 :: "string \<Rightarrow> string + u64" where
  "parse_positive_u64 value =
     (case from_str_radix 10 (2 ^ 64 - 1) value of
        Inl error \<Rightarrow> Inl (''invalid positive integer '' @ debug_text value @ '': '' @ int_error_text error)
      | Inr parsed \<Rightarrow>
          if parsed = 0 then Inl ''value must be greater than zero''
          else Inr (of_nat parsed))"

section \<open>The configuration\<close>

datatype LogFormat = JsonLog | CompactLog

record Config =
  cfg_socket_path :: string
  cfg_database_path :: string
  cfg_fake_provider_database_path :: string
  cfg_socket_mode :: u32
  cfg_reconcile_interval_ms :: u64
  cfg_log_format :: LogFormat

text \<open>
  What clap makes of an empty command line and environment: the default text of the mode goes through
  its reader, the other defaults are values.
\<close>

definition default_config :: "string + Config" where
  "default_config =
     bind_result (parse_mode ''0660'') (\<lambda>mode.
     Inr \<lparr>cfg_socket_path = ''/tmp/control-plane.sock'', cfg_database_path = ''/tmp/control-plane.db'',
       cfg_fake_provider_database_path = ''/tmp/control-plane-fake-provider.db'', cfg_socket_mode = mode,
       cfg_reconcile_interval_ms = 1000, cfg_log_format = JsonLog\<rparr>)"

text \<open>\<open>Duration::from_millis\<close>, in milliseconds.\<close>

definition reconcile_interval :: "Config \<Rightarrow> nat" where
  "reconcile_interval self = unat (cfg_reconcile_interval_ms self)"

section \<open>Digits\<close>

text \<open>A number in the given radix, most significant digit first.\<close>

fun radix_text :: "nat \<Rightarrow> nat \<Rightarrow> string" where
  "radix_text radix n =
     (if radix < 2 \<or> n < radix then [char_of (48 + n)]
      else radix_text radix (n div radix) @ [char_of (48 + n mod radix)])"

declare radix_text.simps [simp del]

lemma to_digit_char: "d < radix \<Longrightarrow> radix \<le> 10 \<Longrightarrow> to_digit radix (char_of (48 + d)) = Some d"
  by (simp add: to_digit_def)

lemma parse_digits_append:
  "parse_digits radix limit result (xs @ ys) =
     (case parse_digits radix limit result xs of Inl e \<Rightarrow> Inl e | Inr n \<Rightarrow> parse_digits radix limit n ys)"
  by (induction xs arbitrary: result) (auto split: option.split)

lemma parse_digits_limit:
  "parse_digits radix limit result xs = Inr n \<Longrightarrow> result \<le> limit \<Longrightarrow> n \<le> limit"
  by (induction xs arbitrary: result) (auto split: option.splits if_splits)

lemma parse_radix_text:
  assumes radix: "2 \<le> radix" "radix \<le> 10"
  shows "parse_digits radix limit 0 (radix_text radix n) = (if n \<le> limit then Inr n else Inl PosOverflow)"
proof (induction n rule: less_induct)
  case (less n)
  show ?case
  proof (cases "n < radix")
    case True
    then show ?thesis using radix by (simp add: radix_text.simps [of radix n] to_digit_char)
  next
    case False
    then have "n div radix < n" using radix by (simp add: div_less_dividend)
    note IH = less [OF this]
    have digits: "radix_text radix n = radix_text radix (n div radix) @ [char_of (48 + n mod radix)]"
      using False radix by (simp add: radix_text.simps [of radix n])
    have "to_digit radix (char_of (48 + n mod radix)) = Some (n mod radix)"
      using radix by (simp add: to_digit_char)
    moreover have "n div radix * radix + n mod radix = n" by simp
    moreover have "n div radix \<le> limit" if "n \<le> limit" using that by (rule le_trans [OF div_le_dividend])
    ultimately show ?thesis
      using IH by (cases "n \<le> limit") (auto simp: digits parse_digits_append simp del: div_mult_mod_eq)
  qed
qed

lemma radix_text_nonempty: "radix_text radix n \<noteq> []"
  by (subst radix_text.simps) simp

lemma radix_text_digits:
  assumes radix: "2 \<le> radix" "radix \<le> 10"
  shows "\<forall>c \<in> set (radix_text radix n). 48 \<le> (of_char c :: nat) \<and> (of_char c :: nat) < 58"
proof (induction n rule: less_induct)
  case (less n)
  show ?case
  proof (cases "n < radix")
    case True
    then show ?thesis using radix by (simp add: radix_text.simps [of radix n])
  next
    case False
    then have "n div radix < n" using radix by (simp add: div_less_dividend)
    moreover have small: "n mod radix < 10" using radix less_le_trans [of "n mod radix" radix 10] by simp
    moreover from small have "of_char (char_of (48 + n mod radix) :: char) = 48 + n mod radix" by simp
    ultimately show ?thesis
      using False radix less [of "n div radix"]
      by (simp add: radix_text.simps [of radix n] del: of_char_of)
  qed
qed

lemma radix_text_starts:
  assumes radix: "2 \<le> radix" "radix \<le> 10"
  obtains c cs where "radix_text radix n = c # cs" "48 \<le> (of_char c :: nat)" "(of_char c :: nat) < 58"
    "\<forall>d \<in> set cs. (of_char d :: nat) < 58"
  using radix_text_digits [OF radix, of n] radix_text_nonempty [of radix n]
  by (cases "radix_text radix n") auto

lemma from_radix_text:
  assumes radix: "2 \<le> radix" "radix \<le> 10"
  shows "from_str_radix radix limit (radix_text radix n) = (if n \<le> limit then Inr n else Inl PosOverflow)"
proof -
  obtain c cs where digits: "radix_text radix n = c # cs" and c: "48 \<le> (of_char c :: nat)"
    by (rule radix_text_starts [OF radix])
  have "c \<noteq> CHR ''+''" "c \<noteq> CHR ''-''" using c by auto
  then show ?thesis using parse_radix_text [OF radix, of limit n] by (simp add: from_str_radix_def digits)
qed

lemma trim_radix_text:
  assumes radix: "2 \<le> radix" "radix \<le> 10"
  shows "trim_octal_prefix (radix_text radix n) = radix_text radix n"
proof -
  obtain c cs where "radix_text radix n = c # cs" "\<forall>d \<in> set cs. (of_char d :: nat) < 58"
    by (rule radix_text_starts [OF radix])
  then show ?thesis by (cases cs) auto
qed

lemma from_str_radix_limit: "from_str_radix radix limit text = Inr n \<Longrightarrow> n \<le> limit"
  by (auto simp: from_str_radix_def simp del: parse_digits.simps dest!: parse_digits_limit split: list.splits if_splits)

section \<open>Properties\<close>

text \<open>
  C40: The socket mode is read as the octal number it writes, with or without its prefix: a mode of at
  most 7777 is that mode, a larger one is refused as out of range, one past 32 bits as too large. No
  text is read as a mode that is out of range.
\<close>

theorem socket_mode_read:
  assumes "prefix \<in> {[], ''0o''}"
  shows "parse_mode (prefix @ radix_text 8 n) =
      (if n \<le> 4095 then Inr (of_nat n)
       else if n < 2 ^ 32 then Inl (''socket mode '' @ debug_text (prefix @ radix_text 8 n) @ '' is outside 0000..7777'')
       else Inl (''invalid octal mode '' @ debug_text (prefix @ radix_text 8 n) @ '': number too large to fit in target type''))
    \<and> (\<forall>m. parse_mode value = Inr m \<longrightarrow> unat m \<le> 4095)"
proof
  have "trim_octal_prefix (prefix @ radix_text 8 n) = radix_text 8 n"
    using assms trim_radix_text [of 8 n] by auto
  then show "parse_mode (prefix @ radix_text 8 n) =
      (if n \<le> 4095 then Inr (of_nat n)
       else if n < 2 ^ 32 then Inl (''socket mode '' @ debug_text (prefix @ radix_text 8 n) @ '' is outside 0000..7777'')
       else Inl (''invalid octal mode '' @ debug_text (prefix @ radix_text 8 n) @ '': number too large to fit in target type''))"
    using from_radix_text [of 8 "2 ^ 32 - 1" n] by (simp add: parse_mode_def int_error_text_def)
  show "\<forall>m. parse_mode value = Inr m \<longrightarrow> unat m \<le> 4095"
    by (auto simp: parse_mode_def unat_of_nat take_bit_nat_eq_self split: sum.splits if_splits)
qed

theorem socket_mode_read_witness:
  "parse_mode ''0o660'' = Inr 432 \<and> unat (432 :: u32) \<le> 4095"
proof -
  have "radix_text 8 432 = ''660''" by code_simp
  then show ?thesis using socket_mode_read [of "''0o''" 432 "''0o660''"] by simp
qed

text \<open>
  The scan interval is read as the decimal number it writes: zero is refused, a number of 64 bits
  is that number, a larger one is refused. No text is read as the interval zero.
\<close>

theorem scan_interval_read:
  shows "parse_positive_u64 (radix_text 10 n) =
      (if n = 0 then Inl ''value must be greater than zero''
       else if n < 2 ^ 64 then Inr (of_nat n)
       else Inl (''invalid positive integer '' @ debug_text (radix_text 10 n) @ '': number too large to fit in target type''))
    \<and> parse_positive_u64 value \<noteq> Inr 0"
proof
  show "parse_positive_u64 (radix_text 10 n) =
      (if n = 0 then Inl ''value must be greater than zero''
       else if n < 2 ^ 64 then Inr (of_nat n)
       else Inl (''invalid positive integer '' @ debug_text (radix_text 10 n) @ '': number too large to fit in target type''))"
    using from_radix_text [of 10 "2 ^ 64 - 1" n] by (simp add: parse_positive_u64_def int_error_text_def)
  have "(of_nat n :: u64) \<noteq> 0" if "from_str_radix 10 (2 ^ 64 - 1) value = Inr n" "n \<noteq> 0" for n
    using from_str_radix_limit [OF that(1)] that(2)
    by (simp add: word_of_nat_eq_0_iff nat_dvd_not_less)
  then show "parse_positive_u64 value \<noteq> Inr 0"
    by (auto simp: parse_positive_u64_def split: sum.splits if_splits)
qed

text \<open>A timer of period zero would panic; no interval that was read makes one.\<close>

lemma reconcile_interval_positive:
  assumes "parse_positive_u64 value = Inr ms"
  shows "0 < reconcile_interval (c\<lparr>cfg_reconcile_interval_ms := ms\<rparr>)"
proof -
  have "ms \<noteq> 0" using assms
    by (auto simp: parse_positive_u64_def word_of_nat_eq_0_iff nat_dvd_not_less dest: from_str_radix_limit split: sum.splits if_splits)
  then show ?thesis by (simp add: reconcile_interval_def unat_gt_0)
qed

end
