(* ===== verification/Process.thy ===== *)
theory Process
  imports Socket Config Fake_Provider
begin

text \<open>
  \<open>crates/control-plane/src/main.rs\<close>: what a start acquires, in its order, with
  \<open>Storage::connect\<close> (\<open>storage.rs\<close>), \<open>FakeProvider::connect\<close> (\<open>provider/fake.rs\<close>) and the socket,
  and how the results of the tasks become the result of the process. What SQLite and sqlx do when a
  database is opened and migrated is their answer, an argument; tracing is left out.
\<close>

section \<open>The ownership lock\<close>

text \<open>\<open>File::try_lock\<close> on the lock files of the machine: each is locked by one process or by none.\<close>

type_synonym lock_files = "string \<Rightarrow> nat option"

definition database_lock_path :: "string \<Rightarrow> string" where
  "database_lock_path database_path = database_path @ ''.lock''"

text \<open>The failures of the calls a start makes, \<open>None\<close> for a call that succeeds.\<close>

record connect_faults =
  cf_directory :: "string option"
  cf_lock_open :: "string option"
  cf_lock :: "string option"
  cf_open :: "string option"
  cf_migrate :: "string option"

definition attempt :: "string \<Rightarrow> string option \<Rightarrow> ('s, anyhow, unit) oper" where
  "attempt message failure = (case failure of None \<Rightarrow> ok () | Some cause \<Rightarrow> fail_with [message, cause])"

definition acquire_database_ownership :: "nat \<Rightarrow> connect_faults \<Rightarrow> string \<Rightarrow> (lock_files, anyhow, unit) oper" where
  "acquire_database_ownership self failing database_path =
     and_then (attempt (''open database ownership lock '' @ database_lock_path database_path) (cf_lock_open failing)) (\<lambda>_.
     and_then (attempt (''lock Control Plane database '' @ database_path) (cf_lock failing)) (\<lambda>_ locks.
     case locks (database_lock_path database_path) of
       Some owner \<Rightarrow> (Inl [''Control Plane database '' @ database_path @ '' is already owned by another process''], locks)
     | None \<Rightarrow> (Inr (), locks(database_lock_path database_path \<mapsto> self))))"

text \<open>Dropping the locked file.\<close>

definition release_ownership :: "string \<Rightarrow> lock_files \<Rightarrow> lock_files" where
  "release_ownership database_path locks = locks(database_lock_path database_path := None)"

section \<open>Connecting\<close>

definition create_directory :: "string \<Rightarrow> string \<Rightarrow> connect_faults \<Rightarrow> ('s, anyhow, unit) oper" where
  "create_directory message path failing =
     (case parent_directory path of None \<Rightarrow> ok () | Some parent \<Rightarrow> attempt (message @ parent) (cf_directory failing))"

definition storage_connect :: "nat \<Rightarrow> connect_faults \<Rightarrow> string \<Rightarrow> (lock_files, anyhow, unit) oper" where
  "storage_connect self failing path =
     and_then (create_directory ''create database directory '' path failing) (\<lambda>_.
     and_then (acquire_database_ownership self failing path) (\<lambda>_ locks.
     case and_then (attempt (''open Control Plane database '' @ path) (cf_open failing))
       (\<lambda>_. attempt ''apply Control Plane database migrations'' (cf_migrate failing)) locks of
       (Inl error, locks) \<Rightarrow> (Inl error, release_ownership path locks)
     | (Inr _, locks) \<Rightarrow> (Inr (), locks)))"

text \<open>\<open>seed\<close> is the number of catalog rows written before a failure, if there is one.\<close>

definition fake_connect :: "connect_faults \<Rightarrow> (nat \<times> string) option \<Rightarrow> string \<Rightarrow> (fake_provider, anyhow, unit) oper" where
  "fake_connect failing seed path =
     and_then (create_directory ''create fake provider directory '' path failing) (\<lambda>_.
     and_then (attempt (''open fake provider database '' @ path) (cf_open failing)) (\<lambda>_.
     and_then (attempt ''apply fake provider database migrations'' (cf_migrate failing)) (\<lambda>_ s.
     case seed of
       None \<Rightarrow> (Inr (), seed_catalog s)
     | Some (n, cause) \<Rightarrow>
         (Inl [''seed fake provider plan catalog'', cause], s\<lparr>plans := fold upsert_plan (take n catalog) (plans s)\<rparr>))))"

section \<open>Starting\<close>

record start_world =
  sw_locks :: lock_files
  sw_provider :: fake_provider
  sw_path :: path_world

record start_env =
  se_self :: nat
  se_storage :: connect_faults
  se_provider :: connect_faults
  se_seed :: "(nat \<times> string) option"
  se_socket :: SocketIdentity
  se_made_mode :: u32

text \<open>A step that fails drops what the steps before it acquired.\<close>

definition start :: "start_env \<Rightarrow> Config \<Rightarrow> (start_world, anyhow, BoundRpcSocket) oper" where
  "start env config w =
     (case storage_connect (se_self env) (se_storage env) (cfg_database_path config) (sw_locks w) of
        (Inl error, locks) \<Rightarrow> (Inl error, w\<lparr>sw_locks := locks\<rparr>)
      | (Inr _, locks) \<Rightarrow>
          (case fake_connect (se_provider env) (se_seed env) (cfg_fake_provider_database_path config) (sw_provider w) of
             (Inl error, provider) \<Rightarrow>
               (Inl error, w\<lparr>sw_locks := release_ownership (cfg_database_path config) locks, sw_provider := provider\<rparr>)
           | (Inr _, provider) \<Rightarrow>
               (case bind_socket (se_socket env) (se_made_mode env) (cfg_socket_path config) (cfg_socket_mode config) (sw_path w) of
                  (Inl error, path) \<Rightarrow>
                    (Inl error, w\<lparr>sw_locks := release_ownership (cfg_database_path config) locks,
                       sw_provider := provider, sw_path := path\<rparr>)
                | (Inr socket, path) \<Rightarrow>
                    (Inr socket, w\<lparr>sw_locks := locks, sw_provider := provider, sw_path := path\<rparr>))))"

section \<open>Stopping\<close>

text \<open>What joining a task gives: a panic, or the result it returned.\<close>

type_synonym joined = "string + (anyhow + unit)"

datatype Exit =
    SignalExit "anyhow + unit"
  | ControllerExit joined
  | RpcExit joined

definition task_result :: "string \<Rightarrow> joined \<Rightarrow> anyhow + unit" where
  "task_result task_name result =
     (case result of Inl panic \<Rightarrow> Inl [task_name @ '' task panicked'', panic] | Inr r \<Rightarrow> r)"

text \<open>\<open>a.and(b)\<close> of two results that were both computed.\<close>

definition result_and :: "'e + 'a \<Rightarrow> 'e + 'b \<Rightarrow> 'e + 'b" where
  "result_and a b = (case a of Inl e \<Rightarrow> Inl e | Inr _ \<Rightarrow> b)"

text \<open>
  The task that ended the wait has its result in \<open>exit\<close>; each other task is joined after the
  cancellation, with the results given.
\<close>

definition primary_result :: "Exit \<Rightarrow> joined \<Rightarrow> joined \<Rightarrow> anyhow + unit" where
  "primary_result exit controller_task rpc_task =
     (case exit of
        SignalExit result \<Rightarrow>
          (let controller_result = task_result ''Host controller'' controller_task;
               rpc_result = task_result ''local RPC'' rpc_task
           in result_and (result_and result controller_result) rpc_result)
      | ControllerExit result \<Rightarrow>
          (let controller_result = task_result ''Host controller'' result;
               rpc_result = task_result ''local RPC'' rpc_task
           in result_and controller_result rpc_result)
      | RpcExit result \<Rightarrow>
          (let rpc_result = task_result ''local RPC'' result;
               controller_result = task_result ''Host controller'' controller_task
           in result_and rpc_result controller_result))"

text \<open>The shutdown signals: listening may fail, Ctrl-C may be reported as an error.\<close>

datatype shutdown = Terminated | Interrupted "string + unit"

definition shutdown_signal :: "string + unit \<Rightarrow> shutdown \<Rightarrow> anyhow + unit" where
  "shutdown_signal listen event =
     (case listen of
        Inl cause \<Rightarrow> Inl [''listen for SIGTERM'', cause]
      | Inr _ \<Rightarrow> (case event of
          Terminated \<Rightarrow> Inr ()
        | Interrupted (Inl cause) \<Rightarrow> Inl [''listen for Ctrl-C'', cause]
        | Interrupted (Inr _) \<Rightarrow> Inr ()))"

text \<open>
  The whole run after a start: the server's task drops the socket, the databases are closed and the
  ownership lock goes with the process.
\<close>

definition finish :: "Config \<Rightarrow> BoundRpcSocket \<Rightarrow> Exit \<Rightarrow> joined \<Rightarrow> joined \<Rightarrow> anyhow + unit \<Rightarrow> (start_world, anyhow, unit) oper" where
  "finish config socket exit controller_task rpc_task served w =
     (primary_result exit controller_task rpc_task,
      w\<lparr>sw_locks := release_ownership (cfg_database_path config) (sw_locks w),
        sw_path := snd (serve_socket served socket (sw_path w))\<rparr>)"

section \<open>What starting and stopping keep\<close>

lemma attempt_cases:
  assumes "attempt message failure s = (r, s')"
  shows "s' = s"
  using assms by (auto simp: attempt_def split: option.splits)

lemma create_directory_state: "create_directory message path failing s = (r, s') \<Longrightarrow> s' = s"
  by (auto simp: create_directory_def dest: attempt_cases split: option.splits)

text \<open>A call on the lock files refuses and keeps them, or takes the free lock of the database.\<close>

definition takes_lock :: "nat \<Rightarrow> string \<Rightarrow> lock_files \<Rightarrow> anyhow + unit \<Rightarrow> lock_files \<Rightarrow> bool" where
  "takes_lock self path locks r locks' =
     (case r of
        Inl error \<Rightarrow> locks' = locks
      | Inr _ \<Rightarrow> locks (database_lock_path path) = None \<and> locks' = locks(database_lock_path path \<mapsto> self))"

lemma release_acquired:
  "locks p = None \<Longrightarrow> locks(p := None) = locks"
  by (simp add: fun_upd_idem)

lemma acquire_takes_lock:
  assumes "acquire_database_ownership self failing path locks = (r, locks')"
  shows "takes_lock self path locks r locks'"
proof (cases "cf_lock_open failing = None \<and> cf_lock failing = None")
  case True
  with assms show ?thesis
    by (cases "locks (database_lock_path path)") (auto simp: takes_lock_def acquire_database_ownership_def attempt_def)
next
  case False
  then have "acquire_database_ownership self failing path locks = (Inl (case cf_lock_open failing of
      Some cause \<Rightarrow> [''open database ownership lock '' @ database_lock_path path, cause]
    | None \<Rightarrow> [''lock Control Plane database '' @ path, the (cf_lock failing)]), locks)"
    by (cases "cf_lock_open failing") (auto simp: acquire_database_ownership_def attempt_def)
  with assms show ?thesis by (auto simp: takes_lock_def)
qed

lemma storage_connect_takes_lock:
  assumes "storage_connect self failing path locks = (r, locks')"
  shows "takes_lock self path locks r locks'"
proof -
  obtain d s where d: "create_directory ''create database directory '' path failing locks = (d, s)" by fastforce
  have s: "s = locks" by (rule create_directory_state [OF d])
  obtain a s' where a: "acquire_database_ownership self failing path locks = (a, s')" by fastforce
  note lock = acquire_takes_lock [OF a]
  obtain o1 s1 where o1: "and_then (attempt (''open Control Plane database '' @ path) (cf_open failing))
       (\<lambda>_. attempt ''apply Control Plane database migrations'' (cf_migrate failing)) s' = (o1, s1)" by fastforce
  then have s1: "s1 = s'" by (auto simp: and_then_def attempt_def split: option.splits)
  show ?thesis
  proof (cases d)
    case (Inl e)
    with assms d s have "(r, locks') = (Inl e, locks)" by (simp add: storage_connect_def)
    then show ?thesis by (simp add: takes_lock_def)
  next
    case (Inr u)
    show ?thesis
    proof (cases a)
      case (Inl e)
      then have "s' = locks" using lock by (simp add: takes_lock_def)
      with assms d s \<open>d = Inr u\<close> a Inl have "(r, locks') = (Inl e, locks)" by (simp add: storage_connect_def)
      then show ?thesis by (simp add: takes_lock_def)
    next
      case (Inr v)
      with lock have free: "locks (database_lock_path path) = None" "s' = locks(database_lock_path path \<mapsto> self)"
        by (simp_all add: takes_lock_def)
      show ?thesis
        using assms d s \<open>d = Inr u\<close> a Inr o1 s1 free release_acquired [where locks = locks and p = "database_lock_path path"]
        by (cases o1) (auto simp: storage_connect_def takes_lock_def release_ownership_def)
    qed
  qed
qed

lemma fake_connect_seeds:
  assumes "fake_connect failing seed path s = (r, s')" and "r = Inr u"
  shows "s' = seed_catalog s"
  using assms create_directory_state [of "''create fake provider directory ''" path failing s]
  by (cases seed) (auto simp: fake_connect_def and_then_def attempt_def split: option.splits prod.splits sum.splits)

end
