(* ===== verification/Socket_Properties.thy ===== *)
theory Socket_Properties
  imports Socket
begin

text \<open>
  What the local RPC socket guarantees: which entry preparing and guarding may remove, whatever other
  processes do between two system calls, and that a server that failed or stopped does not keep the
  next one from binding.
\<close>

section \<open>System calls\<close>

lemma arrive_frames [simp]:
  "unlinked (arrive w) = unlinked w"
  "moves (arrive w) = tl (moves w)"
  by (simp_all add: arrive_def)

lemma arrive_entry: "taken (next_move w) = None \<Longrightarrow> entry (arrive w) = entry w"
  by (simp add: arrive_def)

lemma create_dir_all_world: "create_dir_all w = (r, w') \<Longrightarrow> w' = arrive w"
  by (auto simp: create_dir_all_def system_call_def split: option.splits call_fault.splits)

lemma symlink_metadata_cases:
  assumes "symlink_metadata w = (r, w')"
  obtains (missing) error where "r = Inl error" "w' = arrive w"
  | (found) e where "r = Inr e" "w' = arrive w" "entry (arrive w) = Some e"
  using assms by (auto simp: symlink_metadata_def system_call_def split: option.splits call_fault.splits)

lemma remove_file_cases:
  assumes "remove_file w = (r, w')"
  obtains (kept) error where "r = Inl error" "w' = arrive w"
  | (removed) e where "r = Inr ()" "entry (arrive w) = Some e"
      "w' = (arrive w)\<lparr>entry := None, unlinked := e # unlinked w\<rparr>"
proof (cases "fault (next_move w) = None \<and> entry (arrive w) \<noteq> None")
  case True
  then obtain e where "entry (arrive w) = Some e" by auto
  with True assms removed [of e] show thesis by (simp add: remove_file_def system_call_def)
next
  case False
  then have "\<exists>error. r = Inl error" "w' = arrive w"
    using assms by (auto simp: remove_file_def system_call_def split: option.splits call_fault.splits)
  with kept show thesis by auto
qed

lemma with_context_cases:
  assumes "with_context message m w = (r, w')"
  obtains (failed) error where "m w = (Inl error, w')" "r = Inl [message, io_text error]"
  | (succeeded) x where "m w = (Inr x, w')" "r = Inr x"
  using assms by (cases "m w"; cases "fst (m w)") (auto simp: with_context_def)

section \<open>What preparing removes\<close>

lemma remove_socket_if_owned_cases:
  assumes "remove_socket_if_owned path expected w = (r, w')"
  obtains (kept) k where "w' = (arrive ^^ k) w"
  | (removed) c e where "r = Inr ()" "entry (arrive w) = Some c" "is_socket c" "identity c = expected"
      "entry (arrive (arrive w)) = Some e"
      "w' = (arrive (arrive w))\<lparr>entry := None, unlinked := e # unlinked w\<rparr>"
proof -
  obtain m w1 where m: "symlink_metadata w = (m, w1)" by fastforce
  from m show thesis
  proof (cases rule: symlink_metadata_cases)
    case (missing error)
    then show thesis
      using assms m kept [of "Suc 0"] by (auto simp: remove_socket_if_owned_def split: if_splits)
  next
    case (found c)
    show thesis
    proof (cases "is_socket c \<and> identity c = expected")
      case False
      then show thesis
        using assms m found kept [of "Suc 0"] by (auto simp: remove_socket_if_owned_def)
    next
      case True
      with assms m found
      have "with_context (''remove stale local RPC socket '' @ path) remove_file (arrive w) = (r, w')"
        by (simp add: remove_socket_if_owned_def)
      then show thesis
      proof (cases rule: with_context_cases)
        case (failed error)
        from failed(1) show thesis
          by (cases rule: remove_file_cases) (use kept [of "Suc (Suc 0)"] in auto)
      next
        case (succeeded x)
        from succeeded(1) show thesis
          by (cases rule: remove_file_cases) (use True found removed succeeded in auto)
      qed
    qed
  qed
qed

lemma probe_existing_cases:
  assumes "probe_existing path expected w = (r, w')"
  obtains (kept) k where "w' = (arrive ^^ k) w"
  | (removed) error c e where "r = Inr ()"
      "connect_result (fault (next_move w)) (entry (arrive w)) = Some (Inl error)"
      "io_kind error = IoConnectionRefused"
      "entry (arrive (arrive w)) = Some c" "is_socket c" "identity c = expected"
      "entry (arrive (arrive (arrive w))) = Some e"
      "w' = (arrive (arrive (arrive w)))\<lparr>entry := None, unlinked := e # unlinked w\<rparr>"
proof (cases "\<exists>error. connect_result (fault (next_move w)) (entry (arrive w)) = Some (Inl error)
    \<and> io_kind error = IoConnectionRefused")
  case True
  then obtain error where refused: "connect_result (fault (next_move w)) (entry (arrive w)) = Some (Inl error)"
      "io_kind error = IoConnectionRefused"
    by blast
  with assms have "remove_socket_if_owned path expected (arrive w) = (r, w')"
    by (simp add: probe_existing_def connect_timeout_def)
  then show thesis
  proof (cases rule: remove_socket_if_owned_cases)
    case (kept k)
    then show thesis using that(1) [of "Suc k"] by (simp add: funpow_swap1)
  next
    case (removed c e)
    with refused that(2) [of error c e] show thesis by simp
  qed
next
  case False
  then have "w' = arrive w"
    using assms
    by (auto simp: probe_existing_def connect_timeout_def split: option.splits sum.splits IoErrorKind.splits)
  then show thesis using kept [of "Suc 0"] by simp
qed

lemma inspect_existing_cases:
  assumes "inspect_existing path w = (r, w')"
  obtains (kept) k where "w' = (arrive ^^ k) w"
  | (removed) error s c e where "r = Inr ()"
      "entry (arrive w) = Some s" "is_socket s"
      "connect_result (fault (next_move (arrive w))) (entry (arrive (arrive w))) = Some (Inl error)"
      "io_kind error = IoConnectionRefused"
      "entry (arrive (arrive (arrive w))) = Some c" "is_socket c" "identity c = identity s"
      "entry (arrive (arrive (arrive (arrive w)))) = Some e"
      "w' = (arrive (arrive (arrive (arrive w))))\<lparr>entry := None, unlinked := e # unlinked w\<rparr>"
proof -
  obtain m w1 where m: "symlink_metadata w = (m, w1)" by fastforce
  from m show thesis
  proof (cases rule: symlink_metadata_cases)
    case (missing error)
    then show thesis
      using assms m kept [of "Suc 0"] by (auto simp: inspect_existing_def split: if_splits)
  next
    case (found s)
    show thesis
    proof (cases "is_socket s")
      case False
      then show thesis
        using assms m found kept [of "Suc 0"] by (auto simp: inspect_existing_def)
    next
      case True
      with assms m found have "probe_existing path (identity s) (arrive w) = (r, w')"
        by (simp add: inspect_existing_def)
      then show thesis
      proof (cases rule: probe_existing_cases)
        case (kept k)
        then show thesis using that(1) [of "Suc k"] by (simp add: funpow_swap1)
      next
        case (removed error c e)
        with True found that(2) [of s error c e] show thesis by simp
      qed
    qed
  qed
qed

text \<open>The world in which the path is first inspected.\<close>

definition after_parent :: "string \<Rightarrow> path_world \<Rightarrow> path_world" where
  "after_parent path w = (case parent_directory path of None \<Rightarrow> w | Some d \<Rightarrow> arrive w)"

lemma create_parent_world: "create_parent path w = (r, w') \<Longrightarrow> w' = after_parent path w"
  by (auto simp: create_parent_def after_parent_def with_context_def map_prod_def
      dest!: create_dir_all_world split: option.splits prod.splits)

lemma after_parent_frames [simp]: "unlinked (after_parent path w) = unlinked w"
  by (simp add: after_parent_def split: option.split)

text \<open>A world in which no other process touches the path.\<close>

definition undisturbed :: "path_world \<Rightarrow> bool" where
  "undisturbed w = (\<forall>m \<in> set (moves w). taken m = None)"

lemma undisturbed_arrive [simp]:
  assumes "undisturbed w"
  shows "undisturbed (arrive w)" "entry (arrive w) = entry w"
proof -
  show "undisturbed (arrive w)" using assms by (auto simp: undisturbed_def dest: list.set_sel(2) [rotated])
      (metis list.sel(2) list.set_sel(2))
  have "taken (next_move w) = None"
    using assms by (auto simp: undisturbed_def next_move_def untouched_def split: list.split)
  then show "entry (arrive w) = entry w" by (rule arrive_entry)
qed

lemma undisturbed_steps [simp]:
  "undisturbed w \<Longrightarrow> undisturbed ((arrive ^^ k) w)"
  "undisturbed w \<Longrightarrow> entry ((arrive ^^ k) w) = entry w"
  by (induction k) simp_all

text \<open>A world in which no call reports a refused connection that was not refused.\<close>

definition honest_refusals :: "path_world \<Rightarrow> bool" where
  "honest_refusals w =
     (\<forall>m \<in> set (moves w). \<forall>error. fault m = Some (Fails error) \<longrightarrow> io_kind error \<noteq> IoConnectionRefused)"

lemma honest_refusals_arrive [simp]: "honest_refusals w \<Longrightarrow> honest_refusals (arrive w)"
  by (cases "moves w") (simp_all add: honest_refusals_def)

lemma refused_means_silent:
  assumes "honest_refusals w" and "connect_result (fault (next_move w)) (Some s) = Some (Inl error)"
    and "io_kind error = IoConnectionRefused" and "is_socket s"
  shows "\<not> listening s"
  using assms by (auto simp: connect_result_def honest_refusals_def next_move_def untouched_def
      split: option.splits call_fault.splits if_splits list.splits)

lemma after_parent_undisturbed [simp]:
  "undisturbed w \<Longrightarrow> undisturbed (after_parent path w)"
  "undisturbed w \<Longrightarrow> entry (after_parent path w) = entry w"
  "honest_refusals w \<Longrightarrow> honest_refusals (after_parent path w)"
  by (simp_all add: after_parent_def split: option.split)

section \<open>Properties\<close>

text \<open>A stale socket that another process replaces while it is being probed.\<close>

definition sample_socket :: path_entry where
  "sample_socket = \<lparr>is_socket = True, identity = \<lparr>device = 1, inode = 7\<rparr>, listening = False, permissions = 432\<rparr>"

definition sample_replaced :: path_world where
  "sample_replaced = \<lparr>entry = Some sample_socket,
     moves = [untouched, untouched, untouched,
       \<lparr>taken = Some (Some (sample_socket\<lparr>identity := \<lparr>device = 1, inode = 8\<rparr>, listening := True\<rparr>)), fault = None\<rparr>],
     unlinked = []\<rparr>"

text \<open>
  The window is real: a socket that another process binds between the second inspection and the unlink
  is removed while it is listened on, with no call failing, and preparing succeeds.
\<close>

lemma replaced_socket_removed:
  "\<exists>v v' live. honest_refusals v \<and> prepare_socket_path path v = (Inr (), v')
     \<and> unlinked v' = live # unlinked v \<and> is_socket live \<and> listening live"
proof -
  let ?live = "sample_socket\<lparr>identity := \<lparr>device = 1, inode = 8\<rparr>, listening := True\<rparr>"
  let ?moves = "[untouched, untouched, untouched, untouched\<lparr>taken := Some (Some ?live)\<rparr>]"
  let ?v = "\<lparr>entry = Some sample_socket,
     moves = (case parent_directory path of None \<Rightarrow> ?moves | Some d \<Rightarrow> untouched # ?moves), unlinked = []\<rparr>"
  note run = prepare_socket_path_def create_parent_def create_dir_all_def inspect_existing_def symlink_metadata_def
    probe_existing_def connect_timeout_def connect_result_def remove_socket_if_owned_def remove_file_def with_context_def
    system_call_def arrive_def next_move_def untouched_def sample_socket_def refused_error_def
  have "honest_refusals ?v" by (simp add: honest_refusals_def untouched_def split: option.split)
  moreover have "\<exists>v'. prepare_socket_path path ?v = (Inr (), v') \<and> unlinked v' = ?live # unlinked ?v"
    by (cases "parent_directory path") (simp_all add: run)
  moreover have "is_socket ?live" "listening ?live" by (simp_all add: sample_socket_def)
  ultimately show ?thesis by blast
qed

text \<open>
  C19: Whatever other processes do to the path and whichever call fails, preparing it either leaves it
  as the others left it, or removes one entry, and then only after what was first inspected was a socket,
  connecting to the path was refused, and what was inspected again was a socket with the same device and
  inode. The removed entry is the one inspected last unless another process put something else there
  between that inspection and the unlink, which is by path: then it is that other entry, even a
  socket that is listened on, and such runs exist. If no other process touches the path and no call
  reports a refusal that was none, a socket that is listened on is not removed.
\<close>

theorem prepare_removes_after_probe:
  assumes "prepare_socket_path path w = (r, w')"
  defines "a \<equiv> arrive (after_parent path w)"
  shows "((\<exists>k. w' = (arrive ^^ k) w)
    \<or> (\<exists>s c e error. r = Inr () \<and> entry w' = None \<and> unlinked w' = e # unlinked w
        \<and> entry a = Some s \<and> is_socket s
        \<and> connect_result (fault (next_move a)) (entry (arrive a)) = Some (Inl error)
        \<and> io_kind error = IoConnectionRefused
        \<and> entry (arrive (arrive a)) = Some c \<and> is_socket c \<and> identity c = identity s
        \<and> entry (arrive (arrive (arrive a))) = Some e
        \<and> (taken (next_move (arrive (arrive a))) = None \<longrightarrow> e = c)
        \<and> (undisturbed w \<and> honest_refusals w \<longrightarrow> \<not> listening e)))
    \<and> (\<exists>v v' live. honest_refusals v \<and> prepare_socket_path path v = (Inr (), v')
        \<and> unlinked v' = live # unlinked v \<and> is_socket live \<and> listening live)"
    (is "?removal \<and> _")
proof (rule conjI [OF _ replaced_socket_removed])
  have steps: "\<exists>k. after_parent path w = (arrive ^^ k) w"
    by (rule exI [of _ "case parent_directory path of None \<Rightarrow> 0 | Some d \<Rightarrow> Suc 0"])
      (simp add: after_parent_def split: option.split)
  obtain p w1 where p: "create_parent path w = (p, w1)" by fastforce
  note w1 = create_parent_world [OF p]
  show ?removal
  proof (cases p)
    case (Inl error)
    with assms(1) p w1 steps show ?thesis by (simp add: prepare_socket_path_def)
  next
    case (Inr u)
    with assms(1) p w1 have "inspect_existing path (after_parent path w) = (r, w')"
      by (simp add: prepare_socket_path_def)
    then show ?thesis
    proof (cases rule: inspect_existing_cases)
      case (kept k)
      then show ?thesis using steps by (metis comp_apply funpow_add)
    next
      case (removed error s c e)
      then have "taken (next_move (arrive (arrive a))) = None \<longrightarrow> e = c"
        using arrive_entry [of "arrive (arrive a)"] by (simp add: a_def)
      moreover have "\<not> listening e" if "undisturbed w" "honest_refusals w"
        by (rule refused_means_silent [of a]) (use that removed in \<open>simp_all add: a_def\<close>)
      ultimately show ?thesis using removed by (auto simp: a_def)
    qed
  qed
qed

theorem prepare_removes_after_probe_witness:
  "\<exists>k. snd (prepare_socket_path ''/run/control-plane.sock'' sample_replaced) = (arrive ^^ k) sample_replaced"
proof -
  have "fst (prepare_socket_path ''/run/control-plane.sock'' sample_replaced) \<noteq> Inr ()" by code_simp
  then show ?thesis
    using prepare_removes_after_probe [OF surjective_pairing] by metis
qed

text \<open>
  On a path no other process touches, preparing answers by what is there: nothing is fine, anything
  but a socket and a socket that answers are refused and kept, a socket that refuses is removed.
\<close>

theorem prepare_undisturbed:
  assumes "moves w = []"
  shows "prepare_socket_path path w =
    (case entry w of
       None \<Rightarrow> (Inr (), w)
     | Some s \<Rightarrow>
         if \<not> is_socket s then (Inl [''refusing to replace non-socket path '' @ path], w)
         else if listening s then (Inl [''local RPC socket '' @ path @ '' is already served by another process''], w)
         else (Inr (), w\<lparr>entry := None, unlinked := s # unlinked w\<rparr>))"
proof -
  have [simp]: "next_move w = untouched" "arrive w = w"
    using assms by (simp_all add: next_move_def arrive_def untouched_def)
  have [simp]: "fault untouched = None" by (simp add: untouched_def)
  have "create_parent path w = (Inr (), w)"
    by (simp add: create_parent_def create_dir_all_def system_call_def with_context_def split: option.split)
  then show ?thesis
    by (simp add: prepare_socket_path_def inspect_existing_def symlink_metadata_def system_call_def
        probe_existing_def connect_timeout_def connect_result_def not_found_error_def refused_error_def
        remove_socket_if_owned_def remove_file_def with_context_def split: option.split)
qed

theorem prepare_undisturbed_witness:
  "prepare_socket_path ''cp.sock'' \<lparr>entry = Some sample_socket, moves = [], unlinked = []\<rparr>
    = (Inr (), \<lparr>entry = None, moves = [], unlinked = [sample_socket]\<rparr>)"
  by (subst prepare_undisturbed) (simp_all add: sample_socket_def)

lemma socket_identity_cases:
  assumes "socket_identity path w = (r, w')"
  obtains (unknown) error where "r = Inl error" "w' = arrive w"
  | (known) e where "r = Inr (identity e)" "w' = arrive w" "entry (arrive w) = Some e" "is_socket e"
proof -
  obtain m w1 where m: "with_context (''inspect local RPC socket '' @ path) symlink_metadata w = (m, w1)" by fastforce
  from m show thesis
  proof (cases rule: with_context_cases)
    case (failed error)
    from failed(1) show thesis
      by (cases rule: symlink_metadata_cases) (use assms m failed unknown in \<open>auto simp: socket_identity_def\<close>)
  next
    case (succeeded e)
    from succeeded(1) show thesis
      by (cases rule: symlink_metadata_cases)
        (use assms m succeeded unknown known [of e] in \<open>auto simp: socket_identity_def split: if_splits\<close>)
  qed
qed

lemma drop_guard_cases:
  obtains (kept) k where "drop_guard guard w = (arrive ^^ k) w"
  | (removed) c e where "entry (arrive w) = Some c" "is_socket c" "identity c = guard_identity guard"
      "entry (arrive (arrive w)) = Some e"
      "drop_guard guard w = (arrive (arrive w))\<lparr>entry := None, unlinked := e # unlinked w\<rparr>"
proof -
  obtain i w1 where i: "socket_identity (guard_path guard) w = (i, w1)" by fastforce
  from i show thesis
  proof (cases rule: socket_identity_cases)
    case (unknown error)
    then show thesis using i kept [of "Suc 0"] by (simp add: drop_guard_def)
  next
    case (known c)
    show thesis
    proof (cases "identity c = guard_identity guard")
      case False
      then show thesis using i known kept [of "Suc 0"] by (simp add: drop_guard_def)
    next
      case True
      obtain x w2 where x: "remove_file (arrive w) = (x, w2)" by fastforce
      with i known True have "drop_guard guard w = w2" by (simp add: drop_guard_def)
      moreover from x have "w2 = (arrive ^^ Suc (Suc 0)) w \<or>
          (\<exists>e. entry (arrive (arrive w)) = Some e \<and> w2 = (arrive (arrive w))\<lparr>entry := None, unlinked := e # unlinked w\<rparr>)"
        by (cases rule: remove_file_cases) auto
      ultimately show thesis using True known kept [of "Suc (Suc 0)"] removed [of c] by auto
    qed
  qed
qed

text \<open>
  Dropping the guard removes an entry only if what it inspects first is a socket with the device
  and inode it was made for. Otherwise it leaves the path as the other processes left it, a replacement
  socket included.
\<close>

theorem guard_removes_own:
  "(\<exists>k. drop_guard guard w = (arrive ^^ k) w)
   \<or> (\<exists>c e. entry (arrive w) = Some c \<and> is_socket c \<and> identity c = guard_identity guard
        \<and> unlinked (drop_guard guard w) = e # unlinked w \<and> entry (drop_guard guard w) = None
        \<and> entry (arrive (arrive w)) = Some e
        \<and> (taken (next_move (arrive w)) = None \<longrightarrow> e = c))"
proof (cases guard w rule: drop_guard_cases)
  case (kept k)
  then show ?thesis by blast
next
  case (removed c e)
  then have "taken (next_move (arrive w)) = None \<longrightarrow> e = c"
    using arrive_entry [of "arrive w"] by simp
  with removed show ?thesis by simp
qed

theorem guard_removes_own_witness:
  "\<exists>k. drop_guard \<lparr>guard_path = ''cp.sock'', guard_identity = \<lparr>device = 1, inode = 6\<rparr>\<rparr> sample_replaced
     = (arrive ^^ k) sample_replaced"
proof -
  have "entry (arrive sample_replaced) = Some sample_socket"
    by (simp add: sample_replaced_def arrive_def next_move_def untouched_def)
  then show ?thesis
    using guard_removes_own [of "\<lparr>guard_path = ''cp.sock'', guard_identity = \<lparr>device = 1, inode = 6\<rparr>\<rparr>" sample_replaced]
    by (auto simp: sample_socket_def)
qed

section \<open>Stopping and starting again\<close>

definition vacant_or_stale :: "path_entry option \<Rightarrow> bool" where
  "vacant_or_stale e = (case e of None \<Rightarrow> True | Some s \<Rightarrow> is_socket s \<and> \<not> listening s)"

lemma undisturbed_updates [simp]:
  "undisturbed (w\<lparr>entry := e\<rparr>) = undisturbed w"
  "undisturbed (w\<lparr>unlinked := u\<rparr>) = undisturbed w"
  "undisturbed (close_listener fresh w) = undisturbed w"
  by (simp_all add: undisturbed_def close_listener_def)

lemma create_parent_undisturbed:
  "undisturbed w \<Longrightarrow> create_parent path w = (r, w') \<Longrightarrow> undisturbed w' \<and> entry w' = entry w"
  using create_parent_world [of path w r w'] by (simp add: after_parent_def split: option.split)

lemma prepare_entry:
  assumes "undisturbed w" "prepare_socket_path path w = (r, w')"
  shows "undisturbed w' \<and> (entry w' = entry w \<or> entry w' = None)"
proof -
  obtain p w1 where p: "create_parent path w = (p, w1)" by fastforce
  note w1 = create_parent_undisturbed [OF assms(1) p]
  show ?thesis
  proof (cases p)
    case (Inl error)
    with assms(2) p w1 show ?thesis by (simp add: prepare_socket_path_def)
  next
    case (Inr u)
    with assms(2) p have "inspect_existing path w1 = (r, w')" by (simp add: prepare_socket_path_def)
    then show ?thesis by (cases rule: inspect_existing_cases) (use w1 in auto)
  qed
qed

lemma drop_guard_entry:
  assumes "undisturbed w"
  shows "undisturbed (drop_guard guard w)"
    "entry (drop_guard guard w) = entry w \<or> entry (drop_guard guard w) = None"
  using assms by (cases guard w rule: drop_guard_cases; simp)+

lemma close_listener_entry:
  "entry w = Some e \<Longrightarrow> is_socket e \<Longrightarrow> identity e = fresh \<Longrightarrow> vacant_or_stale (entry (close_listener fresh w))"
  by (simp add: close_listener_def vacant_or_stale_def)

lemma close_listener_keeps: "vacant_or_stale (entry w) \<Longrightarrow> vacant_or_stale (entry (close_listener fresh w))"
  by (auto simp: close_listener_def vacant_or_stale_def split: option.splits)

lemma vacant_or_stale_dropped:
  assumes "undisturbed w" "vacant_or_stale (entry w)"
  shows "vacant_or_stale (entry (drop_guard guard w))"
  using drop_guard_entry(2) [OF assms(1), of guard] assms(2) by (auto simp: vacant_or_stale_def)

lemma bind_listener_entry:
  assumes "undisturbed w" "with_context message (bind_listener fresh made) w = (r, w')"
  shows "undisturbed w'
    \<and> (case r of Inl error \<Rightarrow> entry w' = entry w
       | Inr u \<Rightarrow> entry w' = Some \<lparr>is_socket = True, identity = fresh, listening = True, permissions = made\<rparr>)"
  using assms(2)
  by (cases rule: with_context_cases)
    (use assms(1) in \<open>auto simp: bind_listener_def system_call_def split: option.splits call_fault.splits\<close>)

lemma set_permissions_entry:
  assumes "undisturbed w" "entry w = Some e" "with_context message (set_permissions mode) w = (r, w')"
  shows "undisturbed w'
    \<and> (case r of Inl error \<Rightarrow> entry w' = Some e | Inr u \<Rightarrow> entry w' = Some (e\<lparr>permissions := mode\<rparr>))"
  using assms(3)
  by (cases rule: with_context_cases)
    (use assms(1,2) in \<open>auto simp: set_permissions_def system_call_def split: option.splits call_fault.splits\<close>)

lemma new_guard_entry:
  assumes "undisturbed w" "entry w = Some e" "new_guard path w = (r, w')"
  shows "undisturbed w' \<and> entry w' = Some e
    \<and> (case r of Inl error \<Rightarrow> True | Inr guard \<Rightarrow> guard_identity guard = identity e)"
proof -
  obtain i w1 where i: "socket_identity path w = (i, w1)" by fastforce
  then show ?thesis
    by (cases rule: socket_identity_cases) (use assms i in \<open>auto simp: new_guard_def\<close>)
qed

lemma bind_finish:
  assumes start: "undisturbed w" "entry w = Some e" "is_socket e" "identity e = fresh" "listening e"
    and call: "(case new_guard path w of
       (Inl error, w1) \<Rightarrow> (Inl error, close_listener fresh w1)
     | (Inr guard, w1) \<Rightarrow>
         (case with_context message (set_permissions mode) w1 of
            (Inl error, w2) \<Rightarrow> (Inl error, close_listener fresh (drop_guard guard w2))
          | (Inr _, w2) \<Rightarrow>
              (Inr \<lparr>listener = fresh, socket_guard = guard, socket_path = path, socket_mode = mode\<rparr>, w2)))
       = (r, w')"
  shows "undisturbed w'
    \<and> (case r of Inl error \<Rightarrow> vacant_or_stale (entry w')
       | Inr b \<Rightarrow> listener b = fresh \<and> guard_identity (socket_guard b) = fresh
           \<and> entry w' = Some (e\<lparr>permissions := mode\<rparr>))"
proof -
  obtain g w1 where g: "new_guard path w = (g, w1)" by fastforce
  note w1 = new_guard_entry [OF start(1,2) g]
  show ?thesis
  proof (cases g)
    case (Inl error)
    with call g w1 start close_listener_entry [of w1 e fresh] show ?thesis by auto
  next
    case (Inr guard)
    obtain x w2 where x: "with_context message (set_permissions mode) w1 = (x, w2)" by fastforce
    from w1 have "undisturbed w1" "entry w1 = Some e" by simp_all
    note w2 = set_permissions_entry [OF this x]
    show ?thesis
    proof (cases x)
      case (Inl error)
      have "vacant_or_stale (entry (close_listener fresh (drop_guard guard w2)))"
        using drop_guard_entry(2) [of w2 guard] w2 Inl start close_listener_entry [of "drop_guard guard w2" e fresh]
          close_listener_keeps [of "drop_guard guard w2" fresh]
        by (auto simp: vacant_or_stale_def)
      with Inl \<open>g = Inr guard\<close> call g x w2 drop_guard_entry(1) [of w2 guard] show ?thesis by auto
    next
      case (Inr u)
      with \<open>g = Inr guard\<close> call g x w1 w2 start show ?thesis by auto
    qed
  qed
qed

lemma bind_entry:
  assumes "undisturbed w" "vacant_or_stale (entry w)" "bind_socket fresh made path mode w = (r, w')"
  shows "undisturbed w'
    \<and> (case r of Inl error \<Rightarrow> vacant_or_stale (entry w')
       | Inr b \<Rightarrow> listener b = fresh \<and> guard_identity (socket_guard b) = fresh
           \<and> entry w' = Some \<lparr>is_socket = True, identity = fresh, listening = True, permissions = mode\<rparr>)"
proof -
  obtain p w1 where p: "prepare_socket_path path w = (p, w1)" by fastforce
  have w1: "undisturbed w1" "vacant_or_stale (entry w1)"
    using prepare_entry [OF assms(1) p] assms(2) by (auto simp: vacant_or_stale_def)
  obtain l w2 where l: "with_context (''bind local RPC socket '' @ path) (bind_listener fresh made) w1 = (l, w2)"
    by fastforce
  note w2 = bind_listener_entry [OF w1(1) l]
  show ?thesis
  proof (cases "\<exists>u v. p = Inr u \<and> l = Inr v")
    case False
    with assms(3) p l w1 w2 show ?thesis by (cases p; cases l) (auto simp: bind_socket_def)
  next
    case True
    with assms(3) p l w2 show ?thesis
      using bind_finish [where w = w2 and fresh = fresh and path = path and mode = mode and r = r and w' = w'
          and e = "\<lparr>is_socket = True, identity = fresh, listening = True, permissions = made\<rparr>"
          and message = "''set mode on local RPC socket '' @ path"]
      by (auto simp: bind_socket_def split: sum.splits)
  qed
qed

lemma prepare_keeps_live:
  assumes "undisturbed w" "honest_refusals w" "\<not> vacant_or_stale (entry w)" "prepare_socket_path path w = (r, w')"
  shows "entry w' = entry w"
proof -
  obtain p w1 where p: "create_parent path w = (p, w1)" by fastforce
  have w1: "undisturbed w1" "honest_refusals w1" "entry w1 = entry w"
    using assms(1,2) by (simp_all add: create_parent_world [OF p])
  show ?thesis
  proof (cases p)
    case (Inl error)
    with assms(4) p w1 show ?thesis by (simp add: prepare_socket_path_def)
  next
    case (Inr u)
    with assms(4) p have "inspect_existing path w1 = (r, w')" by (simp add: prepare_socket_path_def)
    then show ?thesis
    proof (cases rule: inspect_existing_cases)
      case (removed error s c e)
      then have "\<not> listening s" using w1 by (intro refused_means_silent [of "arrive w1"]) simp_all
      with removed w1 assms(3) show ?thesis by (simp add: vacant_or_stale_def)
    qed (use w1 in simp)
  qed
qed

lemma bind_refused:
  assumes "undisturbed w" "honest_refusals w" "\<not> vacant_or_stale (entry w)" "bind_socket fresh made path mode w = (r, w')"
  shows "(\<exists>error. r = Inl error) \<and> entry w' = entry w"
proof -
  obtain p w1 where p: "prepare_socket_path path w = (p, w1)" by fastforce
  have w1: "undisturbed w1" "entry w1 = entry w"
    using prepare_entry [OF assms(1) p] prepare_keeps_live [OF assms(1-3) p] by simp_all
  obtain l w2 where l: "with_context (''bind local RPC socket '' @ path) (bind_listener fresh made) w1 = (l, w2)"
    by fastforce
  from w1 assms(3) have "entry (arrive w1) \<noteq> None" by (auto simp: vacant_or_stale_def split: option.splits)
  with l have "isl l" "w2 = arrive w1"
    by (auto simp: with_context_def bind_listener_def system_call_def split: option.splits call_fault.splits)
  with assms(4) p l w1 show ?thesis by (cases p; cases l) (auto simp: bind_socket_def)
qed

lemma bind_succeeds:
  assumes "moves w = []" "vacant_or_stale (entry w)" "bind_socket fresh made path mode w = (r, w')"
  shows "\<exists>b. r = Inr b
    \<and> entry w' = Some \<lparr>is_socket = True, identity = fresh, listening = True, permissions = mode\<rparr>
    \<and> entry (snd (serve_socket served b w')) = None"
proof -
  have [simp]: "next_move v = untouched" "arrive v = v" "fault untouched = None" if "moves v = []" for v
    using that by (simp_all add: next_move_def arrive_def untouched_def)
  have "prepare_socket_path path w = (Inr (), w\<lparr>entry := None, unlinked := unlinked (snd (prepare_socket_path path w))\<rparr>)"
    using assms(1,2) by (cases "entry w") (simp_all add: prepare_undisturbed vacant_or_stale_def)
  with assms(1,3) show ?thesis
    by (auto simp: bind_socket_def with_context_def bind_listener_def system_call_def new_guard_def socket_identity_def
        symlink_metadata_def set_permissions_def serve_socket_def drop_guard_def close_listener_def remove_file_def)
qed

text \<open>
  C34: On a path no other process touches, whichever system calls fail: a bind that starts on a vacant
  path or on a socket nobody listens on, and the server it leads to, leave such a path again, whether the
  bind fails or the server stops, with or without an error. A bind that starts on anything else (a socket
  that is listened on, or no socket) fails and leaves the entry as it is, if no call reports a refusal that
  was none. And when no call fails, a bind succeeds exactly on a path of the first kind, with the mode asked
  for, and the end of the server removes the socket.
\<close>

theorem stopped_server_restarts:
  assumes "undisturbed w" "bind_socket fresh made path mode w = (r, w')"
  shows "(vacant_or_stale (entry w) \<longrightarrow>
        vacant_or_stale (entry (case r of Inl error \<Rightarrow> w' | Inr b \<Rightarrow> snd (serve_socket served b w'))))
    \<and> (\<not> vacant_or_stale (entry w) \<and> honest_refusals w \<longrightarrow> (\<exists>error. r = Inl error) \<and> entry w' = entry w)
    \<and> (moves w = [] \<longrightarrow>
        (if vacant_or_stale (entry w)
         then \<exists>b. r = Inr b
           \<and> entry w' = Some \<lparr>is_socket = True, identity = fresh, listening = True, permissions = mode\<rparr>
           \<and> entry (snd (serve_socket served b w')) = None
         else \<exists>error. r = Inl error))"
proof (intro conjI impI)
  assume stale: "vacant_or_stale (entry w)"
  note bound = bind_entry [OF assms(1) stale assms(2)]
  show "vacant_or_stale (entry (case r of Inl error \<Rightarrow> w' | Inr b \<Rightarrow> snd (serve_socket served b w')))"
  proof (cases r)
    case (Inl error)
    with bound show ?thesis by simp
  next
    case (Inr b)
    with bound have "vacant_or_stale (entry (close_listener (listener b) w'))"
      by (auto intro: close_listener_entry)
    with Inr bound show ?thesis by (auto simp: serve_socket_def intro: vacant_or_stale_dropped)
  qed
next
  assume "moves w = []"
  moreover from this have "honest_refusals w" by (simp add: honest_refusals_def)
  ultimately show "if vacant_or_stale (entry w)
      then \<exists>b. r = Inr b \<and> entry w' = Some \<lparr>is_socket = True, identity = fresh, listening = True, permissions = mode\<rparr>
        \<and> entry (snd (serve_socket served b w')) = None
      else \<exists>error. r = Inl error"
    using bind_succeeds [OF _ _ assms(2)] bind_refused [OF assms(1) _ _ assms(2)] by simp
qed (use bind_refused [OF assms(1) _ _ assms(2)] in simp_all)

text \<open>A start on a stale socket whose permissions cannot be set.\<close>

definition sample_failing :: path_world where
  "sample_failing = \<lparr>entry = Some sample_socket,
     moves = replicate 7 untouched @ [untouched\<lparr>fault := Some (Fails (other_error ''Operation not permitted''))\<rparr>],
     unlinked = []\<rparr>"

theorem stopped_server_restarts_witness:
  "\<exists>error w'. bind_socket \<lparr>device = 1, inode = 9\<rparr> 493 ''/run/cp.sock'' 432 sample_failing = (Inl error, w')
     \<and> vacant_or_stale (entry w')"
proof -
  let ?b = "bind_socket \<lparr>device = 1, inode = 9\<rparr> 493 ''/run/cp.sock'' 432 sample_failing"
  have "\<not> isl (fst ?b) \<longleftrightarrow> False" by code_simp
  then obtain error where error: "fst ?b = Inl error" by (cases "fst ?b") auto
  have "undisturbed sample_failing" "vacant_or_stale (entry sample_failing)"
    by (simp_all add: undisturbed_def vacant_or_stale_def sample_failing_def sample_socket_def untouched_def)
  with stopped_server_restarts [of sample_failing "\<lparr>device = 1, inode = 9\<rparr>" 493 "''/run/cp.sock''" 432 "fst ?b" "snd ?b"] error
  show ?thesis by (cases ?b) simp
qed

end
