(* ===== verification/Process_Properties.thy ===== *)
theory Process_Properties
  imports Process Socket_Properties
begin

text \<open>
  Starting and stopping the daemon: one process owns a database, a start that fails keeps nothing, and
  the result of the process is the first failure of its tasks.
\<close>

lemma start_cases:
  assumes "start env config w = (r, w')"
  obtains (storage) error where "r = Inl error" "w' = w"
  | (provider) error p where "r = Inl error" "sw_locks w (database_lock_path (cfg_database_path config)) = None"
      "w' = w\<lparr>sw_provider := p\<rparr>"
  | (socket) error p path where "r = Inl error" "sw_locks w (database_lock_path (cfg_database_path config)) = None"
      "bind_socket (se_socket env) (se_made_mode env) (cfg_socket_path config) (cfg_socket_mode config) (sw_path w)
         = (Inl error, path)"
      "w' = w\<lparr>sw_provider := p, sw_path := path\<rparr>"
  | (started) b path where "r = Inr b" "sw_locks w (database_lock_path (cfg_database_path config)) = None"
      "bind_socket (se_socket env) (se_made_mode env) (cfg_socket_path config) (cfg_socket_mode config) (sw_path w)
         = (Inr b, path)"
      "w' = w\<lparr>sw_locks := (sw_locks w)(database_lock_path (cfg_database_path config) \<mapsto> se_self env),
         sw_provider := seed_catalog (sw_provider w), sw_path := path\<rparr>"
proof -
  let ?p = "database_lock_path (cfg_database_path config)"
  obtain s locks where s: "storage_connect (se_self env) (se_storage env) (cfg_database_path config) (sw_locks w) = (s, locks)"
    by fastforce
  note lock = storage_connect_takes_lock [OF s]
  show thesis
  proof (cases s)
    case (Inl e)
    then have "locks = sw_locks w" using lock by (simp add: takes_lock_def)
    with assms s Inl have "(r, w') = (Inl e, w)" by (simp add: start_def)
    then show thesis using storage [of e] by simp
  next
    case (Inr u)
    then have free: "sw_locks w ?p = None" "locks = (sw_locks w)(?p \<mapsto> se_self env)"
      using lock by (simp_all add: takes_lock_def)
    then have restored: "release_ownership (cfg_database_path config) locks = sw_locks w"
      by (simp add: release_ownership_def release_acquired)
    obtain f p where f: "fake_connect (se_provider env) (se_seed env) (cfg_fake_provider_database_path config) (sw_provider w) = (f, p)"
      by fastforce
    show thesis
    proof (cases f)
      case (Inl e)
      with assms s \<open>s = Inr u\<close> f restored have "(r, w') = (Inl e, w\<lparr>sw_locks := sw_locks w, sw_provider := p\<rparr>)"
        by (simp add: start_def)
      then show thesis using provider [of e p] free by simp
    next
      case (Inr v)
      then have seeded: "p = seed_catalog (sw_provider w)" by (rule fake_connect_seeds [OF f])
      obtain b path where b: "bind_socket (se_socket env) (se_made_mode env) (cfg_socket_path config) (cfg_socket_mode config) (sw_path w)
          = (b, path)" by fastforce
      show thesis
      proof (cases b)
        case (Inl e)
        with assms s \<open>s = Inr u\<close> f \<open>f = Inr v\<close> b restored
        have "(r, w') = (Inl e, w\<lparr>sw_locks := sw_locks w, sw_provider := p, sw_path := path\<rparr>)"
          by (simp add: start_def)
        then show thesis using socket [where error = e and p = p and path = path] free b Inl by simp
      next
        case (Inr c)
        with assms s \<open>s = Inr u\<close> f \<open>f = Inr v\<close> b
        have "(r, w') = (Inr c, w\<lparr>sw_locks := locks, sw_provider := p, sw_path := path\<rparr>)"
          by (simp add: start_def)
        then show thesis using started [where b = c and path = path] free b Inr seeded by simp
      qed
    qed
  qed
qed

text \<open>
  C21: One process owns a database: a start succeeds only when nobody holds the database's ownership
  lock, and then it holds it; a start that fails leaves every lock as it was. While another process
  holds the lock, a start fails before it touches the fake provider's database or the socket. Stopping
  after a start gives the lock back.
\<close>

theorem one_owner:
  assumes "start env config w = (r, w')"
  defines "lock \<equiv> database_lock_path (cfg_database_path config)"
  shows "(case r of
      Inl error \<Rightarrow> sw_locks w' = sw_locks w
    | Inr socket \<Rightarrow> sw_locks w lock = None \<and> sw_locks w' = (sw_locks w)(lock \<mapsto> se_self env)
        \<and> sw_locks (snd (finish config socket exit controller_task rpc_task served w')) = sw_locks w)
    \<and> (sw_locks w lock \<noteq> None \<longrightarrow> (\<exists>error. r = Inl error) \<and> w' = w)"
  using assms(1)
  by (cases rule: start_cases)
    (auto simp: lock_def finish_def release_ownership_def release_acquired)

text \<open>A machine on which process 1 owns the database, and a second process.\<close>

definition sample_config :: Config where
  "sample_config = \<lparr>cfg_socket_path = ''/tmp/control-plane.sock'', cfg_database_path = ''/tmp/control-plane.db'',
     cfg_fake_provider_database_path = ''/tmp/control-plane-fake-provider.db'', cfg_socket_mode = 432,
     cfg_reconcile_interval_ms = 1000, cfg_log_format = JsonLog\<rparr>"

lemma sample_config_default: "default_config = Inr sample_config"
proof -
  have "parse_mode ''0660'' = Inr 432" by (simp add: parse_mode_def from_str_radix_def to_digit_def)
  then show ?thesis by (simp add: default_config_def sample_config_def)
qed

definition no_faults :: connect_faults where
  "no_faults = \<lparr>cf_directory = None, cf_lock_open = None, cf_lock = None, cf_open = None, cf_migrate = None\<rparr>"

definition second_process :: start_env where
  "second_process = \<lparr>se_self = 2, se_storage = no_faults, se_provider = no_faults, se_seed = None,
     se_socket = \<lparr>device = 1, inode = 9\<rparr>, se_made_mode = 493\<rparr>"

definition owned_machine :: start_world where
  "owned_machine = \<lparr>sw_locks = [''/tmp/control-plane.db.lock'' \<mapsto> 1], sw_provider = empty_fake_provider,
     sw_path = \<lparr>entry = Some sample_socket, moves = [], unlinked = []\<rparr>\<rparr>"

theorem one_owner_witness:
  "snd (start second_process sample_config owned_machine) = owned_machine"
proof -
  have "sw_locks owned_machine (database_lock_path (cfg_database_path sample_config)) \<noteq> None"
    by (simp add: owned_machine_def sample_config_def database_lock_path_def)
  with one_owner [OF surjective_pairing [of "start second_process sample_config owned_machine"]] show ?thesis by blast
qed

text \<open>
  The result of the process hides no failure: it is success exactly when what ended the wait and
  both tasks succeeded, and otherwise the first failure in the order in which they are looked at, what
  ended the wait first.
\<close>

theorem process_result:
  "(primary_result exit controller_task rpc_task = Inr () \<longleftrightarrow>
      (case exit of
         SignalExit result \<Rightarrow> result = Inr () \<and> controller_task = Inr (Inr ()) \<and> rpc_task = Inr (Inr ())
       | ControllerExit result \<Rightarrow> result = Inr (Inr ()) \<and> rpc_task = Inr (Inr ())
       | RpcExit result \<Rightarrow> result = Inr (Inr ()) \<and> controller_task = Inr (Inr ())))
   \<and> (primary_result exit controller_task rpc_task = Inl error \<longleftrightarrow>
      find isl (case exit of
         SignalExit result \<Rightarrow> [result, task_result ''Host controller'' controller_task, task_result ''local RPC'' rpc_task]
       | ControllerExit result \<Rightarrow> [task_result ''Host controller'' result, task_result ''local RPC'' rpc_task]
       | RpcExit result \<Rightarrow> [task_result ''local RPC'' result, task_result ''Host controller'' controller_task])
      = Some (Inl error))"
  by (cases exit) (auto simp: primary_result_def task_result_def result_and_def Let_def split: sum.splits)

end
