(* ===== verification/Agent.thy ===== *)
theory Agent
  imports Process_Properties Utf8 Rpc
begin

text \<open>
  The small programs around the daemon: the tracing subscriber it installs (\<open>diagnostics.rs\<close>), the
  daemon's \<open>main\<close> from that to its end, the host agent (\<open>crates/host-agent/src/main.rs\<close>), which waits
  for a signal, and the build script of the control plane (\<open>build.rs\<close>), which names the compiler.
  The filter and the subscriber are tracing-subscriber's, arguments of the definitions.
\<close>

section \<open>The tracing subscriber\<close>

text \<open>
  \<open>try_from_default_env\<close> gives a filter or refuses, \<open>EnvFilter::new\<close> makes one of its text, and
  \<open>try_init\<close> installs a subscriber of a format with it, once in a process.
\<close>

record 'f tracing =
  tr_from_env :: "string + 'f"
  tr_new_filter :: "string \<Rightarrow> 'f"
  tr_try_init :: "LogFormat \<Rightarrow> 'f \<Rightarrow> string + unit"

definition env_filter :: "'f tracing \<Rightarrow> 'f" where
  "env_filter tr = (case tr_from_env tr of Inr f \<Rightarrow> f | Inl _ \<Rightarrow> tr_new_filter tr ''info'')"

definition with_context :: "string \<Rightarrow> string + 'a \<Rightarrow> anyhow + 'a" where
  "with_context message = map_err (\<lambda>cause. [message, cause])"

definition diagnostics_init :: "'f tracing \<Rightarrow> LogFormat \<Rightarrow> anyhow + unit" where
  "diagnostics_init tr log_format =
     (let filter = env_filter tr in
      case log_format of
        JsonLog \<Rightarrow> with_context ''initialize JSON tracing subscriber'' (tr_try_init tr JsonLog filter)
      | CompactLog \<Rightarrow> with_context ''initialize compact tracing subscriber'' (tr_try_init tr CompactLog filter))"

section \<open>The daemon from its first step to its last\<close>

text \<open>\<open>exit\<close> is what ends the wait, the two joined results those of the tasks that are still joined.\<close>

definition daemon_main ::
  "'f tracing \<Rightarrow> start_env \<Rightarrow> Config \<Rightarrow> Exit \<Rightarrow> joined \<Rightarrow> joined \<Rightarrow> anyhow + unit \<Rightarrow> (start_world, anyhow, unit) oper" where
  "daemon_main tr env config exit controller_task rpc_task served =
     and_then (lift_result (diagnostics_init tr (cfg_log_format config))) (\<lambda>_.
     and_then (start env config) (\<lambda>socket.
     finish config socket exit controller_task rpc_task served))"

section \<open>The host agent\<close>

record agent_config =
  ac_log_format :: LogFormat

definition default_agent_config :: agent_config where
  "default_agent_config = \<lparr>ac_log_format = JsonLog\<rparr>"

text \<open>Its \<open>init_tracing\<close> is written as the daemon's is.\<close>

definition init_tracing :: "'f tracing \<Rightarrow> LogFormat \<Rightarrow> anyhow + unit" where
  "init_tracing tr log_format =
     (let filter = env_filter tr in
      case log_format of
        JsonLog \<Rightarrow> with_context ''initialize JSON tracing subscriber'' (tr_try_init tr JsonLog filter)
      | CompactLog \<Rightarrow> with_context ''initialize compact tracing subscriber'' (tr_try_init tr CompactLog filter))"

definition agent_shutdown_signal :: "string + unit \<Rightarrow> shutdown \<Rightarrow> anyhow + unit" where
  "agent_shutdown_signal listen event =
     bind_result (with_context ''listen for SIGTERM'' listen) (\<lambda>_.
       case event of
         Interrupted result \<Rightarrow> with_context ''listen for Ctrl-C'' result
       | Terminated \<Rightarrow> Inr ())"

datatype agent_event =
    AgentStarted string string
  | AgentStopped

text \<open>The events that reach the log, \<open>CARGO_PKG_VERSION\<close> being the version.\<close>

definition agent_main :: "'f tracing \<Rightarrow> string \<Rightarrow> agent_config \<Rightarrow> string + unit \<Rightarrow> shutdown \<Rightarrow> (agent_event list, anyhow, unit) oper" where
  "agent_main tr version config listen event =
     and_then (lift_result (init_tracing tr (ac_log_format config))) (\<lambda>_.
     and_then (\<lambda>log. (Inr (), log @ [AgentStarted version PROTOCOL_VERSION])) (\<lambda>_.
     and_then (lift_result (agent_shutdown_signal listen event)) (\<lambda>_ log.
     (Inr (), log @ [AgentStopped]))))"

section \<open>The build script\<close>

record command_output =
  co_success :: bool
  co_stdout :: string

text \<open>\<open>run\<close> gives the output of a program with one argument, or nothing if it could not be run.\<close>

definition rustc_version :: "string option \<Rightarrow> (string \<Rightarrow> string \<Rightarrow> command_output option) \<Rightarrow> string" where
  "rustc_version rustc_variable run =
     (let rustc = (case rustc_variable of Some program \<Rightarrow> program | None \<Rightarrow> ''rustc'');
          successful = Option.bind (run rustc ''--version'') (\<lambda>output. if co_success output then Some output else None);
          printed = Option.bind successful (\<lambda>output. from_utf8 (co_stdout output))
      in (case map_option trim printed of Some version \<Rightarrow> version | None \<Rightarrow> ''unknown''))"

definition build_main :: "string option \<Rightarrow> (string \<Rightarrow> string \<Rightarrow> command_output option) \<Rightarrow> string list" where
  "build_main rustc_variable run =
     [''cargo:rerun-if-env-changed=RUSTC'', ''cargo:rerun-if-changed=migrations'',
      ''cargo:rustc-env=CONTROL_PLANE_RUSTC_VERSION='' @ rustc_version rustc_variable run]"

section \<open>Lemmas\<close>

lemma init_tracing_diagnostics: "init_tracing tr log_format = diagnostics_init tr log_format"
  by (simp add: init_tracing_def diagnostics_init_def)

lemma agent_shutdown_signal_daemon: "agent_shutdown_signal listen event = shutdown_signal listen event"
  by (simp add: agent_shutdown_signal_def shutdown_signal_def with_context_def map_err_def bind_result_def
      split: sum.split shutdown.split)

text \<open>
  The agent succeeds exactly when tracing was installed and a signal came, and then has logged start
  and stop in this order; it has logged its start alone when waiting failed, nothing without tracing.
\<close>

theorem agent_logs_its_life:
  "agent_main tr version config listen event [] =
     (case diagnostics_init tr (ac_log_format config) of
        Inl error \<Rightarrow> (Inl error, [])
      | Inr _ \<Rightarrow> (case shutdown_signal listen event of
          Inl error \<Rightarrow> (Inl error, [AgentStarted version PROTOCOL_VERSION])
        | Inr _ \<Rightarrow> (Inr (), [AgentStarted version PROTOCOL_VERSION, AgentStopped])))"
  by (simp add: agent_main_def init_tracing_diagnostics agent_shutdown_signal_daemon and_then_def split: sum.split)

text \<open>
  However a run of the daemon ends, at tracing, in its start or after its tasks, every ownership lock
  is as it was before.
\<close>

theorem daemon_main_releases:
  "sw_locks (snd (daemon_main tr env config exit controller_task rpc_task served w)) = sw_locks w"
proof -
  obtain r w' where s: "start env config w = (r, w')" by fastforce
  show ?thesis
  proof (cases "diagnostics_init tr (cfg_log_format config)")
    case (Inl e)
    then show ?thesis by (simp add: daemon_main_def and_then_def)
  next
    case (Inr u)
    show ?thesis using s
      by (cases rule: start_cases)
        (auto simp: daemon_main_def and_then_def Inr s finish_def release_ownership_def release_acquired)
  qed
qed

text \<open>
  The version the build records has no white space at either end, and is the trimmed output of a
  compiler that ran successfully, or the word that stands for none.
\<close>

theorem rustc_version_trimmed:
  "(\<forall>p \<in> set white_space.
      \<not> starts_with p (rustc_version rustc_variable run) \<and> \<not> starts_with (rev p) (rev (rustc_version rustc_variable run)))
   \<and> (rustc_version rustc_variable run = ''unknown''
      \<or> (\<exists>program output. run program ''--version'' = Some output \<and> co_success output
            \<and> utf8_valid (co_stdout output) \<and> rustc_version rustc_variable run = trim (co_stdout output)))"
proof -
  have "list_all (\<lambda>p. \<not> starts_with p ''unknown'' \<and> \<not> starts_with (rev p) (rev ''unknown'')) white_space"
    by code_simp
  then have unknown: "\<not> starts_with p ''unknown''" "\<not> starts_with (rev p) (rev ''unknown'')" if "p \<in> set white_space" for p
    using that by (auto simp: list_all_iff)
  define program where "program = (case rustc_variable of Some program \<Rightarrow> program | None \<Rightarrow> ''rustc'')"
  have "rustc_version rustc_variable run = ''unknown''
      \<or> (\<exists>output. run program ''--version'' = Some output \<and> co_success output
            \<and> utf8_valid (co_stdout output) \<and> rustc_version rustc_variable run = trim (co_stdout output))"
    by (auto simp: rustc_version_def program_def Let_def from_utf8_def Option.bind_eq_Some_conv split: option.splits if_splits)
  then show ?thesis using trim_trimmed unknown by fastforce
qed

end
