(* ===== verification/Server.thy ===== *)
theory Server
  imports Prelude
begin

text \<open>
  \<open>crates/control-plane/src/rpc.rs\<close>, the accept loop of \<open>serve_bound\<close>: the semaphore that limits
  connections, the set of connection tasks, cancellation and the drain. What a connection does is
  hyper's and jsonrpsee's; here it is a task that holds a permit until it ends. The tasks run beside
  the loop, so their ends interleave with its steps.
\<close>

definition MAX_CONNECTIONS :: nat where "MAX_CONNECTIONS = 64"

datatype server_phase = Accepting | Draining | Stopped | AcceptFailed

text \<open>
  \<open>running\<close> tasks hold a permit each; \<open>ended\<close> tasks gave it back and wait in the \<open>JoinSet\<close> to be
  joined. \<open>rejected\<close> counts the streams dropped at the limit.
\<close>

record server =
  phase :: server_phase
  permits :: nat
  running :: nat
  ended :: nat
  rejected :: nat

definition new_server :: server where
  "new_server = \<lparr>phase = Accepting, permits = MAX_CONNECTIONS, running = 0, ended = 0, rejected = 0\<rparr>"

datatype server_event =
    Accepted
  | AcceptError
  | TaskEnds
  | TaskJoined
  | CancellationRequested
  | DrainFinished

text \<open>
  One event; \<open>None\<close> where it cannot happen: the loop accepts and reacts to the cancellation only while
  it accepts, it joins a task only when one has ended, the drain finishes only when no task is left. A
  failed accept drops the \<open>JoinSet\<close>, which aborts its tasks.
\<close>

definition serve_event :: "server \<Rightarrow> server_event \<Rightarrow> server option" where
  "serve_event s event =
     (case event of
        Accepted \<Rightarrow>
          if phase s \<noteq> Accepting then None
          else if 0 < permits s then Some (s\<lparr>permits := permits s - 1, running := running s + 1\<rparr>)
          else Some (s\<lparr>rejected := rejected s + 1\<rparr>)
      | AcceptError \<Rightarrow>
          if phase s \<noteq> Accepting then None
          else Some (s\<lparr>phase := AcceptFailed, permits := permits s + running s, running := 0, ended := 0\<rparr>)
      | TaskEnds \<Rightarrow>
          if running s = 0 then None
          else Some (s\<lparr>permits := permits s + 1, running := running s - 1, ended := ended s + 1\<rparr>)
      | TaskJoined \<Rightarrow>
          if ended s = 0 \<or> phase s \<notin> {Accepting, Draining} then None else Some (s\<lparr>ended := ended s - 1\<rparr>)
      | CancellationRequested \<Rightarrow> if phase s \<noteq> Accepting then None else Some (s\<lparr>phase := Draining\<rparr>)
      | DrainFinished \<Rightarrow>
          if phase s = Draining \<and> running s = 0 \<and> ended s = 0 then Some (s\<lparr>phase := Stopped\<rparr>) else None)"

fun serve_events :: "server \<Rightarrow> server_event list \<Rightarrow> server option" where
  "serve_events s [] = Some s"
| "serve_events s (e # es) = (case serve_event s e of None \<Rightarrow> None | Some s' \<Rightarrow> serve_events s' es)"

section \<open>The invariant\<close>

text \<open>Permits are neither lost nor made, and a server that stopped left no task behind.\<close>

definition server_ok :: "server \<Rightarrow> bool" where
  "server_ok s \<longleftrightarrow> permits s + running s = MAX_CONNECTIONS
     \<and> (phase s \<in> {Stopped, AcceptFailed} \<longrightarrow> running s = 0 \<and> ended s = 0)"

lemma new_server_ok: "server_ok new_server"
  by (simp add: server_ok_def new_server_def)

lemma serve_event_ok: "server_ok s \<Longrightarrow> serve_event s e = Some s' \<Longrightarrow> server_ok s'"
  by (cases e) (auto simp: server_ok_def serve_event_def split: if_splits)

lemma serve_events_ok: "server_ok s \<Longrightarrow> serve_events s es = Some s' \<Longrightarrow> server_ok s'"
  by (induction es arbitrary: s) (auto split: option.splits dest: serve_event_ok)

lemma serve_events_append:
  "serve_events s (xs @ ys) = (case serve_events s xs of None \<Rightarrow> None | Some s' \<Rightarrow> serve_events s' ys)"
  by (induction xs arbitrary: s) (auto split: option.split)

text \<open>What is left to do once the server drains: every task still has to end and to be joined.\<close>

definition drain_work :: "server \<Rightarrow> nat" where
  "drain_work s = 2 * running s + ended s + (if phase s = Draining then 1 else 0)"

lemma drain_decreases:
  "phase s = Draining \<Longrightarrow> serve_event s e = Some s' \<Longrightarrow> phase s' \<in> {Draining, Stopped} \<and> drain_work s' < drain_work s"
  by (cases e) (auto simp: serve_event_def drain_work_def split: if_splits)

lemma stopped_final:
  "server_ok s \<Longrightarrow> phase s = Stopped \<Longrightarrow> serve_event s e = None"
  by (cases e) (auto simp: serve_event_def server_ok_def)

lemma serve_event_drain:
  "phase s \<in> {Draining, Stopped} \<Longrightarrow> serve_event s e = Some t \<Longrightarrow>
     phase t \<in> {Draining, Stopped} \<and> rejected t = rejected s \<and> running t \<le> running s"
  by (cases e) (auto simp: serve_event_def split: if_splits)

lemma serve_events_drain:
  "phase s \<in> {Draining, Stopped} \<Longrightarrow> serve_events s es = Some t \<Longrightarrow>
     phase t \<in> {Draining, Stopped} \<and> rejected t = rejected s \<and> running t \<le> running s"
proof (induction es arbitrary: s)
  case (Cons e es)
  then obtain u where u: "serve_event s e = Some u" "serve_events u es = Some t" by (auto split: option.splits)
  note step = serve_event_drain [OF Cons.prems(1) u(1)]
  with Cons.IH [OF _ u(2)] show ?case by fastforce
qed simp

lemma drain_bound:
  "server_ok s \<Longrightarrow> phase s = Draining \<Longrightarrow> serve_events s es = Some s' \<Longrightarrow> length es \<le> drain_work s"
proof (induction es arbitrary: s)
  case (Cons e es)
  then obtain t where t: "serve_event s e = Some t" "serve_events t es = Some s'" by (auto split: option.splits)
  have ok: "server_ok t" using Cons.prems(1) t(1) by (rule serve_event_ok)
  note less = drain_decreases [OF Cons.prems(2) t(1)]
  show ?case
  proof (cases "phase t = Draining")
    case True
    then show ?thesis using Cons.IH [OF ok True t(2)] less by simp
  next
    case False
    then have "phase t = Stopped" using less by simp
    then have "es = []" using t(2) stopped_final [OF ok] by (cases es) simp_all
    then show ?thesis using less by simp
  qed
qed simp

lemma drain_progress:
  assumes "phase s = Draining"
  shows "\<exists>e s'. serve_event s e = Some s'"
proof (cases "running s = 0")
  case True
  show ?thesis
  proof (cases "ended s = 0")
    case True
    with \<open>running s = 0\<close> assms have "serve_event s DrainFinished \<noteq> None" by (simp add: serve_event_def)
    then show ?thesis by blast
  next
    case False
    with assms have "serve_event s TaskJoined \<noteq> None" by (simp add: serve_event_def)
    then show ?thesis by blast
  qed
next
  case False
  then have "serve_event s TaskEnds \<noteq> None" by (simp add: serve_event_def)
  then show ?thesis by blast
qed

section \<open>Properties\<close>

text \<open>
  C22: Connections are bounded and permits are not lost: whatever the order of accepts, ends, joins and
  the cancellation, at most 64 connections run at a time, a further one is accepted unless 64 run, and
  a server that stopped or failed has no connection left.
\<close>

theorem connections_bounded:
  assumes "serve_events new_server es = Some s"
  shows "running s \<le> 64 \<and> permits s = 64 - running s
    \<and> (phase s = Accepting \<longrightarrow> (\<exists>s'. serve_event s Accepted = Some s' \<and> (rejected s' \<noteq> rejected s \<longleftrightarrow> running s = 64)
         \<and> running s' = min 64 (running s + 1)))
    \<and> (phase s \<in> {Stopped, AcceptFailed} \<longrightarrow> running s = 0 \<and> ended s = 0)"
proof -
  have "server_ok s" by (rule serve_events_ok [OF new_server_ok assms])
  then show ?thesis by (auto simp: server_ok_def MAX_CONNECTIONS_def serve_event_def)
qed

theorem connections_bounded_witness:
  "\<exists>s. serve_events new_server (replicate 65 Accepted) = Some s \<and> running s = 64 \<and> rejected s = 1 \<and> running s \<le> 64"
proof -
  have run: "serve_events new_server (replicate 65 Accepted)
      = Some \<lparr>phase = Accepting, permits = 0, running = 64, ended = 0, rejected = 1\<rparr>"
    by code_simp
  from connections_bounded [OF run] run show ?thesis by simp
qed

text \<open>
  C23: A cancelled server stops: once it drains it accepts nothing more, it always can go on, and after
  two events for each of its at most 64 running connections, the joins still owed and one more, it has
  stopped with none left.
\<close>

theorem drain_terminates:
  assumes "serve_events new_server es = Some s" and "phase s = Draining"
    and "serve_events s rest = Some t"
  shows "length rest \<le> 2 * running s + ended s + 1 \<and> running s \<le> 64 \<and> rejected t = rejected s \<and> running t \<le> running s
    \<and> (phase t = Stopped \<or> (\<exists>e u. serve_event t e = Some u)) \<and> (phase t = Stopped \<longrightarrow> running t = 0 \<and> ended t = 0)"
proof (intro conjI)
  have ok: "server_ok s" by (rule serve_events_ok [OF new_server_ok assms(1)])
  then have ok': "server_ok t" using assms(3) by (rule serve_events_ok)
  show "length rest \<le> 2 * running s + ended s + 1"
    using drain_bound [OF ok assms(2,3)] assms(2) by (simp add: drain_work_def)
  show "running s \<le> 64" using ok by (simp add: server_ok_def MAX_CONNECTIONS_def)
  have drain: "phase t \<in> {Draining, Stopped} \<and> rejected t = rejected s \<and> running t \<le> running s"
    by (rule serve_events_drain [OF _ assms(3)]) (simp add: assms(2))
  then show "rejected t = rejected s" "running t \<le> running s" by simp_all
  show "phase t = Stopped \<or> (\<exists>e u. serve_event t e = Some u)"
    using drain drain_progress [of t] by auto
  show "phase t = Stopped \<longrightarrow> running t = 0 \<and> ended t = 0" using ok' by (simp add: server_ok_def)
qed

theorem drain_terminates_witness:
  "\<exists>t. serve_events new_server ([Accepted, CancellationRequested] @ [TaskEnds, TaskJoined, DrainFinished]) = Some t
     \<and> phase t = Stopped \<and> running t = 0"
proof -
  have run: "serve_events new_server [Accepted, CancellationRequested]
      = Some \<lparr>phase = Draining, permits = 63, running = 1, ended = 0, rejected = 0\<rparr>"
    by code_simp
  have rest: "serve_events \<lparr>phase = Draining, permits = 63, running = 1, ended = 0, rejected = 0\<rparr> [TaskEnds, TaskJoined, DrainFinished]
      = Some \<lparr>phase = Stopped, permits = 64, running = 0, ended = 0, rejected = 0\<rparr>"
    by code_simp
  from drain_terminates [OF run _ rest] run rest show ?thesis
    by (simp add: serve_events_append del: append_Cons)
qed

end
