(* ===== verification/Fake_Faults.thy ===== *)
theory Fake_Faults
  imports Fleet
begin

text \<open>
  The fake provider with one fault injected: the operation the fault is meant for fails once, in its way,
  and the provider is calm again; the others answer as if there were none.
\<close>

lemma find_updated:
  "find (\<lambda>r. fst r = a) (update_where (\<lambda>r. fst r = b) f rows) =
     (if a = b then map_option f (find (\<lambda>r. fst r = b) rows) else find (\<lambda>r. fst r = a) rows)"
  if "\<And>r. fst r = b \<Longrightarrow> fst (f r) = b"
  using that by (induction rows) (auto simp: update_where_def)

lemma find_appended: "find p (xs @ ys) = (case find p xs of None \<Rightarrow> find p ys | Some x \<Rightarrow> Some x)"
  by (induction xs) auto

lemma fault_remaining_injected:
  "fault_remaining operation (inject_fault injected n s)
     = (if operation = injected then uint n else fault_remaining operation s)"
proof (cases "injected \<in> fst ` set (faults s)")
  case True
  then have "find (\<lambda>r. fst r = injected) (faults s) \<noteq> None" by (auto simp: find_None_iff)
  with True show ?thesis by (auto simp: fault_remaining_def inject_fault_def find_updated)
next
  case False
  then have "find (\<lambda>r. fst r = injected) (faults s) = None" by (force simp: find_None_iff)
  with False show ?thesis by (auto simp: fault_remaining_def inject_fault_def find_appended split: option.split)
qed

section \<open>A pending fault\<close>

definition pending :: "fake_env \<Rightarrow> string \<Rightarrow> fake_provider \<Rightarrow> bool" where
  "pending F injected s \<longleftrightarrow> fake_up F s
     \<and> (\<forall>operation. fault_remaining operation s = (if operation = injected then 1 else 0))"

lemma inject_frame [simp]:
  "provider_resources (inject_fault injected n s) = provider_resources s" "plans (inject_fault injected n s) = plans s"
  "statement_count (inject_fault injected n s) = statement_count s"
  by (simp_all add: inject_fault_def)

lemma injected_pending: "fake_calm F s \<Longrightarrow> pending F injected (inject_fault injected 1 s)"
  by (simp add: pending_def fault_remaining_injected fake_calm_def fake_up_def fake_sane_def)

lemma pending_count [simp]: "pending F injected (s\<lparr>statement_count := n\<rparr>) = pending F injected s"
  by (simp add: pending_def)

lemma pending_up: "pending F injected s \<Longrightarrow> fake_up F s"
  by (simp add: pending_def)

lemma consume_other:
  "pending F injected s \<Longrightarrow> operation \<noteq> injected \<Longrightarrow>
    consume_fault F operation s = (Inr False, s\<lparr>statement_count := Suc (statement_count s)\<rparr>)"
  by (simp add: pending_def consume_fault_free)

text \<open>The state after the fault struck.\<close>

definition spent :: "string \<Rightarrow> fake_provider \<Rightarrow> fake_provider" where
  "spent injected s = s\<lparr>statement_count := Suc (statement_count s),
     faults := update_where (\<lambda>r. fst r = injected) (\<lambda>r. (fst r, snd r - 1)) (faults s)\<rparr>"

lemma spent_frame [simp]:
  "provider_resources (spent injected s) = provider_resources s" "plans (spent injected s) = plans s"
  "statement_count (spent injected s) = Suc (statement_count s)" "tables (spent injected s) = tables s"
  by (simp_all add: spent_def tables_def)

lemma consume_pending: "pending F injected s \<Longrightarrow> consume_fault F injected s = (Inr True, spent injected s)"
  by (simp add: pending_def fake_up_def consume_fault_def statement_calm Let_def spent_def)

lemma spent_calm:
  assumes "pending F injected s"
  shows "fake_calm F (spent injected s)"
proof -
  have up: "fake_up F s" and one: "fault_remaining injected s = 1"
      and none: "\<And>operation. operation \<noteq> injected \<Longrightarrow> fault_remaining operation s = 0"
    using assms by (simp_all add: pending_def)
  obtain r where "find (\<lambda>r. fst r = injected) (faults s) = Some r" "snd r = 1"
    using one by (auto simp: fault_remaining_def split: option.splits)
  then have "fault_remaining operation (spent injected s) = 0" for operation
    using none [of operation] by (auto simp: fault_remaining_def spent_def find_updated)
  moreover have "fake_sane F (spent injected s)" using up by (simp add: fake_up_def tables_sane [of "spent injected s" s])
  ultimately show ?thesis using up by (simp add: fake_calm_def fake_up_def)
qed

section \<open>Each operation\<close>

lemma observe_faulted:
  "pending F FAULT_OBSERVE_TRANSIENT s \<Longrightarrow>
    fake_observe F h s = (Inl (Transient ''injected observation failure''), spent FAULT_OBSERVE_TRANSIENT s)"
  by (simp add: fake_observe_def and_then_def consume_pending transient_def)

lemma observe_beside:
  "pending F injected s \<Longrightarrow> injected \<noteq> FAULT_OBSERVE_TRANSIENT \<Longrightarrow>
    fake_observe F h s = (Inr (case fake_owned F s h of None \<Rightarrow> Absent | Some (res, plan) \<Rightarrow> Present res),
      s\<lparr>statement_count := statement_count s + 2\<rparr>)"
  using pending_up [of F injected s]
  by (simp add: fake_observe_def and_then_def consume_other resource_by_host_calm split: option.split)

lemma create_rejected:
  "pending F FAULT_CREATE_DEFINITIVE s \<Longrightarrow> fake_create F h plan s =
    (Inl (Definitive ''injected definitive create failure''), spent FAULT_CREATE_DEFINITIVE s)"
  by (simp add: fake_create_def and_then_def consume_pending definitive_def)

lemma fault_names:
  "FAULT_DELETE_RESPONSE_LOSS \<noteq> FAULT_DELETE_TRANSIENT" "FAULT_CREATE_RESPONSE_LOSS \<noteq> FAULT_CREATE_DEFINITIVE"
  "FAULT_CREATE_RESPONSE_LOSS \<noteq> FAULT_CREATE_TRANSIENT" "FAULT_CREATE_RESPONSE_LOSS \<noteq> FAULT_OBSERVE_TRANSIENT"
  "FAULT_DELETE_RESPONSE_LOSS \<noteq> FAULT_OBSERVE_TRANSIENT" "FAULT_CREATE_DEFINITIVE \<noteq> FAULT_OBSERVE_TRANSIENT"
  by (simp_all add: FAULT_CREATE_DEFINITIVE_def FAULT_CREATE_TRANSIENT_def FAULT_CREATE_RESPONSE_LOSS_def
      FAULT_DELETE_TRANSIENT_def FAULT_DELETE_RESPONSE_LOSS_def FAULT_OBSERVE_TRANSIENT_def)

lemma delete_lost:
  assumes pending: "pending F FAULT_DELETE_RESPONSE_LOSS s"
  obtains s' where "fake_delete F h s = (Inr DeleteOutcomeUnknown, s')" and "fake_calm F s'" and "plans s' = plans s"
    and "provider_resources s' = filter (\<lambda>r. re_host_id r \<noteq> host_id_text (fk_codec F) h) (provider_resources s)"
proof -
  let ?s = "spent FAULT_DELETE_RESPONSE_LOSS (s\<lparr>statement_count := Suc (statement_count s)\<rparr>)"
  let ?s' = "?s\<lparr>statement_count := Suc (statement_count ?s), provider_resources :=
    filter (\<lambda>r. re_host_id r \<noteq> host_id_text (fk_codec F) h) (provider_resources s)\<rparr>"
  have calm: "fake_calm F ?s" using pending by (intro spent_calm) simp
  have healthy: "\<forall>n. fk_fault F n = Healthy" using calm by (simp add: fake_calm_def)
  have "fake_delete F h s = (Inr DeleteOutcomeUnknown, ?s')"
    using pending
    by (simp add: fake_delete_def and_then_def consume_other [OF pending fault_names(1) [symmetric]] consume_pending
        statement_calm [OF healthy] Let_def)
  moreover have "fake_calm F ?s'" using calm by (auto simp: fake_calm_def fake_sane_def distinct_map_filter)
  ultimately show ?thesis by (intro that [of ?s']) simp_all
qed

end
