(* ===== verification/Testing.thy ===== *)
theory Testing
  imports Listing Requests Lifecycle
begin

text \<open>
  The ground under the repository's own tests: a test is an operation on the world that fails where
  the test panics or returns an error. A test opens databases in a new directory; a quiet environment
  is what it runs in. The storage calls the tests make beside the controller's are followed to their
  outcome, as in \<open>Quiet\<close>.
\<close>

section \<open>Tests\<close>

datatype test_failure =
    AppFailure AppError
  | ProviderFailure ProviderError
  | OtherFailure "string list"
  | Panicked

type_synonym ('s, 'a) test_on = "('s, test_failure, 'a) oper"
type_synonym 'a test = "(fake_provider world, 'a) test_on"

text \<open>A call with \<open>?\<close>, and a call whose result the test looks at.\<close>

definition in_storage :: "environment \<Rightarrow> (io \<Rightarrow> 'a db_oper) \<Rightarrow> 'a test" where
  "in_storage E m = map_oper_err AppFailure (storage_call E m)"

definition tried :: "environment \<Rightarrow> (io \<Rightarrow> 'a db_oper) \<Rightarrow> (AppError + 'a) test" where
  "tried E m w = (case storage_call E m w of (r, w') \<Rightarrow> (Inr r, w'))"

text \<open>\<open>expect_err\<close>, \<open>expect\<close> and \<open>unwrap\<close>, and the assertions.\<close>

definition expect_err :: "'e + 'a \<Rightarrow> ('s, 'e) test_on" where
  "expect_err r = (case r of Inl e \<Rightarrow> ok e | Inr _ \<Rightarrow> fail_with Panicked)"

definition expect :: "'a option \<Rightarrow> ('s, 'a) test_on" where
  "expect v = (case v of None \<Rightarrow> fail_with Panicked | Some x \<Rightarrow> ok x)"

definition assert_that :: "bool \<Rightarrow> ('s, unit) test_on" where
  "assert_that b = (if b then ok () else fail_with Panicked)"

definition is_conflict :: "AppError \<Rightarrow> bool" where
  "is_conflict e \<longleftrightarrow> (case e of Conflict _ _ _ \<Rightarrow> True | _ \<Rightarrow> False)"

definition is_not_found :: "AppError + 'a \<Rightarrow> bool" where
  "is_not_found r \<longleftrightarrow> (case r of Inl (NotFound _ _) \<Rightarrow> True | _ \<Rightarrow> False)"

definition is_invalid_argument :: "AppError \<Rightarrow> bool" where
  "is_invalid_argument e \<longleftrightarrow> (case e of InvalidArgument _ \<Rightarrow> True | _ \<Rightarrow> False)"

definition small_spec :: HostClaimSpec where
  "small_spec = \<lparr>spec_resources =
     \<lparr>vcpus = 1, memory_bytes = 1024 * 1024 * 1024, storage_bytes = 10 * 1024 * 1024 * 1024\<rparr>\<rparr>"

text \<open>\<open>str::contains\<close>.\<close>

definition str_contains :: "string \<Rightarrow> string \<Rightarrow> bool" where
  "str_contains value part \<longleftrightarrow> list_ex (\<lambda>n. take (length part) (drop n value) = part) [0..<Suc (length value)]"

lemma str_contains_infix: "str_contains (before @ part @ after) part"
  by (auto simp: str_contains_def list_ex_iff intro!: bexI [of _ "length before"])

text \<open>The databases of a new directory, and \<open>FakeProvider::connect\<close> on one of them.\<close>

definition new_directory :: "fake_provider world" where
  "new_directory = \<lparr>w_db = empty_database, w_provider = empty_fake_provider, w_notified = False, w_count = 0\<rparr>"

definition connect_provider :: "unit test" where
  "connect_provider w = (Inr (), w\<lparr>w_provider := seed_catalog (w_provider w)\<rparr>)"

definition passes :: "('s, unit) test_on \<Rightarrow> 's \<Rightarrow> bool" where
  "passes test w \<longleftrightarrow> fst (test w) = Inr ()"

named_theorems test_simps \<open>running a test\<close>

lemma in_storage_run [test_simps]: "storage_call E m w = (Inr x, w') \<Longrightarrow> in_storage E m w = (Inr x, w')"
  by (simp add: in_storage_def map_oper_err_def)

lemma tried_run [test_simps]: "storage_call E m w = (r, w') \<Longrightarrow> tried E m w = (Inr r, w')"
  by (simp add: tried_def)

lemma check_simps [test_simps]:
  "expect_err (Inl e) = ok e" "expect (Some x) = ok x" "b \<Longrightarrow> assert_that b = ok ()"
  "is_conflict (Conflict ty i m)" "is_not_found (Inl (NotFound ty i))" "is_invalid_argument (InvalidArgument m)"
  by (simp_all add: expect_err_def expect_def assert_that_def is_conflict_def is_not_found_def is_invalid_argument_def)

lemma small_spec_fits: "resources_fit (spec_resources small_spec)" "validate_resources (spec_resources small_spec) = Inr ()"
proof -
  show "resources_fit (spec_resources small_spec)"
    by (simp add: small_spec_def resources_fit_def i64_max_def)
  then show "validate_resources (spec_resources small_spec) = Inr ()" by (simp add: validate_resources_Inr)
qed

lemma new_directory_held: "holds E new_directory Map.empty Map.empty"
  using first_start_vacant [of E empty_fake_provider]
  by (simp add: vacant_def holds_def first_start_def new_directory_def)

section \<open>The storage calls of a test\<close>

lemma quiet_codec: "quiet E \<Longrightarrow> codec_ok (e_codec E)"
  by (simp add: quiet_def)

text \<open>A read: the store's answer, and the claims and hosts as they were.\<close>

lemma quiet_read:
  assumes "quiet E" and "holds E w cs hs" and "\<And>io. io_fault io = no_fault \<Longrightarrow> refines (e_codec E) (m io) spec"
    and "spec \<lparr>s_claims = cs, s_hosts = hs\<rparr> = (r, \<lparr>s_claims = cs, s_hosts = hs\<rparr>)"
  obtains w' where "storage_call E m w = (r, w')" and "holds E w' cs hs" and "counted w w'"
  by (rule quiet_call [OF assms(1,2), where m = m and spec = "\<lambda>_. spec", OF assms(3,4)])

lemma quiet_get_claim:
  assumes E: "quiet E" and held: "holds E w cs hs"
  obtains w' where "storage_call E (\<lambda>io. get_claim (e_codec E) io i) w
      = (ok_or (NotFound ''HostClaim'' (claim_id_text (e_codec E) i)) (cs i), w')"
    and "holds E w' cs hs" and "counted w w'"
  by (rule quiet_read [OF E held, where m = "\<lambda>io. get_claim (e_codec E) io i" and spec = "spec_get_claim (e_codec E) i",
        OF get_claim_refines [OF quiet_codec [OF E]]], assumption, simp add: spec_get_claim_def, rule that)

lemma quiet_host_for_claim:
  assumes E: "quiet E" and held: "holds E w cs hs" and r: "cs i = Some r"
  obtains w' where "storage_call E (\<lambda>io. get_host_for_claim (e_codec E) io i) w = (Inr (Option.bind (claim_host r) hs), w')"
    and "holds E w' cs hs" and "counted w w'"
  by (rule quiet_read [OF E held, where m = "\<lambda>io. get_host_for_claim (e_codec E) io i" and spec = "spec_get_host_for_claim i",
        OF get_host_for_claim_refines [OF quiet_codec [OF E]]], assumption, simp add: spec_get_host_for_claim_def r, rule that)

lemma quiet_create_claim:
  assumes E: "quiet E" and held: "holds E w cs hs" and fits: "resources_fit (spec_resources spec)"
    and new: "cs i = None"
  defines "now \<equiv> e_clock E (w_count w)"
  obtains w' where "storage_call E (\<lambda>io. create_claim (e_codec E) io i spec) w = (Inr (initial_claim i spec now), w')"
    and "holds E w' (cs(i \<mapsto> new_claim i spec now)) hs" and "counted w w'"
proof -
  have valid: "validate_resources (spec_resources spec) = Inr ()" using fits by (simp add: validate_resources_Inr)
  show ?thesis
    by (rule quiet_call [OF E held, where m = "\<lambda>io. create_claim (e_codec E) io i spec"
          and spec = "\<lambda>io. spec_create_claim (e_codec E) (io_now io) i spec", OF create_claim_refines [OF quiet_codec [OF E]]],
        assumption, simp add: spec_create_claim_def new_claim_def [symmetric] valid new, unfold now_def [symmetric], rule that)
qed

text \<open>An identifier that is taken, with the same spec or another, and resources that are not valid.\<close>

lemma quiet_create_taken:
  assumes E: "quiet E" and held: "holds E w cs hs" and fits: "resources_fit (spec_resources spec)"
    and r: "cs i = Some r"
  obtains w' where "storage_call E (\<lambda>io. create_claim (e_codec E) io i spec) w
      = (if hc_spec (cr_resource r) = spec then Inr (cr_resource r)
         else Inl (Conflict ''HostClaim'' (claim_id_text (e_codec E) i) ''the existing claim has a different spec''), w')"
    and "holds E w' cs hs" and "counted w w'"
proof -
  have valid: "validate_resources (spec_resources spec) = Inr ()" using fits by (simp add: validate_resources_Inr)
  show ?thesis
    by (rule quiet_call [OF E held, where m = "\<lambda>io. create_claim (e_codec E) io i spec"
          and spec = "\<lambda>io. spec_create_claim (e_codec E) (io_now io) i spec", OF create_claim_refines [OF quiet_codec [OF E]]],
        assumption, simp only: spec_create_claim_def valid sum.case option.case store.select_convs r, rule that)
qed

lemma quiet_create_invalid:
  assumes E: "quiet E" and held: "holds E w cs hs" and invalid: "validate_resources (spec_resources spec) = Inl e"
  obtains w' where "storage_call E (\<lambda>io. create_claim (e_codec E) io i spec) w = (Inl e, w')"
    and "holds E w' cs hs" and "counted w w'"
  by (rule quiet_call [OF E held, where m = "\<lambda>io. create_claim (e_codec E) io i spec"
        and spec = "\<lambda>io. spec_create_claim (e_codec E) (io_now io) i spec", OF create_claim_refines [OF quiet_codec [OF E]]],
      assumption, simp add: spec_create_claim_def invalid, rule that)

lemma quiet_mark_deleting:
  assumes E: "quiet E" and held: "holds E w cs hs" and r: "cs i = Some r" "claim_deletion r = None"
  defines "now \<equiv> e_clock E (w_count w)"
  obtains w' where "storage_call E (\<lambda>io. mark_claim_deleting (e_codec E) io i) w
      = (Inr (cr_resource (deletion_requested now r)), w')"
    and "holds E w' (cs(i \<mapsto> deletion_requested now r)) hs" and "counted w w'"
  by (rule quiet_call [OF E held, where m = "\<lambda>io. mark_claim_deleting (e_codec E) io i"
        and spec = "\<lambda>io. spec_mark_claim_deleting (e_codec E) (io_now io) i", OF mark_claim_deleting_refines [OF quiet_codec [OF E]]],
      assumption, simp add: spec_mark_claim_deleting_def r, unfold now_def [symmetric], rule that)

text \<open>A status copied before the deletion was requested is not written.\<close>

lemma quiet_stale_status:
  assumes E: "quiet E" and held: "holds E w cs hs" and r: "cs (claim_id_of copy) = Some r"
    and stale: "claim_deletion copy \<noteq> claim_deletion r"
    and fits: "uint (hcs_observed_generation (hc_status (cr_resource copy))) \<le> i64_max"
  obtains w' where "storage_call E (\<lambda>io. save_claim_status (e_codec E) io copy) w = (Inr False, w')"
    and "holds E w' cs hs" and "counted w w'"
  by (rule quiet_read [OF E held, where m = "\<lambda>io. save_claim_status (e_codec E) io copy"
        and spec = "spec_save_claim_status (e_codec E) copy", OF save_claim_status_refines [OF quiet_codec [OF E]]],
      assumption, use r stale fits in \<open>simp add: spec_save_claim_status_def to_i64_def\<close>, rule that)

text \<open>A claim that has its host: the call answers with it, or refuses.\<close>

lemma quiet_ensure_assigned:
  assumes E: "quiet E" and held: "holds E w cs hs" and r: "cs i = Some r" "claim_deletion r = None" "claim_host r = Some h"
    and hr: "hs h = Some hr" and fits: "resources_fit resources"
  obtains w' where "storage_call E (\<lambda>io. ensure_host (e_codec E) io i plan resources) w
      = (bind_result (validate_host_assignment (e_codec E) hr plan resources) (\<lambda>_. Inr hr), w')"
    and "holds E w' cs hs" and "counted w w'"
proof -
  have valid: "validate_resources resources = Inr ()" using fits by (simp add: validate_resources_Inr)
  show ?thesis
    by (rule quiet_call [OF E held, where m = "\<lambda>io. ensure_host (e_codec E) io i plan resources"
          and spec = "\<lambda>io. spec_ensure_host (e_codec E) (io_now io) (io_host_id io) i plan resources",
          OF ensure_host_refines [OF quiet_codec [OF E]]],
        assumption, simp add: spec_ensure_host_def valid r hr, rule that)
qed

section \<open>Lists of claims and hosts\<close>

lemma length_listed:
  assumes "\<And>x. x \<in> set xs \<longleftrightarrow> m (k x) = Some x" and "distinct (map k xs)" and "\<And>i x. m i = Some x \<Longrightarrow> k x = i"
  shows "length xs = card (dom m)"
proof -
  have "i \<in> k ` set xs" if "m i = Some x" for i x
    using assms(1) [of x] assms(3) [OF that] that by (intro image_eqI [of i k x]) simp_all
  moreover have "m (k x) = Some x" if "x \<in> set xs" for x using assms(1) that by blast
  ultimately have "k ` set xs = dom m" by blast
  then show ?thesis using distinct_card [OF assms(2)] by simp
qed

lemma quiet_count_claims:
  assumes E: "quiet E" and held: "holds E w cs hs"
  obtains rs where "storage_call E (list_claims (e_codec E)) w = (Inr rs, tick w)"
    and "\<And>x. x \<in> set rs \<longleftrightarrow> cs (claim_id_of x) = Some x" and "length rs = card (dom cs)"
proof (rule quiet_list_claims [OF E held])
  fix rs
  assume "storage_call E (list_claims (e_codec E)) w = (Inr rs, tick w)" "distinct (map claim_id_of rs)"
    and rs: "x \<in> set rs \<longleftrightarrow> cs (claim_id_of x) = Some x" for x
  moreover from this have "length rs = card (dom cs)"
    using held_claim(1) [OF E held] by (intro length_listed [where k = claim_id_of]) simp_all
  ultimately show thesis using that [of rs] by simp
qed

lemma quiet_count_hosts:
  assumes E: "quiet E" and held: "holds E w cs hs"
  obtains rs where "storage_call E (list_hosts (e_codec E)) w = (Inr rs, tick w)" and "length rs = card (dom hs)"
proof -
  have "io_fault (io_at E (w_count w)) = no_fault" using E by (simp add: quiet_def)
  from list_hosts_result [OF quiet_codec [OF E] this holdsD(1) [OF held]]
  obtain rs where listed: "list_hosts (e_codec E) (io_at E (w_count w)) (w_db w) = (Inr rs, w_db w)"
      and rs: "\<And>r. r \<in> set rs \<longleftrightarrow> host_view (e_codec E) (w_db w) (host_id_of r) = Some r" and "distinct (map host_id_of rs)"
    by blast
  then have "length rs = card (dom hs)"
    using held_host [OF E held] holdsD(3) [OF held] by (intro length_listed [where k = host_id_of]) simp_all
  moreover have "storage_call E (list_hosts (e_codec E)) w = (Inr rs, tick w)"
    using E listed by (simp add: storage_call_def Let_def on_db_def quiet_def serve_all_def tick_def)
  ultimately show ?thesis by (rule that [rotated])
qed

text \<open>The claim every test begins with.\<close>

lemma first_claim:
  assumes "quiet E"
  obtains w' now where
    "storage_call E (\<lambda>io. create_claim (e_codec E) io i small_spec) new_directory = (Inr (initial_claim i small_spec now), w')"
    and "holds E w' [i \<mapsto> new_claim i small_spec now] Map.empty" and "counted new_directory w'"
  by (rule quiet_create_claim [OF assms new_directory_held small_spec_fits(1), of i]) (simp_all add: that)

end
