(* ===== verification/Test_Steps.thy ===== *)
theory Test_Steps
  imports Fake_Faults Testing
begin

text \<open>
  What the controller's tests lead to, step by step: a claim whose host was assigned, a create that was
  rejected or whose response was lost, an observation that failed, a delete whose response was lost, and
  the fake provider with the one resource that was made.
\<close>

section \<open>Steps beside the ones of \<open>Convergence\<close>\<close>

lemma rejected_create_step:
  assumes E: "quiet E" and lone: "lone E w r [h \<mapsto> hr]"
    and r: "claim_deletion r = None" "claim_host r = Some h"
    and hr: "is_due (hr_retry hr) (now_unix_ms (e_clock_ms E (w_count w)))" "host_phase hr = Pending"
      "host_provider_resource hr = None"
    and observed: "observe P h (w_provider w) = (Inr Absent, p)"
    and rejected: "create_resource P h (hr_provider_plan_id hr) p = (Inl (Definitive message), p')"
  obtains w' r' hr' where "reconcile_once E P w = (Inr Progress, w')" and "w_provider w' = p'"
    and "lone E w' r' [h \<mapsto> hr']" and "claim_id_of r' = claim_id_of r" and "claim_host r' = Some h"
    and "host_phase hr' = Failed" and "last_error_kind (hr_retry hr') = Some ''ProviderRejected''"
proof -
  let ?host1 = "(set_host_phase Provisioning hr)\<lparr>hr_retry := default_retry\<rparr>"
  let ?both = "\<lambda>now. schedule_host_provider_error now r ?host1 (Definitive message) (now_unix_ms (e_clock_ms E (w_count w)))"
  obtain w' now where w': "reconcile_once E P w = (Inr Progress, w')" "w_provider w' = p'" "w_notified w' = w_notified w"
      "lone E w' (with_status (fst (?both now)) r) [h \<mapsto> with_host_status (snd (?both now)) hr]"
    by (rule uncreated_step [OF E lone r hr observed rejected, of "Definitive message" ?both]) simp
  show ?thesis
    by (intro that [OF w'(1,2,4)]) (simp_all add: schedule_host_provider_error_def mark_host_failed_def edit_defs r)
qed

lemma unknown_create_step:
  fixes E :: environment and w :: "'p world"
  defines "now_ms \<equiv> now_unix_ms (e_clock_ms E (w_count w))"
  assumes E: "quiet E" and lone: "lone E w r [h \<mapsto> hr]"
    and r: "claim_deletion r = None" "claim_host r = Some h"
    and hr: "is_due (hr_retry hr) now_ms" "host_phase hr = Pending" "host_provider_resource hr = None"
    and observed: "observe P h (w_provider w) = (Inr Absent, p)"
    and lost: "create_resource P h (hr_provider_plan_id hr) p = (Inr CreateOutcomeUnknown, p')"
  obtains w' r' hr' where "reconcile_once E P w = (Inr Progress, w')" and "w_provider w' = p'"
    and "lone E w' r' [h \<mapsto> hr']" and "claim_id_of r' = claim_id_of r" and "claim_host r' = Some h" and "claim_deletion r' = None"
    and "host_phase hr' = Provisioning" and "host_provider_resource hr' = None"
    and "last_error_kind (hr_retry hr') = Some ''CreateOutcomeUnknown''"
    and "next_reconcile_at_unix_ms (hr_retry hr') = Some (sat_i64 (now_ms + 1000))"
    and "hr_provider_plan_id hr' = hr_provider_plan_id hr"
proof -
  let ?host1 = "(set_host_phase Provisioning hr)\<lparr>hr_retry := default_retry\<rparr>"
  let ?both = "\<lambda>now. mark_outcome_unknown now r ?host1 ''CreateOutcomeUnknown''
      ''The provider may have created the Host. The next step will rediscover it by Host ID.'' now_ms"
  obtain w' now where w': "reconcile_once E P w = (Inr Progress, w')" "w_provider w' = p'" "w_notified w' = w_notified w"
      "lone E w' (with_status (fst (?both now)) r) [h \<mapsto> with_host_status (snd (?both now)) hr]"
    by (rule uncreated_step [OF E lone r hr(1) [unfolded now_ms_def] hr(2,3) observed lost, of undefined ?both])
      (simp add: now_ms_def)
  show ?thesis
    by (intro that [OF w'(1,2,4)]) (simp_all add: mark_outcome_unknown_def edit_defs r hr(3))
qed

text \<open>An observation that fails: only the retry schedule changes.\<close>

lemma unobserved_step:
  assumes E: "quiet E" and lone: "lone E w r [h \<mapsto> hr]"
    and r: "claim_deletion r = None" "claim_host r = Some h"
    and hr: "is_due (hr_retry hr) (now_unix_ms (e_clock_ms E (w_count w)))" "host_phase hr \<noteq> Failed"
    and failed: "observe P h (w_provider w) = (Inl (Transient message), p)"
  obtains w' r' hr' where "reconcile_once E P w = (Inr Progress, w')" and "w_provider w' = p"
    and "lone E w' r' [h \<mapsto> hr']" and "claim_id_of r' = claim_id_of r" and "claim_host r' = Some h" and "claim_deletion r' = None"
    and "host_phase hr' = host_phase hr" and "host_provider_resource hr' = host_provider_resource hr"
    and "hr_provider_plan_id hr' = hr_provider_plan_id hr"
    and "attempt (hr_retry hr') = saturating_add_u32 (attempt (hr_retry hr)) 1"
    and "last_error_kind (hr_retry hr') = Some ''ProviderUnavailable''"
proof -
  have id: "host_id_of hr = h" by (rule host_id_stored [OF E lone])
  let ?now_ms = "now_unix_ms (e_clock_ms E (w_count w))"
  obtain w1 where w1: "lone E w1 r [h \<mapsto> hr]" "w_provider w1 = w_provider w" "w_notified w1 = w_notified w"
      "reconcile_once E P w = reconcile_host E P r hr ?now_ms w1"
    by (rule lone_due_step [OF E lone r hr, where P = P])
  let ?w = "w1\<lparr>w_provider := p\<rparr>"
  let ?both = "\<lambda>now. schedule_host_provider_error now r hr (Transient message) ?now_ms"
  obtain w' now where w': "and_then (now_timestamp E) (\<lambda>now. save_both E (?both now) Progress) ?w = (Inr Progress, w')"
      "lone E w' (with_status (fst (?both now)) r) [h \<mapsto> with_host_status (snd (?both now)) hr]"
      "w_provider w' = w_provider ?w" "w_notified w' = w_notified ?w"
    by (rule transition_saved [OF E, of ?w r h hr ?both Progress])
      (use w1(1) id in \<open>simp_all add: schedule_host_provider_error_def Let_def edit_defs\<close>)
  have "reconcile_host E P r hr ?now_ms w1 = (Inr Progress, w')"
    using failed w'(1)
    by (simp add: reconcile_host_def id and_then_def [of "provider_call _"] provider_call_def w1(2))
  then show ?thesis
    by (intro that [OF _ _ w'(2)]) (use w1(4) w'(3) r in \<open>simp_all add: schedule_host_provider_error_def Let_def edit_defs\<close>)
qed

section \<open>The fake provider of a test\<close>

definition small_plan :: Plan where
  "small_plan = \<lparr>plan_id = ''fake-2c-4g-40g'',
     plan_resources = \<lparr>vcpus = 2, memory_bytes = word_of_int (push_bit 30 4), storage_bytes = word_of_int (push_bit 30 40)\<rparr>\<rparr>"

lemma small_plan_selected:
  assumes "fake_up F p" and "plans p = catalog"
  shows "fake_select_plan F (spec_resources small_spec) p = (Inr (Some small_plan), p\<lparr>statement_count := Suc (statement_count p)\<rparr>)"
proof -
  have "cheapest_plan 1 1073741824 10737418240 catalog = Some (hd catalog)"
    by (simp add: cheapest_plan_def catalog_def plan_order_def push_bit_eq_mult less_eq_prod_def)
  moreover have "plan_from_row (hd catalog) = Inr small_plan"
    by (simp add: plan_from_row_def catalog_def small_plan_def u32_try_from_def u64_try_from_def)
  ultimately show ?thesis
    using assms by (simp add: fake_select_plan_def small_spec_def i64_max_def and_then_def read_table_calm)
qed

lemma small_plan_fits: "resources_fit (plan_resources small_plan)" "plan_id small_plan \<noteq> []"
  by (simp_all add: small_plan_def resources_fit_def i64_max_def push_bit_eq_mult word_less_def)

lemma small_plan_enabled: "length (filter (\<lambda>r. pl_id r = plan_id small_plan \<and> pl_enabled r = 1) catalog) = 1"
  by (simp add: small_plan_def catalog_def)

definition one_resource :: "fake_env \<Rightarrow> fake_provider \<Rightarrow> HostId \<Rightarrow> ProviderResource \<Rightarrow> bool" where
  "one_resource F p h res \<longleftrightarrow> fake_calm F p \<and> plans p = catalog \<and> length (provider_resources p) = 1
     \<and> fake_owned F p h = Some (res, plan_id small_plan) \<and> pr_lifecycle res = LifecycleReady"

lemma one_resource_count [simp]: "one_resource F (p\<lparr>statement_count := n\<rparr>) h res = one_resource F p h res"
  by (simp add: one_resource_def)

lemma one_resource_observed:
  "one_resource F p h res \<Longrightarrow> observe (FakeProvider F) h p = (Inr (Present res), p\<lparr>statement_count := statement_count p + 2\<rparr>)"
  by (simp add: one_resource_def fake_observe_run)

text \<open>A create for the one host of a test, answered and with its response lost.\<close>

definition no_resource :: "fake_env \<Rightarrow> fake_provider \<Rightarrow> bool" where
  "no_resource F p \<longleftrightarrow> fake_calm F p \<and> plans p = catalog \<and> provider_resources p = []"

lemma no_resource_count [simp]: "no_resource F (p\<lparr>statement_count := n\<rparr>) = no_resource F p"
  by (simp add: no_resource_def)

lemma no_resource_observed:
  "no_resource F p \<Longrightarrow> observe (FakeProvider F) h p = (Inr Absent, p\<lparr>statement_count := statement_count p + 2\<rparr>)"
  by (simp add: no_resource_def fake_observe_run fake_owned_def find_resource_def)

lemma create_one:
  assumes none: "no_resource F p"
  obtains res p' where "create_resource (FakeProvider F) h (plan_id small_plan) p = (Inr (Created res), p')"
    and "one_resource F p' h res"
proof -
  have calm: "fake_calm F p" and absent: "fake_owned F p h = None" and empty: "provider_resources p = []" and plans: "plans p = catalog"
    using none by (simp_all add: no_resource_def fake_owned_def find_resource_def)
  have sane: "fake_sane F p" using calm by (simp add: fake_calm_def)
  note run = fake_create_run [OF calm absent, of "plan_id small_plan"]
  let ?p' = "snd (fake_create F h (plan_id small_plan) p)" and ?res = "ready_resource (''fake-'' @ fk_uuid F (statement_count p + 5)) h"
  have created: "fake_create F h (plan_id small_plan) p = (Inr (Created ?res), ?p')"
    using run empty small_plan_enabled plans by simp
  have p': "plans ?p' = catalog" "length (provider_resources ?p') = 1" "\<And>operation. fault_remaining operation ?p' = fault_remaining operation p"
    using run empty small_plan_enabled plans by simp_all
  have "one_resource F ?p' h ?res"
    using p' fake_create_effect(1) [OF sane created] fake_create_answer [OF sane created] calm
    by (simp add: one_resource_def fake_calm_def ready_resource_def)
  then show ?thesis using created that [of ?res ?p'] by simp
qed

lemma create_lost:
  assumes pending: "pending F FAULT_CREATE_RESPONSE_LOSS p" and plans: "plans p = catalog" and none: "provider_resources p = []"
  obtains res p' where "create_resource (FakeProvider F) h (plan_id small_plan) p = (Inr CreateOutcomeUnknown, p')"
    and "one_resource F p' h res"
proof -
  let ?p1 = "spent FAULT_CREATE_RESPONSE_LOSS (p\<lparr>statement_count := statement_count p + 4\<rparr>)"
  let ?row = "\<lparr>re_id = ''fake-'' @ fk_uuid F (statement_count ?p1), re_host_id = host_id_text (fk_codec F) h,
      re_plan_id = plan_id small_plan, re_lifecycle = ''ready'',
      re_created_at = timestamp_text (fk_codec F) (fk_now F (statement_count ?p1))\<rparr>"
  let ?p' = "?p1\<lparr>statement_count := Suc (statement_count ?p1), provider_resources := [?row]\<rparr>"
  have calm: "fake_calm F ?p1" using pending by (intro spent_calm) simp
  have healthy: "\<forall>n. fk_fault F n = Healthy" and cd: "codec_ok (fk_codec F)"
    using calm by (simp_all add: fake_calm_def fake_sane_def)
  have up: "fake_up F p" by (rule pending_up [OF pending])
  have absent: "fake_owned F p h = None" using none by (simp add: fake_owned_def find_resource_def)
  have known: "plan_id small_plan \<in> pl_id ` set catalog" by (simp add: small_plan_def catalog_def)
  have created: "fake_create F h (plan_id small_plan) p = (Inr CreateOutcomeUnknown, ?p')"
    using pending fault_names up absent plans none known small_plan_enabled
    by (simp add: fake_create_def and_then_def consume_other consume_pending resource_by_host_calm read_table_calm
        statement_calm [OF healthy] Let_def insert_resource_row_def eval_nat_numeral)
  have "fake_calm F ?p'" using calm cd by (auto simp: fake_calm_def fake_sane_def resource_row_ok_def)
  moreover have "fake_owned F ?p' h = Some (ready_resource (re_id ?row) h, plan_id small_plan)"
    using cd by (simp add: fake_owned_def find_resource_def resource_from_row_def codec_simps lifecycle_from_db_def ready_resource_def)
  ultimately have "one_resource F ?p' h (ready_resource (re_id ?row) h)"
    using plans by (simp add: one_resource_def ready_resource_def)
  then show ?thesis using created that by simp
qed

end
