(* ===== verification/Controller_Tests.thy ===== *)
theory Controller_Tests
  imports Test_Steps Recovery
begin

text \<open>
  The tests of \<open>controller.rs\<close>: one claim or two over the fake provider, with the faults they inject,
  the time they let pass and the restart they make.
\<close>

section \<open>What the tests do beside storage calls\<close>

definition in_provider :: "'a fake_oper \<Rightarrow> 'a test" where
  "in_provider m w = (case m (w_provider w) of (r, p) \<Rightarrow> (map_err ProviderFailure r, w\<lparr>w_provider := p\<rparr>))"

definition injected :: "fake_env \<Rightarrow> string \<Rightarrow> u32 \<Rightarrow> unit test" where
  "injected F operation count = in_provider (statement F (\<lambda>s. Inr ((), inject_fault operation count s)))"

definition reconciled :: "environment \<Rightarrow> fake_env \<Rightarrow> ReconcileResult test" where
  "reconciled E F = map_oper_err AppFailure (reconcile_once E (FakeProvider F))"

fun reconcile_to_idle :: "environment \<Rightarrow> fake_env \<Rightarrow> nat \<Rightarrow> unit test" where
  "reconcile_to_idle E F 0 = fail_with Panicked"
| "reconcile_to_idle E F (Suc max_steps) =
     and_then (reconciled E F) (\<lambda>result. if result = Idle then ok () else reconcile_to_idle E F max_steps)"

text \<open>
  \<open>tokio::time::sleep\<close>: the clock the controller reads after it is at least \<open>ms\<close> ahead of every reading
  before it; otherwise the environment goes on being quiet on the same databases.
\<close>

definition slept :: "environment \<Rightarrow> int \<Rightarrow> environment \<Rightarrow> bool" where
  "slept E ms E' \<longleftrightarrow> quiet E' \<and> e_codec E' = e_codec E
     \<and> (\<forall>n m. now_unix_ms (e_clock_ms E n) + ms \<le> now_unix_ms (e_clock_ms E' m))"

lemma slept_due:
  assumes "slept E 1050 E'" and "next_reconcile_at_unix_ms retry = Some (sat_i64 (now_unix_ms (e_clock_ms E n) + 1000))"
  shows "is_due retry (now_unix_ms (e_clock_ms E' m))"
proof -
  have "now_unix_ms (e_clock_ms E n) + 1050 \<le> now_unix_ms (e_clock_ms E' m)" using assms(1) by (simp add: slept_def)
  moreover have "0 \<le> now_unix_ms (e_clock_ms E' m)" by (simp add: now_unix_ms_def i64_max_def Let_def)
  ultimately show ?thesis by (simp add: is_due_def assms(2) sat_i64_def i64_min_def)
qed

lemma reconciled_run [test_simps]:
  "reconcile_once E (FakeProvider F) w = (Inr r, w') \<Longrightarrow> reconciled E F w = (Inr r, w')"
  by (simp add: reconciled_def map_oper_err_def)

lemma reconcile_to_idle_Progress [test_simps]:
  "reconcile_once E (FakeProvider F) w = (Inr Progress, w') \<Longrightarrow> reconcile_to_idle E F (Suc n) w = reconcile_to_idle E F n w'"
  by (simp add: reconciled_run)

lemma reconcile_to_idle_Idle [test_simps]:
  "reconcile_once E (FakeProvider F) w = (Inr Idle, w') \<Longrightarrow> reconcile_to_idle E F (Suc n) w = (Inr (), w')"
  by (simp add: reconciled_run)

section \<open>Retry deadlines and conditions\<close>

definition retry_backoff_is_bounded :: "('s, unit) test_on" where
  "retry_backoff_is_bounded =
     and_then (assert_that (1000 < retry_deadline 1000 1)) (\<lambda>_.
     assert_that (retry_deadline 1000 99 = 61000))"

definition condition_helper_detects_status :: "HostClaimId \<Rightarrow> Timestamp \<Rightarrow> ('s, unit) test_on" where
  "condition_helper_detects_status claim_id now =
     (let claim = initial_claim claim_id
        \<lparr>spec_resources = \<lparr>vcpus = 1, memory_bytes = 1, storage_bytes = 1\<rparr>\<rparr> now in
      assert_that (condition_is claim ''Accepted'' StatusUnknown))"

section \<open>Several claims\<close>

definition reconciles_multiple_claims_and_deletes_one ::
  "environment \<Rightarrow> fake_env \<Rightarrow> HostClaimId \<Rightarrow> HostClaimId \<Rightarrow> unit test" where
  "reconciles_multiple_claims_and_deletes_one E F first second =
     and_then connect_provider (\<lambda>_.
     and_then (in_storage E (\<lambda>io. create_claim (e_codec E) io first small_spec)) (\<lambda>_.
     and_then (in_storage E (\<lambda>io. create_claim (e_codec E) io second small_spec)) (\<lambda>_.
     and_then (reconcile_to_idle E F 32) (\<lambda>_.
     and_then (in_storage E (list_claims (e_codec E))) (\<lambda>claims.
     and_then (assert_that (length claims = 2)) (\<lambda>_.
     and_then (assert_that (list_all (\<lambda>claim. condition_is (cr_resource claim) ''Ready'' StatusTrue) claims)) (\<lambda>_.
     and_then (in_storage E (list_hosts (e_codec E))) (\<lambda>hosts.
     and_then (assert_that (length hosts = 2)) (\<lambda>_.
     and_then (in_storage E (\<lambda>io. mark_claim_deleting (e_codec E) io first)) (\<lambda>_.
     and_then (reconcile_to_idle E F 32) (\<lambda>_.
     and_then (tried E (\<lambda>io. get_claim (e_codec E) io first)) (\<lambda>found.
     and_then (assert_that (is_not_found found)) (\<lambda>_.
     and_then (in_storage E (list_hosts (e_codec E))) (\<lambda>hosts.
     assert_that (length hosts = 1)))))))))))))))"

section \<open>One claim\<close>

definition persists_selected_provider_plan_before_external_create ::
  "environment \<Rightarrow> fake_env \<Rightarrow> HostClaimId \<Rightarrow> unit test" where
  "persists_selected_provider_plan_before_external_create E F claim_id =
     and_then connect_provider (\<lambda>_.
     and_then (in_storage E (\<lambda>io. create_claim (e_codec E) io claim_id small_spec)) (\<lambda>_.
     and_then (reconciled E F) (\<lambda>result.
     and_then (assert_that (result = Progress)) (\<lambda>_.
     and_then (in_storage E (\<lambda>io. get_host_for_claim (e_codec E) io claim_id)) (\<lambda>found.
     and_then (expect found) (\<lambda>host.
     and_then (assert_that (host_phase host = Pending)) (\<lambda>_.
     and_then (assert_that (hr_provider_plan_id host = ''fake-2c-4g-40g'')) (\<lambda>_.
     and_then (in_provider (resource_count F)) (\<lambda>count.
     assert_that (count = 0))))))))))"

definition marks_definitive_create_failure_as_failed ::
  "environment \<Rightarrow> fake_env \<Rightarrow> HostClaimId \<Rightarrow> unit test" where
  "marks_definitive_create_failure_as_failed E F claim_id =
     and_then connect_provider (\<lambda>_.
     and_then (in_storage E (\<lambda>io. create_claim (e_codec E) io claim_id small_spec)) (\<lambda>_.
     and_then (reconciled E F) (\<lambda>result.
     and_then (assert_that (result = Progress)) (\<lambda>_.
     and_then (injected F ''create_definitive_failure'' 1) (\<lambda>_.
     and_then (reconciled E F) (\<lambda>result.
     and_then (assert_that (result = Progress)) (\<lambda>_.
     and_then (in_storage E (\<lambda>io. get_host_for_claim (e_codec E) io claim_id)) (\<lambda>found.
     and_then (expect found) (\<lambda>host.
     and_then (assert_that (host_phase host = Failed)) (\<lambda>_.
     and_then (assert_that (last_error_kind (hr_retry host) = Some ''ProviderRejected'')) (\<lambda>_.
     and_then (in_provider (resource_count F)) (\<lambda>count.
     assert_that (count = 0)))))))))))))"

definition retries_transient_observation_failure ::
  "environment \<Rightarrow> fake_env \<Rightarrow> HostClaimId \<Rightarrow> unit test" where
  "retries_transient_observation_failure E F claim_id =
     and_then connect_provider (\<lambda>_.
     and_then (in_storage E (\<lambda>io. create_claim (e_codec E) io claim_id small_spec)) (\<lambda>_.
     and_then (reconciled E F) (\<lambda>result.
     and_then (assert_that (result = Progress)) (\<lambda>_.
     and_then (injected F ''observe_transient_failure'' 1) (\<lambda>_.
     and_then (reconciled E F) (\<lambda>result.
     and_then (assert_that (result = Progress)) (\<lambda>_.
     and_then (in_storage E (\<lambda>io. get_host_for_claim (e_codec E) io claim_id)) (\<lambda>found.
     and_then (expect found) (\<lambda>host.
     and_then (assert_that (attempt (hr_retry host) = 1)) (\<lambda>_.
     and_then (assert_that (last_error_kind (hr_retry host) = Some ''ProviderUnavailable'')) (\<lambda>_.
     and_then (in_storage E (\<lambda>io. save_host (e_codec E) io
        (host\<lparr>hr_retry := (hr_retry host)\<lparr>next_reconcile_at_unix_ms := None\<rparr>\<rparr>))) (\<lambda>_.
     and_then (reconcile_to_idle E F 8) (\<lambda>_.
     and_then (in_storage E (\<lambda>io. get_claim (e_codec E) io claim_id)) (\<lambda>claim.
     assert_that (condition_is (cr_resource claim) ''Ready'' StatusTrue)))))))))))))))"

definition rediscovers_delete_after_response_loss ::
  "environment \<Rightarrow> environment \<Rightarrow> fake_env \<Rightarrow> HostClaimId \<Rightarrow> unit test" where
  "rediscovers_delete_after_response_loss E later F claim_id =
     and_then connect_provider (\<lambda>_.
     and_then (in_storage E (\<lambda>io. create_claim (e_codec E) io claim_id small_spec)) (\<lambda>_.
     and_then (reconcile_to_idle E F 16) (\<lambda>_.
     and_then (in_provider (resource_count F)) (\<lambda>count.
     and_then (assert_that (count = 1)) (\<lambda>_.
     and_then (injected F ''delete_response_loss'' 1) (\<lambda>_.
     and_then (in_storage E (\<lambda>io. mark_claim_deleting (e_codec E) io claim_id)) (\<lambda>_.
     and_then (reconciled E F) (\<lambda>result.
     and_then (assert_that (result = Progress)) (\<lambda>_.
     and_then (in_provider (resource_count F)) (\<lambda>count.
     and_then (assert_that (count = 0)) (\<lambda>_.
     and_then (tried E (\<lambda>io. get_claim (e_codec E) io claim_id)) (\<lambda>found.
     and_then (assert_that (\<not> isl found)) (\<lambda>_.
     and_then (reconcile_to_idle later F 8) (\<lambda>_.
     and_then (tried later (\<lambda>io. get_claim (e_codec later) io claim_id)) (\<lambda>found.
     assert_that (is_not_found found))))))))))))))))"

definition rediscovers_create_after_response_loss ::
  "environment \<Rightarrow> environment \<Rightarrow> fake_env \<Rightarrow> HostClaimId \<Rightarrow> unit test" where
  "rediscovers_create_after_response_loss E later F claim_id =
     and_then connect_provider (\<lambda>_.
     and_then (injected F ''create_response_loss'' 1) (\<lambda>_.
     and_then (in_storage E (\<lambda>io. create_claim (e_codec E) io claim_id small_spec)) (\<lambda>_.
     and_then (reconciled E F) (\<lambda>result.
     and_then (assert_that (result = Progress)) (\<lambda>_.
     and_then (reconciled E F) (\<lambda>result.
     and_then (assert_that (result = Progress)) (\<lambda>_.
     and_then (in_storage E (\<lambda>io. get_host_for_claim (e_codec E) io claim_id)) (\<lambda>found.
     and_then (expect found) (\<lambda>host.
     and_then (assert_that (host_phase host = Provisioning)) (\<lambda>_.
     and_then (assert_that (last_error_kind (hr_retry host) = Some ''CreateOutcomeUnknown'')) (\<lambda>_.
     and_then (reconcile_to_idle later F 8) (\<lambda>_.
     and_then (in_storage later (\<lambda>io. get_claim (e_codec later) io claim_id)) (\<lambda>claim.
     and_then (assert_that (condition_is (cr_resource claim) ''Ready'' StatusTrue)) (\<lambda>_.
     and_then (in_storage later (list_hosts (e_codec later))) (\<lambda>hosts.
     assert_that (length hosts = 1))))))))))))))))"

text \<open>The second half of the test connects again to the databases the first half closed.\<close>

definition restart_reconciliation_does_not_duplicate_resources ::
  "environment \<Rightarrow> fake_env \<Rightarrow> HostClaimId \<Rightarrow> unit test" where
  "restart_reconciliation_does_not_duplicate_resources E F claim_id =
     and_then connect_provider (\<lambda>_.
     and_then (in_storage E (\<lambda>io. create_claim (e_codec E) io claim_id small_spec)) (\<lambda>_.
     and_then (reconcile_to_idle E F 16) (\<lambda>_.
     and_then (in_storage E (list_hosts (e_codec E))) (\<lambda>hosts.
     and_then (assert_that (length hosts = 1)) (\<lambda>_.
     and_then (in_provider (resource_count F)) (\<lambda>count.
     and_then (assert_that (count = 1)) (\<lambda>_.
     and_then connect_provider (\<lambda>_.
     and_then (reconcile_to_idle E F 8) (\<lambda>_.
     and_then (in_storage E (list_hosts (e_codec E))) (\<lambda>hosts.
     and_then (assert_that (length hosts = 1)) (\<lambda>_.
     and_then (in_provider (resource_count F)) (\<lambda>count.
     and_then (assert_that (count = 1)) (\<lambda>_.
     and_then (in_storage E (\<lambda>io. get_claim (e_codec E) io claim_id)) (\<lambda>claim.
     assert_that (condition_is (cr_resource claim) ''Ready'' StatusTrue)))))))))))))))"

section \<open>The stages of one claim\<close>

definition test_env :: "environment \<Rightarrow> fake_env \<Rightarrow> bool" where
  "test_env E F \<longleftrightarrow> quiet E \<and> codec_ok (fk_codec F) \<and> (\<forall>n. fk_fault F n = Healthy)"

definition connected_world :: "fake_provider world" where
  "connected_world = new_directory\<lparr>w_provider := seed_catalog empty_fake_provider\<rparr>"

lemma connect_first [test_simps]: "connect_provider new_directory = (Inr (), connected_world)"
  by (simp add: connect_provider_def connected_world_def new_directory_def)

lemma connected_world_held:
  "holds E connected_world Map.empty Map.empty" "w_provider connected_world = seed_catalog empty_fake_provider"
  using new_directory_held [of E] by (simp_all add: connected_world_def)

lemma connected_none: "test_env E F \<Longrightarrow> no_resource F (w_provider connected_world)"
  using seeded_calm [of F] by (simp add: test_env_def no_resource_def connected_world_held seeded_plans)

lemma claim_made:
  assumes E: "quiet E" and held: "holds E w Map.empty Map.empty"
  obtains w' now where
    "storage_call E (\<lambda>io. create_claim (e_codec E) io i small_spec) w = (Inr (initial_claim i small_spec now), w')"
    and "lone E w' (new_claim i small_spec now) Map.empty" and "w_provider w' = w_provider w"
proof -
  have id: "claim_id_of (new_claim i small_spec now) = i" for now by (simp add: new_claim_def initial_claim_def)
  show ?thesis
    by (rule quiet_create_claim [OF E held small_spec_fits(1), of i], simp)
      (rule that, assumption, simp_all add: lone_def id countedD)
qed

definition assigned :: "environment \<Rightarrow> fake_provider world \<Rightarrow> HostClaimId \<Rightarrow> HostClaimRecord \<Rightarrow> HostId \<Rightarrow> HostRecord \<Rightarrow> bool" where
  "assigned E w i r h hr \<longleftrightarrow> lone E w r [h \<mapsto> hr] \<and> claim_id_of r = i \<and> claim_deletion r = None \<and> claim_host r = Some h
     \<and> is_due (hr_retry hr) (now_unix_ms (e_clock_ms E (w_count w))) \<and> host_phase hr = Pending
     \<and> host_provider_resource hr = None \<and> hr_provider_plan_id hr = plan_id small_plan"

lemma assignedD:
  assumes "assigned E w i r h hr"
  shows "lone E w r [h \<mapsto> hr]" "claim_deletion r = None" "claim_host r = Some h"
    "is_due (hr_retry hr) (now_unix_ms (e_clock_ms E (w_count w)))" "host_phase hr = Pending" "host_provider_resource hr = None"
    "hr_provider_plan_id hr = plan_id small_plan" "claim_id_of r = i" "host_phase hr \<noteq> Failed"
  using assms by (simp_all add: assigned_def)

lemma host_assigned_step:
  assumes E: "quiet E" and lone: "lone E w (new_claim i small_spec now) Map.empty"
    and up: "fake_up F (w_provider w)" and plans: "plans (w_provider w) = catalog"
  obtains w' r h hr where "reconcile_once E (FakeProvider F) w = (Inr Progress, w')" and "assigned E w' i r h hr"
    and "hr_retry hr = default_retry"
    and "w_provider w' = (w_provider w)\<lparr>statement_count := Suc (statement_count (w_provider w))\<rparr>"
proof -
  let ?r = "new_claim i small_spec now"
  have id: "claim_id_of ?r = i" by (simp add: new_claim_def initial_claim_def)
  have new: "claim_deletion ?r = None" "claim_host ?r = None" "next_reconcile_at_unix_ms (cr_retry ?r) = None"
    by (simp_all add: default_retry_def)
  have selected: "select_plan (FakeProvider F) (spec_resources (hc_spec (cr_resource ?r))) (w_provider w) =
      (Inr (Some small_plan), (w_provider w)\<lparr>statement_count := Suc (statement_count (w_provider w))\<rparr>)"
    using small_plan_selected [OF up plans] by simp
  obtain w' h t where w': "reconcile_once E (FakeProvider F) w = (Inr Progress, w')"
      "w_provider w' = (w_provider w)\<lparr>statement_count := Suc (statement_count (w_provider w))\<rparr>"
      "lone E w' (bound_claim (e_codec E) (initial_host h (claim_id_of ?r) (plan_resources small_plan) t) t ?r)
        [h \<mapsto> new_host_record h (claim_id_of ?r) (plan_id small_plan) (plan_resources small_plan) t]"
    by (rule assign_step [OF E lone new selected small_plan_fits])
  let ?hr = "new_host_record h (claim_id_of ?r) (plan_id small_plan) (plan_resources small_plan) t"
  let ?b = "bound_claim (e_codec E) (initial_host h (claim_id_of ?r) (plan_resources small_plan) t) t ?r"
  have host: "host_phase ?hr = Pending" "host_provider_resource ?hr = None" "hr_retry ?hr = default_retry"
      "hr_provider_plan_id ?hr = plan_id small_plan" "claim_host ?b = Some h"
    by (simp_all add: new_host_record_def initial_host_def)
  then have "assigned E w' i ?b h ?hr" using w'(3) id by (simp add: assigned_def)
  then show ?thesis by (rule that [OF w'(1) _ host(3) w'(2)])
qed

definition ready :: "environment \<Rightarrow> fake_provider world \<Rightarrow> HostClaimId \<Rightarrow> HostClaimRecord \<Rightarrow> HostId \<Rightarrow> HostRecord \<Rightarrow> ProviderResource \<Rightarrow> bool" where
  "ready E w i r h hr res \<longleftrightarrow> lone E w r [h \<mapsto> hr] \<and> claim_id_of r = i \<and> claim_host r = Some h \<and> claim_deletion r = None
     \<and> condition_is (cr_resource r) ''Ready'' StatusTrue \<and> host_phase hr = Ready
     \<and> host_provider_resource hr = Some (pr_id res) \<and> hr_retry hr = default_retry"

lemma readyD:
  assumes "ready E w i r h hr res"
  shows "lone E w r [h \<mapsto> hr]" "claim_host r = Some h" "claim_deletion r = None" "claim_id_of r = i"
    "condition_is (cr_resource r) ''Ready'' StatusTrue" "host_provider_resource hr = Some (pr_id res)"
    "hr_retry hr = default_retry" "host_phase hr = Ready"
  using assms by (simp_all add: ready_def)

lemma condition_at_is:
  "map_option c_status (condition_at (claim_conditions r) ty) = Some s \<Longrightarrow> condition_is (cr_resource r) ty s"
  by (auto simp: condition_at_def condition_is_def list_ex_iff dest: find_SomeD)

text \<open>Once a resource is recorded, the next step is idle.\<close>

lemma recorded_idle:
  assumes E: "quiet E" and r: "claim_deletion r = None" "claim_host r = Some h"
    and lone: "lone E w (with_status (fst (apply_provider_observation (e_codec E) t r host res)) r)
      [h \<mapsto> with_host_status (snd (apply_provider_observation (e_codec E) t r host res)) hr]"
    and one: "one_resource F (w_provider w) h res"
  obtains w' r' hr' where "reconcile_to_idle E F (Suc n) w = (Inr (), w')" and "one_resource F (w_provider w') h res"
    and "ready E w' (claim_id_of r) r' h hr' res"
proof -
  have lifecycle: "pr_lifecycle res = LifecycleReady" using one by (simp add: one_resource_def)
  obtain w' r' hr' where w': "reconcile_once E (FakeProvider F) w = (Inr Idle, w')"
      "w_provider w' = (w_provider w)\<lparr>statement_count := statement_count (w_provider w) + 2\<rparr>"
      "lone E w' r' [h \<mapsto> hr']" "claim_id_of r' = claim_id_of r" "claim_host r' = Some h" "claim_deletion r' = None"
      "host_phase hr' = Ready" "host_provider_resource hr' = Some (pr_id res)" "hr_retry hr' = default_retry"
      "map_option c_status (condition_at (claim_conditions r') ''Ready'') = Some StatusTrue"
    by (rule recorded_settles [OF E r lone one_resource_observed [OF one] lifecycle])
  then have "ready E w' (claim_id_of r) r' h hr' res" by (simp add: ready_def condition_at_is)
  then show ?thesis
    by (intro that [of w']) (use w'(1,2) one in \<open>simp_all add: test_simps del: reconcile_to_idle.simps\<close>)
qed

lemma made_ready:
  assumes E: "quiet E" and at: "assigned E w i r h hr" and none: "no_resource F (w_provider w)"
  obtains w' r' hr' res where "reconcile_to_idle E F (Suc (Suc n)) w = (Inr (), w')"
    and "one_resource F (w_provider w') h res" and "ready E w' i r' h hr' res"
proof -
  note a = assignedD [OF at]
  let ?p = "(w_provider w)\<lparr>statement_count := statement_count (w_provider w) + 2\<rparr>"
  have "no_resource F ?p" using none by simp
  then obtain res p' where created: "create_resource (FakeProvider F) h (plan_id small_plan) ?p = (Inr (Created res), p')"
      and one: "one_resource F p' h res" by (rule create_one)
  obtain w1 t host1 where w1: "reconcile_once E (FakeProvider F) w = (Inr Progress, w1)" "w_provider w1 = p'"
      "lone E w1 (with_status (fst (apply_provider_observation (e_codec E) t r host1 res)) r)
        [h \<mapsto> with_host_status (snd (apply_provider_observation (e_codec E) t r host1 res)) hr]"
    by (rule create_step [OF E a(1-6) no_resource_observed [OF none] created [folded a(7)]])
  obtain w' r' hr' where "reconcile_to_idle E F (Suc n) w1 = (Inr (), w')" "one_resource F (w_provider w') h res"
      "ready E w' (claim_id_of r) r' h hr' res"
    by (rule recorded_idle [OF E a(2,3) w1(3) one [folded w1(2)]])
  then show ?thesis
    by (intro that [of w' res r' hr']) (use a(8) w1(1) in \<open>simp_all add: test_simps del: reconcile_to_idle.simps\<close>)
qed

section \<open>What a test reads\<close>

lemma lone_host_of:
  assumes E: "quiet E" and lone: "lone E w r [h \<mapsto> hr]" and r: "claim_id_of r = i" "claim_host r = Some h"
  obtains w' where "storage_call E (\<lambda>io. get_host_for_claim (e_codec E) io i) w = (Inr (Some hr), w')"
    and "lone E w' r [h \<mapsto> hr]" and "w_provider w' = w_provider w"
proof -
  have bound: "Option.bind (claim_host r) [h \<mapsto> hr] = Some hr" by (simp add: r(2))
  show ?thesis
    by (rule quiet_host_for_claim [OF E lone [unfolded lone_def], of i r, unfolded bound], simp add: r(1), rule that, assumption)
      (simp_all add: r lone_def countedD)
qed

lemma lone_claim:
  assumes E: "quiet E" and lone: "lone E w r hs" and r: "claim_id_of r = i"
  obtains w' where "storage_call E (\<lambda>io. get_claim (e_codec E) io i) w = (Inr r, w')"
    and "lone E w' r hs" and "w_provider w' = w_provider w"
proof -
  have found: "ok_or e ([claim_id_of r \<mapsto> r] i) = Inr r" for e :: AppError by (simp add: r)
  show ?thesis
    by (rule quiet_get_claim [OF E lone [unfolded lone_def], of i, unfolded found], rule that, assumption)
      (simp_all add: lone_def countedD)
qed

lemma lone_hosts:
  assumes E: "quiet E" and lone: "lone E w r [h \<mapsto> hr]"
  obtains rs where "storage_call E (list_hosts (e_codec E)) w = (Inr rs, tick w)" and "length rs = 1"
  by (rule quiet_count_hosts [OF E lone [unfolded lone_def]]) (simp add: that)

lemma count_resources [test_simps]:
  "fake_up F (w_provider w) \<Longrightarrow> in_provider (resource_count F) w
    = (Inr (int (length (provider_resources (w_provider w)))),
       w\<lparr>w_provider := (w_provider w)\<lparr>statement_count := Suc (statement_count (w_provider w))\<rparr>\<rparr>)"
  by (simp add: in_provider_def resource_count_def read_table_calm)

lemma no_resource_up [simp]: "no_resource F p \<Longrightarrow> fake_up F p" "no_resource F p \<Longrightarrow> provider_resources p = []"
  by (simp_all add: no_resource_def)

lemma one_resource_up [simp]: "one_resource F p h res \<Longrightarrow> fake_up F p" "one_resource F p h res \<Longrightarrow> length (provider_resources p) = 1"
  by (simp_all add: one_resource_def)

text \<open>A fault injected into a calm provider is pending.\<close>

lemma injected_run:
  assumes calm: "fake_calm F (w_provider w)"
  obtains p where "injected F operation 1 w = (Inr (), w\<lparr>w_provider := p\<rparr>)" and "pending F operation p"
    and "plans p = plans (w_provider w)" and "provider_resources p = provider_resources (w_provider w)"
    and "fake_owned F p = fake_owned F (w_provider w)"
proof -
  let ?p = "inject_fault operation 1 ((w_provider w)\<lparr>statement_count := Suc (statement_count (w_provider w))\<rparr>)"
  have healthy: "\<forall>n. fk_fault F n = Healthy" using calm by (simp add: fake_calm_def)
  have "injected F operation 1 w = (Inr (), w\<lparr>w_provider := ?p\<rparr>)"
    by (simp add: injected_def in_provider_def statement_calm [OF healthy] Let_def)
  moreover have "pending F operation ?p" by (rule injected_pending) (simp add: calm)
  moreover have "fake_owned F ?p = fake_owned F (w_provider w)" by (rule tables_owned) (simp add: tables_def)
  ultimately show ?thesis by (intro that [of ?p]) simp_all
qed

section \<open>They pass\<close>

lemma retry_backoff_is_bounded_passes: "passes retry_backoff_is_bounded s"
  by (simp add: passes_def retry_backoff_is_bounded_def retry_deadline_def sat_i64_def i64_max_def i64_min_def test_simps)

lemma condition_helper_passes: "passes (condition_helper_detects_status i now) s"
  by (simp add: passes_def condition_helper_detects_status_def condition_is_def initial_claim_def new_condition_def Let_def test_simps)

text \<open>The first two calls of most tests: the claim is created, and the first step assigns its host.\<close>

lemma assigned_first:
  assumes env: "test_env E F" and held: "holds E w Map.empty Map.empty"
    and up: "fake_up F (w_provider w)" "plans (w_provider w) = catalog"
  obtains w1 now w2 r h hr where
    "storage_call E (\<lambda>io. create_claim (e_codec E) io i small_spec) w = (Inr (initial_claim i small_spec now), w1)"
    and "reconcile_once E (FakeProvider F) w1 = (Inr Progress, w2)" and "assigned E w2 i r h hr" and "hr_retry hr = default_retry"
    and "w_provider w2 = (w_provider w)\<lparr>statement_count := Suc (statement_count (w_provider w))\<rparr>"
proof -
  have E: "quiet E" using env by (simp add: test_env_def)
  obtain w1 now where w1: "storage_call E (\<lambda>io. create_claim (e_codec E) io i small_spec) w = (Inr (initial_claim i small_spec now), w1)"
      "lone E w1 (new_claim i small_spec now) Map.empty" "w_provider w1 = w_provider w"
    by (rule claim_made [OF E held])
  obtain w2 r h hr where "reconcile_once E (FakeProvider F) w1 = (Inr Progress, w2)" "assigned E w2 i r h hr" "hr_retry hr = default_retry"
      "w_provider w2 = (w_provider w1)\<lparr>statement_count := Suc (statement_count (w_provider w1))\<rparr>"
    by (rule host_assigned_step [OF E w1(2) up [folded w1(3)]])
  then show ?thesis using that w1(1,3) by simp
qed

lemma assigned_from_start:
  assumes env: "test_env E F"
  obtains w1 now w2 r h hr where
    "storage_call E (\<lambda>io. create_claim (e_codec E) io i small_spec) connected_world = (Inr (initial_claim i small_spec now), w1)"
    and "reconcile_once E (FakeProvider F) w1 = (Inr Progress, w2)" and "assigned E w2 i r h hr" and "hr_retry hr = default_retry"
    and "no_resource F (w_provider w2)"
proof -
  have none: "no_resource F (w_provider connected_world)" by (rule connected_none [OF env])
  then have "fake_up F (w_provider connected_world)" "plans (w_provider connected_world) = catalog" by (simp_all, simp add: no_resource_def)
  then show ?thesis
    by (rule assigned_first [OF env connected_world_held(1)]) (rule that, assumption+, simp add: none)
qed

lemma persists_selected_provider_plan_passes:
  assumes env: "test_env E F"
  shows "passes (persists_selected_provider_plan_before_external_create E F i) new_directory"
proof -
  have E: "quiet E" using env by (simp add: test_env_def)
  obtain w1 now w2 r h hr where w1: "storage_call E (\<lambda>io. create_claim (e_codec E) io i small_spec) connected_world = (Inr (initial_claim i small_spec now), w1)"
      and w2: "reconcile_once E (FakeProvider F) w1 = (Inr Progress, w2)" "assigned E w2 i r h hr" and none: "no_resource F (w_provider w2)"
    by (rule assigned_from_start [OF env, of i])
  note a = assignedD [OF w2(2)]
  obtain w3 where w3: "storage_call E (\<lambda>io. get_host_for_claim (e_codec E) io i) w2 = (Inr (Some hr), w3)" "w_provider w3 = w_provider w2"
    by (rule lone_host_of [OF E a(1,8,3)])
  show ?thesis
    using a(5,7) none
    by (simp add: passes_def persists_selected_provider_plan_before_external_create_def w1 w2(1) w3 test_simps small_plan_def)
qed

lemma marks_definitive_create_failure_passes:
  assumes env: "test_env E F"
  shows "passes (marks_definitive_create_failure_as_failed E F i) new_directory"
proof -
  have E: "quiet E" using env by (simp add: test_env_def)
  obtain w1 now w2 r h hr where w1: "storage_call E (\<lambda>io. create_claim (e_codec E) io i small_spec) connected_world = (Inr (initial_claim i small_spec now), w1)"
      and w2: "reconcile_once E (FakeProvider F) w1 = (Inr Progress, w2)" "assigned E w2 i r h hr" and none: "no_resource F (w_provider w2)"
    by (rule assigned_from_start [OF env, of i])
  note a = assignedD [OF w2(2)]
  have calm: "fake_calm F (w_provider w2)" using none by (simp add: no_resource_def)
  obtain p where p: "injected F FAULT_CREATE_DEFINITIVE 1 w2 = (Inr (), w2\<lparr>w_provider := p\<rparr>)" "pending F FAULT_CREATE_DEFINITIVE p"
      "provider_resources p = provider_resources (w_provider w2)" "fake_owned F p = fake_owned F (w_provider w2)"
    by (rule injected_run [OF calm])
  let ?w3 = "w2\<lparr>w_provider := p\<rparr>" and ?p = "p\<lparr>statement_count := statement_count p + 2\<rparr>"
  have absent: "observe (FakeProvider F) h (w_provider ?w3) = (Inr Absent, ?p)"
    using none by (simp add: observe_beside [OF p(2) fault_names(6)] p(4) fake_owned_def find_resource_def)
  have rejected: "create_resource (FakeProvider F) h (hr_provider_plan_id hr) ?p =
      (Inl (Definitive ''injected definitive create failure''), spent FAULT_CREATE_DEFINITIVE ?p)"
    using create_rejected [of F ?p] p(2) by simp
  have due: "is_due (hr_retry hr) (now_unix_ms (e_clock_ms E (w_count ?w3)))" and lone: "lone E ?w3 r [h \<mapsto> hr]" using a by simp_all
  obtain w4 r4 hr4 where w4: "reconcile_once E (FakeProvider F) ?w3 = (Inr Progress, w4)" "w_provider w4 = spent FAULT_CREATE_DEFINITIVE ?p"
      "lone E w4 r4 [h \<mapsto> hr4]" "claim_id_of r4 = claim_id_of r" "claim_host r4 = Some h"
      "host_phase hr4 = Failed" "last_error_kind (hr_retry hr4) = Some ''ProviderRejected''"
    by (rule rejected_create_step [OF E lone a(2,3) due a(5,6) absent rejected])
  obtain w5 where w5: "storage_call E (\<lambda>io. get_host_for_claim (e_codec E) io i) w4 = (Inr (Some hr4), w5)" "w_provider w5 = w_provider w4"
    by (rule lone_host_of [OF E w4(3) _ w4(5)]) (simp add: w4(4) a(8))
  have "fake_up F (w_provider w5)" using spent_calm [of F _ ?p] p(2) by (simp add: w5(2) w4(2))
  moreover have "provider_resources (w_provider w5) = []" using none by (simp add: w5(2) w4(2) p(3))
  ultimately show ?thesis
    using w4(6,7) p(1)
    by (simp add: passes_def marks_definitive_create_failure_as_failed_def w1 w2(1) FAULT_CREATE_DEFINITIVE_def w4(1) w5(1) test_simps)
qed

lemma retries_transient_observation_passes:
  assumes env: "test_env E F"
  shows "passes (retries_transient_observation_failure E F i) new_directory"
proof -
  have E: "quiet E" using env by (simp add: test_env_def)
  obtain w1 now w2 r h hr where w1: "storage_call E (\<lambda>io. create_claim (e_codec E) io i small_spec) connected_world = (Inr (initial_claim i small_spec now), w1)"
      and w2: "reconcile_once E (FakeProvider F) w1 = (Inr Progress, w2)" "assigned E w2 i r h hr" "hr_retry hr = default_retry"
      and none: "no_resource F (w_provider w2)"
    by (rule assigned_from_start [OF env, of i])
  note a = assignedD [OF w2(2)]
  have calm: "fake_calm F (w_provider w2)" using none by (simp add: no_resource_def)
  obtain p where p: "injected F FAULT_OBSERVE_TRANSIENT 1 w2 = (Inr (), w2\<lparr>w_provider := p\<rparr>)" "pending F FAULT_OBSERVE_TRANSIENT p"
      "plans p = plans (w_provider w2)" "provider_resources p = provider_resources (w_provider w2)"
    by (rule injected_run [OF calm])
  let ?w3 = "w2\<lparr>w_provider := p\<rparr>"
  have failed: "observe (FakeProvider F) h (w_provider ?w3) =
      (Inl (Transient ''injected observation failure''), spent FAULT_OBSERVE_TRANSIENT p)"
    by (simp add: observe_faulted [OF p(2)])
  have due: "is_due (hr_retry hr) (now_unix_ms (e_clock_ms E (w_count ?w3)))" and lone: "lone E ?w3 r [h \<mapsto> hr]" using a by simp_all
  obtain w4 r4 hr4 where w4: "reconcile_once E (FakeProvider F) ?w3 = (Inr Progress, w4)" "w_provider w4 = spent FAULT_OBSERVE_TRANSIENT p"
      "lone E w4 r4 [h \<mapsto> hr4]" "claim_id_of r4 = claim_id_of r" "claim_host r4 = Some h" "claim_deletion r4 = None"
      "host_phase hr4 = host_phase hr" "host_provider_resource hr4 = host_provider_resource hr"
      "hr_provider_plan_id hr4 = hr_provider_plan_id hr" "attempt (hr_retry hr4) = saturating_add_u32 (attempt (hr_retry hr)) 1"
      "last_error_kind (hr_retry hr4) = Some ''ProviderUnavailable''"
    by (rule unobserved_step [OF E lone a(2,3) due a(9) failed])
  have attempts: "attempt (hr_retry hr4) = 1" by (simp add: w4(10) w2(3) default_retry_def saturating_add_u32_def)
  obtain w5 where w5: "storage_call E (\<lambda>io. get_host_for_claim (e_codec E) io i) w4 = (Inr (Some hr4), w5)"
      "lone E w5 r4 [h \<mapsto> hr4]" "w_provider w5 = w_provider w4"
    by (rule lone_host_of [OF E w4(3) _ w4(5)]) (simp add: w4(4) a(8))
  let ?copy = "hr4\<lparr>hr_retry := (hr_retry hr4)\<lparr>next_reconcile_at_unix_ms := None\<rparr>\<rparr>"
  have id: "host_id_of ?copy = h" using host_id_stored [OF E w5(2)] by simp
  obtain w6 where w6: "storage_call E (\<lambda>io. save_host (e_codec E) io ?copy) w5 = (Inr (), w6)"
      "lone E w6 r4 [h \<mapsto> with_host_status ?copy hr4]" "w_provider w6 = w_provider w5"
    using lone_save_host [OF E w5(2) id] unfolding save_host_call_def by blast
  have "assigned E w6 i r4 h (with_host_status ?copy hr4)"
    using w6(2) w4 a by (simp add: assigned_def is_due_def)
  moreover have "no_resource F (w_provider w6)"
    using spent_calm [OF p(2)] none by (simp add: no_resource_def w6(3) w5(3) w4(2) p(3,4))
  ultimately obtain w7 r7 hr7 res where w7: "reconcile_to_idle E F (Suc (Suc 6)) w6 = (Inr (), w7)" "ready E w7 i r7 h hr7 res"
    by (rule made_ready [OF E])
  have idle: "reconcile_to_idle E F 8 w6 = (Inr (), w7)" using w7(1) by (simp add: eval_nat_numeral del: reconcile_to_idle.simps)
  obtain w8 where "storage_call E (\<lambda>io. get_claim (e_codec E) io i) w7 = (Inr r7, w8)"
    by (rule lone_claim [OF E readyD(1,4) [OF w7(2)]])
  then show ?thesis
    using readyD(5) [OF w7(2)] p(1) attempts w4(11) idle
    by (simp add: passes_def retries_transient_observation_failure_def w1 w2(1) FAULT_OBSERVE_TRANSIENT_def w4(1) w5(1) w6(1)
        in_storage_run reconciled_run check_simps connect_first)
qed

lemma rediscovers_create_passes:
  assumes env: "test_env E F" and later: "slept E 1050 E'"
  shows "passes (rediscovers_create_after_response_loss E E' F i) new_directory"
proof -
  have E: "quiet E" and E': "quiet E'" and cd: "e_codec E' = e_codec E" using env later by (simp_all add: test_env_def slept_def)
  have none: "no_resource F (w_provider connected_world)" by (rule connected_none [OF env])
  then have calm: "fake_calm F (w_provider connected_world)" by (simp add: no_resource_def)
  obtain p where p: "injected F FAULT_CREATE_RESPONSE_LOSS 1 connected_world = (Inr (), connected_world\<lparr>w_provider := p\<rparr>)"
      "pending F FAULT_CREATE_RESPONSE_LOSS p" "plans p = plans (w_provider connected_world)"
      "provider_resources p = provider_resources (w_provider connected_world)"
      "fake_owned F p = fake_owned F (w_provider connected_world)"
    by (rule injected_run [OF calm])
  let ?w0 = "connected_world\<lparr>w_provider := p\<rparr>"
  have plans: "plans p = catalog" and empty: "provider_resources p = []" using none p(3,4) by (simp_all add: no_resource_def)
  have "holds E ?w0 Map.empty Map.empty" "fake_up F (w_provider ?w0)" "plans (w_provider ?w0) = catalog"
    using connected_world_held(1) [of E] pending_up [OF p(2)] plans by simp_all
  then obtain w1 now w2 r h hr where w1: "storage_call E (\<lambda>io. create_claim (e_codec E) io i small_spec) ?w0 = (Inr (initial_claim i small_spec now), w1)"
      and w2: "reconcile_once E (FakeProvider F) w1 = (Inr Progress, w2)" "assigned E w2 i r h hr"
      "w_provider w2 = (w_provider ?w0)\<lparr>statement_count := Suc (statement_count (w_provider ?w0))\<rparr>"
    by (rule assigned_first [OF env])
  note a = assignedD [OF w2(2)]
  let ?p = "p\<lparr>statement_count := statement_count p + 3\<rparr>"
  have absent: "observe (FakeProvider F) h (w_provider w2) = (Inr Absent, ?p)"
    using observe_beside [of F FAULT_CREATE_RESPONSE_LOSS "w_provider w2" h] p(2) empty fault_names(4)
    by (simp add: w2(3) fake_owned_def find_resource_def eval_nat_numeral)
  have "pending F FAULT_CREATE_RESPONSE_LOSS ?p" "plans ?p = catalog" "provider_resources ?p = []" using p(2) plans empty by simp_all
  then obtain res p3 where lost: "create_resource (FakeProvider F) h (plan_id small_plan) ?p = (Inr CreateOutcomeUnknown, p3)"
      and one: "one_resource F p3 h res" by (rule create_lost)
  obtain w3 r3 hr3 where w3: "reconcile_once E (FakeProvider F) w2 = (Inr Progress, w3)" "w_provider w3 = p3"
      "lone E w3 r3 [h \<mapsto> hr3]" "claim_id_of r3 = claim_id_of r" "claim_host r3 = Some h" "claim_deletion r3 = None"
      "host_phase hr3 = Provisioning" "host_provider_resource hr3 = None"
      "last_error_kind (hr_retry hr3) = Some ''CreateOutcomeUnknown''"
      "next_reconcile_at_unix_ms (hr_retry hr3) = Some (sat_i64 (now_unix_ms (e_clock_ms E (w_count w2)) + 1000))"
    by (rule unknown_create_step [OF E a(1-6) absent lost [folded a(7)]])
  obtain w4 where w4: "storage_call E (\<lambda>io. get_host_for_claim (e_codec E) io i) w3 = (Inr (Some hr3), w4)"
      "lone E w4 r3 [h \<mapsto> hr3]" "w_provider w4 = w_provider w3"
    by (rule lone_host_of [OF E w3(3) _ w3(5)]) (simp add: w3(4) a(8))
  have lone: "lone E' w4 r3 [h \<mapsto> hr3]" using w4(2) cd by (simp add: lone_def holds_def)
  have due: "is_due (hr_retry hr3) (now_unix_ms (e_clock_ms E' (w_count w4)))"
    by (rule slept_due [OF later w3(10)])
  have one4: "one_resource F (w_provider w4) h res" using one by (simp add: w4(3) w3(2))
  have phase: "host_phase hr3 \<noteq> Failed" and owned: "ownership_conflict hr3 res = None" and moving: "\<not> provider_observation_is_stable hr3 res"
    using w3(7,8) by (simp_all add: ownership_conflict_def provider_observation_is_stable_def)
  obtain w5 t where w5: "reconcile_once E' (FakeProvider F) w4 = (Inr (if provider_observation_is_stable hr3 res then Idle else Progress), w5)"
      "w_provider w5 = (w_provider w4)\<lparr>statement_count := statement_count (w_provider w4) + 2\<rparr>"
      "lone E' w5 (with_status (fst (apply_provider_observation (e_codec E') t r3 hr3 res)) r3)
        [h \<mapsto> with_host_status (snd (apply_provider_observation (e_codec E') t r3 hr3 res)) hr3]"
    by (rule adopt_step [OF E' lone w3(6,5) due phase one_resource_observed [OF one4] owned])
  have one5: "one_resource F (w_provider w5) h res" using one4 by (simp add: w5(2))
  obtain w6 r6 hr6 where w6: "reconcile_to_idle E' F (Suc 6) w5 = (Inr (), w6)" "ready E' w6 (claim_id_of r3) r6 h hr6 res"
    by (rule recorded_idle [OF E' w3(6,5) w5(3) one5])
  have idle: "reconcile_to_idle E' F 8 w4 = (Inr (), w6)"
    using w5(1) w6(1) moving by (simp add: reconcile_to_idle_Progress eval_nat_numeral del: reconcile_to_idle.simps)
  obtain w7 where w7: "storage_call E' (\<lambda>io. get_claim (e_codec E') io i) w6 = (Inr r6, w7)" "lone E' w7 r6 [h \<mapsto> hr6]"
    by (rule lone_claim [OF E' readyD(1) [OF w6(2)], of i]) (simp add: readyD(4) [OF w6(2)] w3(4) a(8))
  obtain rs where "storage_call E' (list_hosts (e_codec E')) w7 = (Inr rs, tick w7)" "length rs = 1" by (rule lone_hosts [OF E' w7(2)])
  then show ?thesis
    using readyD(5) [OF w6(2)] p(1) w3(7,9) idle
    by (simp add: passes_def rediscovers_create_after_response_loss_def w1 w2(1) FAULT_CREATE_RESPONSE_LOSS_def w3(1) w4(1) w7(1)
        in_storage_run reconciled_run check_simps connect_first)
qed

text \<open>The tests that begin with a claim that is Ready.\<close>

lemma ready_from_start:
  assumes env: "test_env E F"
  obtains w1 now w2 r h hr res where
    "storage_call E (\<lambda>io. create_claim (e_codec E) io i small_spec) connected_world = (Inr (initial_claim i small_spec now), w1)"
    and "reconcile_to_idle E F 16 w1 = (Inr (), w2)" and "ready E w2 i r h hr res" and "one_resource F (w_provider w2) h res"
proof -
  have E: "quiet E" using env by (simp add: test_env_def)
  obtain w1 now w r h hr where w1: "storage_call E (\<lambda>io. create_claim (e_codec E) io i small_spec) connected_world = (Inr (initial_claim i small_spec now), w1)"
      and w: "reconcile_once E (FakeProvider F) w1 = (Inr Progress, w)" "assigned E w i r h hr" and none: "no_resource F (w_provider w)"
    by (rule assigned_from_start [OF env, of i])
  obtain w2 r2 hr2 res where w2: "reconcile_to_idle E F (Suc (Suc 13)) w = (Inr (), w2)" "one_resource F (w_provider w2) h res" "ready E w2 i r2 h hr2 res"
    by (rule made_ready [OF E w(2) none])
  have "reconcile_to_idle E F 16 w1 = (Inr (), w2)"
    using reconcile_to_idle_Progress [OF w(1), of 15] w2(1) by (simp add: eval_nat_numeral del: reconcile_to_idle.simps)
  then show ?thesis by (rule that [OF w1 _ w2(3,2)])
qed

lemma stays_ready:
  assumes E: "quiet E" and at: "ready E w i r h hr res" and one: "one_resource F (w_provider w) h res"
  obtains w' r' hr' where "reconcile_to_idle E F (Suc n) w = (Inr (), w')" and "one_resource F (w_provider w') h res"
    and "ready E w' i r' h hr' res"
proof -
  note a = readyD [OF at]
  have lifecycle: "pr_lifecycle res = LifecycleReady" using one by (simp add: one_resource_def)
  have stable: "provider_observation_is_stable hr res"
    by (simp add: provider_observation_is_stable_def a(6-8) expected_phase_def lifecycle default_retry_def)
  obtain w' t where w': "reconcile_once E (FakeProvider F) w = (Inr Idle, w')"
      "w_provider w' = (w_provider w)\<lparr>statement_count := statement_count (w_provider w) + 2\<rparr>"
      "lone E w' (with_status (fst (apply_provider_observation (e_codec E) t r hr res)) r)
        [h \<mapsto> with_host_status (snd (apply_provider_observation (e_codec E) t r hr res)) hr]"
    by (rule settled_step [OF E a(1,3,2) one_resource_observed [OF one] stable])
  let ?r = "with_status (fst (apply_provider_observation (e_codec E) t r hr res)) r"
  let ?hr = "with_host_status (snd (apply_provider_observation (e_codec E) t r hr res)) hr"
  have "map_option c_status (condition_at (claim_conditions ?r) ''Ready'') = Some StatusTrue"
    by (simp add: apply_provider_observation_conditions(1) [OF refl refl] expected_phase_def lifecycle)
  then have "condition_is (cr_resource ?r) ''Ready'' StatusTrue" by (rule condition_at_is)
  then have "ready E w' i ?r h ?hr res"
    using w'(3) a by (simp add: ready_def apply_provider_observation_host [OF refl] expected_phase_def lifecycle)
  then show ?thesis
    by (intro that [of w' ?r ?hr]) (use w'(1,2) one in \<open>simp_all add: test_simps del: reconcile_to_idle.simps\<close>)
qed

lemma seed_again: "plans p = catalog \<Longrightarrow> seed_catalog p = p"
  by (cases p) (simp add: seed_catalog_def catalog_def upsert_plan_def update_where_def)

lemma restart_passes:
  assumes env: "test_env E F"
  shows "passes (restart_reconciliation_does_not_duplicate_resources E F i) new_directory"
proof -
  have E: "quiet E" using env by (simp add: test_env_def)
  obtain w1 now w2 r h hr res where w1: "storage_call E (\<lambda>io. create_claim (e_codec E) io i small_spec) connected_world = (Inr (initial_claim i small_spec now), w1)"
      and w2: "reconcile_to_idle E F 16 w1 = (Inr (), w2)" "ready E w2 i r h hr res" and one: "one_resource F (w_provider w2) h res"
    by (rule ready_from_start [OF env, of i])
  obtain rs where rs: "storage_call E (list_hosts (e_codec E)) w2 = (Inr rs, tick w2)" "length rs = 1"
    by (rule lone_hosts [OF E readyD(1) [OF w2(2)]])
  let ?w3 = "(tick w2)\<lparr>w_provider := (w_provider w2)\<lparr>statement_count := Suc (statement_count (w_provider w2))\<rparr>\<rparr>"
  have counted: "in_provider (resource_count F) (tick w2) = (Inr 1, ?w3)" using one by (simp add: count_resources)
  have again: "connect_provider ?w3 = (Inr (), ?w3)"
    using one by (simp add: connect_provider_def seed_again one_resource_def)
  have at: "ready E ?w3 i r h hr res" and one3: "one_resource F (w_provider ?w3) h res" using w2(2) one by (simp_all add: ready_def)
  obtain w4 r4 hr4 where w4: "reconcile_to_idle E F (Suc 7) ?w3 = (Inr (), w4)" "one_resource F (w_provider w4) h res" "ready E w4 i r4 h hr4 res"
    by (rule stays_ready [OF E at one3])
  have idle: "reconcile_to_idle E F 8 ?w3 = (Inr (), w4)" using w4(1) by (simp add: eval_nat_numeral del: reconcile_to_idle.simps)
  obtain rs' where rs': "storage_call E (list_hosts (e_codec E)) w4 = (Inr rs', tick w4)" "length rs' = 1"
    by (rule lone_hosts [OF E readyD(1) [OF w4(3)]])
  let ?w5 = "(tick w4)\<lparr>w_provider := (w_provider w4)\<lparr>statement_count := Suc (statement_count (w_provider w4))\<rparr>\<rparr>"
  have counted': "in_provider (resource_count F) (tick w4) = (Inr 1, ?w5)" using w4(2) by (simp add: count_resources)
  have lone: "lone E ?w5 r4 [h \<mapsto> hr4]" using readyD(1) [OF w4(3)] by simp
  obtain w6 where "storage_call E (\<lambda>io. get_claim (e_codec E) io i) ?w5 = (Inr r4, w6)"
    by (rule lone_claim [OF E lone readyD(4) [OF w4(3)]])
  then show ?thesis
    using readyD(5) [OF w4(3)] w2(1) idle again
    by (simp add: passes_def restart_reconciliation_does_not_duplicate_resources_def w1 rs rs' counted counted' in_storage_run
        check_simps connect_first)
qed

lemma one_resource_deleted:
  assumes "one_resource F p h res" and "provider_resources p' = provider_resources p"
  shows "filter (\<lambda>r. re_host_id r \<noteq> host_id_text (fk_codec F) h) (provider_resources p') = []"
proof -
  have "length (provider_resources p) = 1" using assms(1) by simp
  then obtain row where row: "provider_resources p = [row]" by (cases "provider_resources p") simp_all
  have "fake_owned F p h \<noteq> None" using assms(1) by (simp add: one_resource_def)
  then have "find_resource (fk_codec F) p h \<noteq> None" by (simp add: fake_owned_def split: option.splits)
  then have "re_host_id row = host_id_text (fk_codec F) h" by (simp add: find_resource_def row split: if_splits)
  then show ?thesis by (simp add: assms(2) row)
qed

lemma rediscovers_delete_passes:
  assumes env: "test_env E F" and later: "slept E 1050 E'"
  shows "passes (rediscovers_delete_after_response_loss E E' F i) new_directory"
proof -
  have E: "quiet E" and E': "quiet E'" and cd: "e_codec E' = e_codec E" using env later by (simp_all add: test_env_def slept_def)
  obtain w1 now w2 r h hr res where w1: "storage_call E (\<lambda>io. create_claim (e_codec E) io i small_spec) connected_world = (Inr (initial_claim i small_spec now), w1)"
      and w2: "reconcile_to_idle E F 16 w1 = (Inr (), w2)" "ready E w2 i r h hr res" and one: "one_resource F (w_provider w2) h res"
    by (rule ready_from_start [OF env, of i])
  note a = readyD [OF w2(2)]
  let ?w3 = "w2\<lparr>w_provider := (w_provider w2)\<lparr>statement_count := Suc (statement_count (w_provider w2))\<rparr>\<rparr>"
  have counted: "in_provider (resource_count F) w2 = (Inr 1, ?w3)" using one by (simp add: count_resources)
  have calm: "fake_calm F (w_provider ?w3)" using one by (simp add: one_resource_def)
  obtain p where p: "injected F FAULT_DELETE_RESPONSE_LOSS 1 ?w3 = (Inr (), ?w3\<lparr>w_provider := p\<rparr>)"
      "pending F FAULT_DELETE_RESPONSE_LOSS p" "plans p = plans (w_provider ?w3)"
      "provider_resources p = provider_resources (w_provider ?w3)" "fake_owned F p = fake_owned F (w_provider ?w3)"
    by (rule injected_run [OF calm])
  let ?w4 = "?w3\<lparr>w_provider := p\<rparr>"
  have "holds E ?w4 [i \<mapsto> r] [h \<mapsto> hr]" using a(1) by (simp add: lone_def a(4))
  then obtain w5 t where w5: "storage_call E (\<lambda>io. mark_claim_deleting (e_codec E) io i) ?w4 = (Inr (cr_resource (deletion_requested t r)), w5)"
      "holds E w5 [i \<mapsto> deletion_requested t r] [h \<mapsto> hr]" "counted ?w4 w5"
    by (rule quiet_mark_deleting [OF E, where i = i and r = r]) (simp_all add: a(3))
  let ?r = "deletion_requested t r"
  have id: "claim_id_of ?r = i" using a(4) by (simp add: deletion_requested_def Let_def claim_edit_defs)
  have lone: "lone E w5 ?r [h \<mapsto> hr]" using w5(2) by (simp add: lone_def id)
  have p5: "w_provider w5 = p" using w5(3) by (simp add: counted_def)
  let ?p = "p\<lparr>statement_count := statement_count p + 2\<rparr>"
  have present: "observe (FakeProvider F) h (w_provider w5) = (Inr (Present res), ?p)"
    using one by (simp add: p5 observe_beside [OF p(2) fault_names(5)] p(5) one_resource_def)
  have "pending F FAULT_DELETE_RESPONSE_LOSS ?p" using p(2) by simp
  then obtain p6 where lost: "delete_resource (FakeProvider F) h ?p = (Inr DeleteOutcomeUnknown, p6)" and calm6: "fake_calm F p6"
      and p6: "plans p6 = plans ?p" "provider_resources p6 = filter (\<lambda>r. re_host_id r \<noteq> host_id_text (fk_codec F) h) (provider_resources ?p)"
    by (rule delete_lost [where h = h]) simp
  have none: "no_resource F p6"
    using calm6 p6 one one_resource_deleted [OF one, of ?p] p(3,4) by (simp add: no_resource_def one_resource_def)
  have deleting: "claim_deletion ?r \<noteq> None" "next_reconcile_at_unix_ms (cr_retry ?r) = None" "claim_host ?r = Some h"
      "next_reconcile_at_unix_ms (hr_retry hr) = None" "ownership_conflict hr res = None"
    using a by (simp_all add: default_retry_def ownership_conflict_def)
  obtain w6 host1 hr6 where w6: "reconcile_once E (FakeProvider F) w5 = (Inr Progress, w6)" "lone E w6 ?r [h \<mapsto> hr6]"
      "hr_retry hr6 = hr_retry (after_delete host1 (Inr DeleteOutcomeUnknown) (now_unix_ms (e_clock_ms E (w_count w5))))" "w_provider w6 = p6"
    by (rule deleting_step [OF E lone deleting present lost])
  let ?w7 = "w6\<lparr>w_provider := p6\<lparr>statement_count := Suc (statement_count p6)\<rparr>\<rparr>"
  have counted': "in_provider (resource_count F) w6 = (Inr 0, ?w7)" using none by (simp add: count_resources w6(4))
  have lone7: "lone E ?w7 ?r [h \<mapsto> hr6]" using w6(2) by simp
  obtain w8 where w8: "storage_call E (\<lambda>io. get_claim (e_codec E) io i) ?w7 = (Inr ?r, w8)" "lone E w8 ?r [h \<mapsto> hr6]" "w_provider w8 = w_provider ?w7"
    by (rule lone_claim [OF E lone7 id])
  have lone8: "lone E' w8 ?r [h \<mapsto> hr6]" using w8(2) cd by (simp add: lone_def holds_def)
  have "next_reconcile_at_unix_ms (hr_retry hr6) = Some (sat_i64 (now_unix_ms (e_clock_ms E (w_count w5)) + 1000))"
    by (simp add: w6(3) after_delete_def)
  then have due: "is_due (hr_retry hr6) (now_unix_ms (e_clock_ms E' (w_count w8)))" by (rule slept_due [OF later])
  have "no_resource F (w_provider w8)" using none by (simp add: w8(3))
  note absent = no_resource_observed [OF this]
  obtain w9 where w9: "reconcile_once E' (FakeProvider F) w8 = (Inr Progress, w9)" "vacant E' w9"
    by (rule absent_due_step [OF E' lone8 deleting(1-3) due absent])
  have "reconcile_to_idle E' F (Suc (Suc 6)) w8 = (Inr (), tick (tick w9))"
    using vacant_step [OF E' w9(2), of "FakeProvider F"] by (simp only: reconcile_to_idle_Progress [OF w9(1)] reconcile_to_idle_Idle)
  then have idle: "reconcile_to_idle E' F 8 w8 = (Inr (), tick (tick w9))" by (simp add: eval_nat_numeral del: reconcile_to_idle.simps)
  have gone: "holds E' (tick (tick w9)) Map.empty Map.empty" using w9(2) by (simp add: vacant_def)
  obtain w10 where w10: "storage_call E' (\<lambda>io. get_claim (e_codec E') io i) (tick (tick w9))
      = (Inl (NotFound ''HostClaim'' (claim_id_text (e_codec E') i)), w10)"
    by (rule quiet_get_claim [OF E' gone, of i]) simp
  show ?thesis
    using p(1) idle w5(1)
    by (simp add: passes_def rediscovers_delete_after_response_loss_def w1 w2(1) counted counted' FAULT_DELETE_RESPONSE_LOSS_def
        w6(1) w8(1) w10 in_storage_run tried_run reconciled_run check_simps connect_first)
qed

end
