(* ===== verification/Several_Claims_Test.thy ===== *)
theory Several_Claims_Test
  imports Controller_Tests
begin

text \<open>
  The test of \<open>controller.rs\<close> with two claims: the loop of a test, like a wake, settles everything when it is
  given enough steps, and what is settled has as many hosts as claims.
\<close>

abbreviation test_view :: "environment \<Rightarrow> fake_env \<Rightarrow> fake_provider world \<Rightarrow> view" where
  "test_view E F \<equiv> view_of E (fake_owned F) (fake_issued F)"

lemma idle_settles:
  assumes "fleet_settling E F limit w" and "rank (test_view E F w) < n"
    and "card (dom (v_claims (test_view E F w))) \<le> c" and "w_count w + n * (2 + 9 * c) \<le> limit"
  shows "\<exists>w'. reconcile_to_idle E F n w = (Inr (), w') \<and> fake_answers.kept F E limit w w' \<and> all_ready (test_view E F w')
    \<and> w_count w' \<le> w_count w + n * (2 + 9 * c)"
  using assms
proof (induction n arbitrary: w)
  case (Suc n)
  have one: "w_count (snd (reconcile_once E (FakeProvider F) w)) \<le> w_count w + (2 + 9 * c)"
    by (rule fake_answers.once_within [OF Suc.prems(1,3)])
  then have "w_count (snd (reconcile_once E (FakeProvider F) w)) \<le> limit" using Suc.prems(4) by simp
  from fake_answers.pass [OF Suc.prems(1) this] show ?case
  proof
    assume "fake_answers.nearer F E limit w (reconcile_once E (FakeProvider F) w)"
    then obtain w1 where w1: "reconcile_once E (FakeProvider F) w = (Inr Progress, w1)" "fake_answers.kept F E limit w w1"
        "rank (test_view E F w1) < rank (test_view E F w)" by (auto simp: fake_answers.nearer_def)
    have "card (dom (v_claims (test_view E F w1))) \<le> card (dom (v_claims (test_view E F w)))"
      by (rule card_mono [OF settlingD(7) [OF Suc.prems(1)]]) (use w1(2) in \<open>simp add: fake_answers.kept_def\<close>)
    then have few: "card (dom (v_claims (test_view E F w1))) \<le> c" using Suc.prems(3) by simp
    have "fleet_settling E F limit w1" using w1(2) by (simp add: fake_answers.kept_def)
    from Suc.IH [OF this _ few] obtain w' where w': "reconcile_to_idle E F n w1 = (Inr (), w')" "fake_answers.kept F E limit w1 w'"
        "all_ready (test_view E F w')" "w_count w' \<le> w_count w1 + n * (2 + 9 * c)"
      using Suc.prems(2,4) w1(1,3) one by auto
    have "reconcile_to_idle E F (Suc n) w = (Inr (), w')" using w'(1) by (simp only: reconcile_to_idle_Progress [OF w1(1)])
    moreover have "w_count w' \<le> w_count w + Suc n * (2 + 9 * c)" using w'(4) one w1(1) by simp
    ultimately show ?thesis using w'(3) fake_answers.kept_trans [OF w1(2) w'(2)] by blast
  next
    assume "\<exists>w'. reconcile_once E (FakeProvider F) w = (Inr Idle, w') \<and> fake_answers.kept F E limit w w' \<and> all_ready (test_view E F w')"
    then obtain w' where w': "reconcile_once E (FakeProvider F) w = (Inr Idle, w')" "fake_answers.kept F E limit w w'"
        "all_ready (test_view E F w')" by blast
    moreover have "w_count w' \<le> w_count w + Suc n * (2 + 9 * c)" using one w'(1) by simp
    ultimately show ?thesis using reconcile_to_idle_Idle [OF w'(1)] by blast
  qed
qed simp

text \<open>Settled, there is one host for each claim.\<close>

lemma ready_hosts:
  assumes S: "fleet_settling E F limit w" and ready: "all_ready (test_view E F w)"
  shows "card (dom (host_view (e_codec E) (w_db w))) = card (dom (claim_view (e_codec E) (w_db w)))"
proof -
  note S' = settlingD [OF S]
  let ?cs = "claim_view (e_codec E) (w_db w)" and ?hs = "host_view (e_codec E) (w_db w)"
  let ?host = "\<lambda>i. the (claim_host (the (?cs i)))"
  have cd: "codec_ok (e_codec E)" using S'(1) by (simp add: quiet_def)
  have host: "\<exists>hr. ?hs (?host i) = Some hr \<and> host_claim_of hr = i" if "i \<in> dom ?cs" for i
  proof -
    from that obtain r where r: "?cs i = Some r" by blast
    then obtain h where h: "claim_host r = Some h" using ready by (force simp: all_ready_def ready_at_def)
    then show ?thesis using linkedD [OF S'(6), of i r h] r by simp
  qed
  have "inj_on ?host (dom ?cs)" by (rule inj_onI) (metis host option.inject)
  moreover have "?host ` dom ?cs = dom ?hs"
  proof
    show "?host ` dom ?cs \<subseteq> dom ?hs" using host by blast
    show "dom ?hs \<subseteq> ?host ` dom ?cs"
    proof
      fix h assume "h \<in> dom ?hs"
      then obtain hr where "?hs h = Some hr" by blast
      then obtain i r where "?cs i = Some r" "claim_host r = Some h"
        using cd S'(2) by (blast elim: host_claim_view)
      then show "h \<in> ?host ` dom ?cs" by (intro image_eqI [of _ _ i]) auto
    qed
  qed
  ultimately show ?thesis by (metis card_image)
qed

section \<open>The requests of the test\<close>

lemma written_settles:
  assumes S: "fleet_settling E F limit w" and held: "holds E w' cs (host_view (e_codec E) (w_db w))" and counted: "counted w w'"
    and orderly: "orderly catalog_offers catalog_plan (test_view E F w\<lparr>v_claims := cs\<rparr>)"
  shows "fleet_settling E F limit w'"
proof (rule settlingI [OF settlingD(1) [OF S] held])
  show "fake_live F (w_provider w')" using settlingD(3) [OF S] countedD(1) [OF counted] by simp
  show "orderly catalog_offers catalog_plan \<lparr>v_claims = cs, v_hosts = host_view (e_codec E) (w_db w),
      v_own = fake_owned F (w_provider w'), v_ids = fake_issued F (w_provider w')\<rparr>"
    using orderly countedD(1) [OF counted] by (simp add: view_of_def)
  show "new_ids E limit w' (host_view (e_codec E) (w_db w))"
    by (rule new_ids_kept [OF settlingD(5) [OF S]]) (use countedD(3) [OF counted] in simp_all)
qed

lemma small_spec_offered: "catalog_offers (spec_resources small_spec)"
  by (simp add: catalog_offers_def small_spec_def catalog_def plan_suffices_def push_bit_eq_mult)

lemma create_settles:
  assumes S: "fleet_settling E F limit w" and new: "claim_view (e_codec E) (w_db w) i = None"
  obtains w' now where
    "storage_call E (\<lambda>io. create_claim (e_codec E) io i small_spec) w = (Inr (initial_claim i small_spec now), w')"
    and "fleet_settling E F limit w'" and "w_count w' = Suc (w_count w)"
    and "claim_view (e_codec E) (w_db w') = (claim_view (e_codec E) (w_db w))(i \<mapsto> new_claim i small_spec now)"
proof -
  note S' = settlingD [OF S]
  obtain w' now where w': "storage_call E (\<lambda>io. create_claim (e_codec E) io i small_spec) w = (Inr (initial_claim i small_spec now), w')"
      "holds E w' ((claim_view (e_codec E) (w_db w))(i \<mapsto> new_claim i small_spec now)) (host_view (e_codec E) (w_db w))" "counted w w'"
    by (rule quiet_create_claim [OF S'(1,8) small_spec_fits(1) new]) simp
  have "fleet_settling E F limit w'"
    by (rule written_settles [OF S w'(2,3)], rule orderlyI)
      (use orderlyD [OF S'(4)] small_spec_offered in
        \<open>auto simp: claim_open_def default_retry_def resource_placed_def split: if_splits\<close>)
  then show ?thesis
    using that w'(1) holdsD(2) [OF w'(2)] storage_call_count [of E "\<lambda>io. create_claim (e_codec E) io i small_spec" w] by simp
qed

lemma mark_settles:
  assumes S: "fleet_settling E F limit w" and r: "claim_view (e_codec E) (w_db w) i = Some r" "claim_deletion r = None"
  obtains w' t where
    "storage_call E (\<lambda>io. mark_claim_deleting (e_codec E) io i) w = (Inr (cr_resource (deletion_requested t r)), w')"
    and "fleet_settling E F limit w'" and "w_count w' = Suc (w_count w)"
    and "claim_view (e_codec E) (w_db w') = (claim_view (e_codec E) (w_db w))(i \<mapsto> deletion_requested t r)"
proof -
  note S' = settlingD [OF S]
  obtain w' t where w': "storage_call E (\<lambda>io. mark_claim_deleting (e_codec E) io i) w = (Inr (cr_resource (deletion_requested t r)), w')"
      "holds E w' ((claim_view (e_codec E) (w_db w))(i \<mapsto> deletion_requested t r)) (host_view (e_codec E) (w_db w))" "counted w w'"
    by (rule quiet_mark_deleting [OF S'(1,8) r]) simp
  have "fleet_settling E F limit w'"
    by (rule written_settles [OF S w'(2,3)], rule orderlyI)
      (use orderlyD [OF S'(4)] in \<open>auto simp: claim_open_def default_retry_def resource_placed_def split: if_splits\<close>)
  then show ?thesis
    using that w'(1) holdsD(2) [OF w'(2)] storage_call_count [of E "\<lambda>io. mark_claim_deleting (e_codec E) io i" w] by simp
qed

lemma connected_settles:
  assumes "fleet_env E F limit"
  shows "fleet_settling E F limit connected_world"
proof -
  have "snd (first_start (seed_catalog empty_fake_provider)) = connected_world\<lparr>w_notified := True\<rparr>"
    by (simp add: first_start_def connected_world_def new_directory_def)
  then show ?thesis
    using first_start_settles [OF assms] by (simp add: settling_def new_ids_def view_of_def)
qed

section \<open>It passes\<close>

lemma ready_claims:
  assumes kept: "fake_answers.kept F E limit w w'" and ready: "all_ready (test_view E F w')"
  shows "dom (claim_view (e_codec E) (w_db w')) = fst ` wanted (test_view E F w)"
proof -
  have same: "wanted (test_view E F w) = wanted (test_view E F w')" using kept by (simp add: fake_answers.kept_def)
  show ?thesis
    unfolding same using all_ready_active [OF ready] by (force simp: wanted_def image_iff)
qed

lemma listed_ready:
  assumes "all_ready (test_view E F w)" and "\<And>x. x \<in> set rs \<longleftrightarrow> claim_view (e_codec E) (w_db w) (claim_id_of x) = Some x"
  shows "list_all (\<lambda>claim. condition_is (cr_resource claim) ''Ready'' StatusTrue) rs"
proof -
  have "condition_is (cr_resource x) ''Ready'' StatusTrue" if "x \<in> set rs" for x
  proof -
    have x: "claim_view (e_codec E) (w_db w) (claim_id_of x) = Some x" using assms(2) that by blast
    then have "ready_at (test_view E F w) (claim_id_of x)" using assms(1) by (auto simp: all_ready_def)
    then have "map_option c_status (condition_at (claim_conditions x) ''Ready'') = Some StatusTrue" using x by (auto simp: ready_at_def)
    then show ?thesis by (rule condition_at_is)
  qed
  then show ?thesis by (simp add: list_all_iff)
qed

lemma two_settled:
  assumes env: "fleet_env E F 2000" and ids: "first \<noteq> second"
  obtains w1 t1 w2 t2 w3 where
    "storage_call E (\<lambda>io. create_claim (e_codec E) io first small_spec) connected_world = (Inr (initial_claim first small_spec t1), w1)"
    and "storage_call E (\<lambda>io. create_claim (e_codec E) io second small_spec) w1 = (Inr (initial_claim second small_spec t2), w2)"
    and "reconcile_to_idle E F 32 w2 = (Inr (), w3)" and "fleet_settling E F 2000 w3" and "all_ready (test_view E F w3)"
    and "w_count w3 \<le> 642" and "dom (claim_view (e_codec E) (w_db w3)) = {first, second}"
proof -
  note S0 = connected_settles [OF env]
  have start: "claim_view (e_codec E) (w_db connected_world) = Map.empty" "w_count connected_world = 0"
    using holdsD(2) [OF connected_world_held(1)] by (simp_all add: connected_world_def new_directory_def)
  obtain w1 t1 where w1: "storage_call E (\<lambda>io. create_claim (e_codec E) io first small_spec) connected_world
        = (Inr (initial_claim first small_spec t1), w1)" "fleet_settling E F 2000 w1" "w_count w1 = Suc 0"
      "claim_view (e_codec E) (w_db w1) = [first \<mapsto> new_claim first small_spec t1]"
    by (rule create_settles [OF S0, of first]) (simp_all add: start)
  obtain w2 t2 where w2: "storage_call E (\<lambda>io. create_claim (e_codec E) io second small_spec) w1
        = (Inr (initial_claim second small_spec t2), w2)" "fleet_settling E F 2000 w2" "w_count w2 = 2"
      "claim_view (e_codec E) (w_db w2) = [first \<mapsto> new_claim first small_spec t1, second \<mapsto> new_claim second small_spec t2]"
    by (rule create_settles [OF w1(2), of second]) (use ids in \<open>simp_all add: w1(3,4)\<close>)
  have dom2: "dom (claim_view (e_codec E) (w_db w2)) = {first, second}" by (auto simp: w2(4))
  have few: "card (dom (v_claims (test_view E F w2))) \<le> 2" by (simp add: dom2 card_insert_if)
  have low: "rank (test_view E F w2) < 32" using rank_le [of "test_view E F w2"] few by simp
  obtain w3 where w3: "reconcile_to_idle E F 32 w2 = (Inr (), w3)" "fake_answers.kept F E 2000 w2 w3"
      "all_ready (test_view E F w3)" "w_count w3 \<le> 642"
    using idle_settles [OF w2(2) low few] by (auto simp: w2(3))
  have S3: "fleet_settling E F 2000 w3" using w3(2) by (simp add: fake_answers.kept_def)
  have dom3: "dom (claim_view (e_codec E) (w_db w3)) = {first, second}"
    unfolding ready_claims [OF w3(2,3)] using ids by (force simp: wanted_def w2(4))
  show ?thesis by (rule that [OF w1(1) w2(1) w3(1) S3 w3(3,4) dom3])
qed

text \<open>One of two settled claims is marked for deletion; the other stays.\<close>

lemma one_left:
  assumes S: "fleet_settling E F 2000 w" and ready: "all_ready (test_view E F w)"
    and dom: "dom (claim_view (e_codec E) (w_db w)) = {first, second}" "first \<noteq> second" and count: "w_count w \<le> 644"
  obtains t r w1 w2 where
    "storage_call E (\<lambda>io. mark_claim_deleting (e_codec E) io first) w = (Inr (cr_resource (deletion_requested t r)), w1)"
    and "reconcile_to_idle E F 32 w1 = (Inr (), w2)" and "fleet_settling E F 2000 w2" and "all_ready (test_view E F w2)"
    and "dom (claim_view (e_codec E) (w_db w2)) = {second}"
proof -
  obtain r r2 where r: "claim_view (e_codec E) (w_db w) first = Some r" "claim_view (e_codec E) (w_db w) second = Some r2"
    using dom(1) by blast
  have active: "claim_deletion r = None" "claim_deletion r2 = None"
    using all_ready_active [OF ready, of first r] all_ready_active [OF ready, of second r2] r by simp_all
  obtain w1 t where w1: "storage_call E (\<lambda>io. mark_claim_deleting (e_codec E) io first) w = (Inr (cr_resource (deletion_requested t r)), w1)"
      "fleet_settling E F 2000 w1" "w_count w1 = Suc (w_count w)"
      "claim_view (e_codec E) (w_db w1) = (claim_view (e_codec E) (w_db w))(first \<mapsto> deletion_requested t r)"
    by (rule mark_settles [OF S r(1) active(1)])
  have dom1: "dom (claim_view (e_codec E) (w_db w1)) = {first, second}" using dom(1) by (simp add: w1(4) insert_absorb)
  have few: "card (dom (v_claims (test_view E F w1))) \<le> 2" by (simp add: dom1 card_insert_if)
  have low: "rank (test_view E F w1) < 32" using rank_le [of "test_view E F w1"] few by simp
  obtain w2 where w2: "reconcile_to_idle E F 32 w1 = (Inr (), w2)" "fake_answers.kept F E 2000 w1 w2" "all_ready (test_view E F w2)"
    using idle_settles [OF w1(2) low few] count by (auto simp: w1(3))
  have S2: "fleet_settling E F 2000 w2" using w2(2) by (simp add: fake_answers.kept_def)
  have "i = second" if "claim_view (e_codec E) (w_db w1) i = Some x" "claim_deletion x = None" for i x
    using that dom1 by (cases "i = first") (auto simp: w1(4))
  then have "fst ` wanted (test_view E F w1) = {second}"
    using r(2) active(2) dom(2) by (fastforce simp: wanted_def w1(4) image_iff)
  then have "dom (claim_view (e_codec E) (w_db w2)) = {second}" unfolding ready_claims [OF w2(2,3)] .
  then show ?thesis by (rule that [OF w1(1) w2(1) S2 w2(3)])
qed

lemma reconciles_multiple_claims_passes:
  assumes env: "fleet_env E F 2000" and ids: "first \<noteq> second"
  shows "passes (reconciles_multiple_claims_and_deletes_one E F first second) new_directory"
proof -
  have E: "quiet E" using env by (simp add: fleet_env_def)
  obtain w1 t1 w2 t2 w3 where
      w1: "storage_call E (\<lambda>io. create_claim (e_codec E) io first small_spec) connected_world = (Inr (initial_claim first small_spec t1), w1)"
      and w2: "storage_call E (\<lambda>io. create_claim (e_codec E) io second small_spec) w1 = (Inr (initial_claim second small_spec t2), w2)"
      and w3: "reconcile_to_idle E F 32 w2 = (Inr (), w3)" "fleet_settling E F 2000 w3" "all_ready (test_view E F w3)"
      "w_count w3 \<le> 642" "dom (claim_view (e_codec E) (w_db w3)) = {first, second}"
    by (rule two_settled [OF env ids])
  note held3 = settlingD(8) [OF w3(2)]
  obtain rs where rs: "storage_call E (list_claims (e_codec E)) w3 = (Inr rs, tick w3)" "length rs = 2"
      and listed: "\<And>x. x \<in> set rs \<longleftrightarrow> claim_view (e_codec E) (w_db w3) (claim_id_of x) = Some x"
    by (rule quiet_count_claims [OF E held3]) (use ids in \<open>simp add: w3(5)\<close>)
  note all3 = listed_ready [OF w3(3) listed]
  have held: "holds E (tick w3) (claim_view (e_codec E) (w_db w3)) (host_view (e_codec E) (w_db w3))" using held3 by simp
  obtain hs where hs: "storage_call E (list_hosts (e_codec E)) (tick w3) = (Inr hs, tick (tick w3))" "length hs = 2"
    by (rule quiet_count_hosts [OF E held]) (use ids in \<open>simp add: ready_hosts [OF w3(2,3)] w3(5)\<close>)
  let ?w4 = "tick (tick w3)"
  have "fleet_settling E F 2000 ?w4" "all_ready (test_view E F ?w4)" "dom (claim_view (e_codec E) (w_db ?w4)) = {first, second}"
      "w_count ?w4 \<le> 644"
    using w3 by (simp_all add: settling_def new_ids_def view_of_def)
  then obtain t r w5 w6 where
      w5: "storage_call E (\<lambda>io. mark_claim_deleting (e_codec E) io first) ?w4 = (Inr (cr_resource (deletion_requested t r)), w5)"
      and w6: "reconcile_to_idle E F 32 w5 = (Inr (), w6)" "fleet_settling E F 2000 w6" "all_ready (test_view E F w6)"
      "dom (claim_view (e_codec E) (w_db w6)) = {second}"
    using ids by (blast elim: one_left)
  have gone: "claim_view (e_codec E) (w_db w6) first = None" using w6(4) ids by blast
  obtain w7 where w7: "storage_call E (\<lambda>io. get_claim (e_codec E) io first) w6
        = (Inl (NotFound ''HostClaim'' (claim_id_text (e_codec E) first)), w7)"
      "holds E w7 (claim_view (e_codec E) (w_db w6)) (host_view (e_codec E) (w_db w6))"
    by (rule quiet_get_claim [OF E settlingD(8) [OF w6(2)], of first]) (simp add: gone)
  obtain hs' where hs': "storage_call E (list_hosts (e_codec E)) w7 = (Inr hs', tick w7)" "length hs' = 1"
    by (rule quiet_count_hosts [OF E w7(2)]) (simp add: ready_hosts [OF w6(2,3)] w6(4))
  show ?thesis
    using w1 w2 w3(1) rs hs w5 w6(1) w7(1) hs' all3
    by (simp add: passes_def reconciles_multiple_claims_and_deletes_one_def test_simps)
qed

end
