(* ===== verification/Storage_Tests.thy ===== *)
theory Storage_Tests
  imports Testing Process
begin

text \<open>
  The tests of \<open>storage.rs\<close>, for every identifier they could generate and every quiet environment
  they could run in: the model passes them.
\<close>

section \<open>Creating claims\<close>

definition create_claim_is_idempotent_for_the_same_id_and_spec ::
  "environment \<Rightarrow> HostClaimId \<Rightarrow> unit test" where
  "create_claim_is_idempotent_for_the_same_id_and_spec E claim_id =
     and_then (in_storage E (\<lambda>io. create_claim (e_codec E) io claim_id small_spec)) (\<lambda>first.
     and_then (in_storage E (\<lambda>io. create_claim (e_codec E) io claim_id small_spec)) (\<lambda>second.
     and_then (assert_that (first = second)) (\<lambda>_.
     and_then (in_storage E (list_claims (e_codec E))) (\<lambda>claims.
     assert_that (length claims = 1)))))"

lemma create_claim_is_idempotent_passes:
  assumes E: "quiet E"
  shows "passes (create_claim_is_idempotent_for_the_same_id_and_spec E i) new_directory"
proof -
  obtain w1 now where w1: "storage_call E (\<lambda>io. create_claim (e_codec E) io i small_spec) new_directory = (Inr (initial_claim i small_spec now), w1)"
      "holds E w1 [i \<mapsto> new_claim i small_spec now] Map.empty"
    by (rule first_claim [OF E])
  obtain w2 where w2: "storage_call E (\<lambda>io. create_claim (e_codec E) io i small_spec) w1 = (Inr (initial_claim i small_spec now), w2)"
      "holds E w2 [i \<mapsto> new_claim i small_spec now] Map.empty"
    by (rule quiet_create_taken [OF E w1(2) small_spec_fits(1), of i "new_claim i small_spec now"]) (simp_all add: new_claim_def initial_claim_def)
  obtain rs where "storage_call E (list_claims (e_codec E)) w2 = (Inr rs, tick w2)" "length rs = 1"
    by (rule quiet_count_claims [OF E w2(2)]) simp
  then show ?thesis
    by (simp add: passes_def create_claim_is_idempotent_for_the_same_id_and_spec_def w1(1) w2(1) test_simps)
qed

definition other_spec :: HostClaimSpec where
  "other_spec = \<lparr>spec_resources =
     \<lparr>vcpus = 2, memory_bytes = 2 * 1024 * 1024 * 1024, storage_bytes = 20 * 1024 * 1024 * 1024\<rparr>\<rparr>"

definition create_claim_conflicts_when_the_existing_spec_differs ::
  "environment \<Rightarrow> HostClaimId \<Rightarrow> unit test" where
  "create_claim_conflicts_when_the_existing_spec_differs E claim_id =
     and_then (in_storage E (\<lambda>io. create_claim (e_codec E) io claim_id small_spec)) (\<lambda>_.
     and_then (tried E (\<lambda>io. create_claim (e_codec E) io claim_id other_spec)) (\<lambda>result.
     and_then (expect_err result) (\<lambda>error.
     and_then (assert_that (is_conflict error)) (\<lambda>_.
     and_then (in_storage E (list_claims (e_codec E))) (\<lambda>claims.
     assert_that (length claims = 1))))))"

lemma create_claim_conflicts_passes:
  assumes E: "quiet E"
  shows "passes (create_claim_conflicts_when_the_existing_spec_differs E i) new_directory"
proof -
  have other: "resources_fit (spec_resources other_spec)" "small_spec \<noteq> other_spec"
    by (simp_all add: other_spec_def small_spec_def resources_fit_def i64_max_def)
  obtain w1 now where w1: "storage_call E (\<lambda>io. create_claim (e_codec E) io i small_spec) new_directory = (Inr (initial_claim i small_spec now), w1)"
      "holds E w1 [i \<mapsto> new_claim i small_spec now] Map.empty"
    by (rule first_claim [OF E])
  obtain w2 where w2: "storage_call E (\<lambda>io. create_claim (e_codec E) io i other_spec) w1
      = (Inl (Conflict ''HostClaim'' (claim_id_text (e_codec E) i) ''the existing claim has a different spec''), w2)"
      "holds E w2 [i \<mapsto> new_claim i small_spec now] Map.empty"
    by (rule quiet_create_taken [OF E w1(2) other(1), of i "new_claim i small_spec now"]) (simp_all add: other)
  obtain rs where "storage_call E (list_claims (e_codec E)) w2 = (Inr rs, tick w2)" "length rs = 1"
    by (rule quiet_count_claims [OF E w2(2)]) simp
  then show ?thesis
    by (simp add: passes_def create_claim_conflicts_when_the_existing_spec_differs_def w1(1) w2(1) test_simps)
qed

definition invalid_resources_are_rejected_before_persistence ::
  "environment \<Rightarrow> HostClaimId \<Rightarrow> unit test" where
  "invalid_resources_are_rejected_before_persistence E claim_id =
     and_then (tried E (\<lambda>io. create_claim (e_codec E) io claim_id
       \<lparr>spec_resources = \<lparr>vcpus = 0, memory_bytes = 1, storage_bytes = 1\<rparr>\<rparr>)) (\<lambda>result.
     and_then (expect_err result) (\<lambda>error.
     and_then (assert_that (is_invalid_argument error)) (\<lambda>_.
     and_then (in_storage E (list_claims (e_codec E))) (\<lambda>claims.
     assert_that (claims = [])))))"

lemma invalid_resources_are_rejected_passes:
  assumes E: "quiet E"
  shows "passes (invalid_resources_are_rejected_before_persistence E i) new_directory"
proof -
  let ?spec = "\<lparr>spec_resources = \<lparr>vcpus = 0, memory_bytes = 1, storage_bytes = 1\<rparr>\<rparr>"
  obtain w1 where w1: "storage_call E (\<lambda>io. create_claim (e_codec E) io i ?spec) new_directory
      = (Inl (InvalidArgument ''vcpus must be greater than zero''), w1)" "holds E w1 Map.empty Map.empty"
    by (rule quiet_create_invalid [OF E new_directory_held, of ?spec _ i]) (simp_all add: validate_resources_def)
  obtain rs where "storage_call E (list_claims (e_codec E)) w1 = (Inr rs, tick w1)" "length rs = 0"
    by (rule quiet_count_claims [OF E w1(2)]) simp
  then show ?thesis
    by (simp add: passes_def invalid_resources_are_rejected_before_persistence_def w1(1) test_simps)
qed

section \<open>One owner\<close>

text \<open>
  Both \<open>connect\<close>s of the test open a file of their own; the numbers tell their locks apart. Dropping a
  storage releases its lock.
\<close>

definition connected :: "nat \<Rightarrow> string \<Rightarrow> (lock_files, unit) test_on" where
  "connected self path = map_oper_err OtherFailure (storage_connect self
     \<lparr>cf_directory = None, cf_lock_open = None, cf_lock = None, cf_open = None, cf_migrate = None\<rparr> path)"

definition tried_connect :: "nat \<Rightarrow> string \<Rightarrow> (lock_files, anyhow + unit) test_on" where
  "tried_connect self path locks = (case storage_connect self
     \<lparr>cf_directory = None, cf_lock_open = None, cf_lock = None, cf_open = None, cf_migrate = None\<rparr> path locks of
       (r, locks') \<Rightarrow> (Inr r, locks'))"

definition dropped :: "string \<Rightarrow> (lock_files, unit) test_on" where
  "dropped path locks = (Inr (), release_ownership path locks)"

definition a_second_storage_cannot_own_the_same_database :: "string \<Rightarrow> (lock_files, unit) test_on" where
  "a_second_storage_cannot_own_the_same_database path =
     and_then (connected 1 path) (\<lambda>_.
     and_then (tried_connect 2 path) (\<lambda>result.
     and_then (expect_err result) (\<lambda>error.
     and_then (assert_that (str_contains (hd error) ''already owned'')) (\<lambda>_.
     and_then (dropped path) (\<lambda>_.
     and_then (connected 3 path) (\<lambda>_.
     dropped path))))))"

lemma storage_connect_healthy:
  "storage_connect self \<lparr>cf_directory = None, cf_lock_open = None, cf_lock = None, cf_open = None, cf_migrate = None\<rparr> path locks =
     (case locks (database_lock_path path) of
        Some owner \<Rightarrow> (Inl [''Control Plane database '' @ path @ '' is already owned by another process''], locks)
      | None \<Rightarrow> (Inr (), locks(database_lock_path path \<mapsto> self)))"
  by (simp add: storage_connect_def create_directory_def acquire_database_ownership_def Process.attempt_def and_then_def
      split: option.split)

lemma a_second_storage_cannot_own_passes:
  "passes (a_second_storage_cannot_own_the_same_database path) Map.empty"
proof -
  have "str_contains ((''Control Plane database '' @ path @ '' is '') @ ''already owned'' @ '' by another process'') ''already owned''"
    by (rule str_contains_infix)
  then have "str_contains (''Control Plane database '' @ path @ '' is already owned by another process'') ''already owned''"
    by simp
  then show ?thesis
    unfolding passes_def a_second_storage_cannot_own_the_same_database_def connected_def tried_connect_def
    by (simp add: and_then_def map_oper_err_def storage_connect_healthy dropped_def release_ownership_def test_simps)
qed

section \<open>Stale statuses\<close>

definition stale_copy :: "HostClaimRecord \<Rightarrow> HostClaimRecord" where
  "stale_copy r = (observe_generation r)\<lparr>cr_retry := (cr_retry r)\<lparr>last_error_kind := Some ''StaleObservation''\<rparr>\<rparr>"

definition stale_status_cannot_clear_a_deletion_request :: "environment \<Rightarrow> HostClaimId \<Rightarrow> unit test" where
  "stale_status_cannot_clear_a_deletion_request E claim_id =
     and_then (in_storage E (\<lambda>io. create_claim (e_codec E) io claim_id small_spec)) (\<lambda>_.
     and_then (in_storage E (\<lambda>io. get_claim (e_codec E) io claim_id)) (\<lambda>stale.
     and_then (in_storage E (\<lambda>io. mark_claim_deleting (e_codec E) io claim_id)) (\<lambda>_.
     and_then (in_storage E (\<lambda>io. save_claim_status (e_codec E) io (stale_copy stale))) (\<lambda>saved.
     and_then (assert_that (\<not> saved)) (\<lambda>_.
     and_then (in_storage E (\<lambda>io. get_claim (e_codec E) io claim_id)) (\<lambda>current.
     and_then (assert_that (claim_deletion current \<noteq> None)) (\<lambda>_.
     assert_that (last_error_kind (cr_retry current) \<noteq> Some ''StaleObservation''))))))))"

lemma stale_status_passes:
  assumes E: "quiet E"
  shows "passes (stale_status_cannot_clear_a_deletion_request E i) new_directory"
proof -
  obtain w1 now where w1: "storage_call E (\<lambda>io. create_claim (e_codec E) io i small_spec) new_directory = (Inr (initial_claim i small_spec now), w1)"
      "holds E w1 [i \<mapsto> new_claim i small_spec now] Map.empty"
    by (rule first_claim [OF E])
  let ?r = "new_claim i small_spec now"
  obtain w2 where w2: "storage_call E (\<lambda>io. get_claim (e_codec E) io i) w1 = (Inr ?r, w2)" "holds E w2 [i \<mapsto> ?r] Map.empty"
    by (rule quiet_get_claim [OF E w1(2), of i]) simp
  obtain w3 t where w3: "storage_call E (\<lambda>io. mark_claim_deleting (e_codec E) io i) w2 = (Inr (cr_resource (deletion_requested t ?r)), w3)"
      "holds E w3 [i \<mapsto> deletion_requested t ?r] Map.empty"
    by (rule quiet_mark_deleting [OF E w2(2), of i ?r]) simp_all
  obtain w4 where w4: "storage_call E (\<lambda>io. save_claim_status (e_codec E) io (stale_copy ?r)) w3 = (Inr False, w4)"
      "holds E w4 [i \<mapsto> deletion_requested t ?r] Map.empty"
    by (rule quiet_stale_status [OF E w3(2), of "stale_copy ?r" "deletion_requested t ?r"])
      (simp_all add: stale_copy_def claim_edit_defs new_claim_def initial_claim_def i64_max_def)
  obtain w5 where w5: "storage_call E (\<lambda>io. get_claim (e_codec E) io i) w4 = (Inr (deletion_requested t ?r), w5)"
    by (rule quiet_get_claim [OF E w4(2), of i]) simp
  have retry: "last_error_kind (cr_retry (deletion_requested t ?r)) \<noteq> Some ''StaleObservation''"
    by (simp add: default_retry_def)
  show ?thesis
    using retry
    by (simp add: passes_def stale_status_cannot_clear_a_deletion_request_def w1(1) w2(1) w3(1) w4(1) w5 test_simps)
qed

section \<open>The assignment of a host\<close>

definition existing_host_assignment_must_match_the_resolved_plan_and_resources ::
  "environment \<Rightarrow> HostClaimId \<Rightarrow> unit test" where
  "existing_host_assignment_must_match_the_resolved_plan_and_resources E claim_id =
     (let resources = spec_resources small_spec in
      and_then (in_storage E (\<lambda>io. create_claim (e_codec E) io claim_id small_spec)) (\<lambda>_.
      and_then (in_storage E (\<lambda>io. ensure_host (e_codec E) io claim_id ''plan-a'' resources)) (\<lambda>first.
      and_then (tried E (\<lambda>io. ensure_host (e_codec E) io claim_id ''plan-b'' resources)) (\<lambda>result.
      and_then (expect_err result) (\<lambda>error.
      and_then (tried E (\<lambda>io. ensure_host (e_codec E) io claim_id ''plan-a'' (resources\<lparr>vcpus := 2\<rparr>))) (\<lambda>result.
      and_then (expect_err result) (\<lambda>resources_error.
      and_then (assert_that (is_conflict error)) (\<lambda>_.
      and_then (assert_that (is_conflict resources_error)) (\<lambda>_.
      and_then (in_storage E (\<lambda>io. get_host_for_claim (e_codec E) io claim_id)) (\<lambda>found.
      and_then (expect found) (\<lambda>current.
      and_then (assert_that (host_id_of current = host_id_of first)) (\<lambda>_.
      and_then (assert_that (hr_provider_plan_id current = ''plan-a'')) (\<lambda>_.
      and_then (in_storage E (list_hosts (e_codec E))) (\<lambda>hosts.
      assert_that (length hosts = 1)))))))))))))))"

lemma existing_host_assignment_passes:
  assumes E: "quiet E"
  shows "passes (existing_host_assignment_must_match_the_resolved_plan_and_resources E i) new_directory"
proof -
  let ?res = "spec_resources small_spec"
  have fits: "resources_fit ?res" "resources_fit (?res\<lparr>vcpus := 2\<rparr>)"
    using small_spec_fits(1) by (simp_all add: resources_fit_def)
  have other: "?res \<noteq> ?res\<lparr>vcpus := 2\<rparr>" by (simp add: small_spec_def)
  obtain w1 now where w1: "storage_call E (\<lambda>io. create_claim (e_codec E) io i small_spec) new_directory = (Inr (initial_claim i small_spec now), w1)"
      "holds E w1 [i \<mapsto> new_claim i small_spec now] Map.empty"
    by (rule first_claim [OF E])
  let ?r = "new_claim i small_spec now"
  obtain w2 h t where w2: "storage_call E (\<lambda>io. ensure_host (e_codec E) io i ''plan-a'' ?res) w1 = (Inr (new_host_record h i ''plan-a'' ?res t), w2)"
      "holds E w2 [i \<mapsto> bound_claim (e_codec E) (initial_host h i ?res t) t ?r] [h \<mapsto> new_host_record h i ''plan-a'' ?res t]"
    by (rule quiet_ensure_host [OF E w1(2), of i ?r ?res "''plan-a''"]) (use fits in simp_all)
  let ?hr = "new_host_record h i ''plan-a'' ?res t" and ?b = "bound_claim (e_codec E) (initial_host h i ?res t) t ?r"
  have b: "claim_deletion ?b = None" "claim_host ?b = Some h" "host_id_of ?hr = h" "h_allocatable_resources (hr_resource ?hr) = ?res"
    by (simp_all add: bound_claim_def host_assigned_def Let_def claim_edit_defs new_claim_def initial_claim_def
        initial_host_def new_host_record_def)
  obtain e1 w3 where w3: "storage_call E (\<lambda>io. ensure_host (e_codec E) io i ''plan-b'' ?res) w2 = (Inl e1, w3)" "is_conflict e1"
      "holds E w3 [i \<mapsto> ?b] [h \<mapsto> ?hr]"
    by (rule quiet_ensure_assigned [OF E w2(2), of i ?b h ?hr ?res "''plan-b''"])
      (use b fits in \<open>simp_all add: validate_host_assignment_def new_host_record_def is_conflict_def\<close>)
  obtain e2 w4 where w4: "storage_call E (\<lambda>io. ensure_host (e_codec E) io i ''plan-a'' (?res\<lparr>vcpus := 2\<rparr>)) w3 = (Inl e2, w4)"
      "is_conflict e2" "holds E w4 [i \<mapsto> ?b] [h \<mapsto> ?hr]"
    by (rule quiet_ensure_assigned [OF E w3(3), of i ?b h ?hr "?res\<lparr>vcpus := 2\<rparr>" "''plan-a''"])
      (use b fits other in \<open>simp_all add: validate_host_assignment_def new_host_record_def is_conflict_def\<close>)
  obtain w5 where w5: "storage_call E (\<lambda>io. get_host_for_claim (e_codec E) io i) w4 = (Inr (Some ?hr), w5)"
      "holds E w5 [i \<mapsto> ?b] [h \<mapsto> ?hr]"
    by (rule quiet_host_for_claim [OF E w4(3), of i ?b]) (simp_all add: b(2))
  obtain rs where "storage_call E (list_hosts (e_codec E)) w5 = (Inr rs, tick w5)" "length rs = 1"
    by (rule quiet_count_hosts [OF E w5(2)]) simp
  then show ?thesis
    using w1(1) w2(1) w3(1,2) w4(1,2) w5(1)
    by (simp add: passes_def existing_host_assignment_must_match_the_resolved_plan_and_resources_def test_simps new_host_record_def Let_def)
qed

end
