(* ===== verification/Socket_Tests.thy ===== *)
theory Socket_Tests
  imports Testing Socket
begin

text \<open>
  The tests of \<open>crates/control-plane/src/rpc.rs\<close>, at any path, with any identities the kernel gives the
  sockets they bind: nobody else works at the path, and no call fails.
\<close>

definition unused_path :: path_world where
  "unused_path = \<lparr>entry = None, moves = [], unlinked = []\<rparr>"

definition test_bind :: "SocketIdentity \<Rightarrow> u32 \<Rightarrow> (path_world, unit) test_on" where
  "test_bind fresh made_mode = map_oper_err (\<lambda>e. OtherFailure [io_text e]) (bind_listener fresh made_mode)"

definition test_close :: "SocketIdentity \<Rightarrow> (path_world, unit) test_on" where
  "test_close fresh w = (Inr (), close_listener fresh w)"

definition path_exists :: "(path_world, bool) test_on" where
  "path_exists w = (Inr (entry w \<noteq> None), w)"

text \<open>\<open>let _ = std::fs::remove_file(path)\<close>.\<close>

definition test_unlink :: "(path_world, unit) test_on" where
  "test_unlink w = (Inr (), snd (remove_file w))"

definition refuses_to_replace_an_active_socket ::
  "string \<Rightarrow> SocketIdentity \<Rightarrow> u32 \<Rightarrow> (path_world, unit) test_on" where
  "refuses_to_replace_an_active_socket path fresh made_mode =
     and_then (test_bind fresh made_mode) (\<lambda>_.
     and_then (\<lambda>w. case prepare_socket_path path w of (r, w') \<Rightarrow> (Inr r, w')) (\<lambda>result.
     and_then (expect_err result) (\<lambda>error.
     and_then (assert_that (str_contains (hd error) ''already served'')) (\<lambda>_.
     and_then path_exists (\<lambda>present.
     and_then (assert_that present) (\<lambda>_.
     and_then (test_close fresh) (\<lambda>_.
     test_unlink)))))))"

definition removes_a_stale_socket :: "string \<Rightarrow> SocketIdentity \<Rightarrow> u32 \<Rightarrow> (path_world, unit) test_on" where
  "removes_a_stale_socket path fresh made_mode =
     and_then (test_bind fresh made_mode) (\<lambda>_.
     and_then (test_close fresh) (\<lambda>_.
     and_then (map_oper_err OtherFailure (prepare_socket_path path)) (\<lambda>_.
     and_then path_exists (\<lambda>present.
     assert_that (\<not> present)))))"

definition socket_guard_does_not_remove_a_replacement_socket ::
  "string \<Rightarrow> SocketIdentity \<Rightarrow> SocketIdentity \<Rightarrow> u32 \<Rightarrow> (path_world, unit) test_on" where
  "socket_guard_does_not_remove_a_replacement_socket path first second made_mode =
     and_then (test_bind first made_mode) (\<lambda>_.
     and_then (map_oper_err OtherFailure (new_guard path)) (\<lambda>guard.
     and_then (map_oper_err (\<lambda>e. OtherFailure [io_text e]) remove_file) (\<lambda>_.
     and_then (test_bind second made_mode) (\<lambda>_.
     and_then (\<lambda>w. (Inr (), drop_guard guard w)) (\<lambda>_.
     and_then path_exists (\<lambda>present.
     and_then (assert_that present) (\<lambda>_.
     and_then (test_close second) (\<lambda>_.
     and_then (test_close first) (\<lambda>_.
     test_unlink)))))))))"

section \<open>They pass\<close>

text \<open>System calls nobody interferes with.\<close>

lemma system_call_alone: "moves w = [] \<Longrightarrow> system_call f w = f w"
  by (cases w) (simp add: system_call_def arrive_def next_move_def untouched_def)

lemma connect_alone: "moves w = [] \<Longrightarrow> connect_timeout w = (connect_result None (entry w), w)"
  by (cases w) (simp add: connect_timeout_def arrive_def next_move_def untouched_def)

lemma create_parent_alone: "moves w = [] \<Longrightarrow> create_parent path w = (Inr (), w)"
  by (simp add: create_parent_def create_dir_all_def with_context_def system_call_alone split: option.split)

lemmas alone_simps = create_parent_alone connect_alone connect_result_def system_call_alone symlink_metadata_def
  bind_listener_def remove_file_def with_context_def and_then_def map_oper_err_def

lemma refuses_to_replace_an_active_socket_passes:
  "passes (refuses_to_replace_an_active_socket path fresh made_mode) unused_path"
proof -
  have "str_contains ((''local RPC socket '' @ path @ '' is '') @ ''already served'' @ '' by another process'') ''already served''"
    by (rule str_contains_infix)
  then have "str_contains (''local RPC socket '' @ path @ '' is already served by another process'') ''already served''"
    by simp
  then show ?thesis
    by (simp add: passes_def refuses_to_replace_an_active_socket_def test_bind_def test_close_def path_exists_def
        test_unlink_def prepare_socket_path_def inspect_existing_def probe_existing_def unused_path_def alone_simps test_simps)
qed

lemma removes_a_stale_socket_passes: "passes (removes_a_stale_socket path fresh made_mode) unused_path"
  by (simp add: passes_def removes_a_stale_socket_def test_bind_def test_close_def path_exists_def close_listener_def
      prepare_socket_path_def inspect_existing_def probe_existing_def remove_socket_if_owned_def refused_error_def
      unused_path_def alone_simps test_simps)

lemma socket_guard_replacement_passes:
  assumes "second \<noteq> first"
  shows "passes (socket_guard_does_not_remove_a_replacement_socket path first second made_mode) unused_path"
  using assms
  by (simp add: passes_def socket_guard_does_not_remove_a_replacement_socket_def test_bind_def test_close_def
      path_exists_def test_unlink_def new_guard_def socket_identity_def drop_guard_def unused_path_def alone_simps test_simps)

end
