(* ===== verification/Wire_Tests.thy ===== *)
theory Wire_Tests
  imports Testing Wire
begin

text \<open>
  The tests of \<open>crates/control-plane-protocol/src/rpc.rs\<close>: a success response without an error and an
  error response without a result are read. That serde_json reads the two texts as the values they
  are is a premise.
\<close>

record TestResult =
  tr_value :: string

definition test_result_from_json :: "TestResult reader" where
  "test_result_from_json v =
     bind_result (read_struct [(''value'', checks read_string)] 1 v) (\<lambda>members.
     bind_result (field ''value'' read_string members) (\<lambda>value.
     Inr \<lparr>tr_value = value\<rparr>))"

definition success_text :: string where
  "success_text = ''{\"jsonrpc\":\"2.0\",\"id\":\"request-1\",\"result\":{\"value\":\"ok\"}}''"

definition success_value :: json where
  "success_value = JObject [(''jsonrpc'', JString ''2.0''), (''id'', JString ''request-1''),
     (''result'', JObject [(''value'', JString ''ok'')])]"

definition error_text :: string where
  "error_text = ''{\"jsonrpc\":\"2.0\",\"id\":\"request-1\",\"error\":{\"code\":-32603,\"message\":\"Internal error\"}}''"

definition error_value :: json where
  "error_value = JObject [(''jsonrpc'', JString ''2.0''), (''id'', JString ''request-1''),
     (''error'', JObject [(''code'', JInt (- 32603)), (''message'', JString ''Internal error'')])]"

definition read_response :: "json_text \<Rightarrow> string \<Rightarrow> ('s, TestResult JsonRpcResponse) test_on" where
  "read_response js text' =
     (case from_text js (response_from_json js test_result_from_json) text' of
        Inl e \<Rightarrow> fail_with Panicked
      | Inr response \<Rightarrow> ok response)"

definition deserializes_success_without_requiring_default_on_result :: "json_text \<Rightarrow> ('s, unit) test_on" where
  "deserializes_success_without_requiring_default_on_result js =
     and_then (read_response js success_text) (\<lambda>response.
     and_then (assert_that (rs_result response = Some \<lparr>tr_value = ''ok''\<rparr>)) (\<lambda>_.
     assert_that (rs_error response = None)))"

definition deserializes_error_without_a_result_field :: "json_text \<Rightarrow> ('s, unit) test_on" where
  "deserializes_error_without_a_result_field js =
     and_then (read_response js error_text) (\<lambda>response.
     and_then (assert_that (rs_result response = None)) (\<lambda>_.
     and_then (expect (rs_error response)) (\<lambda>error.
     and_then (assert_that (sint (je_code error) = - 32603)) (\<lambda>_.
     and_then (assert_that (je_message error = ''Internal error'')) (\<lambda>_.
     assert_that (je_data error = None))))))"

lemma read_success:
  "response_from_json js test_result_from_json success_value =
     Inr \<lparr>rs_jsonrpc = ''2.0'', rs_id = ''request-1'', rs_result = Some \<lparr>tr_value = ''ok''\<rparr>, rs_error = None\<rparr>"
  by (simp add: response_from_json_def success_value_def read_struct_def checks_def read_string_def read_option_def
      test_result_from_json_def field_def optional_field_def)

lemma read_error:
  "response_from_json js test_result_from_json error_value =
     Inr \<lparr>rs_jsonrpc = ''2.0'', rs_id = ''request-1'', rs_result = None,
       rs_error = Some \<lparr>je_code = word_of_int (- 32603), je_message = ''Internal error'', je_data = None\<rparr>\<rparr>"
  by (simp add: response_from_json_def error_value_def read_struct_def checks_def read_string_def read_option_def
      error_object_from_json_def read_sint_def field_def optional_field_def)

lemma deserializes_success_passes:
  assumes "js_read js success_text = Inr success_value"
  shows "passes (deserializes_success_without_requiring_default_on_result js) s"
  using assms
  by (simp add: passes_def deserializes_success_without_requiring_default_on_result_def read_response_def from_text_def
      read_success test_simps)

lemma deserializes_error_passes:
  assumes "js_read js error_text = Inr error_value"
  shows "passes (deserializes_error_without_a_result_field js) s"
  using assms
  by (simp add: passes_def deserializes_error_without_a_result_field_def read_response_def from_text_def
      read_error test_simps)

end
