(* ===== verification/Test_Suite.thy ===== *)
theory Test_Suite
  imports Several_Claims_Test Storage_Tests Socket_Tests Wire_Tests
begin

text \<open>
  The tests of the repository together, one list for each kind of world they run in, and the property
  that all of them pass.
\<close>

definition controller_tests ::
  "environment \<Rightarrow> environment \<Rightarrow> fake_env \<Rightarrow> HostClaimId \<Rightarrow> HostClaimId \<Rightarrow> Timestamp \<Rightarrow> unit test list" where
  "controller_tests E later F i j now =
     [retry_backoff_is_bounded,
      condition_helper_detects_status i now,
      reconciles_multiple_claims_and_deletes_one E F i j,
      persists_selected_provider_plan_before_external_create E F i,
      marks_definitive_create_failure_as_failed E F i,
      retries_transient_observation_failure E F i,
      rediscovers_delete_after_response_loss E later F i,
      rediscovers_create_after_response_loss E later F i,
      restart_reconciliation_does_not_duplicate_resources E F i]"

definition storage_tests :: "environment \<Rightarrow> HostClaimId \<Rightarrow> unit test list" where
  "storage_tests E i =
     [create_claim_is_idempotent_for_the_same_id_and_spec E i,
      create_claim_conflicts_when_the_existing_spec_differs E i,
      invalid_resources_are_rejected_before_persistence E i,
      stale_status_cannot_clear_a_deletion_request E i,
      existing_host_assignment_must_match_the_resolved_plan_and_resources E i]"

definition socket_tests ::
  "string \<Rightarrow> SocketIdentity \<Rightarrow> SocketIdentity \<Rightarrow> u32 \<Rightarrow> (path_world, unit) test_on list" where
  "socket_tests path first second made_mode =
     [refuses_to_replace_an_active_socket path first made_mode,
      removes_a_stale_socket path first made_mode,
      socket_guard_does_not_remove_a_replacement_socket path first second made_mode]"

definition wire_tests :: "json_text \<Rightarrow> (unit, unit) test_on list" where
  "wire_tests js =
     [deserializes_success_without_requiring_default_on_result js,
      deserializes_error_without_a_result_field js]"

lemma fleet_test_env: "fleet_env E F limit \<Longrightarrow> test_env E F"
  by (simp add: fleet_env_def test_env_def)

text \<open>
  C28: The repository's own tests pass. On a quiet database in a new directory, with an unused path for
  a socket, whatever identifiers are drawn, times read and rows' texts, every test of the controller,
  the storage, the socket and the protocol runs to its end: faults injected into the provider are
  recovered from or recorded as the tests demand, and after a restart nothing is created twice.
  Assumed: fresh identifiers differ, the provider's database does not fail, a sleep of 1050 milliseconds
  moves the clock that far, two sockets bound one after the other have different identities, and
  serde_json reads the two texts of the protocol's tests.
\<close>

theorem repository_tests_pass:
  assumes env: "fleet_env E F 2000" and later: "slept E 1050 later" and ids: "i \<noteq> j" and sockets: "second \<noteq> first"
    and texts: "js_read js success_text = Inr success_value" "js_read js error_text = Inr error_value"
  shows "list_all (\<lambda>t. passes t new_directory) (controller_tests E later F i j now @ storage_tests E i)
    \<and> passes (a_second_storage_cannot_own_the_same_database path) Map.empty
    \<and> list_all (\<lambda>t. passes t unused_path) (socket_tests at_path first second made_mode)
    \<and> list_all (\<lambda>t. passes t ()) (wire_tests js)"
proof -
  note E = fleet_test_env [OF env]
  then have quiet: "quiet E" by (simp add: test_env_def)
  show ?thesis
    unfolding controller_tests_def storage_tests_def socket_tests_def wire_tests_def
    by (simp only: append.simps list.pred_inject conj_assoc simp_thms
        retry_backoff_is_bounded_passes condition_helper_passes reconciles_multiple_claims_passes [OF env ids]
        persists_selected_provider_plan_passes [OF E] marks_definitive_create_failure_passes [OF E]
        retries_transient_observation_passes [OF E] rediscovers_delete_passes [OF E later]
        rediscovers_create_passes [OF E later] restart_passes [OF E]
        create_claim_is_idempotent_passes [OF quiet] create_claim_conflicts_passes [OF quiet]
        invalid_resources_are_rejected_passes [OF quiet] stale_status_passes [OF quiet]
        existing_host_assignment_passes [OF quiet] a_second_storage_cannot_own_passes
        refuses_to_replace_an_active_socket_passes removes_a_stale_socket_passes
        socket_guard_replacement_passes [OF sockets] deserializes_success_passes [OF texts(1)]
        deserializes_error_passes [OF texts(2)])
qed

definition sample_test_env :: environment where
  "sample_test_env = fleet_sample_env\<lparr>e_clock_ms := \<lambda>_. 0\<rparr>"

definition sample_later_env :: environment where
  "sample_later_env = fleet_sample_env\<lparr>e_clock_ms := \<lambda>_. 1050\<rparr>"

definition sample_test_json :: json_text where
  "sample_test_json = \<lparr>js_write = (\<lambda>_. []), js_read = (\<lambda>s. Inr (if s = success_text then success_value else error_value)),
     js_error = (\<lambda>_ _. ''error'')\<rparr>"

lemma sample_test_fair: "fleet_env sample_test_env sample_fake_env 2000" "slept sample_test_env 1050 sample_later_env"
proof -
  have env: "fleet_env fleet_sample_env sample_fake_env 7424" by (rule fleet_sample_fair(1))
  have "inj_on (e_new_host_id fleet_sample_env) {..<2000}"
    by (rule inj_on_subset [of _ "{..<7424}"]) (use env in \<open>auto simp: fleet_env_def\<close>)
  then show "fleet_env sample_test_env sample_fake_env 2000"
    using env by (simp add: fleet_env_def sample_test_env_def quiet_def)
  show "slept sample_test_env 1050 sample_later_env"
    using env
    by (simp add: slept_def fleet_env_def sample_test_env_def sample_later_env_def quiet_def now_unix_ms_def i64_max_def Let_def)
qed

theorem repository_tests_pass_witness:
  "list_all (\<lambda>t. passes t new_directory)
     (controller_tests sample_test_env sample_later_env sample_fake_env (HostClaimId 1) (HostClaimId 2) unix_epoch
       @ storage_tests sample_test_env (HostClaimId 1))
    \<and> passes (a_second_storage_cannot_own_the_same_database ''a.db'') Map.empty
    \<and> list_all (\<lambda>t. passes t unused_path)
        (socket_tests ''a.sock'' \<lparr>device = 1, inode = 1\<rparr> \<lparr>device = 1, inode = 2\<rparr> 0)
    \<and> list_all (\<lambda>t. passes t ()) (wire_tests sample_test_json)"
  by (rule repository_tests_pass [OF sample_test_fair])
    (simp_all add: sample_test_json_def success_text_def error_text_def)

end
