(* ===== verification/Spec2Isabelle.thy ===== *)
theory Spec2Isabelle
  imports Controller_Properties Recovery Fleet Wire_Properties Agent Server Test_Suite
begin

text \<open>
  Control Plane: a verification development of the Rust daemon that turns claims for hosts into hosts
  of a provider, and of its operator client.

  The program. The daemon (\<open>crates/control-plane\<close>) keeps claims and hosts in an SQLite database,
  serves seven JSON-RPC methods on a Unix socket, and runs one controller that observes a provider and
  drives every claim towards a host, and every deleted claim towards absence. The wire types are in
  \<open>crates/control-plane-protocol\<close>, the operator client is \<open>crates/control-cli\<close>. RPC methods and
  controller share the database and one notification permit; the controller's single loop alone calls
  the provider.

  The model is a shallow embedding in the order of the code. A struct is a record, an enum a datatype,
  \<open>u32\<close> and \<open>u64\<close> are words, \<open>i64\<close> is an \<open>int\<close> whose range is written out where the code saturates or
  narrows, a \<open>Result\<close> is a sum, a method with effects takes its state and returns it. Whatever the
  code asks of the outside (clocks, generated identifiers, which database call fails and how, which
  requests arrive between two effects of the controller, what other processes do to the socket path)
  is an argument, so a theorem over all arguments covers every interleaving of those effects.

  Theories, the definitions first:
  \<^item> \<open>Prelude\<close>: widths, the \<open>?\<close> operator, texts of numbers, triples.
  \<^item> \<open>Resources\<close>, \<open>Errors\<close>: the protocol's types; \<open>AppError\<close> and its JSON-RPC form (\<open>error.rs\<close>).
  \<^item> \<open>Domain\<close>: stored records, retry schedule and conditions (\<open>domain.rs\<close>).
  \<^item> \<open>Database\<close>, \<open>Codec\<close>, \<open>Storage\<close>: the tables of the migration with their constraints, the row
    readers, and every operation of \<open>storage.rs\<close> as the calls it makes on the one connection (begin,
    statements, commit, or a statement on the pool), each of which may fail on its own.
  \<^item> \<open>Provider\<close>, \<open>Fake_Provider\<close>: the trait \<open>HostProvider\<close> with its contract as the locale
    \<open>host_provider_contract\<close>, and the provider of \<open>provider/fake.rs\<close>.
  \<^item> \<open>World\<close>, \<open>Transitions\<close>, \<open>Controller\<close>, \<open>Rpc\<close>, \<open>Daemon\<close>: the shared state and its effects, the
    functions and methods of \<open>controller.rs\<close>, the methods of \<open>rpc.rs\<close>, and the daemon's loop over
    requests, wakes, scans, cancellation and restarts as a step relation.
  \<^item> \<open>Socket\<close>, \<open>Server\<close>: the socket path and its guard, and the accept loop with its connection limit
    and drain (\<open>rpc.rs\<close>).
  \<^item> \<open>Config\<close>, \<open>Process\<close>: the readers of \<open>config.rs\<close>; what a start acquires and gives back, and the
    result of the process (\<open>main.rs\<close>, \<open>Storage::connect\<close>, \<open>FakeProvider::connect\<close>).
  \<^item> \<open>Utf8\<close>, \<open>Cli\<close>: the standard library's functions on UTF-8 that the sources use; the commands, the one
    call, the printers and the error reports of the client.
  \<^item> \<open>Json\<close>, \<open>Wire\<close>: JSON values and what serde derives from a struct or an enum; the derived readers and
    writers of every type of the protocol crate, from the requests' parameters to the errors.
  \<^item> \<open>Agent\<close>: the tracing subscriber (\<open>diagnostics.rs\<close>), the daemon's \<open>main\<close> around its run, the host agent
    (\<open>crates/host-agent\<close>) and the build script.

  Lemmas and properties:
  \<^item> \<open>Storage_Spec\<close> specifies the operations on two maps of typed records; \<open>Storage_Views\<close> relates the
    rows to the maps, \<open>Storage_Frames\<close> says what every operation keeps, whichever of its calls fail.
    \<open>Storage_Properties\<close> states the refinement, atomicity, the permanence of deletion requests and the row round trips.
  \<^item> \<open>Fake_Provider_Spec\<close>, \<open>Fake_Provider_Progress\<close> and \<open>Fake_Provider_Contract\<close> follow the fake provider
    and interpret the contract on it; \<open>Provider_Properties\<close> states what its operations promise.
  \<^item> \<open>World_Frames\<close>, \<open>Controller_Safety\<close>, \<open>Controller_Contract\<close> and \<open>Daemon_Safety\<close> prove, for every
    provider that keeps the contract, the invariant of all reachable worlds; \<open>Safety_Properties\<close> states
    it for the fake provider: no orphaned resource, one resource for a claim, no removal without a
    deletion request.
  \<^item> \<open>Transition_Facts\<close>, \<open>Controller_Facts\<close>, \<open>Transition_Properties\<close> and \<open>Controller_Properties\<close>: what
    single transitions and branches do, and how a wake ends. \<open>Left_Alone\<close> follows a host the controller
    passes over through a wake among any others, for every provider that keeps the contract.
  \<^item> \<open>Quiet\<close>: each storage call of the controller on a quiet database, whatever it holds; \<open>Counting\<close>: the
    effects of a step are numbered upwards, and how many there are.
  \<^item> \<open>Convergence\<close> follows one claim through the steps of a wake on a quiet database; \<open>Lifecycle\<close> states
    that a request becomes a Ready host, stays one, and is released; \<open>Recovery\<close> that a host is made Ready
    again from whatever a crash or a lost response left.
  \<^item> \<open>Settling\<close>, \<open>Settling_Steps\<close>, \<open>Settled\<close> and \<open>Requests\<close> follow any number of claims: the order a
    step keeps, the number of steps each claim still needs, and the locale \<open>responsive_provider\<close> of the
    providers that answer, in which a step brings one claim nearer and disturbs no other. \<open>Fleet\<close>
    interprets it on the fake provider and states that everything settles.
  \<^item> \<open>Wire_Facts\<close> interprets the locale \<open>wire_type\<close> of types whose reader gives back what was written on
    every type of the protocol; \<open>Wire_Properties\<close> states what a command's whole path does.
  \<^item> \<open>Listing\<close> refines the listing of hosts and the tests' \<open>get_host_for_claim\<close>. \<open>Testing\<close>, \<open>Storage_Tests\<close>,
    \<open>Socket_Tests\<close>, \<open>Wire_Tests\<close>, \<open>Controller_Tests\<close> and \<open>Several_Claims_Test\<close> translate every test of the
    repository, each a program over the modelled operations, and run it symbolically; \<open>Fake_Faults\<close> and
    \<open>Test_Steps\<close> follow the faults the tests inject through a step. \<open>Test_Suite\<close> states that all pass.
  \<^item> \<open>Rpc_Properties\<close>, \<open>Socket_Properties\<close>, \<open>Process_Properties\<close>, \<open>Cli_Properties\<close>: acknowledged
    mutations are stored, errors reveal nothing, a socket is removed only after it refused a connection and was
    inspected twice (the window that leaves is shown too) or by its own server, one process owns a
    database, and the client shows exactly what the server answered.
  \<^item> \<open>Samples\<close>, \<open>Json_Samples\<close>: a concrete codec and a concrete text of JSON that keep the laws assumed of
    the libraries; the witnesses evaluate the model with them.

  Bounds. A wake runs at most 64 steps, the code's own limit (\<open>MAX_STEPS_PER_WAKE\<close>), by structural
  recursion; when the limit is reached the wake asks for another. No other fuel is used. A claim
  needs at most three steps, so a wake settles twenty-one claims and \<open>n\<close> claims take more than \<open>3 n / 64\<close>
  wakes. The liveness properties are about a quiet database: no call fails and requests come between the
  wakes. A wake that finds \<open>n\<close> claims has at most \<open>64 * (2 + 9 n)\<close> effects, and host identifiers are assumed
  to differ for as many effects as a history can have, not for ever: they have 128 bits.

  Parameters. Texts of identifiers (uuid) and instants (jiff) and the text of JSON (serde\_json) are
  arguments with the law that reading gives back what was written; the storage theories take the texts
  of condition lists the same way, as the record \<open>codec\<close> with its law \<open>codec_ok\<close>, which
  \<open>wire_codec_keeps_law\<close> derives from the readers and writers of \<open>Wire\<close>. HTTP is a function of the
  client, the tracing filter one of the daemon's start. A database call succeeds, fails with nothing done, or
  fails with its work done and only the answer lost; an open transaction that is dropped is rolled back; a
  constraint or a missing row is answered as SQLite documents it.

  Not modelled: the HTTP/2 and JSON-RPC servers of hyper, tower and jsonrpsee, SQLite itself, what clap
  and parse\_size make of a command line, the output of tracing, and the closing of the database pools,
  which has no effect the sources rely on. The temporary directories of the tests are a world with empty
  databases and an unused path; the \<open>sleep\<close> of two of them is a change to an environment whose clock is
  that far ahead.
\<close>

end
